(* ===== verification/Prelude.thy ===== *)
theory Prelude
  imports Main "HOL-Library.AList" "HOL-Library.Multiset" "HOL-Library.Product_Lexorder"
begin

text \<open>
  Shared vocabulary of the development: the identifiers and instants of the backend, the error
  values its services throw, the error monad in which a service that may throw is written, and
  the JavaScript containers the code leans on (an insertion-ordered \<open>Map\<close> is an association list
  that is updated in place, \<open>Array.prototype.sort\<close> with a numeric comparator is a stable sort by a
  key). The generic lemmas about them are collected here so that the component theories only
  reason about their own definitions.
\<close>

named_theorems err_simps \<open>inversion rules for computations that may throw\<close>

section \<open>Identifiers, instants, errors\<close>

type_synonym id = string

text \<open>A JavaScript \<open>Date\<close> is the number of milliseconds since the epoch.\<close>

type_synonym time = int

text \<open>
  The classes of \<open>common/errors/domain.error.ts\<close>. The human text is not modelled; the stable
  \<open>code\<close> is. \<open>CheckViolation\<close> is not one of the classes: it is the database error raised when an
  \<open>UPDATE\<close> or \<open>INSERT\<close> breaks one of the \<open>CHECK\<close> constraints of the migrations, named by the
  constraint.
\<close>

datatype domain_error =
    NotFoundError string id
  | ConflictError string
  | BusinessRuleError string
  | ForbiddenError string
  | UnauthorizedError string
  | DomainError string nat
  | CheckViolation string

definition lower_char :: "char \<Rightarrow> char" where
  "lower_char c = (if 65 \<le> (of_char c :: nat) \<and> (of_char c :: nat) \<le> 90 then char_of ((of_char c :: nat) + 32) else c)"

definition upper_char :: "char \<Rightarrow> char" where
  "upper_char c = (if 97 \<le> (of_char c :: nat) \<and> (of_char c :: nat) \<le> 122 then char_of ((of_char c :: nat) - 32) else c)"

fun error_code :: "domain_error \<Rightarrow> string" where
  "error_code (NotFoundError entity i) = map lower_char entity @ ''.not_found''"
| "error_code (ConflictError code) = code"
| "error_code (BusinessRuleError code) = code"
| "error_code (ForbiddenError code) = code"
| "error_code (UnauthorizedError code) = code"
| "error_code (DomainError code status) = code"
| "error_code (CheckViolation c) = c"

fun error_status :: "domain_error \<Rightarrow> nat" where
  "error_status (NotFoundError entity i) = 404"
| "error_status (ConflictError code) = 409"
| "error_status (BusinessRuleError code) = 422"
| "error_status (ForbiddenError code) = 403"
| "error_status (UnauthorizedError code) = 401"
| "error_status (DomainError code status) = status"
| "error_status (CheckViolation c) = 500"

section \<open>Strings and enumerations shared by the components\<close>

text \<open>\<open>String.prototype.trim\<close>, on the white space of the Latin-1 range.\<close>

definition is_space :: "char \<Rightarrow> bool" where
  "is_space c \<longleftrightarrow> (let n = (of_char c :: nat) in 9 \<le> n \<and> n \<le> 13 \<or> n = 32 \<or> n = 160)"

definition js_trim :: "string \<Rightarrow> string" where
  "js_trim s = rev (dropWhile is_space (rev (dropWhile is_space s)))"

datatype item_kind = PRODUCT | BUNDLE

section \<open>Computations that may throw\<close>

type_synonym 'a result = "domain_error + 'a"

definition ebind :: "'e + 'a \<Rightarrow> ('a \<Rightarrow> 'e + 'b) \<Rightarrow> 'e + 'b" where
  "ebind m f = (case m of Inl e \<Rightarrow> Inl e | Inr a \<Rightarrow> f a)"

definition guard :: "bool \<Rightarrow> 'e \<Rightarrow> 'e + unit" where
  "guard b e = (if b then Inr () else Inl e)"

text \<open>A \<open>for \<dots> of\<close> loop whose body updates a state and may throw.\<close>

fun efold :: "('a \<Rightarrow> 's \<Rightarrow> 'e + 's) \<Rightarrow> 'a list \<Rightarrow> 's \<Rightarrow> 'e + 's" where
  "efold f [] s = Inr s"
| "efold f (x # xs) s = ebind (f x s) (efold f xs)"


lemma ebind_simps [simp]:
  "ebind (Inl e) f = Inl e" "ebind (Inr a) f = f a"
  by (simp_all add: ebind_def)

lemma ebind_Inr_iff [err_simps]: "ebind m f = Inr b \<longleftrightarrow> (\<exists>a. m = Inr a \<and> f a = Inr b)"
  by (cases m) auto

lemma guard_Inr_iff [err_simps]: "guard b e = Inr u \<longleftrightarrow> b"
  by (simp add: guard_def)

lemma ebind_guard: "ebind (guard b e) f = (if b then f () else Inl e)"
  by (simp add: guard_def)

lemma efold_append: "efold f (xs @ ys) s = ebind (efold f xs s) (efold f ys)"
  by (induction xs arbitrary: s) (auto simp: ebind_def split: sum.splits)

text \<open>A loop keeps what each of its rounds keeps.\<close>

lemma efold_invariant:
  assumes "efold f xs s = Inr s'" and "P s"
    and "\<And>x s s'. x \<in> set xs \<Longrightarrow> P s \<Longrightarrow> f x s = Inr s' \<Longrightarrow> P s'"
  shows "P s'"
  using assms
proof (induction xs arbitrary: s)
  case Nil
  then show ?case by simp
next
  case (Cons x xs)
  from Cons.prems(1) obtain s1 where s1: "f x s = Inr s1" "efold f xs s1 = Inr s'"
    by (auto simp: ebind_Inr_iff)
  from Cons.prems(2,3) s1(1) have "P s1" by auto
  with Cons.IH [OF s1(2)] Cons.prems(3) show ?case by auto
qed

text \<open>A quantity that each round leaves alone is left alone by the loop.\<close>

lemma efold_frame:
  assumes "efold f xs s = Inr s'"
    and "\<And>x s s'. x \<in> set xs \<Longrightarrow> f x s = Inr s' \<Longrightarrow> g s' = g s"
  shows "g s' = g s"
  using efold_invariant [of f xs s s' "\<lambda>t. g t = g s"] assms by auto

section \<open>Insertion-ordered maps\<close>

text \<open>
  \<open>map.set(k, (map.get(k) ?? 0) + q)\<close>: the accumulation every merge of the code uses. The key
  keeps the place of its first insertion, which is what \<open>AList.update\<close> does.
\<close>

definition count_of :: "('k \<times> 'q) list \<Rightarrow> 'k \<Rightarrow> 'q::comm_monoid_add" where
  "count_of m k = (case map_of m k of None \<Rightarrow> 0 | Some v \<Rightarrow> v)"

definition bump :: "'k \<Rightarrow> 'q::comm_monoid_add \<Rightarrow> ('k \<times> 'q) list \<Rightarrow> ('k \<times> 'q) list" where
  "bump k q m = AList.update k (count_of m k + q) m"

fun tally :: "('k \<times> 'q::comm_monoid_add) list \<Rightarrow> ('k \<times> 'q) list \<Rightarrow> ('k \<times> 'q) list" where
  "tally m [] = m"
| "tally m ((k, q) # rest) = tally (bump k q m) rest"

lemma count_of_Nil [simp]: "count_of [] k = 0"
  by (simp add: count_of_def)

lemma count_of_bump: "count_of (bump k q m) k' = count_of m k' + (if k' = k then q else 0)"
  by (simp add: bump_def count_of_def update_conv')

lemma keys_bump: "fst ` set (bump k q m) = insert k (fst ` set m)"
  by (auto simp: bump_def dom_update simp flip: dom_map_of_conv_image_fst)
    (simp_all add: update_conv')

lemma distinct_bump: "distinct (map fst m) \<Longrightarrow> distinct (map fst (bump k q m))"
  unfolding bump_def by (rule distinct_update)

lemma count_of_tally:
  "count_of (tally m xs) k = count_of m k + sum_list (map snd (filter (\<lambda>x. fst x = k) xs))"
  by (induction m xs rule: tally.induct) (auto simp: count_of_bump ac_simps)

lemma distinct_tally: "distinct (map fst m) \<Longrightarrow> distinct (map fst (tally m xs))"
  by (induction m xs rule: tally.induct) (auto intro: distinct_bump)

lemma keys_tally: "fst ` set (tally m xs) = fst ` set m \<union> fst ` set xs"
  by (induction m xs rule: tally.induct) (auto simp: keys_bump)

lemma count_of_mem: "distinct (map fst m) \<Longrightarrow> (k, q) \<in> set m \<Longrightarrow> count_of m k = q"
  by (simp add: count_of_def)

lemma count_of_notin: "k \<notin> fst ` set m \<Longrightarrow> count_of m k = 0"
  by (force simp: count_of_def split: option.splits dest: map_of_SomeD)

text \<open>Reading a map with distinct keys entry by entry gives the sum of its matching entries.\<close>

lemma count_of_sum:
  "distinct (map fst m) \<Longrightarrow> sum_list (map snd (filter (\<lambda>x. fst x = k) m)) = count_of m k"
proof (induction m)
  case Nil
  then show ?case by simp
next
  case (Cons x m)
  obtain k' q where x: "x = (k', q)" by (cases x)
  show ?case
  proof (cases "k = k'")
    case True
    with Cons.prems x have "filter (\<lambda>x. fst x = k) m = []"
      by (auto simp: filter_empty_conv image_iff)
    with True x show ?thesis by (simp add: count_of_def)
  next
    case False
    with Cons x show ?thesis by (auto simp: count_of_def)
  qed
qed

section \<open>Stable sorts\<close>

text \<open>
  What a sorted prefix is: when at least \<open>r\<close> elements have a key below \<open>c\<close>, the first \<open>r\<close>
  elements of the sorted list all do.
\<close>

lemma sorted_nth_filter_length:
  assumes "sorted (map f ys)" and "m < length ys" and "\<not> f (ys ! m) < c"
  shows "length (filter (\<lambda>x. f x < c) ys) \<le> m"
proof -
  have "filter (\<lambda>x. f x < c) (drop m ys) = []"
  proof (clarsimp simp: filter_empty_conv in_set_conv_nth)
    fix i
    assume "i < length ys - m" "f (ys ! (m + i)) < c"
    moreover from this assms(1,2) have "f (ys ! m) \<le> f (ys ! (m + i))"
      using sorted_nth_mono [of "map f ys" m "m + i"] by simp
    ultimately show False using assms(3) by simp
  qed
  moreover have "filter (\<lambda>x. f x < c) ys = filter (\<lambda>x. f x < c) (take m ys) @ filter (\<lambda>x. f x < c) (drop m ys)"
    by (metis append_take_drop_id filter_append)
  ultimately have "length (filter (\<lambda>x. f x < c) ys) = length (filter (\<lambda>x. f x < c) (take m ys))" by simp
  also have "\<dots> \<le> m"
    using length_filter_le [of "\<lambda>x. f x < c" "take m ys"] by simp
  finally show ?thesis .
qed

lemma take_sort_key_below:
  fixes f :: "'a \<Rightarrow> 'k::linorder"
  assumes "r \<le> length (filter (\<lambda>x. f x < c) xs)" and "x \<in> set (take r (sort_key f xs))"
  shows "f x < c"
proof (rule ccontr)
  assume neg: "\<not> f x < c"
  let ?ys = "sort_key f xs"
  from assms(2) obtain m where m: "m < r" "m < length ?ys" "x = ?ys ! m"
    by (auto simp: in_set_conv_nth)
  have "length (filter (\<lambda>x. f x < c) ?ys) = length (filter (\<lambda>x. f x < c) xs)"
    by (metis filter_sort length_sort)
  with sorted_nth_filter_length [of f ?ys m c] m neg have "length (filter (\<lambda>x. f x < c) xs) \<le> m"
    by simp
  with assms(1) m(1) show False by simp
qed

section \<open>Sums\<close>

lemma sum_list_map_update:
  fixes xs :: "'a::ab_group_add list"
  shows "i < length xs \<Longrightarrow> sum_list (xs[i := v]) = sum_list xs - xs ! i + v"
  by (induction xs arbitrary: i) (auto split: nat.splits)

lemma sum_list_nonneg_mem:
  fixes xs :: "'a::ordered_comm_monoid_add list"
  shows "(\<And>x. x \<in> set xs \<Longrightarrow> 0 \<le> x) \<Longrightarrow> 0 \<le> sum_list xs"
  by (rule sum_list_nonneg)

lemma sum_list_mono_map:
  fixes f g :: "'a \<Rightarrow> 'b::ordered_comm_monoid_add"
  shows "(\<And>x. x \<in> set xs \<Longrightarrow> f x \<le> g x) \<Longrightarrow> sum_list (map f xs) \<le> sum_list (map g xs)"
  by (induction xs) (auto intro: add_mono)

lemma sum_list_member_le:
  fixes xs :: "'a::ordered_ab_group_add list"
  shows "(\<And>y. y \<in> set xs \<Longrightarrow> 0 \<le> y) \<Longrightarrow> x \<in> set xs \<Longrightarrow> x \<le> sum_list xs"
proof (induction xs)
  case Nil
  then show ?case by simp
next
  case (Cons y ys)
  have nn: "0 \<le> sum_list ys" using Cons.prems(1) by (auto intro: sum_list_nonneg)
  show ?case
  proof (cases "x = y")
    case True
    with nn show ?thesis by simp
  next
    case False
    with Cons have "x \<le> sum_list ys" and "0 \<le> y" by auto
    then show ?thesis by (simp add: add_increasing)
  qed
qed

section \<open>Retrying a transaction\<close>

text \<open>
  \<open>withRetry\<close> of \<open>common/utils/retry.ts\<close>: \<open>fn i\<close> is what the \<open>i\<close>-th attempt does (a value, or an
  error), \<open>retryable\<close> tells the serialization failures; the backoff sleep has no effect on the
  result. The loop runs \<open>i = 0, 1, \<dots>, attempts - 1\<close>; with \<open>attempts = 0\<close> the code throws the
  still-undefined \<open>last\<close>, here \<open>undef\<close>.
\<close>

function retry_from :: "(nat \<Rightarrow> 'e + 'a) \<Rightarrow> ('e \<Rightarrow> bool) \<Rightarrow> 'e \<Rightarrow> nat \<Rightarrow> nat \<Rightarrow> 'e + 'a" where
  "retry_from fn retryable prev attempts i =
     (if i < attempts
      then (case fn i of
              Inr a \<Rightarrow> Inr a
            | Inl e \<Rightarrow> if \<not> retryable e \<or> i = attempts - 1 then Inl e
                       else retry_from fn retryable e attempts (Suc i))
      else Inl prev)"
  by pat_completeness auto
termination
  by (relation "measure (\<lambda>(fn, retryable, prev, attempts, i). attempts - i)") auto

declare retry_from.simps [simp del]

definition withRetry :: "(nat \<Rightarrow> 'e + 'a) \<Rightarrow> ('e \<Rightarrow> bool) \<Rightarrow> 'e \<Rightarrow> nat \<Rightarrow> 'e + 'a" where
  "withRetry fn retryable undef attempts = retry_from fn retryable undef attempts 0"

text \<open>
  The result is the first attempt that is not a retryable failure, or the last attempt.
\<close>

lemma retry_from_stops:
  assumes "i \<le> k" and "k < attempts"
    and "\<And>j. i \<le> j \<Longrightarrow> j < k \<Longrightarrow> \<exists>e. fn j = Inl e \<and> retryable e"
    and "(\<exists>a. fn k = Inr a) \<or> (\<exists>e. fn k = Inl e \<and> (\<not> retryable e \<or> k = attempts - 1))"
  shows "retry_from fn retryable prev attempts i = fn k"
  using assms
proof (induction "k - i" arbitrary: i prev)
  case 0
  then show ?case by (subst retry_from.simps) auto
next
  case (Suc d)
  then have lt: "i < k" by simp
  with Suc.prems(3) [of i] obtain e where e: "fn i = Inl e" "retryable e" by auto
  from Suc.hyps(2) have "d = k - Suc i" by simp
  then have "retry_from fn retryable e attempts (Suc i) = fn k"
    using Suc.hyps(1) [of "Suc i" e] Suc.prems lt by auto
  with e lt Suc.prems(2) show ?case by (subst retry_from.simps) auto
qed

section \<open>Searching\<close>

lemma find_SomeD: "find P xs = Some x \<Longrightarrow> x \<in> set xs \<and> P x"
  by (auto simp: find_Some_iff in_set_conv_nth)

lemma find_append_None: "find P xs = None \<Longrightarrow> find P (xs @ [x]) = (if P x then Some x else None)"
  by (induction xs) (auto split: if_splits)

end
