(* ===== verification/Money.thy ===== *)
theory Money
  imports Prelude Complex_Main
begin

text \<open>
  \<open>common/utils/money.ts\<close>. An amount is a decimal of \<open>decimal.js\<close> (\<open>Prisma.Decimal\<close>); here it is
  the rational number it denotes. The columns are \<open>numeric(12, 2)\<close>, so sums and differences of
  amounts, and products of an amount with a count, have at most 20 significant digits and
  \<open>decimal.js\<close> returns them exactly: they are \<open>+\<close>, \<open>-\<close>, \<open>*\<close> of the rationals. A product of two
  amounts or a quotient may need more digits; there the library rounds to its precision. That
  rounding, and the conversion \<open>toNumber\<close> to a double, are code outside the repository: the two
  fields of a record \<open>decimal_js\<close> that the definitions take as an argument. What the code relies on
  is the locale \<open>decimal_laws\<close>, with an interpretation on a rounding to 20 significant digits.
\<close>

type_synonym money = rat

record decimal_js =
  prec :: "rat \<Rightarrow> rat"    \<comment> \<open>the rounding of a result to the library's precision\<close>
  dbl :: "rat \<Rightarrow> rat"     \<comment> \<open>\<open>toNumber\<close>: the double a decimal converts to\<close>

definition d_times :: "decimal_js \<Rightarrow> rat \<Rightarrow> rat \<Rightarrow> rat" where
  "d_times J a b = prec J (a * b)"

definition d_div :: "decimal_js \<Rightarrow> rat \<Rightarrow> rat \<Rightarrow> rat" where
  "d_div J a b = prec J (a / b)"

section \<open>Rounding to decimal places\<close>

text \<open>\<open>ROUND_HALF_UP\<close>: to the nearest, a tie away from zero. \<open>ROUND_DOWN\<close>: towards zero.\<close>

definition half_up :: "nat \<Rightarrow> rat \<Rightarrow> rat" where
  "half_up n x = sgn x * of_int \<lfloor>\<bar>x\<bar> * 10 ^ n + 1 / 2\<rfloor> / 10 ^ n"

definition round_down :: "nat \<Rightarrow> rat \<Rightarrow> rat" where
  "round_down n x = sgn x * of_int \<lfloor>\<bar>x\<bar> * 10 ^ n\<rfloor> / 10 ^ n"

section \<open>The helpers\<close>

text \<open>\<open>null\<close> counts as zero.\<close>

definition D :: "rat option \<Rightarrow> rat" where
  "D v = (case v of None \<Rightarrow> 0 | Some x \<Rightarrow> x)"

definition round2 :: "rat \<Rightarrow> rat" where
  "round2 v = half_up 2 v"

definition dec_sum :: "rat list \<Rightarrow> rat" where
  "dec_sum values = foldl (\<lambda>acc v. acc + v) 0 values"

definition percentOf :: "decimal_js \<Rightarrow> rat \<Rightarrow> rat \<Rightarrow> rat" where
  "percentOf J amount pct = round2 (d_div J (d_times J amount pct) 100)"

definition dec_min :: "rat \<Rightarrow> rat \<Rightarrow> rat" where
  "dec_min a b = (if a < b then a else b)"

definition dec_max :: "rat \<Rightarrow> rat \<Rightarrow> rat" where
  "dec_max a b = (if a > b then a else b)"

definition roundTo :: "decimal_js \<Rightarrow> rat \<Rightarrow> rat \<Rightarrow> rat" where
  "roundTo J v step = half_up 0 (d_div J v step) * step"

definition toNumber :: "rat option \<Rightarrow> rat" where
  "toNumber v = (case v of None \<Rightarrow> 0 | Some x \<Rightarrow> round2 x)"

text \<open>
  \<open>allocate\<close>: the paisa that rounding down leaves over go to the lines with the largest remainders,
  in that order (the sort of JavaScript is stable, so equal remainders keep the order of the lines).
\<close>

fun hand_out :: "nat list \<Rightarrow> rat \<Rightarrow> rat list \<Rightarrow> rat list" where
  "hand_out [] rest floored = floored"
| "hand_out (i # order) rest floored =
     (if rest \<le> 0 then floored
      else hand_out order (rest - 1) (floored[i := floored ! i + 1 / 100]))"

definition raw_shares :: "decimal_js \<Rightarrow> rat \<Rightarrow> rat list \<Rightarrow> rat list" where
  "raw_shares J t w = map (\<lambda>x. d_div J (d_times J t x) (dec_sum w)) w"

definition remainder_order :: "decimal_js \<Rightarrow> rat list \<Rightarrow> rat list \<Rightarrow> nat list" where
  "remainder_order J raw floored =
     sort_key (\<lambda>i. - dbl J (raw ! i - floored ! i)) [0..<length raw]"

definition allocate :: "decimal_js \<Rightarrow> rat \<Rightarrow> rat list \<Rightarrow> rat list" where
  "allocate J amount weights =
     (let t = round2 amount; w = weights; wSum = dec_sum w
      in if wSum = 0 then map (\<lambda>i. if i = 0 then t else 0) [0..<length w]
         else let raw = raw_shares J t w;
                  floored = map (round_down 2) raw;
                  rest = dbl J ((t - dec_sum floored) * 100)
              in hand_out (remainder_order J raw floored) rest floored)"

section \<open>Whole numbers of paisa\<close>

text \<open>What a \<open>numeric(12, 2)\<close> column can hold: a whole number of paisa.\<close>

definition paisa :: "rat \<Rightarrow> bool" where
  "paisa x \<longleftrightarrow> x * 100 \<in> \<int>"

named_theorems money_intros \<open>amounts that are whole numbers of paisa, or not negative\<close>

lemma paisa_0 [simp, money_intros]: "paisa 0"
  by (simp add: paisa_def)

lemma paisa_of_int [simp, money_intros]: "paisa (of_int n)"
  by (simp add: paisa_def)

lemma paisa_numeral [simp, money_intros]: "paisa (numeral n)" "paisa 1"
  by (simp_all add: paisa_def)

lemma paisa_add [money_intros]: "paisa x \<Longrightarrow> paisa y \<Longrightarrow> paisa (x + y)"
  by (simp add: paisa_def distrib_right)

lemma paisa_diff [money_intros]: "paisa x \<Longrightarrow> paisa y \<Longrightarrow> paisa (x - y)"
  by (simp add: paisa_def left_diff_distrib)

lemma paisa_uminus [money_intros]: "paisa x \<Longrightarrow> paisa (- x)"
  by (simp add: paisa_def)

lemma paisa_times_int [money_intros]: "paisa x \<Longrightarrow> paisa (x * of_int q)"
  unfolding paisa_def by (metis Ints_mult Ints_of_int mult.assoc mult.commute)

lemma paisa_sum_list [money_intros]: "(\<And>x. x \<in> set xs \<Longrightarrow> paisa x) \<Longrightarrow> paisa (sum_list xs)"
  by (induction xs) (auto intro: paisa_add)

lemma floor_half [simp]: "\<lfloor>(1::rat) / 2\<rfloor> = 0"
  by (rule floor_unique) auto

lemma floor_abs_int [simp]: "\<lfloor>\<bar>of_int k :: rat\<bar>\<rfloor> = \<bar>k\<bar>"
  by (simp flip: of_int_abs)

lemma half_up_nonneg: "0 \<le> x \<Longrightarrow> half_up n x = of_int \<lfloor>x * 10 ^ n + 1 / 2\<rfloor> / 10 ^ n"
  by (cases "x = 0") (auto simp: half_up_def sgn_if)

lemma round_down_nonneg: "0 \<le> x \<Longrightarrow> round_down n x = of_int \<lfloor>x * 10 ^ n\<rfloor> / 10 ^ n"
  by (cases "x = 0") (auto simp: round_down_def sgn_if)

lemma half_up_uminus: "half_up n (- x) = - half_up n x"
  by (simp add: half_up_def sgn_if)

lemma half_up_0 [simp]: "half_up n 0 = 0"
  by (simp add: half_up_def)

lemma half_up_ge_0 [money_intros]: "0 \<le> x \<Longrightarrow> 0 \<le> half_up n x"
  by (simp add: half_up_nonneg)

lemma round_down_ge_0: "0 \<le> x \<Longrightarrow> 0 \<le> round_down n x"
  by (simp add: round_down_nonneg)

lemma round_down_le: "0 \<le> x \<Longrightarrow> round_down n x \<le> x"
  by (simp add: round_down_nonneg field_simps)

lemma round_down_0 [simp]: "round_down n 0 = 0"
  by (simp add: round_down_def)

lemma half_up_mono: "0 \<le> x \<Longrightarrow> x \<le> y \<Longrightarrow> half_up n x \<le> half_up n y"
  by (auto simp: half_up_nonneg divide_right_mono floor_mono)

text \<open>Rounding moves an amount by at most half a unit of the last place.\<close>

lemma half_up_error:
  fixes x :: rat
  assumes "0 \<le> x"
  shows "\<bar>half_up n x - x\<bar> \<le> 1 / (2 * 10 ^ n)"
proof -
  let ?k = "\<lfloor>x * 10 ^ n + 1 / 2\<rfloor>"
  have a: "of_int ?k \<le> x * 10 ^ n + 1 / 2" and b: "x * 10 ^ n + 1 / 2 < of_int ?k + 1"
    by linarith+
  have pos: "(0::rat) < 10 ^ n" by simp
  have "(half_up n x - x) * 10 ^ n = of_int ?k - x * 10 ^ n"
    using assms pos by (simp add: half_up_nonneg left_diff_distrib)
  then have "\<bar>half_up n x - x\<bar> * 10 ^ n = \<bar>of_int ?k - x * 10 ^ n\<bar>"
    by (metis abs_mult abs_of_pos pos)
  also have "\<dots> \<le> 1 / 2" using a b by linarith
  finally show ?thesis using pos by (simp add: field_simps)
qed

lemma half_up_grid: "half_up n x * 10 ^ n \<in> \<int>"
  by (cases x "0 :: rat" rule: linorder_cases) (simp_all add: half_up_def)

lemma round_down_grid: "round_down n x * 10 ^ n \<in> \<int>"
  by (cases x "0 :: rat" rule: linorder_cases) (simp_all add: round_down_def)

lemma half_up_fixed:
  assumes "x * 10 ^ n \<in> \<int>"
  shows "half_up n x = x"
proof -
  from assms obtain k where k: "x * 10 ^ n = of_int k" by (auto elim: Ints_cases)
  have x: "x = of_int k / 10 ^ n" by (simp flip: k)
  have "\<lfloor>\<bar>x\<bar> * 10 ^ n + 1 / 2\<rfloor> = \<bar>k\<bar>"
    by (simp add: x abs_divide floor_eq_iff)
  moreover have "sgn x * of_int \<bar>k\<bar> = of_int k"
    by (auto simp: x sgn_if zero_less_divide_iff)
  ultimately show ?thesis by (simp add: half_up_def x)
qed

lemma paisa_round2 [simp, money_intros]: "paisa (round2 x)"
  using half_up_grid [of 2 x] by (simp add: round2_def paisa_def)

lemma round2_fixed [simp]: "paisa x \<Longrightarrow> round2 x = x"
  by (simp add: round2_def paisa_def half_up_fixed)

lemma round2_idem: "round2 (round2 x) = round2 x"
  by simp

lemma round2_0 [simp]: "round2 0 = 0"
  by (simp add: round2_def)

lemma round2_ge_0 [simp, money_intros]: "0 \<le> x \<Longrightarrow> 0 \<le> round2 x"
  by (simp add: round2_def half_up_ge_0)

lemma paisa_half_up_0 [money_intros]: "paisa (half_up 0 x)"
  using half_up_grid [of 0 x] by (auto simp: paisa_def elim!: Ints_cases)

lemma paisa_round_down_2 [simp, money_intros]: "paisa (round_down 2 x)"
  using round_down_grid [of 2 x] by (simp add: paisa_def)

lemma paisa_dec_min [money_intros]: "paisa a \<Longrightarrow> paisa b \<Longrightarrow> paisa (dec_min a b)"
  by (simp add: dec_min_def)

lemma paisa_le_of_lt:
  assumes "paisa x" "paisa y" "x < y + 1 / 100"
  shows "x \<le> y"
proof -
  from assms obtain a b where ab: "x * 100 = of_int a" "y * 100 = of_int b"
    by (auto simp: paisa_def elim!: Ints_cases)
  with assms(3) have "of_int a < (of_int b + 1 :: rat)" by linarith
  then have "a \<le> b" by linarith
  then have "(of_int a :: rat) \<le> of_int b" by simp
  then show ?thesis using ab by linarith
qed

lemma dec_sum_eq [simp]: "dec_sum xs = sum_list xs"
  by (simp add: dec_sum_def fold_plus_sum_list_rev foldl_conv_fold add.commute)

lemma dec_min_eq [simp]: "dec_min a b = min a b"
  by (simp add: dec_min_def min_def)

lemma dec_max_eq [simp]: "dec_max a b = max a b"
  by (simp add: dec_max_def max_def)

section \<open>What the code relies on in \<open>decimal.js\<close>\<close>

text \<open>
  The documented behaviour of the library: a result is rounded to 20 significant digits (so its
  relative error is below \<open>10 ^ -19\<close>), a result that has no more digits than that is exact, rounding
  is monotone, and the digits of a number that is not absurdly small end before the 60th decimal
  place. \<open>toNumber\<close> is exact on integers up to \<open>2 ^ 53\<close>, monotone, and does not flush such numbers
  to zero.
\<close>

locale decimal_laws =
  fixes J :: decimal_js
  assumes prec_error: "\<bar>prec J x - x\<bar> \<le> \<bar>x\<bar> / 10 ^ 19"
    and prec_exact: "x * 10 ^ k = of_int m \<Longrightarrow> \<bar>m\<bar> < 10 ^ 20 \<Longrightarrow> prec J x = x"
    and prec_mono: "x \<le> y \<Longrightarrow> prec J x \<le> prec J y"
    and prec_digits: "1 / 10 ^ 40 \<le> \<bar>x\<bar> \<Longrightarrow> prec J x * 10 ^ 60 \<in> \<int>"
    and dbl_int: "\<bar>n\<bar> \<le> 2 ^ 53 \<Longrightarrow> dbl J (of_int n) = of_int n"
    and dbl_mono: "x \<le> y \<Longrightarrow> dbl J x \<le> dbl J y"
    and dbl_pos: "1 / 10 ^ 60 \<le> x \<Longrightarrow> 0 < dbl J x"
begin

lemma prec_0 [simp]: "prec J 0 = 0"
  using prec_error [of 0] by simp

lemma dbl_0 [simp]: "dbl J 0 = 0"
  using dbl_int [of 0] by simp

lemma prec_nonneg: "0 \<le> x \<Longrightarrow> 0 \<le> prec J x"
  using prec_mono [of 0 x] by simp

lemma d_times_nonneg: "0 \<le> a \<Longrightarrow> 0 \<le> b \<Longrightarrow> 0 \<le> d_times J a b"
  by (simp add: d_times_def prec_nonneg)

lemma d_div_nonneg: "0 \<le> a \<Longrightarrow> 0 \<le> b \<Longrightarrow> 0 \<le> d_div J a b"
  by (simp add: d_div_def prec_nonneg)

lemma prec_paisa: "paisa x \<Longrightarrow> \<bar>x\<bar> < 10 ^ 18 \<Longrightarrow> prec J x = x"
proof -
  assume "paisa x" and b: "\<bar>x\<bar> < 10 ^ 18"
  then obtain m where m: "x * 100 = of_int m" by (auto simp: paisa_def elim: Ints_cases)
  then have "\<bar>of_int m :: rat\<bar> < 10 ^ 20" using b by (simp flip: m add: abs_mult)
  then have "(of_int \<bar>m\<bar> :: rat) < of_int (10 ^ 20)" by simp
  then have "\<bar>m\<bar> < 10 ^ 20" by (simp only: of_int_less_iff)
  with m show ?thesis using prec_exact [of x 2 m] by simp
qed

subsection \<open>A percentage\<close>

lemma percentOf_nonneg: "0 \<le> a \<Longrightarrow> 0 \<le> p \<Longrightarrow> 0 \<le> percentOf J a p"
  by (simp add: percentOf_def d_div_nonneg d_times_nonneg)

lemma percentOf_paisa: "paisa (percentOf J a p)"
  by (simp add: percentOf_def)

lemma percentOf_le:
  assumes "0 \<le> a" "paisa a" "a < 10 ^ 16" "0 \<le> p" "p \<le> 100"
  shows "percentOf J a p \<le> a"
proof -
  have "paisa (a * of_int 100)" using assms(2) by (rule paisa_times_int)
  with assms have "prec J (a * 100) = a * 100" by (intro prec_paisa) (auto simp: abs_mult)
  moreover have "prec J (a * p) \<le> prec J (a * 100)"
    using assms by (intro prec_mono mult_left_mono)
  ultimately have "prec J (a * p) / 100 \<le> a" by simp
  then have "d_div J (d_times J a p) 100 \<le> prec J a"
    by (simp add: d_div_def d_times_def prec_mono)
  also have "prec J a = a" using assms by (intro prec_paisa) auto
  finally have "percentOf J a p \<le> round2 a"
    unfolding percentOf_def round2_def
    by (rule half_up_mono [rotated]) (simp add: assms d_div_nonneg d_times_nonneg)
  with assms(2) show ?thesis by simp
qed

end

section \<open>Handing out the paisa left over\<close>

lemma length_hand_out [simp]: "length (hand_out order r fl) = length fl"
  by (induction order r fl rule: hand_out.induct) auto

lemma hand_out_nth:
  assumes "distinct order" "j < length fl"
  shows "hand_out order (of_nat r) fl ! j =
    fl ! j + (if j \<in> set (take r order) then 1 / 100 else 0)"
  using assms
proof (induction order arbitrary: r fl)
  case Nil
  then show ?case by simp
next
  case (Cons i order)
  show ?case
  proof (cases r)
    case 0
    then show ?thesis by simp
  next
    case (Suc r')
    let ?fl' = "fl[i := fl ! i + 1 / 100]"
    have "hand_out (i # order) (of_nat r) fl = hand_out order (of_nat r') ?fl'"
      using Suc by simp
    moreover have "hand_out order (of_nat r') ?fl' ! j =
        ?fl' ! j + (if j \<in> set (take r' order) then 1 / 100 else 0)"
      using Cons.IH [of ?fl' r'] Cons.prems by simp
    moreover have "i \<notin> set (take r' order)"
      using Cons.prems(1) by (auto dest: in_set_takeD)
    ultimately show ?thesis using Suc Cons.prems by (cases "i = j") auto
  qed
qed

lemma hand_out_sum:
  assumes "set order \<subseteq> {..<length fl}" "r \<le> length order"
  shows "sum_list (hand_out order (of_nat r) fl) = sum_list fl + of_nat r / 100"
  using assms
proof (induction order arbitrary: r fl)
  case Nil
  then show ?case by simp
next
  case (Cons i order)
  show ?case
  proof (cases r)
    case 0
    then show ?thesis by simp
  next
    case (Suc r')
    let ?fl' = "fl[i := fl ! i + 1 / 100]"
    have "sum_list ?fl' = sum_list fl + 1 / 100"
      using Cons.prems(1) by (simp add: sum_list_map_update)
    moreover have "sum_list (hand_out order (of_nat r') ?fl') = sum_list ?fl' + of_nat r' / 100"
      using Cons.IH [of ?fl' r'] Cons.prems Suc by auto
    ultimately show ?thesis using Suc by (simp add: field_simps)
  qed
qed

lemma filter_index_length:
  "length (filter (\<lambda>i. P (xs ! i)) [0..<length xs]) = length (filter P xs)"
proof -
  have "filter P xs = filter P (map ((!) xs) [0..<length xs])" by (simp add: map_nth)
  then show ?thesis by (simp add: filter_map comp_def)
qed

lemma sum_list_error:
  fixes f g h :: "'a \<Rightarrow> rat"
  assumes "\<And>x. x \<in> set xs \<Longrightarrow> \<bar>f x - g x\<bar> \<le> h x"
  shows "\<bar>sum_list (map f xs) - sum_list (map g xs)\<bar> \<le> sum_list (map h xs)"
  using assms
proof (induction xs)
  case Nil
  then show ?case by simp
next
  case (Cons x xs)
  have "\<bar>f x - g x\<bar> \<le> h x" using Cons.prems by simp
  moreover have "\<bar>sum_list (map f xs) - sum_list (map g xs)\<bar> \<le> sum_list (map h xs)"
    using Cons.IH Cons.prems by simp
  ultimately show ?case by (simp add: abs_le_iff)
qed

lemma sum_list_scale:
  fixes f :: "'a \<Rightarrow> rat"
  shows "sum_list (map (\<lambda>x. f x * c) xs) = sum_list (map f xs) * c"
  by (induction xs) (auto simp: distrib_right)

text \<open>Rounding down loses less than a paisa, and only where something was lost.\<close>

lemma round_down_loss:
  assumes "0 \<le> x"
  shows "x - round_down 2 x \<le> (if round_down 2 x < x then 1 / 100 else 0)"
  using assms round_down_le [OF assms, of 2] floor_correct [of "x * 100"]
  by (auto simp: round_down_nonneg)

lemma sum_list_losses:
  assumes "\<And>x. x \<in> set xs \<Longrightarrow> 0 \<le> x"
  shows "sum_list xs - sum_list (map (round_down 2) xs) \<le>
    of_nat (length (filter (\<lambda>x. round_down 2 x < x) xs)) / 100"
  using assms
proof (induction xs)
  case Nil
  then show ?case by simp
next
  case (Cons x xs)
  have "x - round_down 2 x \<le> (if round_down 2 x < x then 1 / 100 else 0)"
    using Cons.prems by (intro round_down_loss) simp
  moreover have "sum_list xs - sum_list (map (round_down 2) xs) \<le>
      of_nat (length (filter (\<lambda>x. round_down 2 x < x) xs)) / 100"
    using Cons.IH Cons.prems by simp
  ultimately show ?case by (auto simp: field_simps split: if_splits)
qed

text \<open>A shared setting: an amount \<open>t\<close> in paisa split over weights that are not all zero.\<close>

definition split_input :: "rat \<Rightarrow> rat list \<Rightarrow> bool" where
  "split_input t w \<longleftrightarrow> paisa t \<and> 0 \<le> t \<and> t \<le> 10 ^ 13 \<and> (\<forall>x \<in> set w. 0 \<le> x) \<and> 0 < sum_list w"

context decimal_laws
begin

lemma raw_share_error:
  assumes "0 \<le> t" "0 \<le> x" "0 < W"
  shows "\<bar>d_div J (d_times J t x) W - t * x / W\<bar> \<le> t * x / W * (3 / 10 ^ 19)"
proof -
  let ?p = "prec J (t * x)" and ?y = "t * x / W"
  have y: "0 \<le> ?y" and tx: "0 \<le> t * x" using assms by simp_all
  have "\<bar>?p - t * x\<bar> \<le> t * x / 10 ^ 19" using prec_error [of "t * x"] tx by simp
  then have "\<bar>?p - t * x\<bar> / W \<le> t * x / 10 ^ 19 / W"
    using assms(3) by (intro divide_right_mono) auto
  then have e1: "\<bar>?p / W - ?y\<bar> \<le> ?y / 10 ^ 19"
    using assms(3) by (simp add: abs_divide flip: diff_divide_distrib)
  have pW: "0 \<le> ?p / W" using tx assms(3) by (simp add: prec_nonneg)
  have e2: "\<bar>prec J (?p / W) - ?p / W\<bar> \<le> ?p / W / 10 ^ 19"
    using prec_error [of "?p / W"] pW by simp
  have err: "\<bar>c - y\<bar> \<le> y * (3 / 10 ^ 19)"
    if "\<bar>a - y\<bar> \<le> y / 10 ^ 19" "\<bar>c - a\<bar> \<le> a / 10 ^ 19" "0 \<le> y" for a c y :: rat
  proof -
    have k: "(10::rat) ^ 19 = 10000000000000000000" by simp
    show ?thesis using that unfolding k abs_le_iff by linarith
  qed
  have "\<bar>prec J (?p / W) - ?y\<bar> \<le> ?y * (3 / 10 ^ 19)" by (rule err [OF e1 e2 y])
  then show ?thesis by (simp add: d_div_def d_times_def)
qed

lemma raw_shares_nonneg:
  assumes "split_input t w" "x \<in> set (raw_shares J t w)"
  shows "0 \<le> x"
  using assms by (auto simp: raw_shares_def split_input_def intro!: d_div_nonneg d_times_nonneg)

lemma raw_shares_sum:
  assumes "split_input t w"
  shows "\<bar>sum_list (raw_shares J t w) - t\<bar> \<le> 3 / 1000000"
proof -
  let ?W = "sum_list w"
  have W: "0 < ?W" and t: "0 \<le> t" "t \<le> 10 ^ 13" using assms by (auto simp: split_input_def)
  have exact: "sum_list (map (\<lambda>x. t * x / ?W) w) = t"
  proof -
    have "sum_list (map (\<lambda>x. t * x / ?W) w) = sum_list (map (\<lambda>x. x * (t / ?W)) w)"
      by (simp add: mult.commute)
    also have "\<dots> = t" using W sum_list_scale [of id "t / ?W" w] by simp
    finally show ?thesis .
  qed
  have "\<bar>sum_list (map (\<lambda>x. d_div J (d_times J t x) ?W) w) - sum_list (map (\<lambda>x. t * x / ?W) w)\<bar>
      \<le> sum_list (map (\<lambda>x. t * x / ?W * (3 / 10 ^ 19)) w)"
    using assms by (intro sum_list_error raw_share_error) (auto simp: split_input_def)
  also have "\<dots> = t * (3 / 10 ^ 19)"
    by (simp only: sum_list_scale exact)
  also have "\<dots> \<le> 3 / 1000000" using t by simp
  finally show ?thesis by (simp add: raw_shares_def exact)
qed

text \<open>The paisa left over after rounding down: at most one per line that lost something.\<close>

lemma rest_bounds:
  assumes "split_input t w"
  obtains r where "(t - sum_list (map (round_down 2) (raw_shares J t w))) * 100 = of_nat r"
    and "r \<le> length (filter (\<lambda>x. round_down 2 x < x) (raw_shares J t w))"
    and "(of_nat r :: rat) \<le> 10 ^ 15"
proof -
  let ?raw = "raw_shares J t w"
  let ?F = "sum_list (map (round_down 2) ?raw)"
  let ?k = "length (filter (\<lambda>x. round_down 2 x < x) ?raw)"
  have t: "paisa t" "t \<le> 10 ^ 13" using assms by (auto simp: split_input_def)
  have nn: "\<And>x. x \<in> set ?raw \<Longrightarrow> 0 \<le> x" by (rule raw_shares_nonneg [OF assms])
  have S: "sum_list ?raw \<le> t + 3 / 1000000" "t \<le> sum_list ?raw + 3 / 1000000"
    using raw_shares_sum [OF assms] unfolding abs_le_iff by linarith+
  have FS: "?F \<le> sum_list ?raw"
    using sum_list_mono_map [of ?raw "round_down 2" id] nn round_down_le by simp
  have pF: "paisa ?F" by (rule paisa_sum_list) auto
  have F0: "0 \<le> ?F" by (rule sum_list_nonneg) (auto intro: round_down_ge_0 nn)
  have "?F \<le> t" using FS S by (intro paisa_le_of_lt pF t) linarith
  moreover obtain n where n: "(t - ?F) * 100 = of_int n"
    using paisa_diff [OF t(1) pF] by (auto simp: paisa_def elim: Ints_cases)
  ultimately have "0 \<le> n" by (metis diff_ge_0_iff_ge mult_nonneg_nonneg of_int_0_le_iff zero_le_numeral)
  define r where "r = nat n"
  have r: "(t - ?F) * 100 = of_nat r" using n \<open>0 \<le> n\<close> by (simp add: r_def)
  have "sum_list ?raw - ?F \<le> of_nat ?k / 100" by (rule sum_list_losses) (rule nn)
  moreover have "b < c + 1"
    if "u \<le> v + 3 / 1000000" "(u - F) * 100 = b" "v - F \<le> c / 100" for b c u v F :: rat
    using that by (simp add: field_simps)
  ultimately have "(of_nat r :: rat) < of_nat ?k + 1" using S(2) r by blast
  then have "(of_nat r :: rat) < of_nat (Suc ?k)" by simp
  then have "r \<le> ?k" by (simp only: of_nat_less_iff less_Suc_eq_le)
  moreover have "(of_nat r :: rat) \<le> 10 ^ 15"
    using F0 t(2) by (simp flip: r)
  ultimately show thesis using that r by blast
qed

text \<open>The main lemma: which \<open>r\<close> lines get the extra paisa, and what every line then has.\<close>

lemma allocate_cases:
  assumes "split_input (round2 amount) w"
  obtains r where "allocate J amount w =
      hand_out (remainder_order J (raw_shares J (round2 amount) w) (map (round_down 2) (raw_shares J (round2 amount) w)))
        (of_nat r) (map (round_down 2) (raw_shares J (round2 amount) w))"
    and "(round2 amount - sum_list (map (round_down 2) (raw_shares J (round2 amount) w))) * 100 = of_nat r"
    and "r \<le> length (filter (\<lambda>x. round_down 2 x < x) (raw_shares J (round2 amount) w))"
proof -
  from rest_bounds [OF assms] obtain r where
    r: "(round2 amount - sum_list (map (round_down 2) (raw_shares J (round2 amount) w))) * 100 = of_nat r"
      "r \<le> length (filter (\<lambda>x. round_down 2 x < x) (raw_shares J (round2 amount) w))"
      "(of_nat r :: rat) \<le> 10 ^ 15" by blast
  have "(of_int (int r) :: rat) \<le> of_int (10 ^ 15)" using r(3) by simp
  then have "int r \<le> 10 ^ 15" by (simp only: of_int_le_iff)
  then have "dbl J (of_int (int r)) = of_int (int r)" by (intro dbl_int) simp
  then have "dbl J ((round2 amount - sum_list (map (round_down 2) (raw_shares J (round2 amount) w))) * 100) = of_nat r"
    by (simp only: r(1)) simp
  moreover have "sum_list w \<noteq> 0" using assms by (auto simp: split_input_def)
  ultimately show thesis
    using that [of r] r(1,2) by (simp add: allocate_def Let_def)
qed

end

lemma length_allocate [simp]: "length (allocate J amount w) = length w"
  by (auto simp: allocate_def Let_def raw_shares_def)

text \<open>With no weight at all the first part gets everything.\<close>

lemma first_only: "map (\<lambda>i. if i = 0 then t else 0) [0..<Suc n] = t # replicate n (0::rat)"
  by (rule nth_equalityI) (auto simp: nth_Cons split: nat.splits simp del: upt_Suc)

context decimal_laws
begin

lemma remainder_order_props:
  "distinct (remainder_order J raw fl)" "set (remainder_order J raw fl) = {..<length raw}"
  "length (remainder_order J raw fl) = length raw"
  by (auto simp: remainder_order_def)

text \<open>The parts add up to the amount, exactly.\<close>

lemma allocate_sum:
  assumes "split_input (round2 amount) w"
  shows "sum_list (allocate J amount w) = round2 amount"
proof -
  let ?raw = "raw_shares J (round2 amount) w"
  let ?fl = "map (round_down 2) ?raw"
  from allocate_cases [OF assms] obtain r where
    r: "allocate J amount w = hand_out (remainder_order J ?raw ?fl) (of_nat r) ?fl"
      "(round2 amount - sum_list ?fl) * 100 = of_nat r"
      "r \<le> length (filter (\<lambda>x. round_down 2 x < x) ?raw)" by blast
  have "r \<le> length ?raw" using r(3) length_filter_le le_trans by blast
  then have "sum_list (allocate J amount w) = sum_list ?fl + of_nat r / 100"
    unfolding r(1) by (intro hand_out_sum) (simp_all add: remainder_order_props)
  then show ?thesis by (simp add: field_simps flip: r(2))
qed

lemma allocate_nth:
  assumes "split_input (round2 amount) w" "j < length w"
  obtains e where "allocate J amount w ! j = round_down 2 (raw_shares J (round2 amount) w ! j) + e"
    "e = 0 \<or> e = 1 / 100"
proof -
  let ?raw = "raw_shares J (round2 amount) w"
  let ?fl = "map (round_down 2) ?raw"
  from allocate_cases [OF assms(1)] obtain r where
    r: "allocate J amount w = hand_out (remainder_order J ?raw ?fl) (of_nat r) ?fl" by blast
  have j: "j < length ?raw" using assms(2) by (simp add: raw_shares_def)
  then have "allocate J amount w ! j =
      ?fl ! j + (if j \<in> set (take r (remainder_order J ?raw ?fl)) then 1 / 100 else 0)"
    unfolding r by (intro hand_out_nth) (simp_all add: remainder_order_props)
  then show thesis using that j by (auto split: if_splits)
qed

lemma allocate_nonneg:
  assumes "split_input (round2 amount) w" "x \<in> set (allocate J amount w)"
  shows "0 \<le> x"
proof -
  from assms(2) obtain j where j: "j < length w" "x = allocate J amount w ! j"
    by (auto simp: in_set_conv_nth)
  have "0 \<le> raw_shares J (round2 amount) w ! j"
    using j(1) by (intro raw_shares_nonneg [OF assms(1)] nth_mem) (simp add: raw_shares_def)
  then show ?thesis
    using allocate_nth [OF assms(1) j(1)] round_down_ge_0 by (fastforce simp: j(2))
qed

lemma allocate_paisa:
  assumes "x \<in> set (allocate J amount w)" "split_input (round2 amount) w"
  shows "paisa x"
proof -
  from assms(1) obtain j where j: "j < length w" "x = allocate J amount w ! j"
    by (auto simp: in_set_conv_nth)
  obtain e where "x = round_down 2 (raw_shares J (round2 amount) w ! j) + e" "e = 0 \<or> e = 1 / 100"
    using allocate_nth [OF assms(2) j(1)] j(2) by metis
  moreover from this(2) have "paisa e" by (auto simp: paisa_def)
  ultimately show ?thesis by (simp add: paisa_add)
qed

text \<open>The two cases together: any amount is split exactly over any list that is not empty.\<close>

lemma allocate_total:
  assumes "paisa a" "0 \<le> a" "a \<le> 10 ^ 13" "w \<noteq> []" "\<And>x. x \<in> set w \<Longrightarrow> 0 \<le> x"
  shows "sum_list (allocate J a w) = a \<and> (\<forall>x \<in> set (allocate J a w). 0 \<le> x \<and> paisa x)"
proof (cases "sum_list w = 0")
  case True
  obtain n where n: "length w = Suc n" using assms(4) by (cases w) auto
  have "allocate J a w = a # replicate n 0"
    using True assms(1) first_only [of a n] by (simp add: allocate_def Let_def n)
  then show ?thesis using assms(1,2) by (auto simp: sum_list_replicate)
next
  case False
  have "split_input (round2 a) w"
    using False assms sum_list_nonneg [of w] by (auto simp: split_input_def order_less_le)
  then show ?thesis
    using allocate_sum [of a w] allocate_nonneg [of a w] allocate_paisa [of _ a w] assms(1) by auto
qed

text \<open>Each part is the proportional share of its weight, up to a paisa (and the rounding error).\<close>

lemma allocate_fair:
  assumes "split_input (round2 amount) w" "j < length w"
  shows "\<bar>allocate J amount w ! j - round2 amount * w ! j / sum_list w\<bar> \<le> 101 / 10000"
proof -
  let ?t = "round2 amount" and ?W = "sum_list w"
  let ?y = "?t * w ! j / ?W" and ?raw = "raw_shares J ?t w ! j"
  have t: "0 \<le> ?t" "?t \<le> 10 ^ 13" and wj: "0 \<le> w ! j" and W: "0 < ?W"
    using assms by (auto simp: split_input_def)
  have "w ! j \<le> ?W" using assms by (intro sum_list_member_le) (auto simp: split_input_def)
  then have "w ! j / ?W \<le> 1" using W by simp
  then have "?t * (w ! j / ?W) \<le> 10 ^ 13 * 1" using t wj W by (intro mult_mono) auto
  then have yle: "?y \<le> 10000000000000" by simp
  have raw: "?raw = d_div J (d_times J ?t (w ! j)) ?W"
    using assms(2) by (simp add: raw_shares_def)
  have err: "\<bar>?raw - ?y\<bar> \<le> ?y * (3 / 10 ^ 19)"
    unfolding raw by (rule raw_share_error [OF t(1) wj W])
  have rawnn: "0 \<le> ?raw" unfolding raw by (intro d_div_nonneg d_times_nonneg) (use t wj W in auto)
  have low: "round_down 2 ?raw \<le> ?raw" and up: "?raw - round_down 2 ?raw \<le> 1 / 100"
    using round_down_le [OF rawnn, of 2] round_down_loss [OF rawnn] by (auto split: if_splits)
  obtain e where e: "allocate J amount w ! j = round_down 2 ?raw + e" "e = 0 \<or> e = 1 / 100"
    using allocate_nth [OF assms] by metis
  have near: "\<bar>f + e - y\<bar> \<le> 101 / 10000"
    if "\<bar>x - y\<bar> \<le> y * (3 / 10 ^ 19)" "y \<le> 10000000000000" "f \<le> x" "x - f \<le> 1 / 100" "e = 0 \<or> e = 1 / 100"
    for x y f e :: rat
  proof -
    have k: "(10::rat) ^ 19 = 10000000000000000000" by simp
    have "\<bar>x - y\<bar> \<le> 1 / 10000" using that(1,2) unfolding k abs_le_iff by linarith
    with that(3-5) show ?thesis unfolding abs_le_iff by (elim disjE conjE; intro conjI; linarith)
  qed
  show ?thesis unfolding e(1) by (rule near [OF err yle low up e(2)])
qed

end

text \<open>
  With weights in paisa, the extra paisa only go to lines that lost something in the rounding: a
  remainder that is not zero is far above the smallest double, so the sort puts it first.
\<close>

definition paisa_weights :: "rat list \<Rightarrow> bool" where
  "paisa_weights w \<longleftrightarrow> (\<forall>x \<in> set w. paisa x) \<and> sum_list w \<le> 10 ^ 8"

lemma paisa_ge_cent: "paisa x \<Longrightarrow> 0 < x \<Longrightarrow> 1 / 100 \<le> x"
proof -
  assume "paisa x" "0 < x"
  then obtain k where k: "x * 100 = of_int k" by (auto simp: paisa_def elim: Ints_cases)
  with \<open>0 < x\<close> have "(0::rat) < of_int k" by (simp flip: k)
  then have "1 \<le> k" by simp
  then have "(1::rat) \<le> of_int k" by simp
  then show "1 / 100 \<le> x" by (simp flip: k)
qed

lemma grid_gap:
  fixes x y :: rat
  assumes "x * 10 ^ n \<in> \<int>" "y * 10 ^ n \<in> \<int>" "x < y"
  shows "1 / 10 ^ n \<le> y - x"
proof -
  from assms obtain a b where ab: "x * 10 ^ n = of_int a" "y * 10 ^ n = of_int b"
    by (auto elim!: Ints_cases)
  have "x * 10 ^ n < y * 10 ^ n" using assms(3) by simp
  then have "a + 1 \<le> b" by (simp add: ab)
  then have "(of_int a + 1 :: rat) \<le> of_int b" by linarith
  then have "1 \<le> (y - x) * 10 ^ n" by (simp add: left_diff_distrib ab)
  then show ?thesis by (simp add: pos_divide_le_eq)
qed

context decimal_laws
begin

lemma raw_share_grid:
  assumes "split_input t w" "paisa_weights w" "x \<in> set (raw_shares J t w)"
  shows "x * 10 ^ 60 \<in> \<int>"
proof -
  let ?W = "sum_list w"
  from assms(3) obtain v where v: "v \<in> set w" "x = prec J (prec J (t * v) / ?W)"
    by (auto simp: raw_shares_def d_div_def d_times_def)
  have tv: "paisa t" "0 \<le> t" "paisa v" "0 \<le> v" and W: "0 < ?W" "?W \<le> 10 ^ 8"
    using assms(1,2) v(1) by (auto simp: split_input_def paisa_weights_def)
  show ?thesis
  proof (cases "t = 0 \<or> v = 0")
    case True
    then show ?thesis using v(2) by auto
  next
    case False
    then have "0 < t" "0 < v" using tv by auto
    then have "1 / 100 \<le> t" "1 / 100 \<le> v" using tv paisa_ge_cent by blast+
    then have "1 / 100 * (1 / 100) \<le> t * v" by (intro mult_mono) auto
    moreover have "\<bar>prec J (t * v) - t * v\<bar> \<le> t * v / 2"
    proof -
      have "\<bar>prec J (t * v) - t * v\<bar> \<le> \<bar>t * v\<bar> / 10 ^ 19" by (rule prec_error)
      also have "\<dots> \<le> t * v / 2" using tv by (simp add: frac_le)
      finally show ?thesis .
    qed
    ultimately have "1 / 20000 \<le> prec J (t * v)" unfolding abs_le_iff by linarith
    then have "1 / 20000 / 10 ^ 8 \<le> prec J (t * v) / ?W" using W by (intro frac_le) auto
    moreover have "(1::rat) / 10 ^ 40 \<le> 1 / 20000 / 10 ^ 8" by simp
    ultimately have "1 / 10 ^ 40 \<le> prec J (t * v) / ?W" by (rule order_trans [rotated])
    then have "1 / 10 ^ 40 \<le> \<bar>prec J (t * v) / ?W\<bar>" by (rule order_trans [OF _ abs_ge_self])
    then show ?thesis unfolding v(2) by (rule prec_digits)
  qed
qed

lemma extra_needs_loss:
  assumes "split_input t w" "paisa_weights w"
    and "r \<le> length (filter (\<lambda>x. round_down 2 x < x) (raw_shares J t w))"
    and "j \<in> set (take r (remainder_order J (raw_shares J t w) (map (round_down 2) (raw_shares J t w))))"
  shows "round_down 2 (raw_shares J t w ! j) < raw_shares J t w ! j"
proof -
  let ?raw = "raw_shares J t w"
  let ?key = "\<lambda>i. - dbl J (?raw ! i - map (round_down 2) ?raw ! i)"
  have pos: "0 < dbl J (?raw ! i - round_down 2 (?raw ! i))" if "i < length ?raw" "round_down 2 (?raw ! i) < ?raw ! i" for i
  proof -
    have "round_down 2 (?raw ! i) * 10 ^ 60 = round_down 2 (?raw ! i) * 100 * of_int (10 ^ 58)" by simp
    also have "\<dots> \<in> \<int>"
      by (rule Ints_mult [OF paisa_round_down_2 [unfolded paisa_def] Ints_of_int])
    finally have "round_down 2 (?raw ! i) * 10 ^ 60 \<in> \<int>" .
    moreover have "?raw ! i * 10 ^ 60 \<in> \<int>"
      using that(1) by (intro raw_share_grid [OF assms(1,2)] nth_mem)
    ultimately have "1 / 10 ^ 60 \<le> ?raw ! i - round_down 2 (?raw ! i)"
      using that(2) by (rule grid_gap)
    then show ?thesis by (rule dbl_pos)
  qed
  have "length (filter (\<lambda>x. round_down 2 x < x) ?raw) =
      length (filter (\<lambda>i. round_down 2 (?raw ! i) < ?raw ! i) [0..<length ?raw])"
    by (rule filter_index_length [symmetric])
  also have "\<dots> = length (filter (\<lambda>i. ?key i < 0 \<and> round_down 2 (?raw ! i) < ?raw ! i) [0..<length ?raw])"
    by (rule arg_cong [where f = length], rule filter_cong) (auto simp: pos)
  also have "\<dots> \<le> length (filter (\<lambda>i. ?key i < 0) [0..<length ?raw])"
    by (simp add: length_filter_conv_card) (rule card_mono, auto)
  finally have "r \<le> length (filter (\<lambda>i. ?key i < 0) [0..<length ?raw])" using assms(3) by simp
  then have key: "?key j < 0"
    using assms(4) unfolding remainder_order_def by (rule take_sort_key_below)
  have j: "j < length ?raw"
    using in_set_takeD [OF assms(4)] by (simp add: remainder_order_props)
  have "0 \<le> ?raw ! j" using j by (intro raw_shares_nonneg [OF assms(1)]) simp
  then have "round_down 2 (?raw ! j) \<le> ?raw ! j" by (rule round_down_le)
  moreover have "round_down 2 (?raw ! j) \<noteq> ?raw ! j" using key j by auto
  ultimately show ?thesis by simp
qed

lemma allocate_nth_cases:
  assumes "split_input (round2 amount) w" "paisa_weights w" "j < length w"
  obtains "allocate J amount w ! j = round_down 2 (raw_shares J (round2 amount) w ! j)"
  | "allocate J amount w ! j = round_down 2 (raw_shares J (round2 amount) w ! j) + 1 / 100"
    "round_down 2 (raw_shares J (round2 amount) w ! j) < raw_shares J (round2 amount) w ! j"
proof -
  let ?raw = "raw_shares J (round2 amount) w"
  let ?fl = "map (round_down 2) ?raw"
  from allocate_cases [OF assms(1)] obtain r where
    r: "allocate J amount w = hand_out (remainder_order J ?raw ?fl) (of_nat r) ?fl"
      "r \<le> length (filter (\<lambda>x. round_down 2 x < x) ?raw)" by blast
  have j: "j < length ?raw" using assms(3) by (simp add: raw_shares_def)
  then have "allocate J amount w ! j =
      ?fl ! j + (if j \<in> set (take r (remainder_order J ?raw ?fl)) then 1 / 100 else 0)"
    unfolding r(1) by (intro hand_out_nth) (simp_all add: remainder_order_props)
  then show thesis
    using that extra_needs_loss [OF assms(1,2) r(2)] j by (auto split: if_splits)
qed

text \<open>A line with weight zero gets nothing.\<close>

lemma allocate_zero_weight:
  assumes "split_input (round2 amount) w" "paisa_weights w" "j < length w" "w ! j = 0"
  shows "allocate J amount w ! j = 0"
proof -
  have "raw_shares J (round2 amount) w ! j = 0"
    using assms(3,4) by (simp add: raw_shares_def d_div_def d_times_def)
  then show ?thesis using allocate_nth_cases [OF assms(1-3)] by auto
qed

text \<open>An amount that the weights cover is split into parts that each weight covers.\<close>

lemma raw_share_le:
  assumes "split_input t w" "paisa_weights w" "t \<le> sum_list w" "j < length w"
  shows "raw_shares J t w ! j \<le> w ! j"
proof -
  let ?W = "sum_list w" and ?v = "w ! j"
  have v: "0 \<le> ?v" "paisa ?v" and W: "0 < ?W" "?W \<le> 10 ^ 8" "paisa ?W" and t: "0 \<le> t"
    using assms by (auto simp: split_input_def paisa_weights_def intro: paisa_sum_list)
  have vW: "?v \<le> ?W" using assms by (intro sum_list_member_le) (auto simp: split_input_def)
  from v(2) W(3) obtain a b where ab: "?v * 100 = of_int a" "?W * 100 = of_int b"
    by (auto simp: paisa_def elim!: Ints_cases)
  have a: "0 \<le> a" "a \<le> 10 ^ 10" and b: "0 \<le> b" "b \<le> 10 ^ 10"
  proof -
    have "0 \<le> (of_int a :: rat)" "(of_int a :: rat) \<le> of_int (10 ^ 10)"
      "0 \<le> (of_int b :: rat)" "(of_int b :: rat) \<le> of_int (10 ^ 10)"
      using v W vW by (simp_all flip: ab)
    then show "0 \<le> a" "a \<le> 10 ^ 10" "0 \<le> b" "b \<le> 10 ^ 10"
      by (simp_all only: of_int_le_iff of_int_0_le_iff)
  qed
  have "a * b \<le> 10 ^ 10 * 10 ^ 10" using a b by (intro mult_mono) auto
  moreover have "b * a \<noteq> 10 ^ 20 \<Longrightarrow> prec J (?W * ?v) = ?W * ?v"
  proof -
    assume "b * a \<noteq> 10 ^ 20"
    with \<open>a * b \<le> 10 ^ 10 * 10 ^ 10\<close> have lt: "\<bar>b * a\<bar> < 10 ^ 20" using a b by (simp add: mult.commute)
    have "?W * ?v * 10 ^ 4 = (?W * 100) * (?v * 100)" by simp
    also have "\<dots> = of_int (b * a)" by (simp only: ab of_int_mult)
    finally show ?thesis using lt by (rule prec_exact)
  qed
  moreover have "b * a = 10 ^ 20 \<Longrightarrow> prec J (?W * ?v) = ?W * ?v"
  proof -
    assume *: "b * a = 10 ^ 20"
    have "?W * ?v * 10 ^ 4 = (?W * 100) * (?v * 100)" by simp
    also have "\<dots> = of_int (b * a)" by (simp only: ab of_int_mult)
    finally have "?W * ?v * 10 ^ 0 = of_int (10 ^ 16)" by (simp add: *)
    then show ?thesis by (rule prec_exact) simp
  qed
  ultimately have exact: "prec J (?W * ?v) = ?W * ?v" by blast
  have "prec J (t * ?v) \<le> prec J (?W * ?v)"
    using assms(3) v(1) by (intro prec_mono mult_right_mono)
  then have "prec J (t * ?v) / ?W \<le> ?v" using W(1) by (simp add: exact pos_divide_le_eq mult.commute)
  then have "prec J (prec J (t * ?v) / ?W) \<le> prec J ?v" by (rule prec_mono)
  also have "prec J ?v = ?v" using v vW W by (intro prec_paisa) auto
  finally show ?thesis using assms(4) by (simp add: raw_shares_def d_div_def d_times_def)
qed

lemma allocate_le_weight:
  assumes "split_input (round2 amount) w" "paisa_weights w" "round2 amount \<le> sum_list w" "j < length w"
  shows "allocate J amount w ! j \<le> w ! j"
proof -
  let ?x = "raw_shares J (round2 amount) w ! j"
  have le: "?x \<le> w ! j" by (rule raw_share_le [OF assms])
  have nn: "0 \<le> ?x"
    using assms(4) by (intro raw_shares_nonneg [OF assms(1)] nth_mem) (simp add: raw_shares_def)
  have p: "paisa (w ! j)" using assms(2,4) by (simp add: paisa_weights_def)
  show ?thesis
  proof (rule allocate_nth_cases [OF assms(1,2,4)])
    assume "allocate J amount w ! j = round_down 2 ?x"
    then show ?thesis using round_down_le [OF nn, of 2] le by simp
  next
    assume e: "allocate J amount w ! j = round_down 2 ?x + 1 / 100" "round_down 2 ?x < ?x"
    have "paisa (round_down 2 ?x + 1 / 100)"
      by (intro paisa_add paisa_round_down_2) (simp add: paisa_def)
    then show ?thesis unfolding e(1) using p e(2) le by (intro paisa_le_of_lt) auto
  qed
qed

end

section \<open>Rounding to twenty significant digits\<close>

text \<open>
  The laws hold of the rounding the library documents: the exponent of the last kept digit is the
  exponent of the number less 19, and the rest is rounded half up.
\<close>

definition last_digit :: "rat \<Rightarrow> int" where
  "last_digit x = \<lfloor>log 10 (real_of_rat \<bar>x\<bar>)\<rfloor> - 19"

definition sig20 :: "rat \<Rightarrow> rat" where
  "sig20 x = half_up 0 (x / 10 powi last_digit x) * 10 powi last_digit x"

definition decimal20 :: decimal_js where
  "decimal20 = \<lparr>prec = sig20, dbl = (\<lambda>x. x)\<rparr>"

lemma of_rat_powi: "real_of_rat (10 powi e) = 10 powi e"
  by (simp add: power_int_def of_rat_inverse of_rat_power of_rat_divide)

lemma last_digit_range:
  assumes "x \<noteq> 0"
  shows "10 powi last_digit x * 10 ^ 19 \<le> \<bar>x\<bar>" "\<bar>x\<bar> < 10 powi last_digit x * 10 ^ 20"
proof -
  let ?r = "real_of_rat \<bar>x\<bar>" and ?L = "\<lfloor>log 10 (real_of_rat \<bar>x\<bar>)\<rfloor>"
  have r: "0 < ?r" using assms by simp
  have "10 powr real_of_int ?L \<le> 10 powr log 10 ?r" by (intro powr_mono) auto
  then have lo: "10 powi ?L \<le> ?r" using r by (simp add: powr_real_of_int')
  have "?r = 10 powr log 10 ?r" using r by simp
  also have "\<dots> < 10 powr real_of_int (?L + 1)" by (intro powr_less_mono) linarith+
  also have "\<dots> = 10 powi (?L + 1)" by (rule powr_real_of_int') auto
  finally have hi: "?r < 10 powi (?L + 1)" .
  have "(10::rat) powi ?L = 10 powi (last_digit x + 19)" by (simp add: last_digit_def)
  also have "\<dots> = 10 powi last_digit x * 10 ^ 19" by (simp add: power_int_add)
  finally have a: "(10::rat) powi ?L = 10 powi last_digit x * 10 ^ 19" .
  have "?L + 1 = last_digit x + 20" by (simp add: last_digit_def)
  then have "(10::rat) powi (?L + 1) = 10 powi (last_digit x + 20)" by (rule arg_cong)
  also have "\<dots> = 10 powi last_digit x * 10 ^ 20" by (simp add: power_int_add)
  finally have b: "(10::rat) powi (?L + 1) = 10 powi last_digit x * 10 ^ 20" .
  from lo have "real_of_rat (10 powi ?L) \<le> ?r" by (simp only: of_rat_powi)
  then show "10 powi last_digit x * 10 ^ 19 \<le> \<bar>x\<bar>" unfolding of_rat_less_eq a .
  from hi have "?r < real_of_rat (10 powi (?L + 1))" by (simp only: of_rat_powi)
  then show "\<bar>x\<bar> < 10 powi last_digit x * 10 ^ 20" unfolding of_rat_less b .
qed

lemma last_digit_mono: "x \<noteq> 0 \<Longrightarrow> \<bar>x\<bar> \<le> \<bar>y\<bar> \<Longrightarrow> last_digit x \<le> last_digit y"
proof -
  assume a: "x \<noteq> 0" "\<bar>x\<bar> \<le> \<bar>y\<bar>"
  then have "real_of_rat \<bar>x\<bar> \<le> real_of_rat \<bar>y\<bar>" by (simp only: of_rat_less_eq)
  moreover have "0 < real_of_rat \<bar>x\<bar>" using a by simp
  ultimately have "log 10 (real_of_rat \<bar>x\<bar>) \<le> log 10 (real_of_rat \<bar>y\<bar>)"
    by (intro log_mono) auto
  then show ?thesis by (simp only: last_digit_def floor_mono diff_right_mono)
qed

lemma last_digit_uminus: "last_digit (- x) = last_digit x"
  by (simp add: last_digit_def)

lemma sig20_uminus: "sig20 (- x) = - sig20 x"
  by (simp add: sig20_def last_digit_uminus half_up_uminus)

lemma half_up_error_abs: "\<bar>half_up n x - x\<bar> \<le> 1 / (2 * 10 ^ n)"
proof (cases "0 \<le> x")
  case True
  then show ?thesis by (rule half_up_error)
next
  case False
  then have "\<bar>half_up n (- x) - (- x)\<bar> \<le> 1 / (2 * 10 ^ n)" by (intro half_up_error) simp
  then show ?thesis by (simp add: half_up_uminus abs_minus_commute)
qed

lemma sig20_error: "\<bar>sig20 x - x\<bar> \<le> \<bar>x\<bar> / 10 ^ 19"
proof (cases "x = 0")
  case True
  then show ?thesis by (simp add: sig20_def)
next
  case False
  let ?u = "(10::rat) powi last_digit x"
  have u: "0 < ?u" by simp
  have "sig20 x - x = (half_up 0 (x / ?u) - x / ?u) * ?u"
    using u by (simp add: sig20_def left_diff_distrib)
  then have "\<bar>sig20 x - x\<bar> = \<bar>half_up 0 (x / ?u) - x / ?u\<bar> * ?u"
    using u by (simp add: abs_mult)
  also have "\<dots> \<le> 1 * ?u"
    using half_up_error_abs [of 0 "x / ?u"] u by (intro mult_right_mono) (auto intro: order_trans)
  also have "\<dots> \<le> \<bar>x\<bar> / 10 ^ 19" using last_digit_range(1) [OF False] by (simp add: field_simps)
  finally show ?thesis .
qed

lemma powi_nat_int: "(10::rat) powi e = of_int (10 ^ nat e)" if "0 \<le> e"
  using that by (simp add: power_int_def)

lemma sig20_exact:
  assumes m: "x * 10 ^ k = of_int m" "\<bar>m\<bar> < 10 ^ 20"
  shows "sig20 x = x"
proof (cases "x = 0")
  case True
  then show ?thesis by (simp add: sig20_def)
next
  case False
  let ?e = "last_digit x"
  have pos: "(0::rat) < 10 powi ?e" by simp
  have "?e + int k \<le> 0"
  proof (rule ccontr)
    assume "\<not> ?e + int k \<le> 0"
    then have "(10::rat) powi 1 \<le> 10 powi (?e + int k)" by (intro power_int_increasing) auto
    then have "10 * 10 ^ 19 \<le> (10::rat) powi ?e * 10 ^ 19 * 10 ^ k" by (simp add: power_int_add mult.commute)
    also have "\<dots> \<le> \<bar>x\<bar> * 10 ^ k" by (intro mult_right_mono last_digit_range(1) [OF False]) simp
    also have "\<dots> = \<bar>of_int m\<bar>" by (simp flip: m(1) add: abs_mult)
    finally have "(of_int (10 ^ 20) :: rat) \<le> of_int \<bar>m\<bar>" by simp
    then have "10 ^ 20 \<le> \<bar>m\<bar>" by (simp only: of_int_le_iff)
    with m(2) show False by simp
  qed
  then have "0 \<le> - ?e - int k" by simp
  have "x / 10 powi ?e = x * 10 ^ k * 10 powi (- ?e - int k)"
    by (simp add: power_int_diff power_int_minus field_simps)
  also have "\<dots> = of_int (m * 10 ^ nat (- ?e - int k))"
    unfolding m(1) powi_nat_int [OF \<open>0 \<le> - ?e - int k\<close>] by simp
  finally have "half_up 0 (x / 10 powi ?e) = x / 10 powi ?e"
    by (intro half_up_fixed) simp
  then show ?thesis using pos by (simp add: sig20_def)
qed

lemma sig20_mono_pos:
  assumes "0 < x" "x \<le> y"
  shows "sig20 x \<le> sig20 y"
proof -
  let ?u = "(10::rat) powi last_digit x" and ?v = "(10::rat) powi last_digit y"
  have y: "0 < y" using assms by simp
  have e: "last_digit x \<le> last_digit y" using assms by (intro last_digit_mono) auto
  show ?thesis
  proof (cases "last_digit x = last_digit y")
    case True
    have "half_up 0 (x / ?u) \<le> half_up 0 (y / ?u)"
      using assms by (intro half_up_mono divide_right_mono) auto
    then show ?thesis using True by (simp add: sig20_def mult_right_mono)
  next
    case False
    have hx: "half_up 0 (x / ?u) \<le> half_up 0 (10 ^ 20)"
      using assms(1) last_digit_range(2) [of x] by (intro half_up_mono) (auto simp: field_simps)
    have hy: "half_up 0 (10 ^ 19) \<le> half_up 0 (y / ?v)"
      using y last_digit_range(1) [of y] by (intro half_up_mono) (auto simp: field_simps)
    have fix20: "half_up 0 (10 ^ 20) = 10 ^ 20" "half_up 0 (10 ^ 19) = 10 ^ 19"
      by (rule half_up_fixed, simp)+
    have "sig20 x \<le> 10 ^ 20 * ?u"
      unfolding sig20_def using hx unfolding fix20 by (intro mult_right_mono) auto
    also have "\<dots> = 10 ^ 19 * 10 powi (last_digit x + 1)" by (simp add: power_int_add)
    also have "\<dots> \<le> 10 ^ 19 * ?v"
      using e False by (intro mult_left_mono power_int_increasing) auto
    also have "\<dots> \<le> sig20 y"
      unfolding sig20_def using hy unfolding fix20 by (intro mult_right_mono) auto
    finally show ?thesis .
  qed
qed

lemma sig20_nonneg: "0 \<le> x \<Longrightarrow> 0 \<le> sig20 x"
  by (auto simp: sig20_def intro!: mult_nonneg_nonneg half_up_ge_0)

lemma sig20_mono:
  assumes "x \<le> y"
  shows "sig20 x \<le> sig20 y"
proof -
  consider "0 < x" | "x \<le> 0" "0 \<le> y" | "y < 0" by linarith
  then show ?thesis
  proof cases
    case 1
    then show ?thesis using assms by (rule sig20_mono_pos)
  next
    case 2
    have "0 \<le> sig20 (- x)" using 2 by (intro sig20_nonneg) simp
    then show ?thesis using sig20_nonneg [of y] 2 by (simp add: sig20_uminus)
  next
    case 3
    then have "sig20 (- y) \<le> sig20 (- x)" using assms by (intro sig20_mono_pos) auto
    then show ?thesis by (simp add: sig20_uminus)
  qed
qed

lemma sig20_digits:
  assumes "1 / 10 ^ 40 \<le> \<bar>x\<bar>"
  shows "sig20 x * 10 ^ 60 \<in> \<int>"
proof -
  let ?e = "last_digit x"
  have x: "x \<noteq> 0" using assms by auto
  have "0 \<le> ?e + 60"
  proof (rule ccontr)
    assume "\<not> 0 \<le> ?e + 60"
    then have "(10::rat) powi (?e + 60) \<le> 10 powi (- 1)" by (intro power_int_increasing) auto
    then have "(10::rat) powi ?e * 10 ^ 60 \<le> 1 / 10" by (simp add: power_int_add power_int_minus)
    then have "(10::rat) powi ?e * 10 ^ 20 \<le> 1 / 10 ^ 41" by simp
    with last_digit_range(2) [OF x] have "\<bar>x\<bar> < 1 / 10 ^ 41" by linarith
    with assms show False by simp
  qed
  then have "(10::rat) powi ?e * 10 ^ 60 = of_int (10 ^ nat (?e + 60))"
    using powi_nat_int [of "?e + 60"] by (simp add: power_int_add)
  moreover have "half_up 0 (x / 10 powi ?e) \<in> \<int>" using half_up_grid [of 0] by simp
  ultimately show ?thesis
    unfolding sig20_def mult.assoc by (metis Ints_mult Ints_of_int)
qed

interpretation decimal20: decimal_laws decimal20
proof
  fix x y :: rat and k :: nat and m n :: int
  show "\<bar>prec decimal20 x - x\<bar> \<le> \<bar>x\<bar> / 10 ^ 19"
    by (simp only: decimal20_def decimal_js.simps sig20_error)
  show "prec decimal20 x = x" if "x * 10 ^ k = of_int m" "\<bar>m\<bar> < 10 ^ 20"
    using sig20_exact [OF that] by (simp add: decimal20_def)
  show "prec decimal20 x \<le> prec decimal20 y" if "x \<le> y"
    using sig20_mono [OF that] by (simp add: decimal20_def)
  show "prec decimal20 x * 10 ^ 60 \<in> \<int>" if "1 / 10 ^ 40 \<le> \<bar>x\<bar>"
    using sig20_digits [OF that] by (simp add: decimal20_def)
  show "dbl decimal20 (of_int n) = of_int n" if "\<bar>n\<bar> \<le> 2 ^ 53"
    by (simp add: decimal20_def)
  show "dbl decimal20 x \<le> dbl decimal20 y" if "x \<le> y"
    using that by (simp add: decimal20_def)
  show "0 < dbl decimal20 x" if "1 / 10 ^ 60 \<le> x"
    using that less_le_trans [of 0 "1 / 10 ^ 60 :: rat" x] by (simp add: decimal20_def)
qed

end
