(* ===== verification/Store.thy ===== *)
theory Store
  imports Money "HOL-Library.List_Lexorder" "HOL-Library.Char_ord"
begin

text \<open>
  The tables the stock code works on (\<open>prisma/schema.prisma\<close> and its migrations): products, stock
  lots, lot consumptions, the movement ledger and the order items, one record field per table.
  Writers return the new store; a write that breaks a \<open>CHECK\<close> of the products table is the error
  the database raises, and the transaction is then rolled back, so no store is returned. The keys
  the database generates are natural numbers in the order of creation. Display columns (titles,
  notes, the acting user) are left out.
\<close>

record product_row =
  pr_stockOnHand :: int
  pr_stockReserved :: int
  pr_soldCount :: int
  pr_lowStockThreshold :: "int option"
  pr_trackInventory :: bool
  pr_allowBackorder :: bool
  pr_price :: money
  pr_costPrice :: "money option"
  pr_initialCopies :: "int option"
  pr_deletedAt :: "time option"

datatype lot_source = LotOpening | LotPurchase | LotRestock | LotReturn | LotAdjust

record lot =
  lot_id :: nat
  lot_productId :: id
  lot_source :: lot_source
  lot_unitCost :: "money option"
  lot_salePrice :: "money option"
  lot_qtyIn :: int
  lot_qtyLeft :: int
  lot_purchaseId :: "id option"
  lot_receivedAt :: time
  lot_createdAt :: time

record lot_use =
  us_id :: nat
  us_lotId :: nat
  us_productId :: id
  us_orderId :: "id option"
  us_qty :: int
  us_unitCost :: "money option"
  us_returned :: int
  us_createdAt :: time

datatype movement_type =
    OPENING | PURCHASE_RECEIPT | ORDER_RESERVE | ORDER_RELEASE | ORDER_FULFILL
  | RETURN_RESTOCK | ADJUSTMENT | DAMAGE | WRITE_OFF

record movement =
  mv_productId :: id
  mv_type :: movement_type
  mv_qtyOnHandDelta :: int
  mv_qtyReservedDelta :: int
  mv_unitCost :: "money option"
  mv_balanceAfter :: int
  mv_orderId :: "id option"
  mv_purchaseId :: "id option"

record item_component =
  oc_productId :: id
  oc_quantity :: int
  oc_unitCost :: "money option"
  oc_allocatedRevenue :: money

record order_item =
  oi_orderId :: id
  oi_kind :: item_kind
  oi_productId :: "id option"
  oi_bundleId :: "id option"
  oi_quantity :: int
  oi_unitPrice :: money
  oi_listPrice :: money
  oi_unitCost :: "money option"
  oi_discount :: money
  oi_taxAmount :: money
  oi_lineTotal :: money
  oi_components :: "item_component list"

record store =
  st_now :: time
  st_nextId :: nat
  st_products :: "id \<Rightarrow> product_row option"
  st_lots :: "lot list"
  st_uses :: "lot_use list"
  st_moves :: "movement list"
  st_items :: "order_item list"

section \<open>Writing the tables\<close>

text \<open>The constraints of the products table on the two stock columns, in the order they are tested.\<close>

definition products_reserved_lte_hand :: "product_row \<Rightarrow> bool" where
  "products_reserved_lte_hand r \<longleftrightarrow> pr_allowBackorder r \<or> pr_stockReserved r \<le> pr_stockOnHand r"

definition products_stock_nonneg :: "product_row \<Rightarrow> bool" where
  "products_stock_nonneg r \<longleftrightarrow> 0 \<le> pr_stockOnHand r \<and> 0 \<le> pr_stockReserved r"

definition put_product :: "id \<Rightarrow> product_row \<Rightarrow> 'a store_scheme \<Rightarrow> ('a store_scheme) result" where
  "put_product p r s =
     (if \<not> products_reserved_lte_hand r then Inl (CheckViolation ''products_reserved_lte_hand'')
      else if \<not> products_stock_nonneg r then Inl (CheckViolation ''products_stock_nonneg'')
      else Inr (s\<lparr>st_products := (st_products s)(p \<mapsto> r)\<rparr>))"

definition set_cost :: "id \<Rightarrow> money \<Rightarrow> 'a store_scheme \<Rightarrow> 'a store_scheme" where
  "set_cost p c s = s\<lparr>st_products := (st_products s)(p := map_option (\<lambda>r. r\<lparr>pr_costPrice := Some c\<rparr>) (st_products s p))\<rparr>"

definition set_left :: "nat \<Rightarrow> (lot \<Rightarrow> int) \<Rightarrow> 'a store_scheme \<Rightarrow> 'a store_scheme" where
  "set_left i f s = s\<lparr>st_lots := map (\<lambda>l. if lot_id l = i then l\<lparr>lot_qtyLeft := f l\<rparr> else l) (st_lots s)\<rparr>"

definition add_returned :: "nat \<Rightarrow> int \<Rightarrow> 'a store_scheme \<Rightarrow> 'a store_scheme" where
  "add_returned i back s =
     s\<lparr>st_uses := map (\<lambda>u. if us_id u = i then u\<lparr>us_returned := us_returned u + back\<rparr> else u) (st_uses s)\<rparr>"

definition new_lot ::
  "id \<Rightarrow> lot_source \<Rightarrow> int \<Rightarrow> money option \<Rightarrow> money option \<Rightarrow> id option \<Rightarrow> time option \<Rightarrow> 'a store_scheme \<Rightarrow> nat \<times> 'a store_scheme" where
  "new_lot p src qty cost sale purchase receivedAt s =
     (st_nextId s,
      s\<lparr>st_nextId := Suc (st_nextId s),
        st_lots := st_lots s @ [\<lparr>lot_id = st_nextId s, lot_productId = p, lot_source = src, lot_unitCost = cost,
          lot_salePrice = sale, lot_qtyIn = qty, lot_qtyLeft = qty, lot_purchaseId = purchase,
          lot_receivedAt = (case receivedAt of None \<Rightarrow> st_now s | Some t \<Rightarrow> t), lot_createdAt = st_now s\<rparr>]\<rparr>)"

definition new_use :: "nat \<Rightarrow> id \<Rightarrow> id \<Rightarrow> int \<Rightarrow> money option \<Rightarrow> 'a store_scheme \<Rightarrow> 'a store_scheme" where
  "new_use lot p ord qty cost s =
     s\<lparr>st_nextId := Suc (st_nextId s),
       st_uses := st_uses s @ [\<lparr>us_id = st_nextId s, us_lotId = lot, us_productId = p, us_orderId = Some ord,
         us_qty = qty, us_unitCost = cost, us_returned = 0, us_createdAt = st_now s\<rparr>]\<rparr>"

lemmas store_writers = set_cost_def set_left_def add_returned_def new_lot_def new_use_def

section \<open>What the tables say about a product\<close>

definition on_hand :: "'a store_scheme \<Rightarrow> id \<Rightarrow> int" where
  "on_hand s p = (case st_products s p of None \<Rightarrow> 0 | Some r \<Rightarrow> pr_stockOnHand r)"

definition reserved :: "'a store_scheme \<Rightarrow> id \<Rightarrow> int" where
  "reserved s p = (case st_products s p of None \<Rightarrow> 0 | Some r \<Rightarrow> pr_stockReserved r)"

definition lots_left :: "'a store_scheme \<Rightarrow> id \<Rightarrow> int" where
  "lots_left s p = sum_list (map lot_qtyLeft (filter (\<lambda>l. lot_productId l = p) (st_lots s)))"

definition outstanding :: "'a store_scheme \<Rightarrow> nat \<Rightarrow> int" where
  "outstanding s i = sum_list (map (\<lambda>u. us_qty u - us_returned u) (filter (\<lambda>u. us_lotId u = i) (st_uses s)))"

definition ledger :: "'a store_scheme \<Rightarrow> id \<Rightarrow> int" where
  "ledger s p = sum_list (map mv_qtyOnHandDelta (filter (\<lambda>m. mv_productId m = p) (st_moves s)))"

text \<open>
  The batches are sound: what a lot still has and what orders took from it and did not bring back
  never exceed what came in; every consumption belongs to a lot of its product. This implies the
  constraints \<open>stock_lots_qty_chk\<close> and \<open>stock_lot_consumptions_qty_chk\<close>.
\<close>

definition use_ok :: "lot list \<Rightarrow> nat \<Rightarrow> lot_use \<Rightarrow> bool" where
  "use_ok lots n u \<longleftrightarrow> us_id u < n \<and> 0 < us_qty u \<and> 0 \<le> us_returned u \<and> us_returned u \<le> us_qty u \<and>
     (\<exists>l \<in> set lots. lot_id l = us_lotId u \<and> lot_productId l = us_productId u)"

definition lots_ok :: "'a store_scheme \<Rightarrow> bool" where
  "lots_ok s \<longleftrightarrow>
     distinct (map lot_id (st_lots s)) \<and> distinct (map us_id (st_uses s)) \<and>
     (\<forall>l \<in> set (st_lots s). lot_id l < st_nextId s \<and> 0 < lot_qtyIn l \<and> 0 \<le> lot_qtyLeft l \<and>
        lot_qtyLeft l + outstanding s (lot_id l) \<le> lot_qtyIn l) \<and>
     (\<forall>u \<in> set (st_uses s). use_ok (st_lots s) (st_nextId s) u)"

text \<open>The shelf: the batches of a product add up to its stock on hand.\<close>

definition shelf_ok :: "'a store_scheme \<Rightarrow> bool" where
  "shelf_ok s \<longleftrightarrow> lots_ok s \<and> (\<forall>p. st_products s p \<noteq> None \<longrightarrow> lots_left s p = on_hand s p)"

section \<open>Updating one row of a table\<close>

lemma sum_update_one:
  fixes g :: "'r \<Rightarrow> 'v::ab_group_add"
  assumes "distinct (map k xs)" "x \<in> set xs" and keep: "\<And>y. P (f y) = P y"
  shows "sum_list (map g (filter P (map (\<lambda>y. if k y = k x then f y else y) xs))) =
    sum_list (map g (filter P xs)) + (if P x then g (f x) - g x else 0)"
  using assms(1,2)
proof (induction xs)
  case Nil
  then show ?case by simp
next
  case (Cons y ys)
  show ?case
  proof (cases "y = x")
    case True
    with Cons.prems(1) have "map (\<lambda>y. if k y = k x then f y else y) ys = ys"
      by (intro map_idI) (auto simp: image_iff)
    with True show ?thesis by (auto simp: keep)
  next
    case False
    with Cons.prems have "x \<in> set ys" by simp
    with Cons.prems(1) have "k y \<noteq> k x" by (auto simp: image_iff)
    with Cons \<open>x \<in> set ys\<close> show ?thesis by (auto simp: algebra_simps)
  qed
qed

lemma map_key_update: "(\<And>y. k (f y) = k y) \<Longrightarrow> map k (map (\<lambda>y. if k y = i then f y else y) xs) = map k xs"
  by simp

lemma lots_left_set_left:
  assumes "lots_ok s" "l \<in> set (st_lots s)"
  shows "lots_left (set_left (lot_id l) f s) p =
    lots_left s p + (if lot_productId l = p then f l - lot_qtyLeft l else 0)"
  unfolding lots_left_def set_left_def using assms
  by (simp add: lots_ok_def sum_update_one [where k = lot_id and f = "\<lambda>l. l\<lparr>lot_qtyLeft := f l\<rparr>"])

lemma outstanding_set_left [simp]: "outstanding (set_left i f s) j = outstanding s j"
  by (simp add: outstanding_def set_left_def)

lemma outstanding_nonneg:
  assumes "lots_ok s"
  shows "0 \<le> outstanding s i"
  unfolding outstanding_def
  by (rule sum_list_nonneg) (use assms in \<open>auto simp: lots_ok_def use_ok_def\<close>)

lemma outstanding_new_use:
  "outstanding (new_use i p ord q c s) j = outstanding s j + (if i = j then q else 0)"
  by (simp add: outstanding_def new_use_def)

lemma outstanding_add_returned:
  assumes "lots_ok s" "u \<in> set (st_uses s)"
  shows "outstanding (add_returned (us_id u) b s) j = outstanding s j - (if us_lotId u = j then b else 0)"
  unfolding outstanding_def add_returned_def using assms
  by (simp add: lots_ok_def sum_update_one [where k = us_id and f = "\<lambda>u. u\<lparr>us_returned := us_returned u + b\<rparr>"])

text \<open>Three shapes of change keep the batches sound.\<close>

lemma set_left_lots:
  "st_lots (set_left i f s) = map (\<lambda>l. if lot_id l = i then l\<lparr>lot_qtyLeft := f l\<rparr> else l) (st_lots s)"
  by (simp add: set_left_def)

lemma use_ok_set_left [simp]: "use_ok (st_lots (set_left i f s)) n u \<longleftrightarrow> use_ok (st_lots s) n u"
  unfolding use_ok_def set_left_lots set_map bex_simps by (simp add: if_distrib cong: if_cong)

lemma use_ok_Suc: "use_ok lots n u \<Longrightarrow> use_ok lots (Suc n) u"
  by (simp add: use_ok_def)

lemma lots_ok_take:
  assumes "lots_ok s" "l \<in> set (st_lots s)" "0 < t" "t \<le> lot_qtyLeft l"
  shows "lots_ok (set_left (lot_id l) (\<lambda>l. lot_qtyLeft l - t) s)"
    and "lots_ok (new_use (lot_id l) (lot_productId l) ord t c (set_left (lot_id l) (\<lambda>l. lot_qtyLeft l - t) s))"
proof -
  let ?s = "set_left (lot_id l) (\<lambda>l. lot_qtyLeft l - t) s"
  have uniq: "x = l" if "x \<in> set (st_lots s)" "lot_id x = lot_id l" for x
    using assms(1,2) that by (auto simp: lots_ok_def distinct_map inj_on_def)
  have row: "lot_id x < st_nextId s \<and> 0 < lot_qtyIn x \<and> 0 \<le> lot_qtyLeft x \<and>
      lot_qtyLeft x + outstanding s (lot_id x) + (if lot_id x = lot_id l then t else 0) \<le> lot_qtyIn x"
    if "x \<in> set (st_lots ?s)" for x
  proof -
    from that obtain y where y: "y \<in> set (st_lots s)"
      "x = (if lot_id y = lot_id l then y\<lparr>lot_qtyLeft := lot_qtyLeft y - t\<rparr> else y)"
      by (auto simp: set_left_lots)
    then show ?thesis using assms uniq [of y] by (auto simp: lots_ok_def)
  qed
  have use: "use_ok (st_lots ?s) n u" if "use_ok (st_lots s) n u" for n u
    using that by simp
  have rest: "distinct (map lot_id (st_lots ?s))" "st_uses ?s = st_uses s" "st_nextId ?s = st_nextId s"
    using assms(1) by (auto simp: set_left_def lots_ok_def comp_def if_distrib cong: if_cong)
  show "lots_ok ?s"
    unfolding lots_ok_def rest
    using row use rest(1) assms(1,3) by (fastforce simp: lots_ok_def split: if_splits)
  have "l\<lparr>lot_qtyLeft := lot_qtyLeft l - t\<rparr> \<in> set (st_lots ?s)"
    using assms(2) by (force simp: set_left_lots)
  then have "\<exists>x \<in> set (st_lots ?s). lot_id x = lot_id l \<and> lot_productId x = lot_productId l" by (intro bexI) auto
  moreover have "use_ok (st_lots ?s) (Suc (st_nextId s)) u" if "u \<in> set (st_uses s)" for u
    using that assms(1) by (auto simp: lots_ok_def intro: use_ok_Suc)
  moreover have "st_nextId s \<notin> us_id ` set (st_uses s)"
    using assms(1) by (auto simp: lots_ok_def use_ok_def)
  ultimately show "lots_ok (new_use (lot_id l) (lot_productId l) ord t c ?s)"
    unfolding lots_ok_def outstanding_new_use outstanding_set_left
    using row rest assms(1,3)
    by (fastforce simp: new_use_def lots_ok_def use_ok_def less_Suc_eq split: if_splits)
qed

lemma lots_ok_give:
  assumes "lots_ok s" "u \<in> set (st_uses s)" "l \<in> set (st_lots s)" "lot_id l = us_lotId u"
    and "0 < b" "b \<le> us_qty u - us_returned u"
  shows "min (lot_qtyLeft l + b) (lot_qtyIn l) = lot_qtyLeft l + b"
    and "lots_ok (set_left (us_lotId u) (\<lambda>l. min (lot_qtyLeft l + b) (lot_qtyIn l)) (add_returned (us_id u) b s))"
proof -
  let ?s = "set_left (us_lotId u) (\<lambda>l. min (lot_qtyLeft l + b) (lot_qtyIn l)) (add_returned (us_id u) b s)"
  have uniq: "x = l" if "x \<in> set (st_lots s)" "lot_id x = us_lotId u" for x
    using assms(1,3,4) that by (auto simp: lots_ok_def distinct_map inj_on_def)
  have out: "us_qty u - us_returned u \<le> outstanding s (us_lotId u)"
    unfolding outstanding_def
    by (intro sum_list_member_le) (use assms(1,2) in \<open>auto simp: lots_ok_def use_ok_def\<close>)
  have l: "lot_qtyLeft l + outstanding s (us_lotId u) \<le> lot_qtyIn l" "0 \<le> lot_qtyLeft l"
    using assms(1,3,4) by (auto simp: lots_ok_def)
  show m: "min (lot_qtyLeft l + b) (lot_qtyIn l) = lot_qtyLeft l + b"
    using l out assms(6) by simp
  have row: "lot_id x < st_nextId s \<and> 0 < lot_qtyIn x \<and> 0 \<le> lot_qtyLeft x \<and>
      lot_qtyLeft x + outstanding (add_returned (us_id u) b s) (lot_id x) \<le> lot_qtyIn x"
    if "x \<in> set (st_lots ?s)" for x
  proof -
    from that obtain y where y: "y \<in> set (st_lots s)"
      "x = (if lot_id y = us_lotId u then y\<lparr>lot_qtyLeft := min (lot_qtyLeft y + b) (lot_qtyIn y)\<rparr> else y)"
      by (auto simp: set_left_lots add_returned_def)
    then show ?thesis
      using assms(1,5) uniq [of y] m l by (auto simp: lots_ok_def outstanding_add_returned [OF assms(1,2)])
  qed
  have uses: "use_ok (st_lots ?s) (st_nextId s) x" if "x \<in> set (st_uses ?s)" for x
  proof -
    from that obtain y where y: "y \<in> set (st_uses s)"
      "x = (if us_id y = us_id u then y\<lparr>us_returned := us_returned y + b\<rparr> else y)"
      by (auto simp: set_left_def add_returned_def)
    have "us_id y = us_id u \<Longrightarrow> y = u"
      using assms(1,2) y(1) by (auto simp: lots_ok_def distinct_map inj_on_def)
    moreover have "use_ok (st_lots s) (st_nextId s) y" using y(1) assms(1) by (auto simp: lots_ok_def)
    ultimately have "use_ok (st_lots s) (st_nextId s) x"
      using y(2) assms(5,6) by (auto simp: use_ok_def)
    then show ?thesis by (simp add: add_returned_def)
  qed
  have "distinct (map lot_id (st_lots ?s))" "distinct (map us_id (st_uses ?s))" "st_nextId ?s = st_nextId s"
    using assms(1) by (auto simp: set_left_def add_returned_def lots_ok_def comp_def if_distrib cong: if_cong)
  then show "lots_ok ?s"
    unfolding lots_ok_def outstanding_set_left using row uses by auto
qed

lemma lots_ok_new_lot:
  assumes "lots_ok s" "0 < q" "new_lot p src q c sp pu rt s = (i, s')"
  shows "lots_ok s'" "lots_left s' p' = lots_left s p' + (if p = p' then q else 0)"
proof -
  have fresh: "outstanding s (st_nextId s) = 0"
  proof -
    have "filter (\<lambda>u. us_lotId u = st_nextId s) (st_uses s) = []"
      using assms(1) by (fastforce simp: filter_empty_conv lots_ok_def use_ok_def)
    then show ?thesis by (simp add: outstanding_def)
  qed
  have "outstanding s' j = outstanding s j" for j using assms(3) by (auto simp: new_lot_def outstanding_def)
  moreover have "st_nextId s \<notin> lot_id ` set (st_lots s)" using assms(1) by (auto simp: lots_ok_def)
  ultimately show "lots_ok s'"
    using assms fresh by (fastforce simp: new_lot_def lots_ok_def use_ok_def less_Suc_eq)
  show "lots_left s' p' = lots_left s p' + (if p = p' then q else 0)"
    using assms(3) by (auto simp: new_lot_def lots_left_def)
qed

end
