(* ===== verification/Pricing.thy ===== *)
theory Pricing
  imports Money
begin

text \<open>
  The price rules of the catalogue: what a product costs now
  (\<open>catalog/domain/effective-price.ts\<close>), the badge, margin and bulk-edit arithmetic
  (\<open>catalog/domain/pricing.ts\<close>) and the storefront stock badge (\<open>catalog/domain/stock.ts\<close>).
\<close>

section \<open>Effective price\<close>

record deal_like =
  dl_dealPrice :: money
  dl_startsAt :: time
  dl_endsAt :: time
  dl_cancelledAt :: "time option"

record priced_like =
  pl_price :: money
  pl_compareAtPrice :: "money option"

record effective_price =
  ep_price :: money
  ep_compareAt :: "money option"
  ep_listPrice :: money
  ep_deal :: "time option"

definition deal_live :: "priced_like \<Rightarrow> time \<Rightarrow> deal_like \<Rightarrow> bool" where
  "deal_live p now d \<longleftrightarrow>
     dl_cancelledAt d = None \<and> dl_startsAt d \<le> now \<and> now < dl_endsAt d \<and> dl_dealPrice d < pl_price p"

definition effectivePrice :: "priced_like \<Rightarrow> deal_like list \<Rightarrow> time \<Rightarrow> effective_price" where
  "effectivePrice p deals now =
     (case sort_key dl_dealPrice (filter (deal_live p now) deals) of
        live # _ \<Rightarrow>
          \<lparr>ep_price = dl_dealPrice live, ep_compareAt = Some (pl_price p), ep_listPrice = pl_price p,
           ep_deal = Some (dl_endsAt live)\<rparr>
      | [] \<Rightarrow>
          \<lparr>ep_price = pl_price p,
           ep_compareAt = (case pl_compareAtPrice p of
                             Some c \<Rightarrow> if c > pl_price p then Some c else None
                           | None \<Rightarrow> None),
           ep_listPrice = pl_price p, ep_deal = None\<rparr>)"

text \<open>\<open>liveDealsWhere\<close>: the query that feeds the deals in keeps those that may be live.\<close>

definition liveDealsWhere :: "time \<Rightarrow> deal_like \<Rightarrow> bool" where
  "liveDealsWhere now d \<longleftrightarrow> dl_cancelledAt d = None \<and> dl_startsAt d \<le> now \<and> dl_endsAt d > now"

section \<open>Badges, margins, bulk edits\<close>

definition PRICE_STEP :: rat where
  "PRICE_STEP = 5"

definition discountPct :: "decimal_js \<Rightarrow> rat \<Rightarrow> rat option \<Rightarrow> rat" where
  "discountPct J price compareAt =
     (case compareAt of
        None \<Rightarrow> 0
      | Some old \<Rightarrow>
          if old \<le> 0 \<or> old \<le> price then 0
          else half_up 0 ((1 - d_div J price old) * 100))"

record offer = effective_price +
  of_discountPct :: rat

definition offerOf :: "decimal_js \<Rightarrow> priced_like \<Rightarrow> deal_like list \<Rightarrow> time \<Rightarrow> offer" where
  "offerOf J p deals now =
     (let e = effectivePrice p deals now
      in \<lparr>ep_price = ep_price e, ep_compareAt = ep_compareAt e, ep_listPrice = ep_listPrice e,
          ep_deal = ep_deal e, of_discountPct = discountPct J (ep_price e) (ep_compareAt e)\<rparr>)"

definition marginPct :: "decimal_js \<Rightarrow> rat \<Rightarrow> rat option \<Rightarrow> rat option" where
  "marginPct J price cost =
     (case cost of
        None \<Rightarrow> None
      | Some c \<Rightarrow>
          if \<not> price > 0 \<or> \<not> c > 0 then None
          else Some (half_up 0 (d_div J (price - c) price * 100)))"

datatype direction = Up | Down

definition bulkAdjustedPrice :: "decimal_js \<Rightarrow> rat \<Rightarrow> rat \<Rightarrow> direction \<Rightarrow> rat" where
  "bulkAdjustedPrice J price percent dir =
     (let factor = d_div J (100 + (if dir = Up then percent else - percent)) 100
      in dec_max PRICE_STEP (roundTo J (d_times J price factor) PRICE_STEP))"

definition compareAtForDiscount :: "decimal_js \<Rightarrow> rat \<Rightarrow> rat \<Rightarrow> rat option" where
  "compareAtForDiscount J price percent =
     (if \<not> (percent > 0 \<and> percent < 100) then None
      else let old = half_up 0 (d_div J price (1 - d_div J percent 100))
           in if old > price then Some old else None)"

definition normaliseCompareAt :: "rat \<Rightarrow> rat option \<Rightarrow> rat option" where
  "normaliseCompareAt price compareAt =
     (case compareAt of None \<Rightarrow> None | Some c \<Rightarrow> if c > price then Some c else None)"

record bundle_line =
  bl_unitPrice :: money
  bl_listPrice :: money
  bl_quantity :: int
  bl_inStock :: bool

record bundle_summary =
  bs_separatePrice :: money
  bs_compareAt :: money
  bs_saving :: money
  bs_savingPct :: rat
  bs_allInStock :: bool

definition bundleSummary :: "decimal_js \<Rightarrow> rat \<Rightarrow> rat option \<Rightarrow> bundle_line list \<Rightarrow> bundle_summary" where
  "bundleSummary J price compareAt lines =
     (let separatePrice = dec_sum (map (\<lambda>l. bl_unitPrice l * of_int (bl_quantity l)) lines);
          listTotal = dec_sum (map (\<lambda>l. bl_listPrice l * of_int (bl_quantity l)) lines);
          strike = (case compareAt of Some c \<Rightarrow> c | None \<Rightarrow> listTotal);
          saving = dec_max 0 (separatePrice - price);
          savingPct = (if separatePrice > 0 then half_up 0 (d_div J saving separatePrice * 100) else 0)
      in \<lparr>bs_separatePrice = separatePrice, bs_compareAt = strike, bs_saving = saving,
          bs_savingPct = savingPct, bs_allInStock = (lines \<noteq> [] \<and> list_all bl_inStock lines)\<rparr>)"

section \<open>The stock badge\<close>

definition DEFAULT_LOW_STOCK :: int where
  "DEFAULT_LOW_STOCK = 5"

datatype stock_status = StockIn | StockLow | StockOut

record stock_like =
  sl_trackInventory :: bool
  sl_allowBackorder :: bool
  sl_stockOnHand :: int
  sl_stockReserved :: int
  sl_lowStockThreshold :: "int option"

definition availableUnits :: "stock_like \<Rightarrow> int" where
  "availableUnits s = max 0 (sl_stockOnHand s - sl_stockReserved s)"

definition thresholdOf :: "stock_like \<Rightarrow> int \<Rightarrow> int" where
  "thresholdOf s fallback = (case sl_lowStockThreshold s of Some t \<Rightarrow> t | None \<Rightarrow> fallback)"

definition stockStatus :: "stock_like \<Rightarrow> int \<Rightarrow> stock_status" where
  "stockStatus s fallbackThreshold =
     (if \<not> sl_trackInventory s \<or> sl_allowBackorder s then StockIn
      else let available = availableUnits s
           in if available \<le> 0 then StockOut
              else if available \<le> thresholdOf s fallbackThreshold then StockLow else StockIn)"

record stock_transition =
  st_becameLow :: bool
  st_restocked :: bool

definition stockTransition :: "int \<Rightarrow> int \<Rightarrow> int \<Rightarrow> stock_transition" where
  "stockTransition before after threshold =
     \<lparr>st_becameLow = (before > threshold \<and> after \<le> threshold), st_restocked = (before \<le> 0 \<and> after > 0)\<rparr>"

section \<open>What they promise\<close>

lemma deal_live_where: "deal_live p now d \<Longrightarrow> liveDealsWhere now d"
  by (simp add: deal_live_def liveDealsWhere_def)

lemma sort_key_hd_least:
  fixes f :: "'a \<Rightarrow> 'k::linorder"
  assumes "sort_key f xs = x # ys"
  shows "x \<in> set xs" "y \<in> set xs \<Longrightarrow> f x \<le> f y"
proof -
  have set: "set xs = insert x (set ys)" using assms by (metis list.simps(15) set_sort)
  then show "x \<in> set xs" by simp
  have "sorted (map f (x # ys))" by (metis assms sorted_sort_key)
  then show "y \<in> set xs \<Longrightarrow> f x \<le> f y" using set by auto
qed

lemma sort_key_Nil_iff [simp]: "sort_key f xs = [] \<longleftrightarrow> xs = []"
  by (metis length_0_conv length_sort)

text \<open>The query's filter never hides a deal that would have won.\<close>

lemma effectivePrice_where:
  "effectivePrice p (filter (liveDealsWhere now) deals) now = effectivePrice p deals now"
proof -
  have "filter (deal_live p now) (filter (liveDealsWhere now) deals) = filter (deal_live p now) deals"
    by (auto simp: filter_filter intro!: filter_cong dest: deal_live_where)
  then show ?thesis by (simp add: effectivePrice_def)
qed

text \<open>
  One rule for the price: the customer pays the least of the regular price and the prices of
  the live deals below it. The struck-through price, when there is one, is higher than what is
  paid, and the regular price is recorded as the list price whatever deal applies.
\<close>

theorem effectivePrice_least:
  "ep_price (effectivePrice p deals now) =
     Min (insert (pl_price p) (dl_dealPrice ` {d \<in> set deals. deal_live p now d})) \<and>
   ep_listPrice (effectivePrice p deals now) = pl_price p \<and>
   pred_option ((<) (ep_price (effectivePrice p deals now))) (ep_compareAt (effectivePrice p deals now))"
proof -
  let ?live = "filter (deal_live p now) deals"
  have "ep_price (effectivePrice p deals now) = Min (insert (pl_price p) (dl_dealPrice ` set ?live)) \<and>
    ep_listPrice (effectivePrice p deals now) = pl_price p \<and>
    pred_option ((<) (ep_price (effectivePrice p deals now))) (ep_compareAt (effectivePrice p deals now))"
  proof (cases "sort_key dl_dealPrice ?live")
    case Nil
    then have "?live = []" by simp
    then have "{d \<in> set deals. deal_live p now d} = {}" by (metis empty_set set_filter)
    with Nil show ?thesis by (simp add: effectivePrice_def split: option.split)
  next
    case (Cons d ds)
    have d: "d \<in> set ?live" "\<And>e. e \<in> set ?live \<Longrightarrow> dl_dealPrice d \<le> dl_dealPrice e"
      using sort_key_hd_least [OF Cons] by auto
    have "Min (insert (pl_price p) (dl_dealPrice ` set ?live)) = dl_dealPrice d"
    proof (rule Min_eqI)
      show "dl_dealPrice d \<le> y" if "y \<in> insert (pl_price p) (dl_dealPrice ` set ?live)" for y
        using that d by (auto simp: deal_live_def)
      show "dl_dealPrice d \<in> insert (pl_price p) (dl_dealPrice ` set ?live)"
        using d(1) by (auto simp: image_iff)
    qed simp
    moreover have "dl_dealPrice d < pl_price p" using d(1) by (simp add: deal_live_def)
    ultimately show ?thesis using Cons by (simp add: effectivePrice_def)
  qed
  then show ?thesis unfolding set_filter .
qed

context decimal_laws
begin

text \<open>The badge shows a whole percentage between 0 and 100.\<close>

lemma d_div_le_1:
  assumes "0 \<le> a" "a \<le> b" "0 < b"
  shows "d_div J a b \<le> 1"
proof -
  have "a / b \<le> 1" using assms by simp
  then have "prec J (a / b) \<le> prec J 1" by (rule prec_mono)
  also have "prec J 1 = 1" by (rule prec_paisa) auto
  finally show ?thesis by (simp add: d_div_def)
qed

lemma half_up_pct:
  assumes "0 \<le> x" "x \<le> 1"
  shows "0 \<le> half_up 0 (x * 100)" "half_up 0 (x * 100) \<le> 100"
proof -
  show "0 \<le> half_up 0 (x * 100)" using assms by (intro half_up_ge_0) simp
  have "half_up 0 (x * 100) \<le> half_up 0 100" using assms by (intro half_up_mono) auto
  then show "half_up 0 (x * 100) \<le> 100" using half_up_fixed [of 100 0] by simp
qed

lemma discountPct_range:
  assumes "0 \<le> price"
  shows "0 \<le> discountPct J price c \<and> discountPct J price c \<le> 100"
proof (cases c)
  case None
  then show ?thesis by (simp add: discountPct_def)
next
  case (Some old)
  show ?thesis
  proof (cases "old \<le> 0 \<or> old \<le> price")
    case True
    with Some show ?thesis by (simp add: discountPct_def)
  next
    case False
    then have "d_div J price old \<le> 1" "0 \<le> d_div J price old"
      using assms by (auto intro: d_div_le_1 d_div_nonneg)
    then show ?thesis using half_up_pct [of "1 - d_div J price old"] Some False
      by (simp add: discountPct_def)
  qed
qed

lemma bundleSummary_pct_range:
  assumes "0 \<le> price"
  shows "0 \<le> bs_savingPct (bundleSummary J price c lines) \<and> bs_savingPct (bundleSummary J price c lines) \<le> 100"
proof -
  have "0 \<le> d_div J (max 0 (s - price)) s \<and> d_div J (max 0 (s - price)) s \<le> 1" if "0 < s" for s
    using assms that by (auto intro!: d_div_nonneg d_div_le_1)
  then show ?thesis using half_up_pct by (auto simp: bundleSummary_def Let_def)
qed

end

text \<open>
  The badge of any offer is a percentage from 0 to 100, and it is 0 whenever nothing is struck
  through, for every decimal library with the documented behaviour.
\<close>

theorem offer_badge_range:
  assumes "decimal_laws J" and "0 \<le> ep_price (effectivePrice p deals now)"
  shows "0 \<le> of_discountPct (offerOf J p deals now) \<and> of_discountPct (offerOf J p deals now) \<le> 100 \<and>
    (ep_compareAt (offerOf J p deals now) = None \<longrightarrow> of_discountPct (offerOf J p deals now) = 0)"
  using decimal_laws.discountPct_range [OF assms]
  by (simp_all add: offerOf_def Let_def discountPct_def)

theorem offer_badge_range_witness:
  "of_discountPct (offerOf decimal20 \<lparr>pl_price = 100, pl_compareAtPrice = Some 125\<rparr>
     [\<lparr>dl_dealPrice = 80, dl_startsAt = 0, dl_endsAt = 9, dl_cancelledAt = None\<rparr>] 5) \<le> 100"
proof -
  have "ep_price (effectivePrice \<lparr>pl_price = 100, pl_compareAtPrice = Some 125\<rparr>
     [\<lparr>dl_dealPrice = 80, dl_startsAt = 0, dl_endsAt = 9, dl_cancelledAt = None\<rparr>] 5) = 80"
    by (simp add: effectivePrice_def deal_live_def)
  then show ?thesis
    using offer_badge_range [OF decimal20.decimal_laws_axioms,
      of "\<lparr>pl_price = 100, pl_compareAtPrice = Some 125\<rparr>"
         "[\<lparr>dl_dealPrice = 80, dl_startsAt = 0, dl_endsAt = 9, dl_cancelledAt = None\<rparr>]" 5]
    by simp
qed

text \<open>
  A bulk price edit never sells below five taka and always lands on a multiple of five,
  whatever the price, the percentage and the direction.
\<close>

theorem bulkAdjustedPrice_grid:
  "PRICE_STEP \<le> bulkAdjustedPrice J price percent dir \<and>
   (\<exists>k :: int. bulkAdjustedPrice J price percent dir = of_int k * PRICE_STEP)"
proof -
  obtain k where "half_up 0 (d_div J (d_times J price (d_div J (100 + (if dir = Up then percent else - percent)) 100)) PRICE_STEP)
      = of_int k"
    using half_up_grid [of 0] by (metis Ints_cases mult.right_neutral power_0)
  then have "bulkAdjustedPrice J price percent dir = of_int 1 * PRICE_STEP \<or>
      bulkAdjustedPrice J price percent dir = of_int k * PRICE_STEP"
    by (simp add: bulkAdjustedPrice_def Let_def roundTo_def max_def)
  moreover have "PRICE_STEP \<le> bulkAdjustedPrice J price percent dir"
    by (simp add: bulkAdjustedPrice_def Let_def)
  ultimately show ?thesis by blast
qed

text \<open>A compare-at that is kept is above the price, which is the table's own constraint.\<close>

lemma compareAt_above:
  "pred_option ((<) price) (compareAtForDiscount J price percent)"
  "pred_option ((<) price) (normaliseCompareAt price c)"
  by (auto simp: compareAtForDiscount_def normaliseCompareAt_def Let_def split: option.splits)

text \<open>The badge says "out" exactly when a shopper cannot buy a single unit.\<close>

lemma stockStatus_out:
  "stockStatus s f = StockOut \<longleftrightarrow>
     sl_trackInventory s \<and> \<not> sl_allowBackorder s \<and> sl_stockOnHand s \<le> sl_stockReserved s"
  by (auto simp: stockStatus_def availableUnits_def Let_def)

end
