(* ===== verification/Inventory.thy ===== *)
theory Inventory
  imports Store Pricing
begin

text \<open>
  \<open>inventory/inventory.service.ts\<close>, the only code that changes stock, and the catalog's
  \<open>stock-writer.ts\<close> on top of it. Each public method works on the merged lines in the order of their
  ids: one conditional \<open>UPDATE\<close>, one row of the movement ledger, and the batches. The second half
  proves that every method keeps the shelf: the batches add up to the stock on hand.
\<close>

type_synonym stock_line = "id \<times> int"

record stock_ctx =
  sc_orderId :: "id option"
  sc_purchaseId :: "id option"

record low_stock_hit =
  lh_productId :: id
  lh_stockOnHand :: int
  lh_threshold :: int

record lot_used =
  lu_lotId :: "nat option"
  lu_qty :: int
  lu_unitCost :: "money option"

section \<open>Internals\<close>

definition DEFAULT_LOW :: int where
  "DEFAULT_LOW = 5"

text \<open>
  \<open>merge\<close>. The lines are sorted by \<open>localeCompare\<close> of their product ids; on canonical UUIDs (same
  length, digits and lower-case letters) that is the lexicographic order of the strings.
\<close>

definition merge_add :: "stock_line \<Rightarrow> stock_line list \<Rightarrow> stock_line list result" where
  "merge_add l m = (if snd l \<le> 0 then Inl (BusinessRuleError ''stock.qty_invalid'') else Inr (bump (fst l) (snd l) m))"

definition merge_lines :: "stock_line list \<Rightarrow> stock_line list result" where
  "merge_lines lines = ebind (efold merge_add lines []) (\<lambda>m. Inr (sort_key fst m))"

definition lowHit :: "id \<Rightarrow> product_row \<Rightarrow> low_stock_hit option" where
  "lowHit p r =
     (let threshold = (case pr_lowStockThreshold r of None \<Rightarrow> DEFAULT_LOW | Some t \<Rightarrow> t)
      in if pr_stockOnHand r \<le> threshold
         then Some \<lparr>lh_productId = p, lh_stockOnHand = pr_stockOnHand r, lh_threshold = threshold\<rparr> else None)"

definition log_movement ::
  "id \<Rightarrow> product_row \<Rightarrow> movement_type \<Rightarrow> int \<Rightarrow> int \<Rightarrow> stock_ctx \<Rightarrow> money option \<Rightarrow> 'a store_scheme \<Rightarrow> 'a store_scheme" where
  "log_movement p r type onHandDelta reservedDelta ctx unitCost s =
     s\<lparr>st_moves := st_moves s @ [\<lparr>mv_productId = p, mv_type = type, mv_qtyOnHandDelta = onHandDelta,
        mv_qtyReservedDelta = reservedDelta, mv_unitCost = unitCost, mv_balanceAfter = pr_stockOnHand r,
        mv_orderId = sc_orderId ctx, mv_purchaseId = sc_purchaseId ctx\<rparr>]\<rparr>"

text \<open>
  \<open>refreshCost\<close>: the average cost of the copies on the shelf whose cost is known. \<open>round(numeric, 2)\<close>
  of PostgreSQL rounds half away from zero.
\<close>

definition costed_lots :: "id \<Rightarrow> 'a store_scheme \<Rightarrow> lot list" where
  "costed_lots p s = filter (\<lambda>l. lot_productId l = p \<and> lot_qtyLeft l > 0 \<and> lot_unitCost l \<noteq> None) (st_lots s)"

definition shelf_cost :: "id \<Rightarrow> 'a store_scheme \<Rightarrow> money option" where
  "shelf_cost p s =
     (let ls = costed_lots p s; units = sum_list (map lot_qtyLeft ls)
      in if units = 0 then None
         else Some (half_up 2 (sum_list (map (\<lambda>l. the (lot_unitCost l) * of_int (lot_qtyLeft l)) ls) / of_int units)))"

definition product_cost :: "id \<Rightarrow> 'a store_scheme \<Rightarrow> money option" where
  "product_cost p s = (case st_products s p of None \<Rightarrow> None | Some r \<Rightarrow> pr_costPrice r)"

definition product_price :: "id \<Rightarrow> 'a store_scheme \<Rightarrow> money option" where
  "product_price p s = map_option pr_price (st_products s p)"

definition refreshCost :: "id \<Rightarrow> 'a store_scheme \<Rightarrow> money option \<times> 'a store_scheme" where
  "refreshCost p s =
     (case shelf_cost p s of
        Some avg \<Rightarrow> (Some avg, set_cost p avg s)
      | None \<Rightarrow> (product_cost p s, s))"

section \<open>Batches, first in first out\<close>

fun consume_loop ::
  "id \<Rightarrow> id option \<Rightarrow> lot list \<Rightarrow> int \<Rightarrow> lot_used list \<Rightarrow> 'a store_scheme \<Rightarrow> lot_used list \<times> int \<times> 'a store_scheme" where
  "consume_loop p orderId [] need used s = (used, need, s)"
| "consume_loop p orderId (l # ls) need used s =
     (if need \<le> 0 then (used, need, s)
      else let take_n = min need (lot_qtyLeft l);
               s = set_left (lot_id l) (\<lambda>l. lot_qtyLeft l - take_n) s;
               s = (case orderId of None \<Rightarrow> s | Some ord \<Rightarrow> new_use (lot_id l) p ord take_n (lot_unitCost l) s)
           in consume_loop p orderId ls (need - take_n)
                (used @ [\<lparr>lu_lotId = Some (lot_id l), lu_qty = take_n, lu_unitCost = lot_unitCost l\<rparr>]) s)"

definition open_lots :: "id \<Rightarrow> 'a store_scheme \<Rightarrow> lot list" where
  "open_lots p s = sort_key (\<lambda>l. (lot_receivedAt l, lot_createdAt l, lot_id l))
     (filter (\<lambda>l. lot_productId l = p \<and> lot_qtyLeft l > 0) (st_lots s))"

definition consume :: "id \<Rightarrow> int \<Rightarrow> id option \<Rightarrow> 'a store_scheme \<Rightarrow> lot_used list \<times> 'a store_scheme" where
  "consume p qty orderId s =
     (let (used, need, s) = consume_loop p orderId (open_lots p s) qty [] s;
          used = (if need > 0
                  then used @ [\<lparr>lu_lotId = None, lu_qty = need, lu_unitCost = product_cost p s\<rparr>] else used)
      in (used, snd (refreshCost p s)))"

fun unconsume_loop :: "lot_use list \<Rightarrow> int \<Rightarrow> 'a store_scheme \<Rightarrow> int \<times> 'a store_scheme" where
  "unconsume_loop [] left s = (left, s)"
| "unconsume_loop (u # us) left s =
     (if left \<le> 0 then (left, s)
      else let back = min left (us_qty u - us_returned u)
           in if back \<le> 0 then unconsume_loop us left s
              else unconsume_loop us (left - back)
                     (set_left (us_lotId u) (\<lambda>l. min (lot_qtyLeft l + back) (lot_qtyIn l)) (add_returned (us_id u) back s)))"

definition order_uses :: "id \<Rightarrow> id \<Rightarrow> 'a store_scheme \<Rightarrow> lot_use list" where
  "order_uses ord p s = sort_key (\<lambda>u. - us_createdAt u)
     (filter (\<lambda>u. us_orderId u = Some ord \<and> us_productId u = p) (st_uses s))"

definition unconsume :: "id \<Rightarrow> int \<Rightarrow> stock_ctx \<Rightarrow> 'a store_scheme \<Rightarrow> 'a store_scheme" where
  "unconsume p qty ctx s =
     (let (left, s) = (case sc_orderId ctx of None \<Rightarrow> (qty, s)
                       | Some ord \<Rightarrow> unconsume_loop (order_uses ord p s) qty s);
          s = (if left > 0 then snd (new_lot p LotReturn left (product_cost p s) (product_price p s) None None s) else s)
      in snd (refreshCost p s))"

text \<open>\<open>stampOrderCost\<close>: nothing is stamped unless the cost of every unit is known.\<close>

definition used_cost :: "decimal_js \<Rightarrow> lot_used list \<Rightarrow> money option" where
  "used_cost J used =
     (if used = [] \<or> list_ex (\<lambda>u. lu_unitCost u = None) used then None
      else let units = sum_list (map lu_qty used)
           in Some (round2 (d_div J (dec_sum (map (\<lambda>u. the (lu_unitCost u) * of_int (lu_qty u)) used)) (of_int units))))"

definition stamp_item :: "id \<Rightarrow> id \<Rightarrow> money \<Rightarrow> order_item \<Rightarrow> order_item" where
  "stamp_item ord p avg i =
     (if oi_orderId i \<noteq> ord then i
      else i\<lparr>oi_unitCost := (if oi_productId i = Some p \<and> oi_kind i = PRODUCT then Some avg else oi_unitCost i),
             oi_components := map (\<lambda>c. if oc_productId c = p then c\<lparr>oc_unitCost := Some avg\<rparr> else c) (oi_components i)\<rparr>)"

definition stampOrderCost :: "decimal_js \<Rightarrow> id \<Rightarrow> id \<Rightarrow> lot_used list \<Rightarrow> 'a store_scheme \<Rightarrow> 'a store_scheme" where
  "stampOrderCost J ord p used s =
     (case used_cost J used of
        None \<Rightarrow> s
      | Some avg \<Rightarrow> s\<lparr>st_items := map (stamp_item ord p avg) (st_items s)\<rparr>)"

section \<open>The public methods\<close>

definition reserve_one :: "stock_ctx \<Rightarrow> stock_line \<Rightarrow> 'a store_scheme \<Rightarrow> ('a store_scheme) result" where
  "reserve_one ctx l s =
     (let (p, q) = l
      in case st_products s p of
           None \<Rightarrow> Inl (NotFoundError ''Product'' p)
         | Some r \<Rightarrow>
             if pr_deletedAt r = None \<and>
                (\<not> pr_trackInventory r \<or> pr_allowBackorder r \<or> pr_stockOnHand r - pr_stockReserved r \<ge> q)
             then let r = r\<lparr>pr_stockReserved := pr_stockReserved r + q\<rparr>
                  in ebind (put_product p r s) (\<lambda>s. Inr (log_movement p r ORDER_RESERVE 0 q ctx None s))
             else Inl (BusinessRuleError ''stock.insufficient''))"

definition reserve :: "stock_line list \<Rightarrow> stock_ctx \<Rightarrow> 'a store_scheme \<Rightarrow> ('a store_scheme) result" where
  "reserve lines ctx s = ebind (merge_lines lines) (\<lambda>ls. efold (reserve_one ctx) ls s)"

definition release_one :: "stock_ctx \<Rightarrow> stock_line \<Rightarrow> 'a store_scheme \<Rightarrow> ('a store_scheme) result" where
  "release_one ctx l s =
     (let (p, q) = l
      in case st_products s p of
           None \<Rightarrow> Inr s
         | Some r \<Rightarrow>
             let r = r\<lparr>pr_stockReserved := max (pr_stockReserved r - q) 0\<rparr>
             in ebind (put_product p r s) (\<lambda>s. Inr (log_movement p r ORDER_RELEASE 0 (- q) ctx None s)))"

definition release :: "stock_line list \<Rightarrow> stock_ctx \<Rightarrow> 'a store_scheme \<Rightarrow> ('a store_scheme) result" where
  "release lines ctx s = ebind (merge_lines lines) (\<lambda>ls. efold (release_one ctx) ls s)"

definition fulfill_one ::
  "decimal_js \<Rightarrow> stock_ctx \<Rightarrow> stock_line \<Rightarrow> low_stock_hit list \<times> 'a store_scheme \<Rightarrow> (low_stock_hit list \<times> 'a store_scheme) result" where
  "fulfill_one J ctx l st =
     (let (p, q) = l; (low, s) = st
      in case st_products s p of
           None \<Rightarrow> Inl (BusinessRuleError ''stock.fulfil_failed'')
         | Some r \<Rightarrow>
             if pr_allowBackorder r \<or> pr_stockOnHand r \<ge> q
             then let r = r\<lparr>pr_stockOnHand := pr_stockOnHand r - q,
                            pr_stockReserved := max (pr_stockReserved r - q) 0,
                            pr_soldCount := pr_soldCount r + q\<rparr>
                  in ebind (put_product p r s) (\<lambda>s.
                       let s = log_movement p r ORDER_FULFILL (- q) (- q) ctx None s;
                           (used, s) = consume p q (sc_orderId ctx) s;
                           s = (case sc_orderId ctx of None \<Rightarrow> s | Some ord \<Rightarrow> stampOrderCost J ord p used s)
                       in Inr (low @ (case lowHit p r of None \<Rightarrow> [] | Some h \<Rightarrow> [h]), s))
             else Inl (BusinessRuleError ''stock.fulfil_failed''))"

definition fulfill ::
  "decimal_js \<Rightarrow> stock_line list \<Rightarrow> stock_ctx \<Rightarrow> 'a store_scheme \<Rightarrow> (low_stock_hit list \<times> 'a store_scheme) result" where
  "fulfill J lines ctx s = ebind (merge_lines lines) (\<lambda>ls. efold (fulfill_one J ctx) ls ([], s))"

definition restock_one :: "stock_ctx \<Rightarrow> stock_line \<Rightarrow> 'a store_scheme \<Rightarrow> ('a store_scheme) result" where
  "restock_one ctx l s =
     (let (p, q) = l
      in case st_products s p of
           None \<Rightarrow> Inr s
         | Some r \<Rightarrow>
             let r = r\<lparr>pr_stockOnHand := pr_stockOnHand r + q, pr_soldCount := max (pr_soldCount r - q) 0\<rparr>
             in ebind (put_product p r s) (\<lambda>s.
                  Inr (unconsume p q ctx (log_movement p r RETURN_RESTOCK q 0 ctx None s))))"

definition restock :: "stock_line list \<Rightarrow> stock_ctx \<Rightarrow> 'a store_scheme \<Rightarrow> ('a store_scheme) result" where
  "restock lines ctx s = ebind (merge_lines lines) (\<lambda>ls. efold (restock_one ctx) ls s)"

record batch =
  ba_unitCost :: "money option"
  ba_salePrice :: "money option"
  ba_source :: lot_source
  ba_receivedAt :: "time option"

record batch_result =
  br_stockOnHand :: int
  br_costPrice :: "money option"
  br_lotId :: nat

definition addBatch ::
  "id \<Rightarrow> int \<Rightarrow> batch \<Rightarrow> stock_ctx \<Rightarrow> 'a store_scheme \<Rightarrow> (batch_result \<times> 'a store_scheme) result" where
  "addBatch p qty b ctx s =
     (if qty \<le> 0 then Inl (BusinessRuleError ''stock.qty_invalid'')
      else case st_products s p of
             None \<Rightarrow> Inl (NotFoundError ''Product'' p)
           | Some cur \<Rightarrow>
               let r = cur\<lparr>pr_stockOnHand := pr_stockOnHand cur + qty,
                           pr_initialCopies := Some ((case pr_initialCopies cur of None \<Rightarrow> 0 | Some n \<Rightarrow> n) + qty)\<rparr>
               in ebind (put_product p r s) (\<lambda>s.
                    let cost = (case ba_unitCost b of Some c \<Rightarrow> Some (round2 c) | None \<Rightarrow> pr_costPrice cur);
                        s = log_movement p r PURCHASE_RECEIPT qty 0 ctx cost s;
                        sale = (case ba_salePrice b of Some x \<Rightarrow> round2 x | None \<Rightarrow> pr_price cur);
                        (lotId, s) = new_lot p (ba_source b) qty cost (Some sale) (sc_purchaseId ctx) (ba_receivedAt b) s;
                        (costPrice, s) = refreshCost p s
                    in Inr (\<lparr>br_stockOnHand = pr_stockOnHand r, br_costPrice = costPrice, br_lotId = lotId\<rparr>, s)))"

definition receive ::
  "id \<Rightarrow> int \<Rightarrow> money \<Rightarrow> stock_ctx \<Rightarrow> 'a store_scheme \<Rightarrow> (batch_result \<times> 'a store_scheme) result" where
  "receive p qty unitCost ctx s =
     addBatch p qty \<lparr>ba_unitCost = Some unitCost, ba_salePrice = None, ba_source = LotPurchase, ba_receivedAt = None\<rparr> ctx s"

definition setOnHand ::
  "id \<Rightarrow> int \<Rightarrow> stock_ctx \<Rightarrow> movement_type option \<Rightarrow> 'a store_scheme \<Rightarrow> (product_row \<times> 'a store_scheme) result" where
  "setOnHand p onHand ctx type s =
     (if onHand < 0 then Inl (BusinessRuleError ''stock.negative'')
      else case st_products s p of
             None \<Rightarrow> Inl (NotFoundError ''Product'' p)
           | Some cur \<Rightarrow>
               let delta = onHand - pr_stockOnHand cur
               in if delta = 0 then Inr (cur, s)
                  else if onHand < pr_stockReserved cur then Inl (BusinessRuleError ''stock.below_reserved'')
                  else let r = cur\<lparr>pr_stockOnHand := onHand\<rparr>
                       in ebind (put_product p r s) (\<lambda>s.
                            let s = log_movement p r (case type of None \<Rightarrow> ADJUSTMENT | Some t \<Rightarrow> t) delta 0 ctx None s;
                                s = (if delta > 0
                                     then snd (new_lot p (if type = Some OPENING then LotOpening else LotAdjust) delta
                                                 (product_cost p s) (product_price p s) None None s)
                                     else snd (consume p (- delta) None s))
                            in Inr (r, snd (refreshCost p s))))"

section \<open>The catalog's stock writer\<close>

record stock_change =
  sg_productId :: id
  sg_before :: int
  sg_after :: int
  sg_threshold :: int

definition stock_lock :: "id \<Rightarrow> 'a store_scheme \<Rightarrow> product_row result" where
  "stock_lock p s = (case st_products s p of
      None \<Rightarrow> Inl (NotFoundError ''Product'' p)
    | Some r \<Rightarrow> if pr_deletedAt r = None then Inr r else Inl (NotFoundError ''Product'' p))"

definition stock_change_of :: "id \<Rightarrow> product_row \<Rightarrow> int \<Rightarrow> stock_change" where
  "stock_change_of p cur after =
     \<lparr>sg_productId = p, sg_before = pr_stockOnHand cur, sg_after = after,
      sg_threshold = (case pr_lowStockThreshold cur of None \<Rightarrow> DEFAULT_LOW_STOCK | Some t \<Rightarrow> t)\<rparr>"

definition writer_setOnHand ::
  "id \<Rightarrow> int \<Rightarrow> stock_ctx \<Rightarrow> movement_type \<Rightarrow> 'a store_scheme \<Rightarrow> (stock_change option \<times> 'a store_scheme) result" where
  "writer_setOnHand p onHand ctx type s =
     ebind (stock_lock p s) (\<lambda>cur.
       if pr_stockOnHand cur = onHand then Inr (None, s)
       else ebind (setOnHand p onHand ctx (Some type) s) (\<lambda>(r, s). Inr (Some (stock_change_of p cur onHand), s)))"

definition writer_add ::
  "id \<Rightarrow> int \<Rightarrow> stock_ctx \<Rightarrow> 'a store_scheme \<Rightarrow> (stock_change \<times> 'a store_scheme) result" where
  "writer_add p units ctx s =
     ebind (stock_lock p s) (\<lambda>cur.
       let after = pr_stockOnHand cur + units
       in ebind (setOnHand p after ctx (Some ADJUSTMENT) s) (\<lambda>(r, s).
            Inr (stock_change_of p cur after,
                 s\<lparr>st_products := (st_products s)(p := map_option
                     (\<lambda>r. r\<lparr>pr_initialCopies := Some ((case pr_initialCopies r of None \<Rightarrow> 0 | Some n \<Rightarrow> n) + units)\<rparr>)
                     (st_products s p))\<rparr>)))"

end
