(* ===== verification/Stock_Laws.thy ===== *)
theory Stock_Laws
  imports Inventory
begin

text \<open>
  What \<open>inventory.service.ts\<close> promises: each method changes the stock columns by exactly the merged
  quantities, the batches always add up to the stock on hand, the ledger explains every change, and
  the batches are used first in, first out and restored by a return.
\<close>

section \<open>Merged lines\<close>

lemma distinct_map_mset: "mset xs = mset ys \<Longrightarrow> distinct (map f ys) \<Longrightarrow> distinct (map f xs)"
  by (metis mset_eq_imp_distinct_iff mset_map)

lemma sum_list_mset_cong:
  fixes f :: "'a \<Rightarrow> 'b::comm_monoid_add"
  shows "mset xs = mset ys \<Longrightarrow> sum_list (map f xs) = sum_list (map f ys)"
  by (metis mset_map sum_mset_sum_list)

definition units :: "stock_line list \<Rightarrow> id \<Rightarrow> int" where
  "units lines p = sum_list (map snd (filter (\<lambda>l. fst l = p) lines))"

lemma units_simps [simp]:
  "units [] p = 0" "units (l # ls) p = (if fst l = p then snd l else 0) + units ls p"
  "units (xs @ ys) p = units xs p + units ys p"
  by (simp_all add: units_def)

lemma units_notin: "p \<notin> fst ` set ls \<Longrightarrow> units ls p = 0"
  by (induction ls) auto

lemma merge_fold:
  "efold merge_add lines m =
     (if \<forall>l \<in> set lines. 0 < snd l then Inr (tally m lines) else Inl (BusinessRuleError ''stock.qty_invalid''))"
  by (induction lines arbitrary: m) (auto simp: merge_add_def)

lemma merge_lines_eq:
  "merge_lines lines =
     (if \<forall>l \<in> set lines. 0 < snd l then Inr (sort_key fst (tally [] lines))
      else Inl (BusinessRuleError ''stock.qty_invalid''))"
  by (simp add: merge_lines_def merge_fold)

lemma merge_linesD:
  assumes "merge_lines lines = Inr ls"
  shows "\<forall>l \<in> set lines. 0 < snd l" "distinct (map fst ls)" "\<And>p. units ls p = units lines p"
    "fst ` set ls = fst ` set lines" "\<And>p q. (p, q) \<in> set ls \<Longrightarrow> q = units lines p"
    "\<And>l. l \<in> set ls \<Longrightarrow> 0 < snd l"
proof -
  from assms show pos: "\<forall>l \<in> set lines. 0 < snd l" by (auto simp: merge_lines_eq split: if_splits)
  with assms have ls: "ls = sort_key fst (tally [] lines)" by (simp add: merge_lines_eq)
  have d: "distinct (map fst (tally [] lines))" by (simp add: distinct_tally)
  have perm: "mset ls = mset (tally [] lines)" by (simp add: ls)
  then show d': "distinct (map fst ls)"
    using d by (rule distinct_map_mset)
  have cnt: "count_of (tally [] lines) p = units lines p" for p by (simp add: count_of_tally units_def)
  have "units ls p = sum_mset (image_mset snd (filter_mset (\<lambda>l. fst l = p) (mset ls)))" for p
    by (simp add: units_def flip: mset_filter sum_mset_sum_list)
  also have "\<dots> p = units (tally [] lines) p" for p
    unfolding perm by (simp add: units_def flip: mset_filter sum_mset_sum_list)
  finally show "units ls p = units lines p" for p
    using count_of_sum [OF d, of p] cnt by (simp add: units_def)
  show "fst ` set ls = fst ` set lines" using keys_tally [of "[]" lines] by (simp add: ls)
  show mem: "q = units lines p" if "(p, q) \<in> set ls" for p q
    using count_of_mem [OF d, of p q] that cnt by (simp add: ls)
  have up: "0 < units xs p" if "\<forall>l \<in> set xs. 0 < snd l" "p \<in> fst ` set xs" for xs p
    using that
  proof (induction xs)
    case (Cons x xs)
    have "0 \<le> units xs p" unfolding units_def by (rule sum_list_nonneg) (use Cons.prems(1) in force)
    with Cons show ?case by (cases "p \<in> fst ` set xs") auto
  qed simp
  show "0 < snd l" if "l \<in> set ls" for l
  proof -
    have "fst l \<in> fst ` set lines" using that \<open>fst ` set ls = fst ` set lines\<close> by (metis imageI)
    then show ?thesis using mem [of "fst l" "snd l"] that up [OF pos] by simp
  qed
qed

section \<open>The stock columns\<close>

text \<open>The columns of a product that only the stock methods write.\<close>

definition stock_cols :: "'a store_scheme \<Rightarrow> id \<Rightarrow> (int \<times> int \<times> bool \<times> bool \<times> time option) option" where
  "stock_cols s p = map_option (\<lambda>r. (pr_stockOnHand r, pr_stockReserved r, pr_trackInventory r,
     pr_allowBackorder r, pr_deletedAt r)) (st_products s p)"

lemma on_hand_cols: "on_hand s p = (case stock_cols s p of None \<Rightarrow> 0 | Some c \<Rightarrow> fst c)"
  by (simp add: on_hand_def stock_cols_def split: option.split)

lemma reserved_cols: "reserved s p = (case stock_cols s p of None \<Rightarrow> 0 | Some c \<Rightarrow> fst (snd c))"
  by (simp add: reserved_def stock_cols_def split: option.split)

lemma stock_cols_None: "st_products s p = None \<longleftrightarrow> stock_cols s p = None"
  by (simp add: stock_cols_def)

text \<open>What a step on the batches leaves alone.\<close>

definition same_books :: "'a store_scheme \<Rightarrow> 'a store_scheme \<Rightarrow> bool" where
  "same_books s s' \<longleftrightarrow> stock_cols s' = stock_cols s \<and> st_moves s' = st_moves s \<and> store.more s' = store.more s"

lemma same_books_refl [simp]: "same_books s s"
  by (simp add: same_books_def)

lemma same_books_trans [trans]: "same_books s t \<Longrightarrow> same_books t u \<Longrightarrow> same_books s u"
  by (simp add: same_books_def)

lemma same_booksD:
  assumes "same_books s s'"
  shows "on_hand s' p = on_hand s p" "reserved s' p = reserved s p" "ledger s' p = ledger s p"
    "st_products s' p = None \<longleftrightarrow> st_products s p = None"
  using assms by (simp_all add: same_books_def on_hand_cols reserved_cols ledger_def stock_cols_None)

lemma same_books_writers [simp]:
  "same_books s (set_cost p c s)" "same_books s (set_left i f s)" "same_books s (add_returned i b s)"
  "same_books s (new_use i p ord q uc s)" "same_books s (snd (new_lot p src q uc sp pu rt s))"
  by (auto simp: same_books_def store_writers stock_cols_def fun_eq_iff option.map_comp comp_def)

lemma refreshCost_ok:
  "same_books s (snd (refreshCost p s))" "lots_ok (snd (refreshCost p s)) = lots_ok s"
  "lots_left (snd (refreshCost p s)) q = lots_left s q"
  by (auto simp: refreshCost_def lots_ok_def lots_left_def outstanding_def set_cost_def
      same_books_def stock_cols_def fun_eq_iff option.map_comp comp_def split: option.splits)

section \<open>Taking from the batches\<close>

lemma consume_loop_ok:
  assumes "lots_ok s" "distinct (map lot_id ls)" "set ls \<subseteq> set (st_lots s)"
    "\<And>l. l \<in> set ls \<Longrightarrow> lot_productId l = p \<and> 0 < lot_qtyLeft l" "0 \<le> need"
    "consume_loop p ord ls need used s = (used', need', s')"
  shows "lots_ok s' \<and> same_books s s' \<and> need' = max 0 (need - sum_list (map lot_qtyLeft ls)) \<and>
    (\<forall>q. lots_left s' q = lots_left s q - (if q = p then need - need' else 0)) \<and>
    sum_list (map lu_qty used') = sum_list (map lu_qty used) + need - need'"
  using assms
proof (induction ls arbitrary: need used s)
  case Nil
  then show ?case by auto
next
  case (Cons l ls)
  have nn: "0 \<le> sum_list (map lot_qtyLeft ls)"
    using Cons.prems(4) by (intro sum_list_nonneg) (auto intro: less_imp_le)
  show ?case
  proof (cases "need \<le> 0")
    case True
    then have "need = 0" "0 < lot_qtyLeft l" using Cons.prems(4,5) by auto
    with Cons.prems(1,6) nn show ?thesis by (auto simp: max_def)
  next
    case False
    define t where "t = min need (lot_qtyLeft l)"
    have l: "l \<in> set (st_lots s)" "0 < t" "t \<le> lot_qtyLeft l" "lot_productId l = p" "t \<le> need"
      using Cons.prems(3,4) False by (auto simp: t_def)
    define s1 where "s1 = set_left (lot_id l) (\<lambda>l. lot_qtyLeft l - t) s"
    define s2 where "s2 = (case ord of None \<Rightarrow> s1 | Some o' \<Rightarrow> new_use (lot_id l) p o' t (lot_unitCost l) s1)"
    have ok2: "lots_ok s2"
      using lots_ok_take [OF Cons.prems(1) l(1-3)] l(4) by (auto simp: s1_def s2_def split: option.split)
    have b2: "same_books s s2"
      by (auto simp: s1_def s2_def same_books_def store_writers stock_cols_def split: option.split)
    have lots2: "st_lots s2 = st_lots s1" by (simp add: s2_def new_use_def split: option.split)
    have left2: "lots_left s2 q = lots_left s q - (if q = p then t else 0)" for q
      using lots_left_set_left [OF Cons.prems(1) l(1), of "\<lambda>l. lot_qtyLeft l - t" q] l(4)
      by (simp add: s1_def lots_left_def lots2)
    have sub: "set ls \<subseteq> set (st_lots s2)"
    proof
      fix x
      assume x: "x \<in> set ls"
      have "lot_id l \<notin> lot_id ` set ls" using Cons.prems(2) by simp
      with x have "lot_id x \<noteq> lot_id l" by (metis imageI)
      moreover have "x \<in> set (st_lots s)" using x Cons.prems(3) by auto
      ultimately show "x \<in> set (st_lots s2)" by (force simp: lots2 s1_def set_left_lots)
    qed
    have run: "consume_loop p ord ls (need - t)
        (used @ [\<lparr>lu_lotId = Some (lot_id l), lu_qty = t, lu_unitCost = lot_unitCost l\<rparr>]) s2 = (used', need', s')"
      using Cons.prems(6) False by (simp add: Let_def t_def s1_def s2_def split: option.splits)
    have IH: "lots_ok s' \<and> same_books s2 s' \<and> need' = max 0 (need - t - sum_list (map lot_qtyLeft ls)) \<and>
      (\<forall>q. lots_left s' q = lots_left s2 q - (if q = p then need - t - need' else 0)) \<and>
      sum_list (map lu_qty used') = sum_list (map lu_qty used) + t + (need - t) - need'"
      using Cons.IH [OF ok2 _ sub _ _ run] Cons.prems(2,4) l(5) by simp
    moreover have "lots_left s' q = lots_left s q - (if q = p then need - need' else 0)" for q
      using IH left2 [of q] by (cases "q = p") auto
    moreover have "max 0 (need - t - sum_list (map lot_qtyLeft ls)) =
        max 0 (need - sum_list (map lot_qtyLeft (l # ls)))"
      using nn by (auto simp: t_def min_def)
    ultimately show ?thesis
      using same_books_trans [OF b2] by simp
  qed
qed

lemma open_lots_props:
  assumes "lots_ok s"
  shows "distinct (map lot_id (open_lots p s))" "set (open_lots p s) \<subseteq> set (st_lots s)"
    "l \<in> set (open_lots p s) \<Longrightarrow> lot_productId l = p \<and> 0 < lot_qtyLeft l"
    "sum_list (map lot_qtyLeft (open_lots p s)) = lots_left s p"
proof -
  let ?ls = "filter (\<lambda>l. lot_productId l = p \<and> lot_qtyLeft l > 0) (st_lots s)"
  have perm: "mset (open_lots p s) = mset ?ls" by (simp add: open_lots_def)
  have "distinct (map lot_id ?ls)" using assms by (simp add: lots_ok_def distinct_map_filter)
  then show "distinct (map lot_id (open_lots p s))"
    by (rule distinct_map_mset [OF perm])
  show "set (open_lots p s) \<subseteq> set (st_lots s)"
    "l \<in> set (open_lots p s) \<Longrightarrow> lot_productId l = p \<and> 0 < lot_qtyLeft l"
    by (auto simp: open_lots_def)
  have "sum_list (map lot_qtyLeft (filter (\<lambda>l. lot_productId l = p \<and> lot_qtyLeft l > 0) xs)) =
      sum_list (map lot_qtyLeft (filter (\<lambda>l. lot_productId l = p) xs))"
    if "\<forall>l \<in> set xs. 0 \<le> lot_qtyLeft l" for xs
    using that by (induction xs) auto
  moreover have "\<forall>l \<in> set (st_lots s). 0 \<le> lot_qtyLeft l" using assms by (auto simp: lots_ok_def)
  ultimately show "sum_list (map lot_qtyLeft (open_lots p s)) = lots_left s p"
    unfolding lots_left_def sum_list_mset_cong [OF perm] by blast
qed

lemma consume_ok:
  assumes "lots_ok s" "0 \<le> q" "q \<le> lots_left s p" "consume p q ord s = (used, s')"
  shows "lots_ok s' \<and> same_books s s' \<and> (\<forall>x. lots_left s' x = lots_left s x - (if x = p then q else 0)) \<and>
    sum_list (map lu_qty used) = q"
proof -
  obtain used1 need s1 where run: "consume_loop p ord (open_lots p s) q [] s = (used1, need, s1)"
    by (metis prod_cases3)
  note op = open_lots_props [OF assms(1)]
  note ok = consume_loop_ok [OF assms(1) op(1-3) assms(2) run]
  have "need = 0" using ok assms(3) op(4) by simp
  then show ?thesis
    using ok assms(4) run refreshCost_ok [where s = s1 and p = p] same_books_trans [of s s1]
    by (auto simp: consume_def Let_def)
qed

section \<open>Giving back to the batches\<close>

lemma unconsume_loop_ok:
  assumes "lots_ok s" "distinct (map us_id us)" "set us \<subseteq> set (st_uses s)"
    "\<And>u. u \<in> set us \<Longrightarrow> us_productId u = p" "0 \<le> left"
    "unconsume_loop us left s = (left', s')"
  shows "lots_ok s' \<and> same_books s s' \<and> 0 \<le> left' \<and>
    (\<forall>q. lots_left s' q = lots_left s q + (if q = p then left - left' else 0))"
  using assms
proof (induction us arbitrary: left s)
  case Nil
  then show ?case by auto
next
  case (Cons u us)
  define b where "b = min left (us_qty u - us_returned u)"
  show ?case
  proof (cases "left \<le> 0 \<or> b \<le> 0")
    case True
    then show ?thesis
    proof (cases "left \<le> 0")
      case True
      with Cons.prems show ?thesis by auto
    next
      case False
      with True have "us_qty u \<le> us_returned u" by (auto simp: b_def)
      with False have "unconsume_loop us left s = (left', s')" using Cons.prems(6) by (simp add: Let_def)
      with Cons.IH [OF Cons.prems(1) _ _ _ Cons.prems(5)] Cons.prems(2-4) show ?thesis by simp
    qed
  next
    case False
    have u: "u \<in> set (st_uses s)" "0 < b" "b \<le> us_qty u - us_returned u" "b \<le> left" "us_productId u = p"
      using Cons.prems(3,4) False by (auto simp: b_def)
    have "use_ok (st_lots s) (st_nextId s) u" using u(1) Cons.prems(1) by (simp add: lots_ok_def)
    then obtain l where l: "l \<in> set (st_lots s)" "lot_id l = us_lotId u" "lot_productId l = p"
      using u(5) by (auto simp: use_ok_def)
    define s1 where "s1 = add_returned (us_id u) b s"
    define s2 where "s2 = set_left (us_lotId u) (\<lambda>l. min (lot_qtyLeft l + b) (lot_qtyIn l)) s1"
    note give = lots_ok_give [OF Cons.prems(1) u(1) l(1,2) u(2,3)]
    have ok2: "lots_ok s2" using give(2) by (simp add: s1_def s2_def)
    have b2: "same_books s s2" 
      by (simp add: s1_def s2_def same_books_def store_writers stock_cols_def fun_eq_iff)
    have "lots_left s2 q = lots_left (set_left (lot_id l) (\<lambda>l. min (lot_qtyLeft l + b) (lot_qtyIn l)) s) q" for q
      by (simp add: s2_def s1_def l(2) lots_left_def set_left_def add_returned_def)
    then have left2: "lots_left s2 q = lots_left s q + (if q = p then b else 0)" for q
      using lots_left_set_left [OF Cons.prems(1) l(1)] give(1) l(3) by simp
    have sub: "set us \<subseteq> set (st_uses s2)"
    proof
      fix x
      assume x: "x \<in> set us"
      have "us_id u \<notin> us_id ` set us" using Cons.prems(2) by simp
      with x have "us_id x \<noteq> us_id u" by (metis imageI)
      moreover have "x \<in> set (st_uses s)" using x Cons.prems(3) by auto
      ultimately show "x \<in> set (st_uses s2)" by (force simp: s1_def s2_def set_left_def add_returned_def)
    qed
    have run: "unconsume_loop us (left - b) s2 = (left', s')"
      using Cons.prems(6) False by (simp add: Let_def b_def s1_def s2_def)
    have IH: "lots_ok s' \<and> same_books s2 s' \<and> 0 \<le> left' \<and>
      (\<forall>q. lots_left s' q = lots_left s2 q + (if q = p then left - b - left' else 0))"
      using Cons.IH [OF ok2 _ sub _ _ run] Cons.prems(2,4) u(4) by simp
    moreover have "lots_left s' q = lots_left s q + (if q = p then left - left' else 0)" for q
      using IH left2 [of q] by (cases "q = p") auto
    ultimately show ?thesis using same_books_trans [OF b2] by simp
  qed
qed

lemma order_uses_props:
  assumes "lots_ok s"
  shows "distinct (map us_id (order_uses ord p s))" "set (order_uses ord p s) \<subseteq> set (st_uses s)"
    "u \<in> set (order_uses ord p s) \<Longrightarrow> us_productId u = p"
proof -
  let ?us = "filter (\<lambda>u. us_orderId u = Some ord \<and> us_productId u = p) (st_uses s)"
  have perm: "mset (order_uses ord p s) = mset ?us" by (simp add: order_uses_def)
  have "distinct (map us_id ?us)" using assms by (simp add: lots_ok_def distinct_map_filter)
  then show "distinct (map us_id (order_uses ord p s))"
    by (rule distinct_map_mset [OF perm])
  show "set (order_uses ord p s) \<subseteq> set (st_uses s)"
    "u \<in> set (order_uses ord p s) \<Longrightarrow> us_productId u = p"
    by (auto simp: order_uses_def)
qed

lemma unconsume_ok:
  assumes "lots_ok s" "0 \<le> q" and s': "s' = unconsume p q ctx s"
  shows "lots_ok s' \<and> same_books s s' \<and> (\<forall>x. lots_left s' x = lots_left s x + (if x = p then q else 0))"
proof -
  obtain left s1 where run: "(case sc_orderId ctx of None \<Rightarrow> (q, s)
      | Some ord \<Rightarrow> unconsume_loop (order_uses ord p s) q s) = (left, s1)" by (meson surj_pair)
  have 1: "lots_ok s1 \<and> same_books s s1 \<and> 0 \<le> left \<and>
      (\<forall>x. lots_left s1 x = lots_left s x + (if x = p then q - left else 0))"
  proof (cases "sc_orderId ctx")
    case None
    with run assms show ?thesis by auto
  next
    case (Some ord)
    with run have "unconsume_loop (order_uses ord p s) q s = (left, s1)" by simp
    from unconsume_loop_ok [OF assms(1) order_uses_props [OF assms(1)] assms(2) this] show ?thesis .
  qed
  define s2 where "s2 = (if left > 0 then snd (new_lot p LotReturn left (product_cost p s1) (product_price p s1) None None s1) else s1)"
  have 2: "lots_ok s2 \<and> same_books s1 s2 \<and> (\<forall>x. lots_left s2 x = lots_left s1 x + (if x = p then left else 0))"
  proof (cases "left > 0")
    case True
    obtain i where n: "new_lot p LotReturn left (product_cost p s1) (product_price p s1) None None s1 = (i, s2)"
      using True by (metis s2_def surj_pair snd_conv)
    have "same_books s1 s2" using same_books_writers(5) [of s1] True by (simp add: s2_def)
    then show ?thesis using lots_ok_new_lot [OF _ True n] 1 by auto
  next
    case False
    then show ?thesis using 1 by (simp add: s2_def)
  qed
  have "s' = snd (refreshCost p s2)"
    using run by (simp add: s' unconsume_def Let_def s2_def split: option.splits)
  then show ?thesis
    using 1 2 refreshCost_ok [where s = s2 and p = p] same_books_trans [OF same_books_trans, of s s1 s2] by auto
qed

section \<open>The position of a product\<close>

text \<open>
  The abstract stock: what is on hand and what is held, per product. Each method refines one
  function on positions, applied to every product of its merged lines.
\<close>

type_synonym position = "(int \<times> int) option"

definition pos :: "'a store_scheme \<Rightarrow> id \<Rightarrow> position" where
  "pos s p = map_option (\<lambda>r. (pr_stockOnHand r, pr_stockReserved r)) (st_products s p)"

definition hold :: "int \<Rightarrow> position \<Rightarrow> position" where
  "hold q = map_option (\<lambda>(a, b). (a, b + q))"

definition unhold :: "int \<Rightarrow> position \<Rightarrow> position" where
  "unhold q = map_option (\<lambda>(a, b). (a, max (b - q) 0))"

definition ship :: "int \<Rightarrow> position \<Rightarrow> position" where
  "ship q = map_option (\<lambda>(a, b). (a - q, max (b - q) 0))"

definition unship :: "int \<Rightarrow> position \<Rightarrow> position" where
  "unship q = map_option (\<lambda>(a, b). (a + q, b))"

text \<open>Every product of the lines moves by its total in the lines; the others stay.\<close>

definition spread :: "(int \<Rightarrow> position \<Rightarrow> position) \<Rightarrow> stock_line list \<Rightarrow> (id \<Rightarrow> position) \<Rightarrow> id \<Rightarrow> position" where
  "spread h lines P p = (if p \<in> fst ` set lines then h (units lines p) (P p) else P p)"

text \<open>What a change of stock must not touch: the shape of the orders' items and the other tables.\<close>

definition item_shape :: "order_item \<Rightarrow> id \<times> item_kind \<times> id option \<times> int \<times> (id \<times> int) list" where
  "item_shape i = (oi_orderId i, oi_kind i, oi_productId i, oi_quantity i,
     map (\<lambda>c. (oc_productId c, oc_quantity c)) (oi_components i))"

definition rest_of :: "'a store_scheme \<Rightarrow> (id \<times> item_kind \<times> id option \<times> int \<times> (id \<times> int) list) list \<times> time \<times> 'a" where
  "rest_of s = (map item_shape (st_items s), st_now s, store.more s)"

text \<open>The part of the stock that the ledger does not explain; it is set when the ledger starts.\<close>

definition unexplained :: "'a store_scheme \<Rightarrow> id \<Rightarrow> int" where
  "unexplained s p = on_hand s p - ledger s p"

definition store_ok :: "'a store_scheme \<Rightarrow> bool" where
  "store_ok s \<longleftrightarrow> shelf_ok s \<and>
     (\<forall>p r. st_products s p = Some r \<longrightarrow> products_reserved_lte_hand r \<and> products_stock_nonneg r)"

definition effect :: "(int \<Rightarrow> position \<Rightarrow> position) \<Rightarrow> stock_line \<Rightarrow> 'a store_scheme \<Rightarrow> 'a store_scheme \<Rightarrow> bool" where
  "effect h l s s' \<longleftrightarrow> pos s' = (pos s)(fst l := h (snd l) (pos s (fst l))) \<and>
     unexplained s' = unexplained s \<and> rest_of s' = rest_of s \<and> store_ok s'"

lemma put_product_Inr:
  "put_product p r s = Inr s' \<longleftrightarrow>
     products_reserved_lte_hand r \<and> products_stock_nonneg r \<and> s' = s\<lparr>st_products := (st_products s)(p \<mapsto> r)\<rparr>"
  by (auto simp: put_product_def)

lemmas stock_err = err_simps put_product_Inr

lemma pos_same_books: "same_books s s' \<Longrightarrow> pos s' = pos s"
proof -
  assume "same_books s s'"
  then have "map_option (\<lambda>c. (fst c, fst (snd c))) (stock_cols s' x) = map_option (\<lambda>c. (fst c, fst (snd c))) (stock_cols s x)"
    for x by (simp add: same_books_def)
  then show ?thesis by (simp add: stock_cols_def pos_def fun_eq_iff option.map_comp comp_def)
qed

text \<open>Changes of the batches that leave the columns alone do not touch the rest either.\<close>

lemma consume_loop_rest: "consume_loop p ord ls need used s = (u', n', s') \<Longrightarrow> rest_of s' = rest_of s"
proof (induction p ord ls need used s rule: consume_loop.induct)
  case (2 p ord l ls need used s)
  show ?case
  proof (cases "need \<le> 0")
    case True
    with 2(2) show ?thesis by simp
  next
    case False
    then show ?thesis
      using 2(1) [OF False refl refl refl] 2(2)
      by (auto simp: Let_def rest_of_def set_left_def new_use_def split: option.splits)
  qed
qed simp

lemma refreshCost_rest: "rest_of (snd (refreshCost p s)) = rest_of s"
  by (auto simp: refreshCost_def rest_of_def set_cost_def split: option.split)

lemma consume_rest: "consume p q ord s = (u, s') \<Longrightarrow> rest_of s' = rest_of s"
  by (cases "consume_loop p ord (open_lots p s) q [] s")
    (auto simp: consume_def Let_def refreshCost_rest dest: consume_loop_rest)

lemma unconsume_loop_rest: "unconsume_loop us left s = (l', s') \<Longrightarrow> rest_of s' = rest_of s"
proof (induction us left s rule: unconsume_loop.induct)
  case (2 u us left s)
  show ?case
  proof (cases "left \<le> 0 \<or> min left (us_qty u - us_returned u) \<le> 0")
    case True
    then show ?thesis using 2(1) [OF _ refl] 2(3) by (auto simp: Let_def split: if_splits)
  next
    case False
    then have "rest_of s' = rest_of (set_left (us_lotId u)
        (\<lambda>l. min (lot_qtyLeft l + min left (us_qty u - us_returned u)) (lot_qtyIn l))
        (add_returned (us_id u) (min left (us_qty u - us_returned u)) s))"
      using 2(2) [OF _ refl] 2(3) by (simp add: Let_def)
    then show ?thesis by (simp add: rest_of_def set_left_def add_returned_def)
  qed
qed simp

lemma new_lot_rest: "rest_of (snd (new_lot p src q uc sp pu rt s)) = rest_of s"
  by (simp add: rest_of_def new_lot_def)

lemma unconsume_rest: "rest_of (unconsume p q ctx s) = rest_of s"
proof -
  obtain l s1 where run: "(case sc_orderId ctx of None \<Rightarrow> (q, s)
      | Some ord \<Rightarrow> unconsume_loop (order_uses ord p s) q s) = (l, s1)" by (meson surj_pair)
  then have "rest_of s1 = rest_of s" by (auto dest: unconsume_loop_rest split: option.splits)
  then show ?thesis
    using run by (simp add: unconsume_def Let_def refreshCost_rest new_lot_rest split: option.splits)
qed

lemma stamp_rest:
  "rest_of (stampOrderCost J ord p used s) = rest_of s" "same_books s (stampOrderCost J ord p used s)"
  "lots_ok (stampOrderCost J ord p used s) = lots_ok s" "lots_left (stampOrderCost J ord p used s) x = lots_left s x"
proof -
  have "item_shape (stamp_item ord p avg i) = item_shape i" for avg i
    by (auto simp: item_shape_def stamp_item_def)
  then show "rest_of (stampOrderCost J ord p used s) = rest_of s"
    by (simp add: stampOrderCost_def rest_of_def comp_def split: option.split)
qed (auto simp: stampOrderCost_def same_books_def stock_cols_def fun_eq_iff lots_ok_def lots_left_def
    outstanding_def split: option.split)

text \<open>Writing a row and its movement.\<close>

lemma row_step:
  assumes "st_products s p = Some r" "put_product p r' s = Inr s1" "store_ok s"
    and s2: "s2 = log_movement p r' t (pr_stockOnHand r' - pr_stockOnHand r) dr ctx c s1"
  shows "pos s2 = (pos s)(p \<mapsto> (pr_stockOnHand r', pr_stockReserved r'))"
    and "unexplained s2 = unexplained s" and "rest_of s2 = rest_of s" and "lots_ok s2"
    and "lots_left s2 = lots_left s" and "lots_left s p = pr_stockOnHand r"
    and "\<And>x y. st_products s2 x = Some y \<Longrightarrow> products_reserved_lte_hand y \<and> products_stock_nonneg y"
    and "on_hand s2 x = (if x = p then pr_stockOnHand r' else on_hand s x)"
    and "st_products s2 x \<noteq> None \<Longrightarrow> st_products s x \<noteq> None"
proof -
  have w: "s1 = s\<lparr>st_products := (st_products s)(p \<mapsto> r')\<rparr>"
    "products_reserved_lte_hand r'" "products_stock_nonneg r'"
    using assms(2) by (simp_all add: put_product_Inr)
  show "pos s2 = (pos s)(p \<mapsto> (pr_stockOnHand r', pr_stockReserved r'))"
    by (simp add: s2 w log_movement_def pos_def fun_eq_iff)
  show "unexplained s2 = unexplained s"
    using assms(1) by (simp add: s2 w log_movement_def unexplained_def on_hand_def ledger_def fun_eq_iff)
  show "rest_of s2 = rest_of s" by (simp add: s2 w log_movement_def rest_of_def)
  have s: "lots_ok s" "\<And>q. st_products s q \<noteq> None \<Longrightarrow> lots_left s q = on_hand s q"
    using assms(3) by (auto simp: store_ok_def shelf_ok_def)
  show "lots_ok s2"
    using s(1) by (simp add: s2 w log_movement_def lots_ok_def outstanding_def)
  show "lots_left s2 = lots_left s" by (simp add: s2 w log_movement_def lots_left_def fun_eq_iff)
  show "lots_left s p = pr_stockOnHand r" using s(2) [of p] assms(1) by (simp add: on_hand_def)
  show "products_reserved_lte_hand y \<and> products_stock_nonneg y" if "st_products s2 x = Some y" for x y
    using that w(2,3) assms(3) by (auto simp: s2 w(1) log_movement_def store_ok_def split: if_splits)
  show "on_hand s2 x = (if x = p then pr_stockOnHand r' else on_hand s x)"
    by (simp add: s2 w log_movement_def on_hand_def)
  show "st_products s2 x \<noteq> None \<Longrightarrow> st_products s x \<noteq> None"
    using assms(1) by (simp add: s2 w log_movement_def split: if_splits)
qed

text \<open>The checks only read columns that the batches leave alone.\<close>

lemma checks_cols:
  assumes "same_books s s'" and "\<And>x y. st_products s x = Some y \<Longrightarrow> products_reserved_lte_hand y \<and> products_stock_nonneg y"
    and "st_products s' x = Some y"
  shows "products_reserved_lte_hand y \<and> products_stock_nonneg y"
proof -
  have "stock_cols s x = stock_cols s' x" using assms(1) by (simp add: same_books_def)
  with assms(3) obtain z where z: "st_products s x = Some z" "pr_stockOnHand z = pr_stockOnHand y"
    "pr_stockReserved z = pr_stockReserved y" "pr_allowBackorder z = pr_allowBackorder y"
    by (auto simp: stock_cols_def)
  from assms(2) [OF z(1)] show ?thesis
    by (simp add: products_reserved_lte_hand_def products_stock_nonneg_def z(2-4))
qed

lemma store_okI:
  assumes "lots_ok s'" "same_books s s'" "\<And>x. st_products s x \<noteq> None \<Longrightarrow> lots_left s' x = on_hand s x"
    and "\<And>x y. st_products s x = Some y \<Longrightarrow> products_reserved_lte_hand y \<and> products_stock_nonneg y"
  shows "store_ok s'"
  using assms checks_cols [OF assms(2,4)] same_booksD [OF assms(2)]
  by (auto simp: store_ok_def shelf_ok_def)

lemma unexplained_same_books: "same_books s s' \<Longrightarrow> unexplained s' = unexplained s"
  by (simp add: unexplained_def fun_eq_iff same_booksD(1,3))

section \<open>One line of each method\<close>

lemma effectI:
  assumes "pos s' = (pos s)(p := h q (pos s p))" "unexplained s' = unexplained s" "rest_of s' = rest_of s" "store_ok s'"
  shows "effect h (p, q) s s'"
  using assms by (simp add: effect_def)

lemma row_step_store_ok:
  assumes "lots_ok s2" "lots_left s2 = lots_left s"
    "\<And>x y. st_products s2 x = Some y \<Longrightarrow> products_reserved_lte_hand y \<and> products_stock_nonneg y"
    "\<And>x. on_hand s2 x = on_hand s x" "\<And>x. st_products s2 x \<noteq> None \<Longrightarrow> st_products s x \<noteq> None" "store_ok s"
  shows "store_ok s2"
  using assms by (auto simp: store_ok_def shelf_ok_def)

lemma reserve_one_ok:
  assumes "reserve_one ctx (p, q) s = Inr s'" "store_ok s"
  shows "effect hold (p, q) s s'"
proof -
  from assms(1) obtain r s1 where r: "st_products s p = Some r"
    and s1: "put_product p (r\<lparr>pr_stockReserved := pr_stockReserved r + q\<rparr>) s = Inr s1"
    and s': "s' = log_movement p (r\<lparr>pr_stockReserved := pr_stockReserved r + q\<rparr>) ORDER_RESERVE 0 q ctx None s1"
    by (auto simp: reserve_one_def Let_def ebind_Inr_iff split: option.splits if_splits)
  have "s' = log_movement p (r\<lparr>pr_stockReserved := pr_stockReserved r + q\<rparr>) ORDER_RESERVE
      (pr_stockOnHand (r\<lparr>pr_stockReserved := pr_stockReserved r + q\<rparr>) - pr_stockOnHand r) (q) ctx None s1"
    by (simp add: s')
  note st = row_step [OF r s1 assms(2) this]
  have "store_ok s'"
    by (rule row_step_store_ok [OF st(4,5,7) _ st(9) assms(2)]) (simp_all add: st(8), simp add: on_hand_def r)
  then show ?thesis using st(1-3) r by (intro effectI) (auto simp: pos_def hold_def fun_eq_iff)
qed

lemma effect_refl:
  assumes "store_ok s" "st_products s p = None" "h q None = None"
  shows "effect h (p, q) s s"
  using assms by (simp add: effect_def pos_def fun_eq_iff)

lemma release_one_ok:
  assumes "release_one ctx (p, q) s = Inr s'" "store_ok s"
  shows "effect unhold (p, q) s s'"
proof (cases "st_products s p")
  case None
  with assms show ?thesis by (auto simp: release_one_def unhold_def intro: effect_refl)
next
  case (Some r)
  with assms(1) obtain s1 where
    s1: "put_product p (r\<lparr>pr_stockReserved := max (pr_stockReserved r - q) 0\<rparr>) s = Inr s1"
    and s': "s' = log_movement p (r\<lparr>pr_stockReserved := max (pr_stockReserved r - q) 0\<rparr>) ORDER_RELEASE 0 (- q) ctx None s1"
    by (auto simp: release_one_def Let_def ebind_Inr_iff)
  have "s' = log_movement p (r\<lparr>pr_stockReserved := max (pr_stockReserved r - q) 0\<rparr>) ORDER_RELEASE
      (pr_stockOnHand (r\<lparr>pr_stockReserved := max (pr_stockReserved r - q) 0\<rparr>) - pr_stockOnHand r) (- q) ctx None s1"
    by (simp add: s')
  note st = row_step [OF Some s1 assms(2) this]
  have "store_ok s'"
    by (rule row_step_store_ok [OF st(4,5,7) _ st(9) assms(2)]) (simp_all add: st(8), simp add: on_hand_def Some)
  then show ?thesis using st(1-3) Some by (intro effectI) (auto simp: pos_def unhold_def fun_eq_iff)
qed

lemma fulfill_one_ok:
  assumes "fulfill_one J ctx (p, q) (low, s) = Inr (low', s')" "store_ok s" "0 < q"
  shows "effect ship (p, q) s s'"
proof -
  from assms(1) obtain r where r: "st_products s p = Some r"
    by (auto simp: fulfill_one_def split: option.splits)
  define r' where "r' = r\<lparr>pr_stockOnHand := pr_stockOnHand r - q,
    pr_stockReserved := max (pr_stockReserved r - q) 0, pr_soldCount := pr_soldCount r + q\<rparr>"
  from assms(1) r obtain s1 where s1: "put_product p r' s = Inr s1"
    by (auto simp: fulfill_one_def Let_def r'_def ebind_Inr_iff split: if_splits)
  define s2 where "s2 = log_movement p r' ORDER_FULFILL (- q) (- q) ctx None s1"
  obtain used s3 where s3: "consume p q (sc_orderId ctx) s2 = (used, s3)" by (meson surj_pair)
  define s4 where "s4 = (case sc_orderId ctx of None \<Rightarrow> s3 | Some ord \<Rightarrow> stampOrderCost J ord p used s3)"
  have s': "s' = s4"
    using assms(1) r s1 s3
    by (auto simp: fulfill_one_def Let_def r'_def [symmetric] s2_def [symmetric] s4_def ebind_Inr_iff split: if_splits)
  have s2': "s2 = log_movement p r' ORDER_FULFILL (pr_stockOnHand r' - pr_stockOnHand r) (- q) ctx None s1"
    by (simp add: s2_def r'_def)
  note st = row_step [OF r s1 assms(2) s2']
  have "0 \<le> pr_stockOnHand r'" using s1 by (simp add: put_product_Inr products_stock_nonneg_def)
  then have "q \<le> lots_left s2 p" by (simp add: st(5,6) r'_def)
  from consume_ok [OF st(4) _ this s3] assms(3)
  have 3: "lots_ok s3" "same_books s2 s3" "\<And>x. lots_left s3 x = lots_left s x - (if x = p then q else 0)"
    by (auto simp: st(5))
  have 4: "lots_ok s4" "same_books s2 s4" "\<And>x. lots_left s4 x = lots_left s x - (if x = p then q else 0)"
    "rest_of s4 = rest_of s"
    using consume_rest [OF s3] st(3)
    by (cases "sc_orderId ctx"; simp add: s4_def 3 stamp_rest same_books_trans [OF 3(2)])+
  have "lots_left s4 x = on_hand s2 x" if "st_products s2 x \<noteq> None" for x
    using st(9) [OF that] st(6) assms(2) by (auto simp: 4(3) st(8) r'_def store_ok_def shelf_ok_def)
  then have "store_ok s4" by (rule store_okI [OF 4(1,2) _ st(7)])
  then show ?thesis
    unfolding s' using 4(4) st(1,2) pos_same_books [OF 4(2)] unexplained_same_books [OF 4(2)] r
    by (intro effectI) (auto simp: pos_def ship_def fun_eq_iff r'_def)
qed

lemma restock_one_ok:
  assumes "restock_one ctx (p, q) s = Inr s'" "store_ok s" "0 < q"
  shows "effect unship (p, q) s s'"
proof (cases "st_products s p")
  case None
  with assms show ?thesis by (auto simp: restock_one_def unship_def intro: effect_refl)
next
  case (Some r)
  define r' where "r' = r\<lparr>pr_stockOnHand := pr_stockOnHand r + q, pr_soldCount := max (pr_soldCount r - q) 0\<rparr>"
  from assms(1) Some obtain s1 where s1: "put_product p r' s = Inr s1"
    and s': "s' = unconsume p q ctx (log_movement p r' RETURN_RESTOCK q 0 ctx None s1)"
    by (auto simp: restock_one_def Let_def r'_def ebind_Inr_iff)
  define s2 where "s2 = log_movement p r' RETURN_RESTOCK q 0 ctx None s1"
  have s2': "s2 = log_movement p r' RETURN_RESTOCK (pr_stockOnHand r' - pr_stockOnHand r) 0 ctx None s1"
    by (simp add: s2_def r'_def)
  note st = row_step [OF Some s1 assms(2) s2']
  have u: "lots_ok s'" "same_books s2 s'" "\<And>x. lots_left s' x = lots_left s x + (if x = p then q else 0)"
    using unconsume_ok [OF st(4), of q s' p ctx] assms(3) by (auto simp: s' s2_def [symmetric] st(5))
  have "lots_left s' x = on_hand s2 x" if "st_products s2 x \<noteq> None" for x
    using st(9) [OF that] st(6) assms(2) by (auto simp: u(3) st(8) r'_def store_ok_def shelf_ok_def)
  then have "store_ok s'" by (rule store_okI [OF u(1,2) _ st(7)])
  moreover have "rest_of s' = rest_of s" using st(3) by (simp add: s' s2_def [symmetric] unconsume_rest)
  ultimately show ?thesis
    using st(1,2) pos_same_books [OF u(2)] unexplained_same_books [OF u(2)] Some
    by (intro effectI) (auto simp: pos_def unship_def fun_eq_iff r'_def)
qed

section \<open>The methods\<close>

text \<open>A loop over distinct products applies the function of each product once.\<close>

lemma effect_loop:
  assumes "efold f ls s = Inr s'" "store_ok (g s)" "distinct (map fst ls)"
    and step: "\<And>l s s'. l \<in> set ls \<Longrightarrow> store_ok (g s) \<Longrightarrow> f l s = Inr s' \<Longrightarrow> effect h l (g s) (g s')"
  shows "pos (g s') = spread h ls (pos (g s)) \<and> unexplained (g s') = unexplained (g s) \<and>
    rest_of (g s') = rest_of (g s) \<and> store_ok (g s')"
  using assms
proof (induction ls arbitrary: s)
  case Nil
  then show ?case by (auto simp: spread_def fun_eq_iff)
next
  case (Cons l ls)
  then obtain s1 where s1: "f l s = Inr s1" "efold f ls s1 = Inr s'" by (auto simp: ebind_Inr_iff)
  then have e: "effect h l (g s) (g s1)" using Cons.prems by simp
  moreover from e have "store_ok (g s1)" by (simp add: effect_def)
  ultimately have IH: "pos (g s') = spread h ls (pos (g s1)) \<and> unexplained (g s') = unexplained (g s1) \<and>
      rest_of (g s') = rest_of (g s1) \<and> store_ok (g s')"
    using Cons.prems(3) by (intro Cons.IH [OF s1(2)] Cons.prems(4)) simp_all
  have u0: "units ls (fst l) = 0"
    using Cons.prems(3) by (simp add: units_notin)
  have "spread h ls (pos (g s1)) = spread h (l # ls) (pos (g s))"
    using e Cons.prems(3) u0 by (auto simp: spread_def effect_def fun_eq_iff)
  then show ?case using IH e by (simp add: effect_def)
qed

lemma spread_merge: "merge_lines lines = Inr ls \<Longrightarrow> spread h ls P = spread h lines P"
  using merge_linesD(3,4) by (simp add: spread_def fun_eq_iff)

lemma effect_method:
  assumes "ebind (merge_lines lines) (\<lambda>ls. efold f ls s) = Inr s'" "store_ok (g s)"
    and "\<And>p q s s'. 0 < q \<Longrightarrow> store_ok (g s) \<Longrightarrow> f (p, q) s = Inr s' \<Longrightarrow> effect h (p, q) (g s) (g s')"
  shows "pos (g s') = spread h lines (pos (g s)) \<and> unexplained (g s') = unexplained (g s) \<and>
    rest_of (g s') = rest_of (g s) \<and> store_ok (g s')"
proof -
  from assms(1) obtain ls where ls: "merge_lines lines = Inr ls" "efold f ls s = Inr s'"
    by (auto simp: ebind_Inr_iff)
  have "effect h l (g s) (g s')" if "l \<in> set ls" "store_ok (g s)" "f l s = Inr s'" for l s s'
    using assms(3) [of "snd l" s "fst l" s'] merge_linesD(6) [OF ls(1) that(1)] that(2,3) by simp
  then have "pos (g s') = spread h ls (pos (g s)) \<and> unexplained (g s') = unexplained (g s) \<and>
      rest_of (g s') = rest_of (g s) \<and> store_ok (g s')"
    by (rule effect_loop [where f = f and g = g and h = h, OF ls(2) assms(2) merge_linesD(2) [OF ls(1)]])
  then show ?thesis by (simp add: spread_merge [OF ls(1)])
qed

lemma reserve_ok:
  "reserve lines ctx s = Inr s' \<Longrightarrow> store_ok s \<Longrightarrow> pos s' = spread hold lines (pos s) \<and>
   unexplained s' = unexplained s \<and> rest_of s' = rest_of s \<and> store_ok s'"
  unfolding reserve_def by (erule effect_method [where g = "\<lambda>s. s"]) (auto intro: reserve_one_ok)

lemma release_ok:
  "release lines ctx s = Inr s' \<Longrightarrow> store_ok s \<Longrightarrow> pos s' = spread unhold lines (pos s) \<and>
   unexplained s' = unexplained s \<and> rest_of s' = rest_of s \<and> store_ok s'"
  unfolding release_def by (erule effect_method [where g = "\<lambda>s. s"]) (auto intro: release_one_ok)

lemma fulfill_ok:
  "fulfill J lines ctx s = Inr (low, s') \<Longrightarrow> store_ok s \<Longrightarrow> pos s' = spread ship lines (pos s) \<and>
   unexplained s' = unexplained s \<and> rest_of s' = rest_of s \<and> store_ok s'"
  unfolding fulfill_def
  by (drule effect_method [where g = snd and h = ship]) (auto intro: fulfill_one_ok)

lemma restock_ok:
  "restock lines ctx s = Inr s' \<Longrightarrow> store_ok s \<Longrightarrow> pos s' = spread unship lines (pos s) \<and>
   unexplained s' = unexplained s \<and> rest_of s' = rest_of s \<and> store_ok s'"
  unfolding restock_def by (erule effect_method [where g = "\<lambda>s. s"]) (auto intro: restock_one_ok)

lemma addBatch_ok:
  assumes "addBatch p q b ctx s = Inr (res, s')" "store_ok s"
  shows "pos s' = (pos s)(p := unship q (pos s p)) \<and> unexplained s' = unexplained s \<and> rest_of s' = rest_of s \<and>
    store_ok s' \<and> 0 < q"
proof -
  from assms(1) obtain r where q: "0 < q" and r: "st_products s p = Some r"
    by (auto simp: addBatch_def split: if_splits option.splits)
  define r' where "r' = r\<lparr>pr_stockOnHand := pr_stockOnHand r + q,
    pr_initialCopies := Some ((case pr_initialCopies r of None \<Rightarrow> 0 | Some n \<Rightarrow> n) + q)\<rparr>"
  define cost where "cost = (case ba_unitCost b of Some c \<Rightarrow> Some (round2 c) | None \<Rightarrow> pr_costPrice r)"
  define sale where "sale = (case ba_salePrice b of Some x \<Rightarrow> round2 x | None \<Rightarrow> pr_price r)"
  from assms(1) q r obtain s1 where s1: "put_product p r' s = Inr s1"
    by (auto simp: addBatch_def Let_def r'_def ebind_Inr_iff split: if_splits)
  define s2 where "s2 = log_movement p r' PURCHASE_RECEIPT q 0 ctx cost s1"
  obtain i s3 where s3: "new_lot p (ba_source b) q cost (Some sale) (sc_purchaseId ctx) (ba_receivedAt b) s2 = (i, s3)"
    by (meson surj_pair)
  have s': "s' = snd (refreshCost p s3)"
    using assms(1) q r s1 s3
    by (auto simp: addBatch_def Let_def r'_def [symmetric] cost_def [symmetric] sale_def [symmetric]
        s2_def [symmetric] split: prod.splits)
  have "s2 = log_movement p r' PURCHASE_RECEIPT (pr_stockOnHand r' - pr_stockOnHand r) 0 ctx cost s1"
    by (simp add: s2_def r'_def)
  note st = row_step [OF r s1 assms(2) this]
  have b3: "same_books s2 s3" using same_books_writers(5) [of s2] s3 by (metis snd_conv)
  note lot = lots_ok_new_lot [OF st(4) q s3]
  have b: "same_books s2 s'" using same_books_trans [OF b3 refreshCost_ok(1)] by (simp add: s')
  have lo: "lots_ok s'" and le: "lots_left s' x = lots_left s x + (if x = p then q else 0)" for x
    using lot by (auto simp: s' refreshCost_ok(2,3) st(5))
  from le have "lots_left s' x = on_hand s2 x" if "st_products s2 x \<noteq> None" for x
    using st(9) [OF that] st(6) assms(2) by (auto simp: st(8) r'_def store_ok_def shelf_ok_def)
  then have "store_ok s'" by (rule store_okI [OF lo b _ st(7)])
  moreover have "rest_of s' = rest_of s" using st(3) new_lot_rest [where s = s2] s3
    by (simp add: s' refreshCost_rest) (metis snd_conv)
  ultimately show ?thesis
    using pos_same_books [OF b] unexplained_same_books [OF b] st(1,2) r q
    by (auto simp: pos_def unship_def fun_eq_iff r'_def)
qed

lemma setOnHand_ok:
  assumes "setOnHand p n ctx t s = Inr (row, s')" "store_ok s"
  shows "pos s' = (pos s)(p := map_option (\<lambda>(a, b). (n, b)) (pos s p)) \<and> unexplained s' = unexplained s \<and>
    rest_of s' = rest_of s \<and> store_ok s' \<and> 0 \<le> n"
proof -
  from assms(1) obtain r where n: "0 \<le> n" and r: "st_products s p = Some r"
    by (auto simp: setOnHand_def split: if_splits option.splits)
  define delta where "delta = n - pr_stockOnHand r"
  show ?thesis
  proof (cases "delta = 0")
    case True
    with assms n r show ?thesis by (auto simp: setOnHand_def delta_def pos_def fun_eq_iff)
  next
    case False
    define r' where "r' = r\<lparr>pr_stockOnHand := n\<rparr>"
    from assms(1) n r False obtain s1 where s1: "put_product p r' s = Inr s1"
      by (auto simp: setOnHand_def Let_def r'_def delta_def ebind_Inr_iff split: if_splits)
    define s2 where "s2 = log_movement p r' (case t of None \<Rightarrow> ADJUSTMENT | Some t \<Rightarrow> t) delta 0 ctx None s1"
    define s3 where "s3 = (if delta > 0
        then snd (new_lot p (if t = Some OPENING then LotOpening else LotAdjust) delta
               (product_cost p s2) (product_price p s2) None None s2)
        else snd (consume p (- delta) None s2))"
    have s': "s' = snd (refreshCost p s3)"
      using assms(1) n r s1 False
      by (auto simp: setOnHand_def Let_def r'_def [symmetric] delta_def [symmetric] s2_def [symmetric]
          s3_def split: if_splits)
    have "s2 = log_movement p r' (case t of None \<Rightarrow> ADJUSTMENT | Some t \<Rightarrow> t) (pr_stockOnHand r' - pr_stockOnHand r) 0 ctx None s1"
      by (simp add: s2_def r'_def delta_def)
    note st = row_step [OF r s1 assms(2) this]
    have 3: "lots_ok s3 \<and> same_books s2 s3 \<and> (\<forall>x. lots_left s3 x = lots_left s2 x + (if x = p then delta else 0)) \<and>
        rest_of s3 = rest_of s2"
    proof (cases "delta > 0")
      case True
      obtain i where i: "new_lot p (if t = Some OPENING then LotOpening else LotAdjust) delta
          (product_cost p s2) (product_price p s2) None None s2 = (i, s3)"
        using True by (metis s3_def surj_pair snd_conv)
      have "same_books s2 s3 \<and> rest_of s3 = rest_of s2"
        using True by (simp add: s3_def new_lot_rest)
      then show ?thesis using lots_ok_new_lot [OF st(4) True i] by auto
    next
      case False
      obtain used where u: "consume p (- delta) None s2 = (used, s3)"
        using False by (metis s3_def surj_pair snd_conv)
      have "- delta \<le> lots_left s2 p" using n st(5,6) by (simp add: delta_def)
      from consume_ok [OF st(4) _ this u] False consume_rest [OF u] show ?thesis by simp
    qed
    have b: "same_books s2 s'" using same_books_trans [OF _ refreshCost_ok(1), of s2 s3] 3 by (simp add: s')
    have lo: "lots_ok s'" and le: "lots_left s' x = lots_left s x + (if x = p then delta else 0)" for x
      using 3 by (auto simp: s' refreshCost_ok(2,3) st(5))
    from le have "lots_left s' x = on_hand s2 x" if "st_products s2 x \<noteq> None" for x
      using st(9) [OF that] st(6) assms(2) by (auto simp: st(8) r'_def delta_def store_ok_def shelf_ok_def)
    then have "store_ok s'" by (rule store_okI [OF lo b _ st(7)])
    moreover have "rest_of s' = rest_of s" using st(3) 3 by (simp add: s' refreshCost_rest)
    ultimately show ?thesis
      using pos_same_books [OF b] unexplained_same_books [OF b] st(1,2) r n
      by (auto simp: pos_def fun_eq_iff r'_def)
  qed
qed

end
