(* ===== verification/Stock_Properties.thy ===== *)
theory Stock_Properties
  imports Stock_Laws
begin

text \<open>
  The properties of the stock methods: the invariant of every history of stock operations, the
  admission rule of \<open>reserve\<close>, first in first out, and the return that undoes a shipment.
\<close>

section \<open>Histories\<close>

text \<open>One committed call of a method, or the passing of time.\<close>

inductive stock_step :: "decimal_js \<Rightarrow> 'a store_scheme \<Rightarrow> 'a store_scheme \<Rightarrow> bool" for J where
  Reserve: "reserve lines ctx s = Inr s' \<Longrightarrow> stock_step J s s'"
| Release: "release lines ctx s = Inr s' \<Longrightarrow> stock_step J s s'"
| Fulfill: "fulfill J lines ctx s = Inr (low, s') \<Longrightarrow> stock_step J s s'"
| Restock: "restock lines ctx s = Inr s' \<Longrightarrow> stock_step J s s'"
| Batch: "addBatch p q b ctx s = Inr (res, s') \<Longrightarrow> stock_step J s s'"
| Count: "setOnHand p n ctx t s = Inr (row, s') \<Longrightarrow> stock_step J s s'"
| Tick: "st_now s \<le> t \<Longrightarrow> stock_step J s (s\<lparr>st_now := t\<rparr>)"

lemma tick_ok: "store_ok s \<Longrightarrow> store_ok (s\<lparr>st_now := t\<rparr>) \<and> unexplained (s\<lparr>st_now := t\<rparr>) = unexplained s"
proof -
  have "same_books s (s\<lparr>st_now := t\<rparr>)" by (simp add: same_books_def stock_cols_def fun_eq_iff)
  moreover assume "store_ok s"
  ultimately show ?thesis
    by (auto simp: store_ok_def shelf_ok_def lots_ok_def outstanding_def lots_left_def on_hand_def
        unexplained_same_books)
qed

lemma stock_step_ok:
  "stock_step J s s' \<Longrightarrow> store_ok s \<Longrightarrow> store_ok s' \<and> unexplained s' = unexplained s"
proof (induction rule: stock_step.induct)
  case (Tick s t)
  then show ?case using tick_ok by blast
qed (auto dest: reserve_ok release_ok fulfill_ok restock_ok addBatch_ok setOnHand_ok)

lemma stock_reach_ok:
  "(stock_step J)\<^sup>*\<^sup>* s s' \<Longrightarrow> store_ok s \<Longrightarrow> store_ok s' \<and> unexplained s' = unexplained s"
  by (induction rule: rtranclp_induct) (auto dest: stock_step_ok)

text \<open>
  C3. The stock never drifts: after any history of reservations, releases, shipments, returns,
  receipts and count corrections, the batches of every product add up to its stock on hand, the
  on-hand and reserved figures are not negative, nothing is reserved beyond the shelf unless
  backorders are allowed, and the movement ledger explains the change of the on-hand figure exactly.
\<close>

theorem shelf_invariant:
  assumes "store_ok s" and "(stock_step J)\<^sup>*\<^sup>* s s'" and "st_products s' p = Some r"
  shows "lots_left s' p = pr_stockOnHand r \<and> 0 \<le> pr_stockOnHand r \<and> 0 \<le> pr_stockReserved r \<and>
    (pr_stockReserved r \<le> pr_stockOnHand r \<or> pr_allowBackorder r) \<and>
    on_hand s' p - on_hand s p = ledger s' p - ledger s p"
proof -
  note ok = stock_reach_ok [OF assms(2,1)]
  have "unexplained s' p = unexplained s p" using ok by simp
  then have "on_hand s' p - on_hand s p = ledger s' p - ledger s p" by (simp add: unexplained_def)
  moreover have "on_hand s' p = pr_stockOnHand r" using assms(3) by (simp add: on_hand_def)
  ultimately show ?thesis
    using ok assms(3) by (auto simp: store_ok_def shelf_ok_def products_stock_nonneg_def
        products_reserved_lte_hand_def)
qed

definition sample_row :: product_row where
  "sample_row = \<lparr>pr_stockOnHand = 5, pr_stockReserved = 1, pr_soldCount = 0, pr_lowStockThreshold = None,
     pr_trackInventory = True, pr_allowBackorder = False, pr_price = 100, pr_costPrice = Some 60,
     pr_initialCopies = Some 5, pr_deletedAt = None\<rparr>"

definition sample_lot :: "nat \<Rightarrow> int \<Rightarrow> time \<Rightarrow> lot" where
  "sample_lot i q t = \<lparr>lot_id = i, lot_productId = ''p'', lot_source = LotOpening, lot_unitCost = Some 60,
     lot_salePrice = None, lot_qtyIn = q, lot_qtyLeft = q, lot_purchaseId = None, lot_receivedAt = t, lot_createdAt = t\<rparr>"

definition sample_store :: store where
  "sample_store = \<lparr>st_now = 10, st_nextId = 2, st_products = [''p'' \<mapsto> sample_row],
     st_lots = [sample_lot 0 2 1, sample_lot 1 3 2], st_uses = [], st_moves = [], st_items = []\<rparr>"

definition no_ctx :: stock_ctx where
  "no_ctx = \<lparr>sc_orderId = None, sc_purchaseId = None\<rparr>"

lemmas stock_samples = sample_store_def sample_row_def sample_lot_def no_ctx_def

lemma sample_store_ok: "store_ok sample_store"
  by (auto simp: store_ok_def shelf_ok_def lots_ok_def outstanding_def lots_left_def on_hand_def stock_samples
      products_reserved_lte_hand_def products_stock_nonneg_def split: if_splits)

theorem shelf_invariant_witness:
  "\<exists>s' r. (stock_step decimal20)\<^sup>*\<^sup>* sample_store s' \<and> st_products s' ''p'' = Some r \<and>
     pr_stockReserved r = 3 \<and> lots_left s' ''p'' = pr_stockOnHand r"
proof -
  obtain s' where s': "reserve [(''p'', 2)] no_ctx sample_store = Inr s'"
    by (simp add: reserve_def merge_lines_eq bump_def reserve_one_def stock_samples put_product_def Let_def
        products_reserved_lte_hand_def products_stock_nonneg_def)
  then have reach: "(stock_step decimal20)\<^sup>*\<^sup>* sample_store s'" by (blast intro: Reserve)
  obtain r where r: "st_products s' ''p'' = Some r" "pr_stockReserved r = 3"
    using s' by (auto simp: reserve_def merge_lines_eq bump_def reserve_one_def stock_samples put_product_def Let_def
        products_reserved_lte_hand_def products_stock_nonneg_def log_movement_def)
  show ?thesis using shelf_invariant [OF sample_store_ok reach r(1)] reach r by blast
qed

section \<open>Admission\<close>

definition sellable_row :: "product_row \<Rightarrow> bool" where
  "sellable_row r \<longleftrightarrow> pr_deletedAt r = None \<and> pr_trackInventory r \<and> \<not> pr_allowBackorder r"

lemma reserve_one_other:
  "reserve_one ctx l s = Inr s' \<Longrightarrow> x \<noteq> fst l \<Longrightarrow> st_products s' x = st_products s x"
  by (auto simp: reserve_one_def Let_def stock_err log_movement_def split: option.splits if_splits prod.splits)

lemma reserve_one_iff:
  assumes "st_products s (fst l) = Some r" "sellable_row r" "products_stock_nonneg r" "0 < snd l"
  shows "(\<exists>s'. reserve_one ctx l s = Inr s') \<longleftrightarrow> snd l \<le> pr_stockOnHand r - pr_stockReserved r"
  using assms
  by (cases l) (auto simp: reserve_one_def Let_def sellable_row_def put_product_def products_stock_nonneg_def
      products_reserved_lte_hand_def split: if_splits)

lemma reserve_loop_iff:
  assumes "distinct (map fst ls)"
    and "\<forall>l \<in> set ls. 0 < snd l \<and> (\<exists>r. st_products s (fst l) = Some r \<and> sellable_row r \<and> products_stock_nonneg r)"
  shows "(\<exists>s'. efold (reserve_one ctx) ls s = Inr s') \<longleftrightarrow>
    (\<forall>l \<in> set ls. \<forall>r. st_products s (fst l) = Some r \<longrightarrow> snd l \<le> pr_stockOnHand r - pr_stockReserved r)"
  using assms
proof (induction ls arbitrary: s)
  case Nil
  then show ?case by simp
next
  case (Cons l ls)
  from Cons.prems(2) obtain r where r: "st_products s (fst l) = Some r" "sellable_row r" "products_stock_nonneg r" "0 < snd l"
    by auto
  note one = reserve_one_iff [OF r, of ctx]
  show ?case
  proof (cases "reserve_one ctx l s")
    case (Inl e)
    with one r(1) show ?thesis by auto
  next
    case (Inr s1)
    have keep: "st_products s1 (fst x) = st_products s (fst x)" if "x \<in> set ls" for x
    proof -
      have "fst l \<notin> fst ` set ls" using Cons.prems(1) by simp
      with that have "fst x \<noteq> fst l" by (metis imageI)
      with reserve_one_other [OF Inr] show ?thesis by blast
    qed
    then have "(\<exists>s'. efold (reserve_one ctx) ls s1 = Inr s') \<longleftrightarrow>
        (\<forall>l \<in> set ls. \<forall>r. st_products s (fst l) = Some r \<longrightarrow> snd l \<le> pr_stockOnHand r - pr_stockReserved r)"
      using Cons.IH [of s1] Cons.prems by simp
    then show ?thesis using Inr one r(1) by auto
  qed
qed

text \<open>
  C18. A reservation is granted exactly when it can be honoured: for live, tracked products without
  backorders, \<open>reserve\<close> succeeds if and only if every quantity is positive and, for every product,
  the total over all the lines fits what is on hand and not yet held; no constraint of the table
  ever stops it after the check.
\<close>

theorem reserve_granted_iff:
  assumes "store_ok s"
    and "\<forall>p \<in> fst ` set lines. \<exists>r. st_products s p = Some r \<and> sellable_row r"
  shows "(\<exists>s'. reserve lines ctx s = Inr s') \<longleftrightarrow>
    (\<forall>l \<in> set lines. 0 < snd l) \<and> (\<forall>p \<in> fst ` set lines. units lines p \<le> on_hand s p - reserved s p)"
proof (cases "\<forall>l \<in> set lines. 0 < snd l")
  case False
  then show ?thesis by (auto simp: reserve_def merge_lines_eq)
next
  case True
  then obtain ls where ls: "merge_lines lines = Inr ls" by (simp add: merge_lines_eq)
  note m = merge_linesD [OF ls]
  have rows: "\<forall>l \<in> set ls. 0 < snd l \<and> (\<exists>r. st_products s (fst l) = Some r \<and> sellable_row r \<and> products_stock_nonneg r)"
  proof
    fix l
    assume l: "l \<in> set ls"
    then have "fst l \<in> fst ` set lines" using m(4) by (metis imageI)
    then show "0 < snd l \<and> (\<exists>r. st_products s (fst l) = Some r \<and> sellable_row r \<and> products_stock_nonneg r)"
      using assms m(6) [OF l] by (fastforce simp: store_ok_def)
  qed
  have "(\<exists>s'. reserve lines ctx s = Inr s') \<longleftrightarrow> (\<exists>s'. efold (reserve_one ctx) ls s = Inr s')"
    by (simp add: reserve_def ls)
  also have "\<dots> \<longleftrightarrow> (\<forall>l \<in> set ls. snd l \<le> on_hand s (fst l) - reserved s (fst l))"
    unfolding reserve_loop_iff [OF m(2) rows] using rows
    by (intro ball_cong refl) (force simp: on_hand_def reserved_def)
  also have "\<dots> \<longleftrightarrow> (\<forall>p \<in> fst ` set ls. units lines p \<le> on_hand s p - reserved s p)"
    using m(5) by (auto simp: image_iff)
  finally show ?thesis using True m(4) by simp
qed

theorem reserve_granted_iff_witness:
  "(\<exists>s'. reserve [(''p'', 1), (''p'', 3)] no_ctx sample_store = Inr s') \<and>
   \<not> (\<exists>s'. reserve [(''p'', 2), (''p'', 3)] no_ctx sample_store = Inr s')"
proof -
  have "\<forall>p \<in> fst ` set [(''p'', q :: int), (''p'', q')]. \<exists>r. st_products sample_store p = Some r \<and> sellable_row r" for q q'
    by (simp add: stock_samples sellable_row_def)
  note iff = reserve_granted_iff [OF sample_store_ok this, where ctx = no_ctx]
  show ?thesis unfolding iff by (simp add: on_hand_def reserved_def stock_samples)
qed

text \<open>
  C34. The guard of \<open>reserve\<close> lets a product without inventory tracking through whatever is on the
  shelf, but the table's constraint does not know about tracking: beyond the shelf the reservation
  (and with it the whole order) fails with a database error.
\<close>

theorem untracked_reserve_violates:
  assumes "st_products s p = Some r" "\<not> pr_trackInventory r" "\<not> pr_allowBackorder r" "pr_deletedAt r = None"
    and "0 < q" "pr_stockOnHand r - pr_stockReserved r < q"
  shows "reserve [(p, q)] ctx s = Inl (CheckViolation ''products_reserved_lte_hand'')"
  using assms
  by (simp add: reserve_def merge_lines_eq bump_def reserve_one_def Let_def put_product_def
      products_reserved_lte_hand_def)

theorem untracked_reserve_violates_witness:
  "reserve [(''p'', 5)] no_ctx (sample_store\<lparr>st_products := [''p'' \<mapsto> sample_row\<lparr>pr_trackInventory := False\<rparr>]\<rparr>) =
     Inl (CheckViolation ''products_reserved_lte_hand'')"
  by (rule untracked_reserve_violates [where r = "sample_row\<lparr>pr_trackInventory := False\<rparr>"]) (simp_all add: stock_samples)

text \<open>
  C35. In the same way a backorder can be reserved but not shipped: handing over more than the shelf
  holds passes the guard of \<open>fulfill\<close> and is refused by \<open>products_stock_nonneg\<close>.
\<close>

theorem backorder_fulfill_violates:
  assumes "st_products s p = Some r" "pr_allowBackorder r" "0 < q" "pr_stockOnHand r < q"
  shows "fulfill J [(p, q)] ctx s = Inl (CheckViolation ''products_stock_nonneg'')"
  using assms
  by (simp add: fulfill_def merge_lines_eq bump_def fulfill_one_def Let_def put_product_def
      products_reserved_lte_hand_def products_stock_nonneg_def)

theorem backorder_fulfill_violates_witness:
  "fulfill decimal20 [(''p'', 6)] no_ctx (sample_store\<lparr>st_products := [''p'' \<mapsto> sample_row\<lparr>pr_allowBackorder := True\<rparr>]\<rparr>) =
     Inl (CheckViolation ''products_stock_nonneg'')"
  by (rule backorder_fulfill_violates [where r = "sample_row\<lparr>pr_allowBackorder := True\<rparr>"]) (simp_all add: stock_samples)

section \<open>First in, first out\<close>

text \<open>What a shipment takes out of each lot of the list.\<close>

fun taken :: "int \<Rightarrow> lot list \<Rightarrow> nat \<Rightarrow> int" where
  "taken need [] i = 0"
| "taken need (l # ls) i =
     (if need \<le> 0 then 0
      else (if lot_id l = i then min need (lot_qtyLeft l) else 0) + taken (need - min need (lot_qtyLeft l)) ls i)"

lemma taken_nonpos [simp]: "need \<le> 0 \<Longrightarrow> taken need ls i = 0"
  by (cases ls) auto

lemma taken_notin: "i \<notin> lot_id ` set ls \<Longrightarrow> taken need ls i = 0"
  by (induction ls arbitrary: need) auto

lemma taken_fifo:
  assumes "distinct (map lot_id ls)" "i < j" "j < length ls" "taken need ls (lot_id (ls ! j)) > 0"
  shows "taken need ls (lot_id (ls ! i)) = lot_qtyLeft (ls ! i)"
  using assms
proof (induction ls arbitrary: need i j)
  case Nil
  then show ?case by simp
next
  case (Cons l ls)
  then obtain j' where j': "j = Suc j'" by (cases j) auto
  have ne: "lot_id l \<noteq> lot_id (ls ! k)" if "k < length ls" for k
    using Cons.prems(1) nth_mem [OF that] by (metis distinct.simps(2) imageI list.set_map list.simps(9))
  have need: "0 < need" using Cons.prems(4) taken_nonpos by (metis leI less_irrefl)
  define t where "t = min need (lot_qtyLeft l)"
  have rest: "taken (need - t) ls (lot_id (ls ! j')) > 0"
    using Cons.prems(3,4) need ne [of j'] by (simp add: j' t_def)
  show ?case
  proof (cases i)
    case 0
    have "0 < need - t" using rest taken_nonpos by (metis leI less_irrefl)
    then have "t = lot_qtyLeft l" by (simp add: t_def min_def split: if_splits)
    moreover have "taken (need - t) ls (lot_id l) = 0"
      using Cons.prems(1) by (intro taken_notin) simp
    ultimately show ?thesis using need by (simp add: 0 t_def)
  next
    case (Suc i')
    then have "taken (need - t) ls (lot_id (ls ! i')) = lot_qtyLeft (ls ! i')"
      using Cons.IH [of i' j' "need - t"] Cons.prems rest by (simp add: j')
    then show ?thesis using need ne [of i'] Cons.prems(2,3) by (simp add: Suc j' t_def)
  qed
qed

lemma consume_loop_lots:
  "consume_loop p ord ls need used s = (used', need', s') \<Longrightarrow>
   st_lots s' = map (\<lambda>l. l\<lparr>lot_qtyLeft := lot_qtyLeft l - taken need ls (lot_id l)\<rparr>) (st_lots s)"
proof (induction p ord ls need used s rule: consume_loop.induct)
  case (1 p ord need used s)
  then show ?case by simp
next
  case (2 p ord l ls need used s)
  show ?case
  proof (cases "need \<le> 0")
    case True
    with 2(2) show ?thesis by simp
  next
    case False
    have "st_lots s' = map (\<lambda>l. l\<lparr>lot_qtyLeft := lot_qtyLeft l - taken (need - min need (lot_qtyLeft l0)) ls (lot_id l)\<rparr>)
        (st_lots (set_left (lot_id l) (\<lambda>l. lot_qtyLeft l - min need (lot_qtyLeft l0)) s))" if "l0 = l" for l0
      using 2(1) [OF False refl refl refl] 2(2) False that
      by (auto simp: Let_def new_use_def split: option.splits)
    from this [OF refl] show ?thesis using False by (auto simp: set_left_lots)
  qed
qed

definition left_in :: "'a store_scheme \<Rightarrow> nat \<Rightarrow> int" where
  "left_in s i = (case map_of (map (\<lambda>l. (lot_id l, lot_qtyLeft l)) (st_lots s)) i of None \<Rightarrow> 0 | Some q \<Rightarrow> q)"

lemma left_in_lot:
  assumes "lots_ok s" "l \<in> set (st_lots s)"
  shows "left_in s (lot_id l) = lot_qtyLeft l"
proof -
  have "map_of (map (\<lambda>l. (lot_id l, lot_qtyLeft l)) (st_lots s)) (lot_id l) = Some (lot_qtyLeft l)"
    using assms by (intro map_of_is_SomeI) (auto simp: lots_ok_def comp_def)
  then show ?thesis by (simp add: left_in_def)
qed

lemma left_in_map:
  "left_in (s\<lparr>st_lots := map (\<lambda>l. l\<lparr>lot_qtyLeft := lot_qtyLeft l - f (lot_id l)\<rparr>) lots\<rparr>) i =
     (if i \<in> lot_id ` set lots then left_in (s\<lparr>st_lots := lots\<rparr>) i - f i else 0)"
  by (induction lots) (auto simp: left_in_def)

lemma consume_left:
  assumes "consume p q ord s = (used, s')" "lots_ok s" "l \<in> set (st_lots s)"
  shows "left_in s' (lot_id l) = lot_qtyLeft l - taken q (open_lots p s) (lot_id l)"
proof -
  obtain u n s1 where run: "consume_loop p ord (open_lots p s) q [] s = (u, n, s1)" by (metis prod_cases3)
  have "st_lots s' = st_lots s1"
    using assms(1) run by (auto simp: consume_def refreshCost_def set_cost_def Let_def split: option.splits)
  also note consume_loop_lots [OF run]
  finally have "left_in s' (lot_id l) =
      left_in (s\<lparr>st_lots := map (\<lambda>l. l\<lparr>lot_qtyLeft := lot_qtyLeft l - taken q (open_lots p s) (lot_id l)\<rparr>) (st_lots s)\<rparr>) (lot_id l)"
    by (simp add: left_in_def)
  also have "\<dots> = left_in (s\<lparr>st_lots := st_lots s\<rparr>) (lot_id l) - taken q (open_lots p s) (lot_id l)"
    unfolding left_in_map using assms(3) by auto
  finally show ?thesis using left_in_lot [OF assms(2,3)] by (simp add: left_in_def)
qed



section \<open>A return undoes the shipment\<close>

lemma consume_loop_uses:
  assumes "consume_loop p (Some ord) ls need used s = (used', need', s')" "\<And>l. l \<in> set ls \<Longrightarrow> 0 < lot_qtyLeft l"
  shows "\<exists>ns. st_uses s' = st_uses s @ ns \<and>
    (\<forall>u \<in> set ns. us_orderId u = Some ord \<and> us_productId u = p \<and> us_returned u = 0) \<and>
    (\<forall>i. sum_list (map us_qty (filter (\<lambda>u. us_lotId u = i) ns)) = taken need ls i) \<and>
    sum_list (map us_qty ns) = need - need'"
  using assms
proof (induction ls arbitrary: need used s)
  case Nil
  then show ?case by (intro exI [of _ "[]"]) auto
next
  case (Cons l ls)
  show ?case
  proof (cases "need \<le> 0")
    case True
    with Cons.prems(1) show ?thesis by (intro exI [of _ "[]"]) auto
  next
    case False
    define t where "t = min need (lot_qtyLeft l)"
    define s2 where "s2 = new_use (lot_id l) p ord t (lot_unitCost l) (set_left (lot_id l) (\<lambda>l. lot_qtyLeft l - t) s)"
    have "consume_loop p (Some ord) ls (need - t)
        (used @ [\<lparr>lu_lotId = Some (lot_id l), lu_qty = t, lu_unitCost = lot_unitCost l\<rparr>]) s2 = (used', need', s')"
      using Cons.prems(1) False by (simp add: Let_def t_def s2_def)
    from Cons.IH [OF this] Cons.prems(2) obtain ns where ns: "st_uses s' = st_uses s2 @ ns"
      "\<forall>u \<in> set ns. us_orderId u = Some ord \<and> us_productId u = p \<and> us_returned u = 0"
      "\<forall>i. sum_list (map us_qty (filter (\<lambda>u. us_lotId u = i) ns)) = taken (need - t) ls i"
      "sum_list (map us_qty ns) = need - t - need'" by auto
    obtain u where "st_uses s2 = st_uses s @ [u]" "us_orderId u = Some ord" "us_productId u = p"
      "us_returned u = 0" "us_lotId u = lot_id l" "us_qty u = t"
      by (simp add: s2_def new_use_def set_left_def)
    with ns False show ?thesis by (intro exI [of _ "u # ns"]) (auto simp: t_def)
  qed
qed

lemma sum_list_map_0: "(\<And>x. x \<in> set xs \<Longrightarrow> f x = 0) \<Longrightarrow> sum_list (map f xs) = (0::'b::comm_monoid_add)"
  by (induction xs) auto

text \<open>When everything that is out comes back, each lot gets back what is out of it.\<close>

lemma unconsume_loop_all:
  assumes "lots_ok s" "distinct (map us_id us)" "set us \<subseteq> set (st_uses s)"
    "unconsume_loop us (sum_list (map (\<lambda>u. us_qty u - us_returned u) us)) s = (left', s')"
  shows "left' = 0 \<and> st_lots s' = map (\<lambda>l. l\<lparr>lot_qtyLeft := lot_qtyLeft l +
    sum_list (map (\<lambda>u. us_qty u - us_returned u) (filter (\<lambda>u. us_lotId u = lot_id l) us))\<rparr>) (st_lots s)"
  using assms
proof (induction us arbitrary: s)
  case Nil
  then show ?case by simp
next
  case (Cons u us)
  let ?out = "\<lambda>u. us_qty u - us_returned u"
  have u: "u \<in> set (st_uses s)" using Cons.prems(3) by simp
  have pos: "0 \<le> ?out x" if "x \<in> set (st_uses s)" for x
    using that Cons.prems(1) by (auto simp: lots_ok_def use_ok_def)
  have nn: "0 \<le> sum_list (map ?out us)" using pos Cons.prems(3) by (intro sum_list_nonneg) auto
  show ?case
  proof (cases "?out u = 0")
    case True
    then have "unconsume_loop us (sum_list (map ?out us)) s = (left', s')"
      using Cons.prems(4) nn by (cases us) (auto simp: Let_def split: if_splits)
    from Cons.IH [OF Cons.prems(1) _ _ this] Cons.prems(2,3) True show ?thesis
      by (auto simp: if_distrib cong: if_cong)
  next
    case False
    with pos [OF u] have b: "0 < ?out u" by simp
    have "use_ok (st_lots s) (st_nextId s) u" using u Cons.prems(1) by (simp add: lots_ok_def)
    then obtain l where l: "l \<in> set (st_lots s)" "lot_id l = us_lotId u" by (auto simp: use_ok_def)
    define s2 where "s2 = set_left (us_lotId u) (\<lambda>l. min (lot_qtyLeft l + ?out u) (lot_qtyIn l)) (add_returned (us_id u) (?out u) s)"
    note give = lots_ok_give [OF Cons.prems(1) u l b order_refl]
    have uniq: "x = l" if "x \<in> set (st_lots s)" "lot_id x = us_lotId u" for x
      using that l Cons.prems(1) by (auto simp: lots_ok_def distinct_map inj_on_def)
    have lots2: "st_lots s2 = map (\<lambda>x. if lot_id x = us_lotId u then x\<lparr>lot_qtyLeft := lot_qtyLeft x + ?out u\<rparr> else x) (st_lots s)"
      using give(1) uniq by (auto simp: s2_def set_left_lots add_returned_def)
    have sub: "set us \<subseteq> set (st_uses s2)"
    proof
      fix x
      assume x: "x \<in> set us"
      have "us_id u \<notin> us_id ` set us" using Cons.prems(2) by simp
      with x have "us_id x \<noteq> us_id u" by (metis imageI)
      moreover have "x \<in> set (st_uses s)" using x Cons.prems(3) by auto
      ultimately show "x \<in> set (st_uses s2)" by (force simp: s2_def set_left_def add_returned_def)
    qed
    have "unconsume_loop us (sum_list (map ?out us)) s2 = (left', s')"
      using Cons.prems(4) b nn by (simp add: Let_def s2_def min_absorb2)
    from Cons.IH [OF _ _ sub this] give(2) Cons.prems(2)
    show ?thesis by (auto simp: s2_def [symmetric] lots2)
  qed
qed

text \<open>
  C31. A full return puts every copy back into the batch it came from: after an order's shipment of a
  product and the return of the same quantity, all batches are exactly what they were (so the cost
  and the age of the stock are what they were), provided nothing else of that order was still out.
\<close>

theorem return_restores_lots:
  assumes "lots_ok s" and "0 < q" and "q \<le> lots_left s p"
    and "\<forall>u \<in> set (st_uses s). us_orderId u = Some ord \<and> us_productId u = p \<longrightarrow> us_returned u = us_qty u"
    and "consume p q (Some ord) s = (used, s1)" and "sc_orderId ctx = Some ord"
  shows "st_lots (unconsume p q ctx s1) = st_lots s"
proof -
  let ?out = "\<lambda>u. us_qty u - us_returned u"
  obtain u n s0 where run: "consume_loop p (Some ord) (open_lots p s) q [] s = (u, n, s0)" by (metis prod_cases3)
  have s1: "st_lots s1 = st_lots s0" "st_uses s1 = st_uses s0"
    using assms(5) run by (auto simp: consume_def refreshCost_def set_cost_def Let_def split: option.splits)
  note lots0 = consume_loop_lots [OF run]
  obtain ns where ns: "st_uses s1 = st_uses s @ ns"
    "\<forall>u \<in> set ns. us_orderId u = Some ord \<and> us_productId u = p \<and> us_returned u = 0"
    "\<And>i. sum_list (map us_qty (filter (\<lambda>u. us_lotId u = i) ns)) = taken q (open_lots p s) i"
    "sum_list (map us_qty ns) = q - n"
    using consume_loop_uses [OF run] open_lots_props(3) [OF assms(1)] s1(2) by metis
  have ok1: "lots_ok s1" using consume_ok [OF assms(1) _ assms(3,5)] assms(2) by simp
  define us where "us = order_uses ord p s1"
  have mine: "mset us = mset (filter (\<lambda>u. us_orderId u = Some ord \<and> us_productId u = p) (st_uses s) @ ns)"
  proof -
    have "filter (\<lambda>u. us_orderId u = Some ord \<and> us_productId u = p) ns = ns"
      using ns(2) by (intro filter_True) auto
    then show ?thesis by (simp add: us_def order_uses_def ns(1))
  qed
  have out: "sum_list (map ?out (filter P us)) = sum_list (map us_qty (filter P ns))" for P
  proof -
    have "sum_list (map ?out (filter P us)) = sum_list (map ?out (filter P
        (filter (\<lambda>u. us_orderId u = Some ord \<and> us_productId u = p) (st_uses s) @ ns)))"
      by (rule sum_list_mset_cong) (simp only: mset_filter mine)
    also have "\<dots> = sum_list (map us_qty (filter P ns))"
    proof -
      have "sum_list (map ?out (filter P (filter (\<lambda>u. us_orderId u = Some ord \<and> us_productId u = p) (st_uses s)))) = 0"
        using assms(4) by (intro sum_list_map_0) auto
      moreover have "map ?out (filter P ns) = map us_qty (filter P ns)" using ns(2) by (intro map_cong) auto
      ultimately show ?thesis by (simp only: filter_append map_append sum_list_append add_0)
    qed
    finally show ?thesis .
  qed
  have total: "sum_list (map ?out us) = q"
  proof -
    note op = open_lots_props [OF assms(1)]
    have "n = 0" using consume_loop_ok [OF assms(1) op(1-3) _ run] op(4) assms(2,3) by simp
    then show ?thesis using out [of "\<lambda>_. True"] ns(4) by simp
  qed
  obtain left' s2 where s2: "unconsume_loop us q s1 = (left', s2)" by (meson surj_pair)
  from unconsume_loop_all [OF ok1 order_uses_props(1,2) [OF ok1, where ord = ord and p = p], folded us_def, unfolded total, OF s2]
  have "left' = 0" "st_lots s2 = map (\<lambda>l. l\<lparr>lot_qtyLeft := lot_qtyLeft l + taken q (open_lots p s) (lot_id l)\<rparr>) (st_lots s1)"
    by (simp_all add: out ns(3))
  moreover have "st_lots (unconsume p q ctx s1) = st_lots s2"
    using assms(6) s2 calculation(1)
    by (auto simp: unconsume_def us_def refreshCost_def set_cost_def Let_def split: option.split)
  ultimately show ?thesis by (simp add: s1(1) lots0 comp_def)
qed

theorem return_restores_lots_witness:
  "\<exists>s1. snd (consume ''p'' 3 (Some ''o1'') sample_store) = s1 \<and> st_lots s1 \<noteq> st_lots sample_store \<and>
     st_lots (unconsume ''p'' 3 \<lparr>sc_orderId = Some ''o1'', sc_purchaseId = None\<rparr> s1) = st_lots sample_store"
proof -
  obtain used s1 where c: "consume ''p'' 3 (Some ''o1'') sample_store = (used, s1)" by (meson surj_pair)
  have ok: "lots_ok sample_store" using sample_store_ok by (simp add: store_ok_def shelf_ok_def)
  have m: "sample_lot 0 2 1 \<in> set (st_lots sample_store)" by (simp add: sample_store_def)
  have "left_in s1 0 = 0"
    using consume_left [OF c ok m] by (simp add: open_lots_def stock_samples)
  then have "st_lots s1 \<noteq> st_lots sample_store" by (auto simp: left_in_def stock_samples)
  moreover have "3 \<le> lots_left sample_store ''p''" by (simp add: lots_left_def stock_samples)
  then have "st_lots (unconsume ''p'' 3 \<lparr>sc_orderId = Some ''o1'', sc_purchaseId = None\<rparr> s1) = st_lots sample_store"
    by (intro return_restores_lots [OF ok _ _ _ c]) (simp_all add: stock_samples)
  ultimately show ?thesis using c by auto
qed

end
