(* ===== verification/Coupons.thy ===== *)
theory Coupons
  imports Money
begin

text \<open>
  \<open>orders/promotions/domain/coupon-rules.ts\<close>: which cart lines a coupon covers, when it may be
  used, what it takes off and how the discount is spread over the lines. A rejection is its
  machine-readable code.
\<close>

datatype coupon_type = PERCENT | FIXED | FREE_SHIPPING

datatype coupon_scope = ScopeAll | ScopeSection | ScopeCategory | ScopeProduct | ScopeBundle

record coupon_target =
  ct_sectionCode :: "string option"
  ct_categoryId :: "id option"
  ct_productId :: "id option"
  ct_bundleId :: "id option"

record coupon_rule =
  cr_id :: id
  cr_code :: string
  cr_type :: coupon_type
  cr_value :: rat
  cr_maxDiscount :: "rat option"
  cr_minSubtotal :: rat
  cr_scope :: coupon_scope
  cr_targets :: "coupon_target list"
  cr_usageLimit :: "int option"
  cr_perCustomerLimit :: "int option"
  cr_usedCount :: int
  cr_firstOrderOnly :: bool
  cr_isActive :: bool
  cr_startsAt :: "time option"
  cr_endsAt :: "time option"
  cr_deletedAt :: "time option"

record coupon_line =
  cl_kind :: item_kind
  cl_productId :: "id option"
  cl_bundleId :: "id option"
  cl_sectionCode :: string
  cl_categoryIds :: "id list"
  cl_gross :: money

record coupon_usage =
  cu_customerRedemptions :: "int option"
  cu_customerPriorOrders :: "int option"

record coupon_applied =
  ca_code :: string
  ca_type :: coupon_type
  ca_discount :: money
  ca_allocations :: "money list"
  ca_eligible :: "bool list"
  ca_eligibleSubtotal :: money
  ca_freeShipping :: bool

type_synonym rejection = string

section \<open>The rules\<close>

definition normalizeCouponCode :: "string \<Rightarrow> string" where
  "normalizeCouponCode code = map upper_char (js_trim code)"

definition lineEligible :: "coupon_rule \<Rightarrow> coupon_line \<Rightarrow> bool" where
  "lineEligible rule line =
     (let t = cr_targets rule
      in case cr_scope rule of
           ScopeAll \<Rightarrow> True
         | ScopeSection \<Rightarrow> list_ex (\<lambda>x. ct_sectionCode x = Some (cl_sectionCode line)) t
         | ScopeCategory \<Rightarrow> cl_kind line = PRODUCT \<and>
             list_ex (\<lambda>x. case ct_categoryId x of None \<Rightarrow> False | Some c \<Rightarrow> List.member (cl_categoryIds line) c) t
         | ScopeProduct \<Rightarrow> cl_kind line = PRODUCT \<and>
             list_ex (\<lambda>x. ct_productId x \<noteq> None \<and> ct_productId x = cl_productId line) t
         | ScopeBundle \<Rightarrow> cl_kind line = BUNDLE \<and>
             list_ex (\<lambda>x. ct_bundleId x \<noteq> None \<and> ct_bundleId x = cl_bundleId line) t)"

definition at_least :: "int option \<Rightarrow> int option \<Rightarrow> bool" where
  "at_least n limit = (case limit of None \<Rightarrow> False | Some l \<Rightarrow> (case n of None \<Rightarrow> False | Some k \<Rightarrow> k \<ge> l))"

definition couponAvailability :: "coupon_rule \<Rightarrow> coupon_usage \<Rightarrow> time \<Rightarrow> rejection option" where
  "couponAvailability rule usage now =
     (if \<not> cr_isActive rule \<or> cr_deletedAt rule \<noteq> None then Some ''coupon.inactive''
      else if (case cr_startsAt rule of None \<Rightarrow> False | Some t \<Rightarrow> t > now) then Some ''coupon.not_started''
      else if (case cr_endsAt rule of None \<Rightarrow> False | Some t \<Rightarrow> t \<le> now) then Some ''coupon.expired''
      else if at_least (Some (cr_usedCount rule)) (cr_usageLimit rule) then Some ''coupon.exhausted''
      else if at_least (cu_customerRedemptions usage) (cr_perCustomerLimit rule) then Some ''coupon.customer_limit''
      else if cr_firstOrderOnly rule \<and> (case cu_customerPriorOrders usage of None \<Rightarrow> False | Some n \<Rightarrow> n > 0)
      then Some ''coupon.first_order_only''
      else None)"

definition coupon_discount :: "decimal_js \<Rightarrow> coupon_rule \<Rightarrow> money \<Rightarrow> money" where
  "coupon_discount J rule eligibleSubtotal =
     round2 (case cr_type rule of
        PERCENT \<Rightarrow>
          (let d = half_up 0 (d_div J (d_times J eligibleSubtotal (cr_value rule)) 100);
               d = (case cr_maxDiscount rule of None \<Rightarrow> d | Some m \<Rightarrow> dec_min d m)
           in dec_min d eligibleSubtotal)
      | FIXED \<Rightarrow> dec_min (cr_value rule) eligibleSubtotal
      | FREE_SHIPPING \<Rightarrow> 0)"

definition evaluateCoupon ::
  "decimal_js \<Rightarrow> coupon_rule \<Rightarrow> coupon_line list \<Rightarrow> coupon_usage \<Rightarrow> time \<Rightarrow> rejection + coupon_applied" where
  "evaluateCoupon J rule lines usage now =
     (case couponAvailability rule usage now of
        Some unavailable \<Rightarrow> Inl unavailable
      | None \<Rightarrow>
          let subtotal = dec_sum (map cl_gross lines)
          in if subtotal < cr_minSubtotal rule then Inl ''coupon.min_subtotal''
             else
               let eligible = map (lineEligible rule) lines;
                   eligibleSubtotal = dec_sum (map (cl_gross \<circ> fst) (filter snd (zip lines eligible)))
               in if \<not> list_ex (\<lambda>b. b) eligible \<or> eligibleSubtotal = 0 then Inl ''coupon.not_applicable''
                  else
                    let discount = coupon_discount J rule eligibleSubtotal;
                        weights = map (\<lambda>(l, e). if e then cl_gross l else 0) (zip lines eligible);
                        allocations = (if discount = 0 then map (\<lambda>_. 0) lines else allocate J discount weights)
                    in Inr \<lparr>ca_code = normalizeCouponCode (cr_code rule), ca_type = cr_type rule,
                            ca_discount = discount, ca_allocations = allocations, ca_eligible = eligible,
                            ca_eligibleSubtotal = eligibleSubtotal,
                            ca_freeShipping = (cr_type rule = FREE_SHIPPING)\<rparr>)"

section \<open>The shape staff may save\<close>

record coupon_shape =
  cs_type :: coupon_type
  cs_value :: rat
  cs_maxDiscount :: "rat option"
  cs_scope :: coupon_scope
  cs_targets :: "coupon_target list"
  cs_startsAt :: "time option"
  cs_endsAt :: "time option"

text \<open>The four fields of a target in the order of \<open>SCOPE_FIELD\<close>, those that are set.\<close>

definition set_fields :: "coupon_target \<Rightarrow> coupon_scope list" where
  "set_fields t =
     (if ct_sectionCode t \<noteq> None then [ScopeSection] else []) @
     (if ct_categoryId t \<noteq> None then [ScopeCategory] else []) @
     (if ct_productId t \<noteq> None then [ScopeProduct] else []) @
     (if ct_bundleId t \<noteq> None then [ScopeBundle] else [])"

definition validateCouponShape :: "coupon_shape \<Rightarrow> rejection option" where
  "validateCouponShape c =
     (if cs_type c = PERCENT \<and> \<not> (cs_value c > 0 \<and> cs_value c < 100) then Some ''coupon.value_invalid''
      else if cs_type c = FIXED \<and> \<not> cs_value c > 0 then Some ''coupon.value_invalid''
      else if cs_type c \<noteq> PERCENT \<and> cs_maxDiscount c \<noteq> None then Some ''coupon.max_discount_invalid''
      else if (case (cs_startsAt c, cs_endsAt c) of (Some s, Some e) \<Rightarrow> e \<le> s | _ \<Rightarrow> False)
      then Some ''coupon.window_invalid''
      else if cs_scope c = ScopeAll
      then (if cs_targets c \<noteq> [] then Some ''coupon.targets_invalid'' else None)
      else if cs_targets c = [] then Some ''coupon.targets_required''
      else if list_ex (\<lambda>t. length (set_fields t) \<noteq> 1 \<or> hd (set_fields t) \<noteq> cs_scope c) (cs_targets c)
      then Some ''coupon.targets_invalid''
      else None)"

text \<open>
  The constraints of the tables: \<open>coupons_value\<close>, \<open>coupons_window\<close>, \<open>coupon_targets_one_target\<close>.
\<close>

definition coupons_value_check :: "coupon_type \<Rightarrow> rat \<Rightarrow> bool" where
  "coupons_value_check t v \<longleftrightarrow>
     t = PERCENT \<and> v > 0 \<and> v \<le> 100 \<or> t = FIXED \<and> v > 0 \<or> t = FREE_SHIPPING \<and> v \<ge> 0"

definition coupons_window_check :: "time option \<Rightarrow> time option \<Rightarrow> bool" where
  "coupons_window_check s e \<longleftrightarrow> (case (s, e) of (Some s, Some e) \<Rightarrow> e > s | _ \<Rightarrow> True)"

definition coupon_targets_one_target_check :: "coupon_target \<Rightarrow> bool" where
  "coupon_targets_one_target_check t \<longleftrightarrow> length (set_fields t) = 1"

section \<open>What a discount is\<close>

context decimal_laws
begin

lemma coupon_discount_bounds:
  assumes "0 \<le> s" "paisa s" "0 \<le> cr_value rule" "pred_option ((\<le>) 0) (cr_maxDiscount rule)"
  shows "0 \<le> coupon_discount J rule s" "coupon_discount J rule s \<le> s" "paisa (coupon_discount J rule s)"
proof -
  have "0 \<le> half_up 0 (d_div J (d_times J s (cr_value rule)) 100)"
    using assms by (intro half_up_ge_0 d_div_nonneg d_times_nonneg) auto
  then have nn: "0 \<le> coupon_discount J rule s \<and> coupon_discount J rule s \<le> round2 s"
    using assms by (auto simp: coupon_discount_def Let_def round2_def
        intro!: half_up_ge_0 half_up_mono split: coupon_type.split option.split)
  then show "0 \<le> coupon_discount J rule s" "coupon_discount J rule s \<le> s" using assms(2) by auto
  show "paisa (coupon_discount J rule s)" by (simp add: coupon_discount_def)
qed

end

lemma zip_map_same: "zip xs (map f xs) = map (\<lambda>x. (x, f x)) xs"
  by (induction xs) auto

text \<open>Inversion of an accepted evaluation.\<close>

lemma evaluateCoupon_Inr:
  assumes "evaluateCoupon J rule lines usage now = Inr a"
  defines "w \<equiv> map (\<lambda>l. if lineEligible rule l then cl_gross l else 0) lines"
  shows "couponAvailability rule usage now = None"
    and "cr_minSubtotal rule \<le> sum_list (map cl_gross lines)"
    and "ca_eligible a = map (lineEligible rule) lines"
    and "ca_eligibleSubtotal a = sum_list w" "sum_list w \<noteq> 0"
    and "ca_discount a = coupon_discount J rule (sum_list w)"
    and "ca_allocations a = (if ca_discount a = 0 then map (\<lambda>_. 0) lines else allocate J (ca_discount a) w)"
    and "ca_type a = cr_type rule" "ca_freeShipping a \<longleftrightarrow> cr_type rule = FREE_SHIPPING"
proof -
  have sw: "sum_list (map (\<lambda>x. cl_gross (fst x)) (filter snd (map (\<lambda>l. (l, lineEligible rule l)) ls))) =
      sum_list (map (\<lambda>l. if lineEligible rule l then cl_gross l else 0) ls)" for ls
    by (induction ls) auto
  show "couponAvailability rule usage now = None"
    and "cr_minSubtotal rule \<le> sum_list (map cl_gross lines)"
    and "ca_eligible a = map (lineEligible rule) lines"
    and "ca_eligibleSubtotal a = sum_list w" "sum_list w \<noteq> 0"
    and "ca_discount a = coupon_discount J rule (sum_list w)"
    and "ca_allocations a = (if ca_discount a = 0 then map (\<lambda>_. 0) lines else allocate J (ca_discount a) w)"
    and "ca_type a = cr_type rule" "ca_freeShipping a \<longleftrightarrow> cr_type rule = FREE_SHIPPING"
    using assms(1)
    by (auto simp: evaluateCoupon_def Let_def zip_map_same sw w_def comp_def case_prod_beta
        cong: if_cong split: option.splits if_splits)
qed

definition coupon_amounts_ok :: "coupon_rule \<Rightarrow> coupon_line list \<Rightarrow> bool" where
  "coupon_amounts_ok rule lines \<longleftrightarrow>
     0 \<le> cr_value rule \<and> pred_option ((\<le>) 0) (cr_maxDiscount rule) \<and>
     (\<forall>l \<in> set lines. paisa (cl_gross l) \<and> 0 \<le> cl_gross l) \<and> sum_list (map cl_gross lines) \<le> 10 ^ 8"

context decimal_laws
begin

lemma coupon_allocation:
  assumes "coupon_amounts_ok rule lines" and "evaluateCoupon J rule lines usage now = Inr a"
  shows "0 \<le> ca_discount a \<and> ca_discount a \<le> ca_eligibleSubtotal a \<and>
    sum_list (ca_allocations a) = ca_discount a \<and> length (ca_allocations a) = length lines \<and>
    (\<forall>i < length lines. 0 \<le> ca_allocations a ! i \<and> paisa (ca_allocations a ! i) \<and>
       ca_allocations a ! i \<le> cl_gross (lines ! i) \<and>
       (\<not> lineEligible rule (lines ! i) \<longrightarrow> ca_allocations a ! i = 0))"
proof -
  note inv = evaluateCoupon_Inr [OF assms(2)]
  let ?w = "map (\<lambda>l. if lineEligible rule l then cl_gross l else 0) lines"
  have gross: "\<And>l. l \<in> set lines \<Longrightarrow> paisa (cl_gross l)" "\<And>l. l \<in> set lines \<Longrightarrow> 0 \<le> cl_gross l"
    and small: "sum_list (map cl_gross lines) \<le> 10 ^ 8"
    using assms(1) by (auto simp: coupon_amounts_ok_def)
  have w: "\<forall>x \<in> set ?w. 0 \<le> x" "\<forall>x \<in> set ?w. paisa x" using gross by auto
  then have w': "\<And>x. x \<in> set ?w \<Longrightarrow> 0 \<le> x" "\<And>x. x \<in> set ?w \<Longrightarrow> paisa x" by blast+
  have "sum_list ?w \<le> sum_list (map cl_gross lines)"
    using gross by (intro sum_list_mono_map) auto
  with small have W: "sum_list ?w \<le> 10 ^ 8" by simp
  have W0: "0 < sum_list ?w" using sum_list_nonneg [of ?w, OF w'(1)] inv(5) by linarith
  have pW: "paisa (sum_list ?w)" using w(2) by (intro paisa_sum_list) auto
  have d: "0 \<le> ca_discount a" "ca_discount a \<le> sum_list ?w" "paisa (ca_discount a)"
    unfolding inv(6) using assms(1) W0 pW
    by (auto intro!: coupon_discount_bounds simp: coupon_amounts_ok_def)
  have split: "split_input (round2 (ca_discount a)) ?w" "paisa_weights ?w"
    using d W W0 w' unfolding split_input_def paisa_weights_def by simp_all
  have nth: "?w ! i \<le> cl_gross (lines ! i)" if "i < length lines" for i
    using that gross(2) [of "lines ! i"] by simp
  show ?thesis
  proof (cases "ca_discount a = 0")
    case True
    then have "ca_allocations a = map (\<lambda>_. 0) lines" by (simp add: inv(7))
    moreover have "sum_list (map (\<lambda>_. 0 :: rat) xs) = 0" for xs :: "coupon_line list"
      by (induction xs) auto
    ultimately show ?thesis using True d gross(2) by (simp add: inv(4))
  next
    case False
    then have al: "ca_allocations a = allocate J (ca_discount a) ?w" by (simp add: inv(7))
    have each: "0 \<le> ca_allocations a ! i \<and> paisa (ca_allocations a ! i) \<and>
        ca_allocations a ! i \<le> cl_gross (lines ! i) \<and>
        (\<not> lineEligible rule (lines ! i) \<longrightarrow> ca_allocations a ! i = 0)" if i: "i < length lines" for i
    proof -
      have iw: "i < length ?w" using i by simp
      have mem: "allocate J (ca_discount a) ?w ! i \<in> set (allocate J (ca_discount a) ?w)"
        using iw by (intro nth_mem) simp
      have "allocate J (ca_discount a) ?w ! i \<le> ?w ! i"
        using d by (intro allocate_le_weight [OF split _ iw]) simp
      then show ?thesis
        using allocate_nonneg [OF split(1) mem] allocate_paisa [OF mem split(1)]
          allocate_zero_weight [OF split iw] nth [OF i] i
        unfolding al by (simp split: if_splits)
    qed
    then show ?thesis
      using d allocate_sum [OF split(1)] by (simp add: inv(4) al)
  qed
qed

end

text \<open>
  C20. Spreading a coupon: whenever a coupon is accepted, its discount is between 0 and the
  eligible subtotal, the per-line allocations add up to it exactly, none is negative or above the
  line's gross, and a line outside the scope gets nothing, for carts of up to a hundred million
  taka with amounts in paisa.
\<close>

theorem coupon_allocation_exact:
  assumes "decimal_laws J" and "coupon_amounts_ok rule lines"
    and "evaluateCoupon J rule lines usage now = Inr a"
  shows "0 \<le> ca_discount a \<and> ca_discount a \<le> ca_eligibleSubtotal a \<and>
    sum_list (ca_allocations a) = ca_discount a \<and> length (ca_allocations a) = length lines \<and>
    (\<forall>i < length lines. 0 \<le> ca_allocations a ! i \<and> paisa (ca_allocations a ! i) \<and>
       ca_allocations a ! i \<le> cl_gross (lines ! i) \<and>
       (\<not> lineEligible rule (lines ! i) \<longrightarrow> ca_allocations a ! i = 0))"
  by (rule decimal_laws.coupon_allocation [OF assms])

definition sample_rule :: coupon_rule where
  "sample_rule = \<lparr>cr_id = ''c1'', cr_code = ''cholo10'', cr_type = PERCENT, cr_value = 10,
     cr_maxDiscount = Some 100, cr_minSubtotal = 0, cr_scope = ScopeSection,
     cr_targets = [\<lparr>ct_sectionCode = Some ''book'', ct_categoryId = None, ct_productId = None, ct_bundleId = None\<rparr>],
     cr_usageLimit = Some 5, cr_perCustomerLimit = None, cr_usedCount = 0, cr_firstOrderOnly = False,
     cr_isActive = True, cr_startsAt = None, cr_endsAt = None, cr_deletedAt = None\<rparr>"

definition sample_line :: "string \<Rightarrow> money \<Rightarrow> coupon_line" where
  "sample_line sec g = \<lparr>cl_kind = PRODUCT, cl_productId = Some ''p'', cl_bundleId = None,
     cl_sectionCode = sec, cl_categoryIds = [], cl_gross = g\<rparr>"

definition no_usage :: coupon_usage where
  "no_usage = \<lparr>cu_customerRedemptions = None, cu_customerPriorOrders = None\<rparr>"

lemmas coupon_samples = sample_rule_def sample_line_def no_usage_def

theorem coupon_allocation_exact_witness:
  "\<exists>a. evaluateCoupon decimal20 sample_rule [sample_line ''book'' 250, sample_line ''food'' 100] no_usage 0 = Inr a \<and>
    sum_list (ca_allocations a) = ca_discount a \<and> ca_allocations a ! 1 = 0"
proof -
  let ?ls = "[sample_line ''book'' 250, sample_line ''food'' 100]"
  have ok: "coupon_amounts_ok sample_rule ?ls" by (simp add: coupon_amounts_ok_def coupon_samples)
  have "\<exists>a. evaluateCoupon decimal20 sample_rule ?ls no_usage 0 = Inr a"
    by (simp add: evaluateCoupon_def couponAvailability_def at_least_def coupon_samples lineEligible_def Let_def)
  then obtain a where a: "evaluateCoupon decimal20 sample_rule ?ls no_usage 0 = Inr a" by blast
  have "\<not> lineEligible sample_rule (sample_line ''food'' 100)" by (simp add: coupon_samples lineEligible_def)
  then show ?thesis
    using coupon_allocation_exact [OF decimal20.decimal_laws_axioms ok a] a
    by auto
qed

text \<open>
  An accepted coupon is usable: it is active and not deleted, inside its window, below its total
  limit, and (when the customer is known) below the customer's limit and, for a first-order coupon,
  the customer has no earlier order.
\<close>

theorem accepted_coupon_available:
  assumes "evaluateCoupon J rule lines usage now = Inr a"
  shows "cr_isActive rule \<and> cr_deletedAt rule = None \<and>
    pred_option (\<lambda>t. t \<le> now) (cr_startsAt rule) \<and> pred_option (\<lambda>t. now < t) (cr_endsAt rule) \<and>
    pred_option (\<lambda>l. cr_usedCount rule < l) (cr_usageLimit rule) \<and>
    pred_option (\<lambda>l. pred_option (\<lambda>n. n < l) (cu_customerRedemptions usage)) (cr_perCustomerLimit rule) \<and>
    (cr_firstOrderOnly rule \<longrightarrow> pred_option (\<lambda>n. n \<le> 0) (cu_customerPriorOrders usage)) \<and>
    cr_minSubtotal rule \<le> sum_list (map cl_gross lines) \<and> list_ex (lineEligible rule) lines"
proof -
  have "list_ex (lineEligible rule) lines"
    using evaluateCoupon_Inr(5) [OF assms] by (induction lines) (auto split: if_splits)
  then show ?thesis
    using evaluateCoupon_Inr(1,2) [OF assms]
    by (auto simp: couponAvailability_def at_least_def split: option.splits if_splits)
qed

theorem accepted_coupon_available_witness:
  "cr_usedCount sample_rule < 5"
proof -
  obtain a where "evaluateCoupon decimal20 sample_rule [sample_line ''book'' 250] no_usage 0 = Inr a"
    by (simp add: evaluateCoupon_def couponAvailability_def at_least_def coupon_samples lineEligible_def Let_def)
  from accepted_coupon_available [OF this] show ?thesis by (simp add: sample_rule_def)
qed

text \<open>
  C18. The admin validation is at least as strict as the constraints of the tables: a shape it lets
  through satisfies \<open>coupons_value\<close>, \<open>coupons_window\<close> and \<open>coupon_targets_one_target\<close>, provided a
  free-shipping coupon was not given a negative value (the one case it does not look at).
\<close>

theorem validated_coupon_fits_table:
  assumes "validateCouponShape c = None" and "cs_type c = FREE_SHIPPING \<Longrightarrow> 0 \<le> cs_value c"
  shows "coupons_value_check (cs_type c) (cs_value c) \<and> coupons_window_check (cs_startsAt c) (cs_endsAt c) \<and>
    list_all coupon_targets_one_target_check (cs_targets c) \<and>
    (cs_targets c = [] \<longleftrightarrow> cs_scope c = ScopeAll)"
  using assms
  by (cases "cs_type c")
    (auto simp: validateCouponShape_def coupons_value_check_def coupons_window_check_def list_ex_iff list_all_iff
      coupon_targets_one_target_check_def split: if_splits option.splits)

theorem validated_coupon_fits_table_witness:
  "coupons_value_check FREE_SHIPPING 0"
  using validated_coupon_fits_table [of "\<lparr>cs_type = FREE_SHIPPING, cs_value = 0, cs_maxDiscount = None,
    cs_scope = ScopeAll, cs_targets = [], cs_startsAt = None, cs_endsAt = None\<rparr>"]
  by (simp add: validateCouponShape_def)

text \<open>Without that proviso the validation accepts what the table refuses.\<close>

lemma free_shipping_negative_accepted:
  "validateCouponShape \<lparr>cs_type = FREE_SHIPPING, cs_value = -1, cs_maxDiscount = None,
     cs_scope = ScopeAll, cs_targets = [], cs_startsAt = None, cs_endsAt = None\<rparr> = None"
  "\<not> coupons_value_check FREE_SHIPPING (-1)"
  by (simp_all add: validateCouponShape_def coupons_value_check_def)

end
