(* ===== verification/Shipping.thy ===== *)
theory Shipping
  imports Coupons
begin

text \<open>
  \<open>orders/shipping/domain/shipping-fee.ts\<close>: the delivery fee of a cart. The Bangla \<open>reason\<close> and
  the sentence of \<open>shippingNote\<close> are display text and are not modelled; the \<open>basis\<close> is the
  machine-readable reason.
\<close>

datatype shipping_rule_type = RuleMinSubtotal | RuleSectionOnly | RuleAnyBundle | RuleCampaignAll

record zone_info =
  zi_id :: int
  zi_code :: string
  zi_fee :: money
  zi_courierCost :: money
  zi_etaMinDays :: int
  zi_etaMaxDays :: int

record free_shipping_rule =
  fs_id :: id
  fs_type :: shipping_rule_type
  fs_minSubtotal :: "money option"
  fs_sectionId :: "id option"
  fs_startsAt :: "time option"
  fs_endsAt :: "time option"
  fs_isActive :: bool
  fs_priority :: int

record shipping_line =
  shl_kind :: item_kind
  shl_sectionId :: id
  shl_freeShipping :: bool

record shipping_input =
  si_zone :: "zone_info option"
  si_lines :: "shipping_line list"
  si_netSubtotal :: money
  si_couponFreeShipping :: bool
  si_rules :: "free_shipping_rule list"
  si_now :: time

datatype shipping_basis =
  ITEM_FLAGS | ANY_BUNDLE | SECTION_ONLY | COUPON | CAMPAIGN_ALL | MIN_SUBTOTAL | ZONE | UNKNOWN_DISTRICT

record shipping_outcome =
  so_fee :: "money option"
  so_free :: bool
  so_basis :: shipping_basis
  so_ruleId :: "id option"
  so_zoneCode :: "string option"
  so_expectedCourierCost :: "money option"
  so_freeAbove :: "money option"
  so_amountToFree :: "money option"
  so_campaign :: bool

section \<open>The precedence of the rules\<close>

definition ruleIsLive :: "free_shipping_rule \<Rightarrow> time \<Rightarrow> bool" where
  "ruleIsLive r now \<longleftrightarrow> fs_isActive r \<and>
     (case fs_startsAt r of None \<Rightarrow> True | Some t \<Rightarrow> t \<le> now) \<and>
     (case fs_endsAt r of None \<Rightarrow> True | Some t \<Rightarrow> t > now)"

definition live_rules :: "shipping_input \<Rightarrow> free_shipping_rule list" where
  "live_rules i = sort_key (\<lambda>r. - fs_priority r) (filter (\<lambda>r. ruleIsLive r (si_now i)) (si_rules i))"

definition is_min_rule :: "free_shipping_rule \<Rightarrow> bool" where
  "is_min_rule r \<longleftrightarrow> fs_type r = RuleMinSubtotal \<and> fs_minSubtotal r \<noteq> None \<and> D (fs_minSubtotal r) > 0"

text \<open>The \<open>reduce\<close> that looks for the lowest threshold; the first of several equal ones wins.\<close>

definition lowest_rule :: "free_shipping_rule list \<Rightarrow> free_shipping_rule option" where
  "lowest_rule rs = foldl (\<lambda>m r. case m of
       None \<Rightarrow> Some r
     | Some x \<Rightarrow> if D (fs_minSubtotal r) < D (fs_minSubtotal x) then Some r else m) None rs"

definition free_above :: "shipping_input \<Rightarrow> money option" where
  "free_above i = map_option (\<lambda>r. D (fs_minSubtotal r)) (lowest_rule (filter is_min_rule (live_rules i)))"

definition is_section_rule :: "shipping_line list \<Rightarrow> free_shipping_rule \<Rightarrow> bool" where
  "is_section_rule lines r \<longleftrightarrow> fs_type r = RuleSectionOnly \<and>
     (case fs_sectionId r of None \<Rightarrow> False | Some s \<Rightarrow> s \<noteq> '''' \<and> list_all (\<lambda>l. shl_sectionId l = s) lines)"

definition outcome ::
  "shipping_input \<Rightarrow> shipping_basis \<Rightarrow> id option \<Rightarrow> money option \<Rightarrow> shipping_outcome" where
  "outcome i basis ruleId fee =
     \<lparr>so_fee = fee, so_free = (fee = Some 0), so_basis = basis, so_ruleId = ruleId,
      so_zoneCode = map_option zi_code (si_zone i),
      so_expectedCourierCost = map_option zi_courierCost (si_zone i),
      so_freeAbove = free_above i,
      so_amountToFree = (case free_above i of
          None \<Rightarrow> None
        | Some m \<Rightarrow> if si_netSubtotal i < m \<and> basis = ZONE then Some (m - si_netSubtotal i) else None),
      so_campaign = list_ex (\<lambda>r. fs_type r = RuleCampaignAll) (live_rules i)\<rparr>"

definition resolveShipping :: "shipping_input \<Rightarrow> shipping_outcome" where
  "resolveShipping i =
     (let live = live_rules i;
          net = si_netSubtotal i;
          lines = si_lines i;
          lowest = lowest_rule (filter is_min_rule live);
          campaignRule = find (\<lambda>r. fs_type r = RuleCampaignAll) live;
          bundleRule = find (\<lambda>r. fs_type r = RuleAnyBundle) live;
          sectionRule = find (is_section_rule lines) live
      in if lines \<noteq> [] \<and> list_all shl_freeShipping lines then outcome i ITEM_FLAGS None (Some 0)
         else if lines \<noteq> [] \<and> bundleRule \<noteq> None \<and> list_ex (\<lambda>l. shl_kind l = BUNDLE) lines
         then outcome i ANY_BUNDLE (map_option fs_id bundleRule) (Some 0)
         else if lines \<noteq> [] \<and> sectionRule \<noteq> None
         then outcome i SECTION_ONLY (map_option fs_id sectionRule) (Some 0)
         else if si_couponFreeShipping i then outcome i COUPON None (Some 0)
         else if campaignRule \<noteq> None then outcome i CAMPAIGN_ALL (map_option fs_id campaignRule) (Some 0)
         else if lines \<noteq> [] \<and> (case free_above i of None \<Rightarrow> False | Some m \<Rightarrow> net \<ge> m)
         then outcome i MIN_SUBTOTAL (map_option fs_id lowest) (Some 0)
         else (case si_zone i of
                 None \<Rightarrow> outcome i UNKNOWN_DISTRICT None None
               | Some z \<Rightarrow> outcome i ZONE None (Some (zi_fee z))))"

section \<open>What the customer is charged\<close>

lemma lowest_fold:
  "foldl (\<lambda>m r. case m of None \<Rightarrow> Some r
      | Some x \<Rightarrow> if D (fs_minSubtotal r) < D (fs_minSubtotal x) then Some r else m) (Some x0) rs =
   Some x \<Longrightarrow> x \<in> insert x0 (set rs) \<and> (\<forall>r \<in> insert x0 (set rs). D (fs_minSubtotal x) \<le> D (fs_minSubtotal r))"
proof (induction rs arbitrary: x0)
  case Nil
  then show ?case by simp
next
  case (Cons r rs)
  then show ?case by (cases "D (fs_minSubtotal r) < D (fs_minSubtotal x0)") fastforce+
qed

lemma lowest_fold_Some: "foldl (\<lambda>m r. case m of None \<Rightarrow> Some r
      | Some x \<Rightarrow> if D (fs_minSubtotal r) < D (fs_minSubtotal x) then Some r else m) (Some x0) rs \<noteq> None"
  by (induction rs arbitrary: x0) auto

lemma lowest_rule_Some_iff: "lowest_rule rs = None \<longleftrightarrow> rs = []"
  by (cases rs) (simp_all add: lowest_rule_def lowest_fold_Some)

lemma lowest_rule_least:
  assumes "lowest_rule rs = Some x"
  shows "x \<in> set rs \<and> (\<forall>r \<in> set rs. D (fs_minSubtotal x) \<le> D (fs_minSubtotal r))"
  using assms lowest_fold by (cases rs) (auto simp: lowest_rule_def)

text \<open>The advertised threshold is the lowest of the live thresholds.\<close>

lemma free_above_least:
  "free_above i =
    (let R = {r \<in> set (si_rules i). ruleIsLive r (si_now i) \<and> is_min_rule r}
     in if R = {} then None else Some (Min ((\<lambda>r. D (fs_minSubtotal r)) ` R)))"
proof -
  let ?R = "{r \<in> set (si_rules i). ruleIsLive r (si_now i) \<and> is_min_rule r}"
  have R: "set (filter is_min_rule (live_rules i)) = ?R" by (auto simp: live_rules_def)
  show ?thesis
  proof (cases "lowest_rule (filter is_min_rule (live_rules i))")
    case None
    with R have "?R = {}" by (metis lowest_rule_Some_iff empty_set)
    with None show ?thesis by (simp add: free_above_def)
  next
    case (Some x)
    note x = lowest_rule_least [OF Some, unfolded R]
    have "Min ((\<lambda>r. D (fs_minSubtotal r)) ` ?R) = D (fs_minSubtotal x)"
      using x by (intro Min_eqI) auto
    with Some x show ?thesis by (auto simp: free_above_def Let_def)
  qed
qed

text \<open>The decision as a list of the reasons for which delivery is free, whatever the district.\<close>

definition waived :: "shipping_input \<Rightarrow> bool" where
  "waived i \<longleftrightarrow>
     si_lines i \<noteq> [] \<and>
       (list_all shl_freeShipping (si_lines i)
        \<or> list_ex (\<lambda>r. fs_type r = RuleAnyBundle) (live_rules i) \<and> list_ex (\<lambda>l. shl_kind l = BUNDLE) (si_lines i)
        \<or> list_ex (is_section_rule (si_lines i)) (live_rules i))
     \<or> si_couponFreeShipping i
     \<or> list_ex (\<lambda>r. fs_type r = RuleCampaignAll) (live_rules i)"

definition reached :: "shipping_input \<Rightarrow> bool" where
  "reached i \<longleftrightarrow> si_lines i \<noteq> [] \<and> pred_option (\<lambda>m. m \<le> si_netSubtotal i) (free_above i) \<and> free_above i \<noteq> None"

lemma outcome_sel [simp]:
  "so_fee (outcome i b r f) = f" "so_basis (outcome i b r f) = b"
  "so_amountToFree (outcome i b r f) = Some x \<longleftrightarrow>
     b = ZONE \<and> 0 < x \<and> free_above i = Some (si_netSubtotal i + x)"
  by (auto simp: outcome_def split: option.splits)

lemma find_list_ex: "find P xs \<noteq> None \<longleftrightarrow> list_ex P xs"
  by (induction xs) auto

text \<open>The decision, with the rule that is reported left open.\<close>

lemma resolveShipping_decision:
  fixes i
  defines "x \<equiv> resolveShipping i"
  shows "so_fee x = (if waived i \<or> reached i then Some 0 else map_option zi_fee (si_zone i))"
    and "so_basis x = ZONE \<Longrightarrow> \<not> waived i"
    and "\<exists>b r f. x = outcome i b r f"
proof -
  have fa: "si_lines i \<noteq> [] \<and> (case free_above i of None \<Rightarrow> False | Some m \<Rightarrow> m \<le> si_netSubtotal i) \<longleftrightarrow> reached i"
    by (auto simp: reached_def split: option.split)
  show "so_fee x = (if waived i \<or> reached i then Some 0 else map_option zi_fee (si_zone i))"
    unfolding x_def resolveShipping_def Let_def fa find_list_ex waived_def
    by (cases "si_zone i") (simp_all split: if_split, blast+)
  show "so_basis x = ZONE \<Longrightarrow> \<not> waived i"
    unfolding x_def resolveShipping_def Let_def fa find_list_ex waived_def
    by (cases "si_zone i") (simp_all split: if_splits, blast+)
  show "\<exists>b r f. x = outcome i b r f"
    unfolding x_def resolveShipping_def Let_def by (simp split: if_split option.split) blast
qed

lemmas resolveShipping_fee = resolveShipping_decision(1)


text \<open>
  The hint "add X more for free delivery" is exact: with a subtotal raised by that amount the
  same cart ships free, and with any smaller raise it still pays the fee of the zone.
\<close>

theorem amount_to_free_exact:
  assumes "so_amountToFree (resolveShipping i) = Some x" and "si_lines i \<noteq> []"
  shows "0 < x \<and> so_fee (resolveShipping (i\<lparr>si_netSubtotal := si_netSubtotal i + x\<rparr>)) = Some 0 \<and>
    (\<forall>y. y < x \<longrightarrow> so_fee (resolveShipping (i\<lparr>si_netSubtotal := si_netSubtotal i + y\<rparr>)) =
       map_option zi_fee (si_zone i))"
proof -
  obtain b r f where o: "resolveShipping i = outcome i b r f" using resolveShipping_decision(3) by blast
  with assms(1) have fa: "free_above i = Some (si_netSubtotal i + x)" "0 < x" and "b = ZONE" by auto
  with o have z: "\<not> waived i" using resolveShipping_decision(2) [of i] by simp
  have live: "live_rules (i\<lparr>si_netSubtotal := n\<rparr>) = live_rules i" for n
    by (simp add: live_rules_def)
  have "free_above (i\<lparr>si_netSubtotal := n\<rparr>) = free_above i" for n by (simp add: free_above_def live)
  moreover have "waived (i\<lparr>si_netSubtotal := n\<rparr>) = waived i" for n by (simp add: waived_def live)
  ultimately show ?thesis
    using fa z assms(2) by (simp add: resolveShipping_fee reached_def)
qed

definition sample_cart :: shipping_input where
  "sample_cart = \<lparr>si_zone = Some \<lparr>zi_id = 1, zi_code = ''in'', zi_fee = 60, zi_courierCost = 50,
       zi_etaMinDays = 1, zi_etaMaxDays = 2\<rparr>,
     si_lines = [\<lparr>shl_kind = PRODUCT, shl_sectionId = ''s'', shl_freeShipping = False\<rparr>],
     si_netSubtotal = 400, si_couponFreeShipping = False,
     si_rules = [\<lparr>fs_id = ''r'', fs_type = RuleMinSubtotal, fs_minSubtotal = Some 500, fs_sectionId = None,
       fs_startsAt = None, fs_endsAt = None, fs_isActive = True, fs_priority = 0\<rparr>],
     si_now = 0\<rparr>"

theorem amount_to_free_exact_witness:
  "so_fee (resolveShipping (sample_cart\<lparr>si_netSubtotal := 400 + 100\<rparr>)) = Some 0 \<and>
   so_fee (resolveShipping (sample_cart\<lparr>si_netSubtotal := 400 + 99\<rparr>)) = Some 60"
proof -
  have "so_amountToFree (resolveShipping sample_cart) = Some 100"
    by (simp add: resolveShipping_def Let_def sample_cart_def live_rules_def ruleIsLive_def outcome_def
        free_above_def lowest_rule_def is_min_rule_def is_section_rule_def D_def)
  note hint = amount_to_free_exact [OF this]
  have ne: "si_lines sample_cart \<noteq> []" and net: "si_netSubtotal sample_cart = 400"
    and zone: "map_option zi_fee (si_zone sample_cart) = Some 60"
    by (simp_all add: sample_cart_def)
  show ?thesis
    using hint [OF ne, THEN conjunct2, THEN conjunct1]
      hint [OF ne, THEN conjunct2, THEN conjunct2, rule_format, of 99]
    unfolding net zone by simp
qed

end
