(* ===== verification/Quote.thy ===== *)
theory Quote
  imports Shipping
begin

text \<open>
  \<open>orders/pricing/domain/quote-calculator.ts\<close>: the one price calculation behind the cart, the
  checkout quote and the placement of an order. Every step is the code's: the gross of each line,
  the coupon and its allocations, the net, the taxes, the spread of a bundle's net over its
  components, the delivery fee and the totals, and the product units to reserve.
\<close>

record priced_product =
  pp_id :: id
  pp_title :: string
  pp_sku :: string
  pp_sectionId :: id
  pp_sectionCode :: string
  pp_categoryId :: id
  pp_subcategoryId :: "id option"
  pp_categoryName :: "string option"
  pp_unitPrice :: money
  pp_listPrice :: money
  pp_compareAt :: "money option"
  pp_unitCost :: "money option"
  pp_taxRate :: rat
  pp_freeShipping :: bool
  pp_available :: "int option"
  pp_dealEndsAt :: "time option"

record priced_bundle =
  pb_id :: id
  pb_title :: string
  pb_sectionId :: id
  pb_sectionCode :: string
  pb_unitPrice :: money
  pb_compareAt :: "money option"
  pb_freeShipping :: bool
  pb_components :: "(priced_product \<times> int) list"

datatype quote_line_input = QProduct priced_product int | QBundle priced_bundle int

record quote_input =
  qi_lines :: "quote_line_input list"
  qi_coupon :: "(coupon_rule \<times> coupon_usage) option"
  qi_zone :: "zone_info option"
  qi_shippingRules :: "free_shipping_rule list"
  qi_now :: time

record quoted_component =
  qc_productId :: id
  qc_title :: string
  qc_quantity :: int
  qc_unitCost :: "money option"
  qc_allocatedRevenue :: money
  qc_taxAmount :: money

record quoted_line =
  ql_kind :: item_kind
  ql_productId :: "id option"
  ql_bundleId :: "id option"
  ql_title :: string
  ql_sku :: "string option"
  ql_sectionId :: id
  ql_sectionCode :: string
  ql_categoryName :: "string option"
  ql_quantity :: int
  ql_unitPrice :: money
  ql_listPrice :: money
  ql_unitCost :: "money option"
  ql_gross :: money
  ql_discount :: money
  ql_taxAmount :: money
  ql_lineTotal :: money
  ql_freeShipping :: bool
  ql_couponEligible :: bool
  ql_components :: "quoted_component list"

record quote_coupon =
  qk_code :: string
  qk_type :: coupon_type
  qk_discount :: money
  qk_freeShipping :: bool

record quote =
  q_lines :: "quoted_line list"
  q_itemsSubtotal :: money
  q_discountTotal :: money
  q_netSubtotal :: money
  q_taxTotal :: money
  q_shippingFee :: "money option"
  q_shipping :: shipping_outcome
  q_grandTotal :: money
  q_itemsCost :: "money option"
  q_coupon :: "quote_coupon option"
  q_couponRejection :: "rejection option"
  q_stockUnits :: "(id \<times> int) list"

section \<open>The calculation\<close>

definition bundleListPrice :: "priced_bundle \<Rightarrow> money" where
  "bundleListPrice b = (case pb_compareAt b of
      Some c \<Rightarrow> c
    | None \<Rightarrow> dec_sum (map (\<lambda>(p, q). pp_listPrice p * of_int q) (pb_components b)))"

definition bundleUnitCost :: "priced_bundle \<Rightarrow> money option" where
  "bundleUnitCost b =
     (if pb_components b = [] \<or> list_ex (\<lambda>(p, q). pp_unitCost p = None) (pb_components b) then None
      else Some (round2 (dec_sum (map (\<lambda>(p, q). the (pp_unitCost p) * of_int q) (pb_components b)))))"

definition truthy_ids :: "id option list \<Rightarrow> id list" where
  "truthy_ids xs = concat (map (\<lambda>x. case x of None \<Rightarrow> [] | Some i \<Rightarrow> if i = '''' then [] else [i]) xs)"

fun toCouponLine :: "quote_line_input \<Rightarrow> money \<Rightarrow> coupon_line" where
  "toCouponLine (QProduct p q) gross =
     \<lparr>cl_kind = PRODUCT, cl_productId = Some (pp_id p), cl_bundleId = None, cl_sectionCode = pp_sectionCode p,
      cl_categoryIds = truthy_ids [Some (pp_categoryId p), pp_subcategoryId p], cl_gross = gross\<rparr>"
| "toCouponLine (QBundle b q) gross =
     \<lparr>cl_kind = BUNDLE, cl_productId = None, cl_bundleId = Some (pb_id b), cl_sectionCode = pb_sectionCode b,
      cl_categoryIds = [], cl_gross = gross\<rparr>"

fun line_gross :: "quote_line_input \<Rightarrow> money" where
  "line_gross (QProduct p q) = round2 (pp_unitPrice p * of_int q)"
| "line_gross (QBundle b q) = round2 (pb_unitPrice b * of_int q)"

definition quote_components :: "decimal_js \<Rightarrow> priced_bundle \<Rightarrow> int \<Rightarrow> money \<Rightarrow> quoted_component list" where
  "quote_components J b quantity net =
     (let weights = map (\<lambda>(p, q). pp_listPrice p * of_int q) (pb_components b);
          shares = (if pb_components b \<noteq> [] then allocate J net weights else [])
      in map (\<lambda>((p, q), share).
           \<lparr>qc_productId = pp_id p, qc_title = pp_title p, qc_quantity = q * quantity,
            qc_unitCost = map_option round2 (pp_unitCost p), qc_allocatedRevenue = share,
            qc_taxAmount = percentOf J share (pp_taxRate p)\<rparr>) (zip (pb_components b) shares))"

fun quote_line :: "decimal_js \<Rightarrow> quote_line_input \<Rightarrow> money \<Rightarrow> money \<Rightarrow> bool \<Rightarrow> quoted_line" where
  "quote_line J (QProduct p q) gross discount eligible =
     (let net = gross - discount; taxAmount = percentOf J net (pp_taxRate p)
      in \<lparr>ql_kind = PRODUCT, ql_productId = Some (pp_id p), ql_bundleId = None, ql_title = pp_title p,
          ql_sku = Some (pp_sku p), ql_sectionId = pp_sectionId p, ql_sectionCode = pp_sectionCode p,
          ql_categoryName = pp_categoryName p, ql_quantity = q, ql_unitPrice = round2 (pp_unitPrice p),
          ql_listPrice = round2 (pp_listPrice p), ql_unitCost = map_option round2 (pp_unitCost p),
          ql_gross = gross, ql_discount = discount, ql_taxAmount = taxAmount, ql_lineTotal = net + taxAmount,
          ql_freeShipping = pp_freeShipping p, ql_couponEligible = eligible, ql_components = []\<rparr>)"
| "quote_line J (QBundle b q) gross discount eligible =
     (let net = gross - discount; components = quote_components J b q net;
          taxAmount = dec_sum (map qc_taxAmount components)
      in \<lparr>ql_kind = BUNDLE, ql_productId = None, ql_bundleId = Some (pb_id b), ql_title = pb_title b,
          ql_sku = None, ql_sectionId = pb_sectionId b, ql_sectionCode = pb_sectionCode b,
          ql_categoryName = None, ql_quantity = q, ql_unitPrice = round2 (pb_unitPrice b),
          ql_listPrice = round2 (bundleListPrice b), ql_unitCost = bundleUnitCost b,
          ql_gross = gross, ql_discount = discount, ql_taxAmount = taxAmount, ql_lineTotal = net + taxAmount,
          ql_freeShipping = pb_freeShipping b, ql_couponEligible = eligible, ql_components = components\<rparr>)"

text \<open>The coupon step: the coupon shown, the rejection, the allocations and the eligible lines.\<close>

definition coupon_step ::
  "decimal_js \<Rightarrow> quote_input \<Rightarrow> quote_coupon option \<times> rejection option \<times> money list \<times> bool list" where
  "coupon_step J input =
     (let lines = qi_lines input;
          zeros = map (\<lambda>_. 0) lines; nos = map (\<lambda>_. False) lines
      in case qi_coupon input of
           None \<Rightarrow> (None, None, zeros, nos)
         | Some (rule, usage) \<Rightarrow>
             if lines = [] then (None, None, zeros, nos)
             else (case evaluateCoupon J rule (map (\<lambda>l. toCouponLine l (line_gross l)) lines) usage (qi_now input) of
                     Inr res \<Rightarrow>
                       (Some \<lparr>qk_code = ca_code res, qk_type = ca_type res, qk_discount = ca_discount res,
                              qk_freeShipping = ca_freeShipping res\<rparr>, None, ca_allocations res, ca_eligible res)
                   | Inl rej \<Rightarrow> (None, Some rej, zeros, nos)))"

definition add_line_units :: "quoted_line \<Rightarrow> (id \<times> int) list \<Rightarrow> (id \<times> int) list" where
  "add_line_units l units =
     (let units = (case ql_productId l of
                     Some p \<Rightarrow> if ql_kind l = PRODUCT \<and> p \<noteq> '''' then bump p (ql_quantity l) units else units
                   | None \<Rightarrow> units)
      in fold (\<lambda>c. bump (qc_productId c) (qc_quantity c)) (ql_components l) units)"

definition calculateQuote :: "decimal_js \<Rightarrow> quote_input \<Rightarrow> quote" where
  "calculateQuote J input =
     (let (coupon, couponRejection, allocations, eligible) = coupon_step J input;
          lines = map (\<lambda>i. quote_line J (qi_lines input ! i) (line_gross (qi_lines input ! i))
                             (round2 (allocations ! i)) (eligible ! i)) [0..<length (qi_lines input)];
          itemsSubtotal = dec_sum (map ql_gross lines);
          discountTotal = dec_sum (map ql_discount lines);
          taxTotal = dec_sum (map ql_taxAmount lines);
          netSubtotal = itemsSubtotal - discountTotal;
          shipping = resolveShipping
            \<lparr>si_zone = qi_zone input,
             si_lines = map (\<lambda>l. \<lparr>shl_kind = ql_kind l, shl_sectionId = ql_sectionId l,
                                  shl_freeShipping = ql_freeShipping l\<rparr>) lines,
             si_netSubtotal = netSubtotal,
             si_couponFreeShipping = (case coupon of None \<Rightarrow> False | Some c \<Rightarrow> qk_freeShipping c),
             si_rules = qi_shippingRules input, si_now = qi_now input\<rparr>;
          shippingFee = map_option round2 (so_fee shipping);
          grandTotal = netSubtotal + (case shippingFee of None \<Rightarrow> 0 | Some f \<Rightarrow> f) + taxTotal;
          costs = map (\<lambda>l. map_option (\<lambda>c. c * of_int (ql_quantity l)) (ql_unitCost l)) lines;
          itemsCost = (if lines \<noteq> [] \<and> list_all (\<lambda>c. c \<noteq> None) costs
                       then Some (round2 (dec_sum (map the costs))) else None)
      in \<lparr>q_lines = lines, q_itemsSubtotal = itemsSubtotal, q_discountTotal = discountTotal,
          q_netSubtotal = netSubtotal, q_taxTotal = taxTotal, q_shippingFee = shippingFee,
          q_shipping = shipping, q_grandTotal = grandTotal, q_itemsCost = itemsCost, q_coupon = coupon,
          q_couponRejection = couponRejection, q_stockUnits = fold add_line_units lines []\<rparr>)"

text \<open>\<open>stockShortfalls\<close>: what is missing, given the units that can still be sold.\<close>

record shortfall =
  sf_productId :: id
  sf_requested :: int
  sf_available :: int

definition stockShortfalls :: "quote \<Rightarrow> (id \<times> int option) list \<Rightarrow> shortfall list" where
  "stockShortfalls q available =
     concat (map (\<lambda>(p, qty). case map_of available p of
         Some (Some a) \<Rightarrow> if a < qty then [\<lparr>sf_productId = p, sf_requested = qty, sf_available = max 0 a\<rparr>] else []
       | _ \<Rightarrow> []) (q_stockUnits q))"

section \<open>Well-formed carts\<close>

definition priced_ok :: "priced_product \<Rightarrow> bool" where
  "priced_ok p \<longleftrightarrow> 0 \<le> pp_unitPrice p \<and> 0 \<le> pp_listPrice p \<and> 0 \<le> pp_taxRate p"

fun line_ok :: "quote_line_input \<Rightarrow> bool" where
  "line_ok (QProduct p q) \<longleftrightarrow> priced_ok p \<and> 0 \<le> q"
| "line_ok (QBundle b q) \<longleftrightarrow> 0 \<le> pb_unitPrice b \<and> 0 \<le> q \<and> (\<forall>(p, k) \<in> set (pb_components b). priced_ok p \<and> 0 \<le> k)"

text \<open>
  Prices, quantities and tax rates are not negative, the coupon was saved by the admin and the cart
  is worth at most a hundred million taka.
\<close>

definition quote_ok :: "quote_input \<Rightarrow> bool" where
  "quote_ok input \<longleftrightarrow> list_all line_ok (qi_lines input) \<and>
     sum_list (map line_gross (qi_lines input)) \<le> 10 ^ 8 \<and>
     pred_option (\<lambda>z. 0 \<le> zi_fee z) (qi_zone input) \<and>
     pred_option (\<lambda>(rule, usage). 0 \<le> cr_value rule \<and> pred_option ((\<le>) 0) (cr_maxDiscount rule)) (qi_coupon input)"

lemma line_gross_money [simp]: "paisa (line_gross l)" "line_ok l \<Longrightarrow> 0 \<le> line_gross l"
  by (cases l; simp add: priced_ok_def)+

lemma cl_gross_toCouponLine [simp]: "cl_gross (toCouponLine l g) = g"
  by (cases l) simp_all

lemma quote_line_sel [simp]:
  "ql_gross (quote_line J l g d e) = g" "ql_discount (quote_line J l g d e) = d"
  by (cases l; simp add: Let_def)+

lemma ql_lineTotal_eq: "ql_lineTotal (quote_line J l g d e) = g - d + ql_taxAmount (quote_line J l g d e)"
  by (cases l) (simp_all add: Let_def)

text \<open>What the coupon step hands to the lines.\<close>

definition coupon_worth :: "quote_coupon option \<Rightarrow> money" where
  "coupon_worth c = (case c of None \<Rightarrow> 0 | Some k \<Rightarrow> qk_discount k)"

lemma sum_list_zeros [simp]: "sum_list (map (\<lambda>_. 0 :: rat) xs) = 0"
  by (induction xs) auto

context decimal_laws
begin

lemma coupon_step_ok:
  assumes "quote_ok input" and "coupon_step J input = (c, rej, al, el)"
  shows "length al = length (qi_lines input) \<and> sum_list al = coupon_worth c \<and>
    (\<forall>i < length (qi_lines input). paisa (al ! i) \<and> 0 \<le> al ! i \<and> al ! i \<le> line_gross (qi_lines input ! i))"
proof -
  let ?ls = "qi_lines input"
  let ?cls = "map (\<lambda>l. toCouponLine l (line_gross l)) ?ls"
  have g: "0 \<le> line_gross (?ls ! i)" if "i < length ?ls" for i
    using assms(1) that by (auto simp: quote_ok_def list_all_length)
  show ?thesis
  proof (cases "\<exists>rule usage res. qi_coupon input = Some (rule, usage) \<and> ?ls \<noteq> [] \<and>
      evaluateCoupon J rule ?cls usage (qi_now input) = Inr res")
    case True
    then obtain rule usage res where k: "qi_coupon input = Some (rule, usage)" "?ls \<noteq> []"
      "evaluateCoupon J rule ?cls usage (qi_now input) = Inr res" by blast
    have "coupon_amounts_ok rule ?cls"
      using assms(1) k(1) by (auto simp: coupon_amounts_ok_def quote_ok_def list_all_iff comp_def)
    from coupon_allocation [OF this k(3)] show ?thesis
      using k assms(2) by (auto simp: coupon_step_def Let_def coupon_worth_def)
  next
    case False
    then have "al = map (\<lambda>_. 0) ?ls \<and> c = None"
      using assms(2) by (auto simp: coupon_step_def Let_def split: option.splits if_splits sum.splits)
    then show ?thesis using g by (simp add: coupon_worth_def)
  qed
qed

lemma quote_components_ok:
  assumes "line_ok (QBundle b q)" "paisa net" "0 \<le> net" "net \<le> 10 ^ 8"
  defines "cs \<equiv> quote_components J b q net"
  shows "pb_components b \<noteq> [] \<longrightarrow> sum_list (map qc_allocatedRevenue cs) = net"
    and "c \<in> set cs \<Longrightarrow> 0 \<le> qc_allocatedRevenue c \<and> 0 \<le> qc_taxAmount c \<and> paisa (qc_taxAmount c)"
proof -
  let ?w = "map (\<lambda>(p, q). pp_listPrice p * of_int q) (pb_components b)"
  let ?sh = "allocate J net ?w"
  have w: "\<And>x. x \<in> set ?w \<Longrightarrow> 0 \<le> x" using assms(1) by (auto simp: priced_ok_def)
  have rev: "map qc_allocatedRevenue cs = (if pb_components b \<noteq> [] then ?sh else [])"
    by (auto simp: cs_def quote_components_def Let_def comp_def case_prod_beta map_snd_zip_take simp flip: map_map
        intro!: nth_equalityI)
  have al: "sum_list ?sh = net \<and> (\<forall>x \<in> set ?sh. 0 \<le> x \<and> paisa x)" if "pb_components b \<noteq> []"
    using that w assms(2-4) by (intro allocate_total) auto
  then show "pb_components b \<noteq> [] \<longrightarrow> sum_list (map qc_allocatedRevenue cs) = net" by (simp add: rev)
  assume c: "c \<in> set cs"
  then obtain p k s where z: "((p, k), s) \<in> set (zip (pb_components b) ?sh)" "pb_components b \<noteq> []"
    "qc_allocatedRevenue c = s \<and> qc_taxAmount c = percentOf J s (pp_taxRate p)"
    unfolding cs_def quote_components_def Let_def by (fastforce split: if_splits)
  note pk = set_zip_leftD [OF z(1)] set_zip_rightD [OF z(1)] z(2,3)
  have "0 \<le> pp_taxRate p" using pk(1) assms(1) by (auto simp: priced_ok_def)
  then show "0 \<le> qc_allocatedRevenue c \<and> 0 \<le> qc_taxAmount c \<and> paisa (qc_taxAmount c)"
    using al pk by (auto intro: percentOf_nonneg percentOf_paisa)
qed

lemma ql_taxAmount_ok:
  assumes "line_ok l" "paisa (g - d)" "0 \<le> g - d" "g - d \<le> 10 ^ 8"
  shows "0 \<le> ql_taxAmount (quote_line J l g d e)" "paisa (ql_taxAmount (quote_line J l g d e))"
proof (atomize (full), cases l)
  case (QProduct p q)
  then show "0 \<le> ql_taxAmount (quote_line J l g d e) \<and> paisa (ql_taxAmount (quote_line J l g d e))"
    using assms by (auto simp: Let_def priced_ok_def intro!: percentOf_nonneg percentOf_paisa)
next
  case (QBundle b q)
  then show "0 \<le> ql_taxAmount (quote_line J l g d e) \<and> paisa (ql_taxAmount (quote_line J l g d e))"
    using quote_components_ok(2) [OF assms(1) [unfolded QBundle] assms(2-4)]
    by (auto simp: Let_def intro!: sum_list_nonneg paisa_sum_list)
qed

end

section \<open>The totals\<close>

definition fee_of :: "quote \<Rightarrow> money" where
  "fee_of q = (case q_shippingFee q of None \<Rightarrow> 0 | Some f \<Rightarrow> f)"

definition quoted_lines :: "quote_input \<Rightarrow> decimal_js \<Rightarrow> money list \<Rightarrow> bool list \<Rightarrow> quoted_line list" where
  "quoted_lines input J al el =
     map (\<lambda>i. quote_line J (qi_lines input ! i) (line_gross (qi_lines input ! i)) (round2 (al ! i)) (el ! i))
       [0..<length (qi_lines input)]"

lemma calculateQuote_sel:
  assumes "coupon_step J input = (c, rej, al, el)"
  defines "q \<equiv> calculateQuote J input"
  shows "q_lines q = quoted_lines input J al el"
    and "q_itemsSubtotal q = sum_list (map ql_gross (q_lines q))"
    and "q_discountTotal q = sum_list (map ql_discount (q_lines q))"
    and "q_taxTotal q = sum_list (map ql_taxAmount (q_lines q))"
    and "q_netSubtotal q = q_itemsSubtotal q - q_discountTotal q"
    and "q_grandTotal q = q_itemsSubtotal q - q_discountTotal q + fee_of q + q_taxTotal q"
    and "q_coupon q = c" and "q_couponRejection q = rej"
    and "q_stockUnits q = fold add_line_units (q_lines q) []"
    and "q_shippingFee q = map_option round2 (so_fee (q_shipping q))"
    and "\<exists>i. q_shipping q = resolveShipping i \<and> si_zone i = qi_zone input"
  by (auto simp: q_def calculateQuote_def Let_def assms(1) fee_of_def quoted_lines_def)

lemma fee_of_nonneg:
  assumes "quote_ok input"
  shows "0 \<le> fee_of (calculateQuote J input)" "paisa (fee_of (calculateQuote J input))"
proof -
  obtain c rej al el where "coupon_step J input = (c, rej, al, el)" by (metis prod_cases4)
  note sel = calculateQuote_sel [OF this]
  obtain i where "q_shipping (calculateQuote J input) = resolveShipping i" "si_zone i = qi_zone input"
    using sel(11) by blast
  then show "0 \<le> fee_of (calculateQuote J input)" "paisa (fee_of (calculateQuote J input))"
    using assms unfolding fee_of_def sel(10)
    by (auto simp: resolveShipping_fee quote_ok_def split: option.split)
qed

lemma line_totals:
  "(\<And>l. l \<in> set ls \<Longrightarrow> ql_lineTotal l = ql_gross l - ql_discount l + ql_taxAmount l) \<Longrightarrow>
   sum_list (map ql_lineTotal ls) =
     sum_list (map ql_gross ls) - sum_list (map ql_discount ls) + sum_list (map ql_taxAmount ls)"
  by (induction ls) auto

context decimal_laws
begin

lemma net_ok:
  assumes "quote_ok input" "coupon_step J input = (c, rej, al, el)" "i < length (qi_lines input)"
  shows "paisa (line_gross (qi_lines input ! i) - al ! i)" "0 \<le> line_gross (qi_lines input ! i) - al ! i"
    "line_gross (qi_lines input ! i) - al ! i \<le> 10 ^ 8" "line_ok (qi_lines input ! i)"
proof -
  let ?l = "qi_lines input ! i"
  have a: "paisa (al ! i)" "0 \<le> al ! i" "al ! i \<le> line_gross ?l"
    using coupon_step_ok [OF assms(1,2)] assms(3) by auto
  have "line_gross ?l \<le> sum_list (map line_gross (qi_lines input))"
    using assms(1,3) by (intro sum_list_member_le) (auto simp: quote_ok_def list_all_iff)
  then have "line_gross ?l \<le> 10 ^ 8" using assms(1) by (simp add: quote_ok_def)
  then show "line_gross ?l - al ! i \<le> 10 ^ 8" using a(2) by linarith
  show "paisa (line_gross ?l - al ! i)" "0 \<le> line_gross ?l - al ! i" using a by (auto intro: paisa_diff)
  show "line_ok ?l" using assms(1,3) by (simp add: quote_ok_def list_all_length)
qed

lemma quote_totals:
  assumes "quote_ok input"
  defines "q \<equiv> calculateQuote J input"
  shows "q_grandTotal q = q_itemsSubtotal q - q_discountTotal q + fee_of q + q_taxTotal q \<and>
    q_grandTotal q = sum_list (map ql_lineTotal (q_lines q)) + fee_of q \<and>
    q_discountTotal q = coupon_worth (q_coupon q) \<and>
    0 \<le> q_discountTotal q \<and> q_discountTotal q \<le> q_itemsSubtotal q \<and> 0 \<le> q_taxTotal q \<and> 0 \<le> fee_of q \<and>
    paisa (q_grandTotal q)"
proof -
  obtain c rej al el where cs: "coupon_step J input = (c, rej, al, el)" by (metis prod_cases4)
  note ok = coupon_step_ok [OF assms(1) cs] and sel = calculateQuote_sel [OF cs, folded q_def]
  let ?ls = "qi_lines input" and ?n = "length (qi_lines input)"
  have lines: "q_lines q = map (\<lambda>i. quote_line J (?ls ! i) (line_gross (?ls ! i)) (al ! i) (el ! i)) [0..<?n]"
    using ok by (simp add: sel(1) quoted_lines_def)
  have tax: "0 \<le> ql_taxAmount l \<and> paisa (ql_taxAmount l)" if "l \<in> set (q_lines q)" for l
  proof -
    from that obtain i where i: "i < ?n" and
      "l = quote_line J (?ls ! i) (line_gross (?ls ! i)) (al ! i) (el ! i)" by (auto simp: lines)
    then show ?thesis
      using ql_taxAmount_ok [OF net_ok(4,1,2,3) [OF assms(1) cs i(1)]] by simp
  qed
  have disc: "map ql_discount (q_lines q) = al"
    using ok by (auto simp: lines comp_def intro: nth_equalityI)
  then have dt: "q_discountTotal q = coupon_worth (q_coupon q)" using ok by (simp add: sel(3,7))
  have "0 \<le> sum_list al" using ok by (intro sum_list_nonneg) (auto simp: in_set_conv_nth)
  moreover have "sum_list (map ql_discount (q_lines q)) \<le> sum_list (map ql_gross (q_lines q))"
    using ok by (intro sum_list_mono_map) (auto simp: lines)
  moreover have "sum_list (map ql_lineTotal (q_lines q)) =
      sum_list (map ql_gross (q_lines q)) - sum_list (map ql_discount (q_lines q)) + sum_list (map ql_taxAmount (q_lines q))"
    by (rule line_totals) (auto simp: lines ql_lineTotal_eq)
  moreover have "0 \<le> q_taxTotal q" "paisa (q_taxTotal q)"
    using tax by (auto simp: sel(4) intro!: sum_list_nonneg paisa_sum_list)
  moreover have "paisa (q_itemsSubtotal q)" "paisa (q_discountTotal q)"
    unfolding sel(2,3) using ok by (auto simp: lines intro!: paisa_sum_list)
  moreover have "0 \<le> fee_of q" "paisa (fee_of q)" using fee_of_nonneg [OF assms(1)] by (simp_all add: q_def)
  ultimately show ?thesis
    using dt disc by (auto simp: sel(2,3,4,6) intro!: paisa_add paisa_diff)
qed

lemma quote_bundles:
  assumes "quote_ok input" "i < length (qi_lines input)" "qi_lines input ! i = QBundle b k"
  defines "l \<equiv> q_lines (calculateQuote J input) ! i"
  shows "ql_bundleId l = Some (pb_id b) \<and> ql_taxAmount l = sum_list (map qc_taxAmount (ql_components l)) \<and>
    (pb_components b \<noteq> [] \<longrightarrow>
      sum_list (map qc_allocatedRevenue (ql_components l)) = ql_gross l - ql_discount l) \<and>
    (\<forall>c \<in> set (ql_components l). 0 \<le> qc_allocatedRevenue c)"
proof -
  obtain c rej al el where cs: "coupon_step J input = (c, rej, al, el)" by (metis prod_cases4)
  note ok = coupon_step_ok [OF assms(1) cs]
  let ?ls = "qi_lines input"
  have l: "l = quote_line J (QBundle b k) (line_gross (?ls ! i)) (al ! i) (el ! i)"
    using ok assms(2,3) by (simp add: l_def calculateQuote_sel(1) [OF cs] quoted_lines_def)
  note net = net_ok [OF assms(1) cs assms(2)]
  show ?thesis
    using quote_components_ok [OF net(4) [unfolded assms(3)] net(1-3)] by (auto simp: l Let_def)
qed

end

text \<open>
  C13. The money of a quote adds up: the grand total is the items' subtotal minus the discounts plus
  the delivery fee plus the tax, to the paisa (the table's \<open>orders_total_math\<close>), and it is also the
  sum of the line totals plus the fee; the discounts of the lines add up to the coupon's discount
  and never exceed the subtotal, and no tax or fee is negative.
\<close>

theorem quote_total_math:
  assumes "decimal_laws J" and "quote_ok input"
  defines "q \<equiv> calculateQuote J input"
  shows "q_grandTotal q = q_itemsSubtotal q - q_discountTotal q + fee_of q + q_taxTotal q \<and>
    q_grandTotal q = sum_list (map ql_lineTotal (q_lines q)) + fee_of q \<and>
    q_discountTotal q = coupon_worth (q_coupon q) \<and>
    0 \<le> q_discountTotal q \<and> q_discountTotal q \<le> q_itemsSubtotal q \<and> 0 \<le> q_taxTotal q \<and> 0 \<le> fee_of q \<and>
    paisa (q_grandTotal q)"
  unfolding q_def by (rule decimal_laws.quote_totals [OF assms(1,2)])

definition sample_product :: "id \<Rightarrow> money \<Rightarrow> priced_product" where
  "sample_product i price = \<lparr>pp_id = i, pp_title = ''t'', pp_sku = ''s'', pp_sectionId = ''b'', pp_sectionCode = ''book'',
     pp_categoryId = ''c'', pp_subcategoryId = None, pp_categoryName = None, pp_unitPrice = price,
     pp_listPrice = price, pp_compareAt = None, pp_unitCost = None, pp_taxRate = 5, pp_freeShipping = False,
     pp_available = Some 3, pp_dealEndsAt = None\<rparr>"

definition sample_bundle :: priced_bundle where
  "sample_bundle = \<lparr>pb_id = ''x'', pb_title = ''t'', pb_sectionId = ''b'', pb_sectionCode = ''book'',
     pb_unitPrice = 250, pb_compareAt = None, pb_freeShipping = False,
     pb_components = [(sample_product ''p'' 100, 1), (sample_product ''q'' 200, 1)]\<rparr>"

definition sample_quote :: quote_input where
  "sample_quote = \<lparr>qi_lines = [QProduct (sample_product ''p'' 100) 2, QBundle sample_bundle 1],
     qi_coupon = Some (sample_rule, no_usage), qi_zone = None, qi_shippingRules = [], qi_now = 0\<rparr>"

lemma sample_quote_ok: "quote_ok sample_quote"
  by (simp add: quote_ok_def sample_quote_def sample_product_def sample_bundle_def priced_ok_def coupon_samples)

theorem quote_total_math_witness:
  "q_discountTotal (calculateQuote decimal20 sample_quote) \<le> q_itemsSubtotal (calculateQuote decimal20 sample_quote)"
  using quote_total_math [OF decimal20.decimal_laws_axioms sample_quote_ok] by simp

text \<open>
  A bundle's revenue is spread over its components without losing or inventing a paisa: the
  shares add up to what the line earns after its discount, none is negative, and the tax of the line
  is the sum of the taxes of the shares.
\<close>

theorem bundle_revenue_exact:
  assumes "decimal_laws J" and "quote_ok input"
    and "i < length (qi_lines input)" and "qi_lines input ! i = QBundle b k"
  defines "l \<equiv> q_lines (calculateQuote J input) ! i"
  shows "ql_bundleId l = Some (pb_id b) \<and> ql_taxAmount l = sum_list (map qc_taxAmount (ql_components l)) \<and>
    (pb_components b \<noteq> [] \<longrightarrow>
      sum_list (map qc_allocatedRevenue (ql_components l)) = ql_gross l - ql_discount l) \<and>
    (\<forall>c \<in> set (ql_components l). 0 \<le> qc_allocatedRevenue c)"
  unfolding l_def by (rule decimal_laws.quote_bundles [OF assms(1-4)])

theorem bundle_revenue_exact_witness:
  "sum_list (map qc_allocatedRevenue (ql_components (q_lines (calculateQuote decimal20 sample_quote) ! 1))) =
   ql_gross (q_lines (calculateQuote decimal20 sample_quote) ! 1) - ql_discount (q_lines (calculateQuote decimal20 sample_quote) ! 1)"
  using bundle_revenue_exact [OF decimal20.decimal_laws_axioms sample_quote_ok, of 1 sample_bundle 1]
  by (simp add: sample_quote_def sample_bundle_def)

section \<open>The units to reserve\<close>

text \<open>A line as the product units it takes out of the stock; a bundle is its components.\<close>

fun expanded :: "quote_line_input \<Rightarrow> (id \<times> int) list" where
  "expanded (QProduct p q) = (if pp_id p = '''' then [] else [(pp_id p, q)])"
| "expanded (QBundle b q) = map (\<lambda>(p, k). (pp_id p, k * q)) (pb_components b)"

definition units_of :: "quote_input \<Rightarrow> id \<Rightarrow> int" where
  "units_of input k = sum_list (map snd (filter (\<lambda>x. fst x = k) (concat (map expanded (qi_lines input)))))"

lemma fold_bump_tally: "fold (\<lambda>c. bump (f c) (g c)) xs m = tally m (map (\<lambda>c. (f c, g c)) xs)"
  by (induction xs arbitrary: m) auto

lemma tally_append: "tally m (xs @ ys) = tally (tally m xs) ys"
  by (induction m xs rule: tally.induct) auto

lemma components_units: "map (\<lambda>c. (qc_productId c, qc_quantity c)) (quote_components J b q net) =
    map (\<lambda>(p, k). (pp_id p, k * q)) (pb_components b)"
  by (intro nth_equalityI) (auto simp: quote_components_def Let_def split: prod.split)

lemma add_line_units_tally: "add_line_units (quote_line J l g d e) m = tally m (expanded l)"
proof (cases l)
  case (QProduct p q)
  then show ?thesis by (simp add: add_line_units_def Let_def)
next
  case (QBundle b q)
  then show ?thesis by (simp add: add_line_units_def Let_def fold_bump_tally components_units)
qed

lemma stockUnits_tally: "q_stockUnits (calculateQuote J input) = tally [] (concat (map expanded (qi_lines input)))"
proof -
  obtain c rej al el where cs: "coupon_step J input = (c, rej, al, el)" by (metis prod_cases4)
  let ?ls = "qi_lines input"
  have "fold add_line_units (map (\<lambda>i. quote_line J (?ls ! i) (line_gross (?ls ! i)) (round2 (al ! i)) (el ! i)) is) m =
      tally m (concat (map (\<lambda>i. expanded (?ls ! i)) is))" for "is" m
    by (induction "is" arbitrary: m) (simp_all add: add_line_units_tally tally_append)
  moreover have "map (\<lambda>i. expanded (?ls ! i)) [0..<length ?ls] = map expanded ?ls"
    by (intro nth_equalityI) auto
  ultimately show ?thesis by (simp add: calculateQuote_sel [OF cs] quoted_lines_def)
qed

lemma stockUnits_facts:
  "distinct (map fst (q_stockUnits (calculateQuote J input)))"
  "count_of (q_stockUnits (calculateQuote J input)) k = units_of input k"
  "fst ` set (q_stockUnits (calculateQuote J input)) = fst ` set (concat (map expanded (qi_lines input)))"
  unfolding stockUnits_tally units_of_def by (simp_all add: distinct_tally count_of_tally keys_tally)

text \<open>
  The units a quote asks to reserve: each product appears once, with the units of all the lines
  that contain it, bundles expanded (bundle quantity times the quantity in the bundle).
\<close>

theorem quote_stock_units:
  "distinct (map fst (q_stockUnits (calculateQuote J input))) \<and>
   count_of (q_stockUnits (calculateQuote J input)) k = units_of input k \<and>
   fst ` set (q_stockUnits (calculateQuote J input)) = fst ` set (concat (map expanded (qi_lines input)))"
  by (intro conjI stockUnits_facts)

text \<open>
  Placement checks stock on exactly those units: there is no shortfall if and only if every
  product of the cart with a known availability has at least the units the whole cart needs.
\<close>

theorem no_shortfall_iff:
  "stockShortfalls (calculateQuote J input) available = [] \<longleftrightarrow>
   (\<forall>k \<in> fst ` set (concat (map expanded (qi_lines input))).
      \<forall>a. map_of available k = Some (Some a) \<longrightarrow> units_of input k \<le> a)"
proof -
  let ?u = "q_stockUnits (calculateQuote J input)"
  have q: "qty = units_of input k" if "(k, qty) \<in> set ?u" for k qty
    using count_of_mem [OF stockUnits_facts(1) that] by (simp add: stockUnits_facts(2))
  have "stockShortfalls (calculateQuote J input) available = [] \<longleftrightarrow>
      (\<forall>(k, qty) \<in> set ?u. \<forall>a. map_of available k = Some (Some a) \<longrightarrow> qty \<le> a)"
    unfolding stockShortfalls_def concat_eq_Nil_conv set_map ball_simps
    by (intro ball_cong) (auto split: option.split if_splits)
  also have "\<dots> \<longleftrightarrow> (\<forall>k \<in> fst ` set ?u. \<forall>a. map_of available k = Some (Some a) \<longrightarrow> units_of input k \<le> a)"
    using q by fastforce
  finally show ?thesis unfolding stockUnits_facts(3) .
qed

theorem no_shortfall_iff_witness:
  "stockShortfalls (calculateQuote decimal20 sample_quote) [(''p'', Some 3), (''q'', None)] = []"
  unfolding no_shortfall_iff by (simp add: sample_quote_def sample_bundle_def sample_product_def units_of_def)

end
