(* ===== verification/Order_Status.thy ===== *)
theory Order_Status
  imports Money
begin

text \<open>
  \<open>orders/domain/order-status.ts\<close> and \<open>order-timeline.ts\<close>: the life cycle of an order as pure rules.
  \<open>planTransition\<close> decides whether a move is legal and what it must do; \<open>planReopen\<close> decides on
  bringing a cancelled or returned order back; \<open>buildTimeline\<close> is the tracker the customer sees.
\<close>

datatype order_status =
    PENDING | CONFIRMED | PROCESSING | HANDED_TO_COURIER | OUT_FOR_DELIVERY | DELIVERED | CANCELLED | RETURNED

datatype payment_method = COD | SSLCOMMERZ | BKASH | NAGAD | BANK_TRANSFER | CASH

datatype order_payment_status = UNPAID | PAID | PARTIALLY_REFUNDED | REFUNDED

definition ORDER_FLOW :: "order_status list" where
  "ORDER_FLOW = [PENDING, CONFIRMED, PROCESSING, HANDED_TO_COURIER, OUT_FOR_DELIVERY, DELIVERED]"

definition OPEN_STATUSES :: "order_status list" where
  "OPEN_STATUSES = [PENDING, CONFIRMED, PROCESSING, HANDED_TO_COURIER, OUT_FOR_DELIVERY]"

definition RUNNING_STATUSES :: "order_status list" where
  "RUNNING_STATUSES = [CONFIRMED, PROCESSING, HANDED_TO_COURIER, OUT_FOR_DELIVERY]"

definition TERMINAL_STATUSES :: "order_status list" where
  "TERMINAL_STATUSES = [CANCELLED, RETURNED]"

definition RETURNABLE_FROM :: "order_status list" where
  "RETURNABLE_FROM = [HANDED_TO_COURIER, OUT_FOR_DELIVERY, DELIVERED]"

text \<open>\<open>indexOf\<close>: the first position, or \<open>-1\<close>.\<close>

fun index_of :: "'a \<Rightarrow> 'a list \<Rightarrow> int" where
  "index_of x [] = -1"
| "index_of x (y # ys) = (if x = y then 0 else let k = index_of x ys in if k < 0 then -1 else k + 1)"

definition rank :: "order_status \<Rightarrow> int" where
  "rank s = index_of s ORDER_FLOW"

definition isOpen :: "order_status \<Rightarrow> bool" where
  "isOpen s \<longleftrightarrow> List.member OPEN_STATUSES s"

definition isTerminal :: "order_status \<Rightarrow> bool" where
  "isTerminal s \<longleftrightarrow> List.member TERMINAL_STATUSES s"

definition isShippedStage :: "order_status \<Rightarrow> bool" where
  "isShippedStage s \<longleftrightarrow> rank s \<ge> rank HANDED_TO_COURIER"

definition nextStatus :: "order_status \<Rightarrow> order_status option" where
  "nextStatus s = (let r = rank s in
     if r \<ge> 0 \<and> r < int (length ORDER_FLOW) - 1 then Some (ORDER_FLOW ! nat (r + 1)) else None)"

definition regressTarget :: "order_status \<Rightarrow> order_status option" where
  "regressTarget s = (if s = PROCESSING then Some CONFIRMED else None)"

section \<open>Planning a move\<close>

datatype actor = STAFF | CUSTOMER | SYSTEM | WEBHOOK

datatype mode = Advance | Regress

datatype stock_move = NONE | FULFIL | RELEASE | RESTOCK

record order_snapshot =
  os_status :: order_status
  os_paymentMethod :: payment_method
  os_paymentStatus :: order_payment_status
  os_stockReserved :: bool
  os_confirmedAt :: "time option"
  os_shippedAt :: "time option"

record credit_input =
  ci_reason :: string
  ci_courierLoss :: rat

record transition_request =
  rq_to :: order_status
  rq_mode :: mode
  rq_actor :: actor
  rq_credit :: "credit_input option"
  rq_now :: time

text \<open>The fields of \<open>set\<close> that a plan leaves undefined are \<open>None\<close>.\<close>

record plan_set =
  ps_confirmedAt :: "time option"
  ps_shippedAt :: "time option"
  ps_deliveredAt :: "time option"
  ps_cancelledAt :: "time option"
  ps_cancelledFrom :: "order_status option"
  ps_stockReserved :: "bool option"

record transition_plan =
  tp_from :: order_status
  tp_to :: order_status
  tp_stock :: stock_move
  tp_set :: plan_set
  tp_markPaid :: bool
  tp_revokeCoupon :: bool
  tp_closes :: bool
  tp_voids :: bool
  tp_credit :: "credit_input option"

definition basePlan :: "order_status \<Rightarrow> order_status \<Rightarrow> transition_plan" where
  "basePlan from_s to_s =
     \<lparr>tp_from = from_s, tp_to = to_s, tp_stock = NONE,
      tp_set = \<lparr>ps_confirmedAt = None, ps_shippedAt = None, ps_deliveredAt = None, ps_cancelledAt = None,
                ps_cancelledFrom = None, ps_stockReserved = None\<rparr>,
      tp_markPaid = False, tp_revokeCoupon = False, tp_closes = False, tp_voids = False, tp_credit = None\<rparr>"

text \<open>The two plans that do something: a void, and a forward move.\<close>

definition void_plan :: "'a order_snapshot_scheme \<Rightarrow> transition_request \<Rightarrow> string \<Rightarrow> transition_plan" where
  "void_plan order req reason =
     (let from_s = os_status order; live = (from_s \<noteq> PENDING); plan = basePlan from_s (rq_to req)
      in plan
           \<lparr>tp_stock := (if os_shippedAt order \<noteq> None then RESTOCK
                         else if os_stockReserved order then RELEASE else NONE),
            tp_set := (tp_set plan)\<lparr>ps_cancelledAt := Some (rq_now req), ps_cancelledFrom := Some from_s,
                                    ps_stockReserved := Some False\<rparr>,
            tp_revokeCoupon := True,
            tp_closes := isOpen from_s,
            tp_voids := True,
            tp_credit := (if live \<and> reason \<noteq> ''''
              then Some \<lparr>ci_reason = reason,
                         ci_courierLoss = (case rq_credit req of None \<Rightarrow> 0 | Some c \<Rightarrow> ci_courierLoss c)\<rparr>
              else None)\<rparr>)"

definition forward_plan :: "'a order_snapshot_scheme \<Rightarrow> transition_request \<Rightarrow> transition_plan" where
  "forward_plan order req =
     (let to_s = rq_to req;
          plan = basePlan (os_status order) to_s;
          plan = (if rank to_s \<ge> rank CONFIRMED \<and> os_confirmedAt order = None
                  then plan\<lparr>tp_set := (tp_set plan)\<lparr>ps_confirmedAt := Some (rq_now req)\<rparr>\<rparr> else plan);
          plan = (if isShippedStage to_s \<and> os_shippedAt order = None
                  then plan\<lparr>tp_stock := FULFIL,
                            tp_set := (tp_set plan)\<lparr>ps_shippedAt := Some (rq_now req), ps_stockReserved := Some False\<rparr>\<rparr>
                  else plan)
      in if to_s = DELIVERED
         then plan\<lparr>tp_set := (tp_set plan)\<lparr>ps_deliveredAt := Some (rq_now req)\<rparr>, tp_closes := True,
                   tp_markPaid := (os_paymentStatus order = UNPAID)\<rparr>
         else plan)"

definition planVoid :: "'a order_snapshot_scheme \<Rightarrow> transition_request \<Rightarrow> string + transition_plan" where
  "planVoid order req =
     (let from_s = os_status order;
          live = (from_s \<noteq> PENDING);
          reason = (case rq_credit req of None \<Rightarrow> '''' | Some c \<Rightarrow> js_trim (ci_reason c))
      in if rq_to req = CANCELLED \<and> \<not> isOpen from_s then Inl ''order.cancel_not_allowed''
         else if rq_to req = RETURNED \<and> \<not> List.member RETURNABLE_FROM from_s then Inl ''order.return_not_allowed''
         else if rq_actor req = CUSTOMER \<and> \<not> (rq_to req = CANCELLED \<and> from_s = PENDING)
         then Inl ''order.customer_cancel_not_allowed''
         else if live \<and> reason = '''' then Inl ''order.credit_required''
         else Inr (void_plan order req reason))"

definition planTransition :: "'a order_snapshot_scheme \<Rightarrow> transition_request \<Rightarrow> string + transition_plan" where
  "planTransition order req =
     (let from_s = os_status order; to_s = rq_to req
      in if isTerminal from_s then Inl ''order.closed''
         else if from_s = to_s then Inl ''order.status_unchanged''
         else if rq_mode req = Regress then
           (if rq_actor req \<noteq> STAFF then Inl ''order.regress_forbidden''
            else if regressTarget from_s \<noteq> Some to_s then Inl ''order.regress_not_allowed''
            else Inr (basePlan from_s to_s))
         else if to_s = CANCELLED \<or> to_s = RETURNED then planVoid order req
         else if rank to_s < 0 then Inl ''order.transition_invalid''
         else if rank to_s < rank from_s then Inl ''order.transition_backwards''
         else if rq_actor req = CUSTOMER then Inl ''order.customer_forbidden''
         else if from_s = PENDING \<and> os_paymentMethod order = SSLCOMMERZ \<and> os_paymentStatus order = UNPAID
         then Inl ''order.awaiting_payment''
         else Inr (forward_plan order req))"

section \<open>Reopening\<close>

text \<open>A reopen target is \<open>PENDING\<close> or \<open>CONFIRMED\<close>.\<close>

datatype reopen_target = ToPending | ToConfirmed

fun reopen_status :: "reopen_target \<Rightarrow> order_status" where
  "reopen_status ToPending = PENDING"
| "reopen_status ToConfirmed = CONFIRMED"

record reopen_request =
  rr_to :: "reopen_target option"
  rr_reason :: string
  rr_actor :: actor

definition planReopen ::
  "'a order_snapshot_scheme \<Rightarrow> order_status option \<Rightarrow> reopen_request \<Rightarrow> string + (order_status \<times> reopen_target)" where
  "planReopen order cancelledFrom req =
     (if rr_actor req \<noteq> STAFF then Inl ''order.reopen_forbidden''
      else if \<not> isTerminal (os_status order) then Inl ''order.reopen_not_closed''
      else if length (js_trim (rr_reason req)) < 3 then Inl ''order.reopen_reason_required''
      else let awaitingPayment = (os_paymentMethod order = SSLCOMMERZ \<and> os_paymentStatus order = UNPAID);
               wanted = (case rr_to req of
                   Some t \<Rightarrow> t
                 | None \<Rightarrow> if cancelledFrom \<noteq> None \<and> cancelledFrom \<noteq> Some PENDING \<and> \<not> awaitingPayment
                           then ToConfirmed else ToPending)
           in if wanted = ToConfirmed \<and> awaitingPayment then Inl ''order.awaiting_payment''
              else Inr (os_status order, wanted))"

section \<open>The customer's timeline\<close>

datatype step_state = Done | Now | Wait | Skip | Cancel

record timeline_input =
  ti_status :: order_status
  ti_cancelledFrom :: "order_status option"
  ti_cancelledAt :: "time option"
  ti_history :: "(order_status \<times> time) list"

record timeline_step =
  tl_status :: order_status
  tl_state :: step_state
  tl_at :: "time option"

datatype timeline_kind = Hold | Live | Ok | Dead

record timeline =
  tm_kind :: timeline_kind
  tm_steps :: "timeline_step list"

definition STEPS :: "order_status list" where
  "STEPS = [CONFIRMED, PROCESSING, HANDED_TO_COURIER, OUT_FOR_DELIVERY, DELIVERED]"

definition dead :: "timeline_input \<Rightarrow> bool" where
  "dead t \<longleftrightarrow> ti_status t = CANCELLED \<or> ti_status t = RETURNED"

definition reached_step :: "timeline_input \<Rightarrow> int" where
  "reached_step t =
     (let s = (if dead t then (case ti_cancelledFrom t of None \<Rightarrow> PENDING | Some c \<Rightarrow> c) else ti_status t)
      in min (rank s - 1) (int (length STEPS) - 1))"

text \<open>The time of the last entry of the history with this status.\<close>

definition lastAt :: "timeline_input \<Rightarrow> order_status \<Rightarrow> time option" where
  "lastAt t s = map_option snd (find (\<lambda>h. fst h = s) (rev (ti_history t)))"

definition timeline_step :: "timeline_input \<Rightarrow> nat \<Rightarrow> timeline_step" where
  "timeline_step t i =
     (let cur = reached_step t; step = STEPS ! i; at_time = lastAt t step;
          delivered = (\<not> dead t \<and> cur = int (length STEPS) - 1)
      in if ti_status t = PENDING then \<lparr>tl_status = step, tl_state = Wait, tl_at = None\<rparr>
         else if dead t then
           (if int i \<le> cur then \<lparr>tl_status = step, tl_state = Done, tl_at = at_time\<rparr>
            else \<lparr>tl_status = step, tl_state = Skip, tl_at = None\<rparr>)
         else if int i < cur then \<lparr>tl_status = step, tl_state = Done, tl_at = at_time\<rparr>
         else if int i = cur then \<lparr>tl_status = step, tl_state = (if delivered then Done else Now), tl_at = at_time\<rparr>
         else \<lparr>tl_status = step, tl_state = Wait, tl_at = None\<rparr>)"

definition buildTimeline :: "timeline_input \<Rightarrow> timeline" where
  "buildTimeline t =
     \<lparr>tm_kind = (if dead t then Dead else if ti_status t = PENDING then Hold
                 else if reached_step t = int (length STEPS) - 1 then Ok else Live),
      tm_steps = map (timeline_step t) [0..<length STEPS] @
        [\<lparr>tl_status = CANCELLED, tl_state = (if dead t then Cancel else Wait),
          tl_at = (if dead t then ti_cancelledAt t else None)\<rparr>]\<rparr>"

section \<open>Facts about the statuses\<close>

lemma rank_simps [simp]:
  "rank PENDING = 0" "rank CONFIRMED = 1" "rank PROCESSING = 2" "rank HANDED_TO_COURIER = 3"
  "rank OUT_FOR_DELIVERY = 4" "rank DELIVERED = 5" "rank CANCELLED = -1" "rank RETURNED = -1"
  by (simp_all add: rank_def ORDER_FLOW_def)

lemma isOpen_iff [simp]: "isOpen s \<longleftrightarrow> s \<notin> {DELIVERED, CANCELLED, RETURNED}"
  by (cases s) (simp_all add: isOpen_def OPEN_STATUSES_def)

lemma isTerminal_iff [simp]: "isTerminal s \<longleftrightarrow> s = CANCELLED \<or> s = RETURNED"
  by (cases s) (simp_all add: isTerminal_def TERMINAL_STATUSES_def)

lemma returnable_iff [simp]:
  "s \<in> set RETURNABLE_FROM \<longleftrightarrow> s \<in> {HANDED_TO_COURIER, OUT_FOR_DELIVERY, DELIVERED}"
  by (cases s) (simp_all add: RETURNABLE_FROM_def)

lemma isShippedStage_iff [simp]:
  "isShippedStage s \<longleftrightarrow> s \<in> {HANDED_TO_COURIER, OUT_FOR_DELIVERY, DELIVERED}"
  by (cases s) (simp_all add: isShippedStage_def)

lemma rank_cases: "rank s < rank t \<or> rank t \<le> rank s"
  by linarith

lemma forward_plan_sel:
  assumes "rq_to req \<notin> {PENDING, CANCELLED, RETURNED}" and plan_def: "plan = forward_plan order req"
  shows "tp_from plan = os_status order" "tp_to plan = rq_to req"
    "tp_stock plan = (if isShippedStage (rq_to req) \<and> os_shippedAt order = None then FULFIL else NONE)"
    "ps_confirmedAt (tp_set plan) = (if os_confirmedAt order = None then Some (rq_now req) else None)"
    "ps_shippedAt (tp_set plan) = (if isShippedStage (rq_to req) \<and> os_shippedAt order = None then Some (rq_now req) else None)"
    "ps_stockReserved (tp_set plan) = (if isShippedStage (rq_to req) \<and> os_shippedAt order = None then Some False else None)"
    "ps_deliveredAt (tp_set plan) = (if rq_to req = DELIVERED then Some (rq_now req) else None)"
    "ps_cancelledAt (tp_set plan) = None" "ps_cancelledFrom (tp_set plan) = None"
    "tp_closes plan = (rq_to req = DELIVERED)"
    "tp_markPaid plan = (rq_to req = DELIVERED \<and> os_paymentStatus order = UNPAID)"
    "\<not> tp_voids plan" "\<not> tp_revokeCoupon plan" "tp_credit plan = None"
  using assms(1) unfolding plan_def forward_plan_def Let_def basePlan_def
  by (cases "rq_to req"; cases "os_confirmedAt order"; cases "os_shippedAt order"; simp)+

lemma void_plan_sel:
  "tp_from (void_plan order req reason) = os_status order" "tp_to (void_plan order req reason) = rq_to req"
  "tp_stock (void_plan order req reason) =
     (if os_shippedAt order \<noteq> None then RESTOCK else if os_stockReserved order then RELEASE else NONE)"
  "tp_set (void_plan order req reason) = \<lparr>ps_confirmedAt = None, ps_shippedAt = None, ps_deliveredAt = None,
     ps_cancelledAt = Some (rq_now req), ps_cancelledFrom = Some (os_status order), ps_stockReserved = Some False\<rparr>"
  "tp_voids (void_plan order req reason)" "tp_revokeCoupon (void_plan order req reason)"
  "\<not> tp_markPaid (void_plan order req reason)" "tp_closes (void_plan order req reason) = isOpen (os_status order)"
  "tp_credit (void_plan order req reason) = None \<longleftrightarrow> os_status order = PENDING \<or> reason = ''''"
  by (simp_all add: void_plan_def Let_def basePlan_def)

text \<open>Inversion of an accepted plan: what it may do, by the kind of move.\<close>

lemma planTransition_cases:
  assumes "planTransition order req = Inr plan"
  obtains
    (Back) "rq_mode req = Regress" "rq_actor req = STAFF" "os_status order = PROCESSING" "rq_to req = CONFIRMED"
      "plan = basePlan PROCESSING CONFIRMED"
  | (Void) "rq_mode req = Advance" "rq_to req \<in> {CANCELLED, RETURNED}" "planVoid order req = Inr plan"
      "os_status order \<notin> {CANCELLED, RETURNED}"
  | (Forward) "rq_mode req = Advance" "rank (os_status order) < rank (rq_to req)" "rq_to req \<notin> {CANCELLED, RETURNED}"
      "os_status order \<notin> {CANCELLED, RETURNED}" "rq_actor req \<noteq> CUSTOMER"
      "\<not> (os_status order = PENDING \<and> os_paymentMethod order = SSLCOMMERZ \<and> os_paymentStatus order = UNPAID)"
      "tp_from plan = os_status order" "tp_to plan = rq_to req"
      "tp_stock plan = (if isShippedStage (rq_to req) \<and> os_shippedAt order = None then FULFIL else NONE)"
      "ps_confirmedAt (tp_set plan) = (if os_confirmedAt order = None then Some (rq_now req) else None)"
      "ps_shippedAt (tp_set plan) = (if isShippedStage (rq_to req) \<and> os_shippedAt order = None then Some (rq_now req) else None)"
      "ps_stockReserved (tp_set plan) = (if isShippedStage (rq_to req) \<and> os_shippedAt order = None then Some False else None)"
      "ps_deliveredAt (tp_set plan) = (if rq_to req = DELIVERED then Some (rq_now req) else None)"
      "ps_cancelledAt (tp_set plan) = None" "ps_cancelledFrom (tp_set plan) = None"
      "tp_closes plan = (rq_to req = DELIVERED)"
      "tp_markPaid plan = (rq_to req = DELIVERED \<and> os_paymentStatus order = UNPAID)"
      "\<not> tp_voids plan" "\<not> tp_revokeCoupon plan" "tp_credit plan = None"
proof (cases "rq_mode req")
  case Regress
  with assms show ?thesis
    by (intro Back) (auto simp: planTransition_def Let_def regressTarget_def split: if_splits)
next
  case Advance
  show ?thesis
  proof (cases "rq_to req \<in> {CANCELLED, RETURNED}")
    case True
    with assms Advance show ?thesis by (intro Void) (auto simp: planTransition_def Let_def split: if_splits)
  next
    case False
    have "0 \<le> rank (rq_to req)" using False by (cases "rq_to req") auto
    moreover have "os_status order \<noteq> rq_to req \<Longrightarrow> rank (os_status order) \<noteq> rank (rq_to req)"
      using False by (cases "rq_to req"; cases "os_status order") auto
    ultimately have p: "plan = forward_plan order req" "rank (os_status order) < rank (rq_to req)"
      "os_status order \<notin> {CANCELLED, RETURNED}" "rq_actor req \<noteq> CUSTOMER"
      "\<not> (os_status order = PENDING \<and> os_paymentMethod order = SSLCOMMERZ \<and> os_paymentStatus order = UNPAID)"
      using assms Advance False by (auto simp: planTransition_def Let_def split: if_splits)
    moreover have "rq_to req \<noteq> PENDING" using p(2,3) by (cases "os_status order") auto
    ultimately show ?thesis
      using Advance False forward_plan_sel [of req plan order] by (intro Forward) simp_all
  qed
qed

lemma planVoid_Inr:
  assumes "planVoid order req = Inr plan" "rq_to req \<in> {CANCELLED, RETURNED}"
  shows "tp_from plan = os_status order" "tp_to plan = rq_to req"
    "rq_to req = CANCELLED \<Longrightarrow> isOpen (os_status order)"
    "rq_to req = RETURNED \<Longrightarrow> os_status order \<in> {HANDED_TO_COURIER, OUT_FOR_DELIVERY, DELIVERED}"
    "rq_actor req = CUSTOMER \<Longrightarrow> rq_to req = CANCELLED \<and> os_status order = PENDING"
    "tp_stock plan = (if os_shippedAt order \<noteq> None then RESTOCK else if os_stockReserved order then RELEASE else NONE)"
    "tp_set plan = \<lparr>ps_confirmedAt = None, ps_shippedAt = None, ps_deliveredAt = None,
       ps_cancelledAt = Some (rq_now req), ps_cancelledFrom = Some (os_status order), ps_stockReserved = Some False\<rparr>"
    "tp_voids plan" "tp_revokeCoupon plan" "\<not> tp_markPaid plan" "tp_closes plan = isOpen (os_status order)"
    "tp_credit plan = None \<longleftrightarrow> os_status order = PENDING"
proof -
  let ?reason = "case rq_credit req of None \<Rightarrow> '''' | Some c \<Rightarrow> js_trim (ci_reason c)"
  from assms have p: "plan = void_plan order req ?reason" "os_status order \<noteq> PENDING \<longrightarrow> ?reason \<noteq> ''''"
    "rq_to req = CANCELLED \<longrightarrow> isOpen (os_status order)"
    "rq_to req = RETURNED \<longrightarrow> os_status order \<in> {HANDED_TO_COURIER, OUT_FOR_DELIVERY, DELIVERED}"
    "rq_actor req = CUSTOMER \<longrightarrow> rq_to req = CANCELLED \<and> os_status order = PENDING"
    by (auto simp: planVoid_def Let_def split: if_splits)
  show "tp_from plan = os_status order" "tp_to plan = rq_to req"
    "rq_to req = CANCELLED \<Longrightarrow> isOpen (os_status order)"
    "rq_to req = RETURNED \<Longrightarrow> os_status order \<in> {HANDED_TO_COURIER, OUT_FOR_DELIVERY, DELIVERED}"
    "rq_actor req = CUSTOMER \<Longrightarrow> rq_to req = CANCELLED \<and> os_status order = PENDING"
    "tp_stock plan = (if os_shippedAt order \<noteq> None then RESTOCK else if os_stockReserved order then RELEASE else NONE)"
    "tp_set plan = \<lparr>ps_confirmedAt = None, ps_shippedAt = None, ps_deliveredAt = None,
       ps_cancelledAt = Some (rq_now req), ps_cancelledFrom = Some (os_status order), ps_stockReserved = Some False\<rparr>"
    "tp_voids plan" "tp_revokeCoupon plan" "\<not> tp_markPaid plan" "tp_closes plan = isOpen (os_status order)"
    "tp_credit plan = None \<longleftrightarrow> os_status order = PENDING"
    using p(2-5) by (auto simp: p(1) void_plan_sel)
qed


definition sample_order :: order_snapshot where
  "sample_order = \<lparr>os_status = PROCESSING, os_paymentMethod = COD, os_paymentStatus = UNPAID,
     os_stockReserved = True, os_confirmedAt = Some 1, os_shippedAt = None\<rparr>"


text \<open>
  C29. The button "next step" is always legal for staff: from every open status other than an unpaid
  online order still pending, the move to \<open>nextStatus\<close> is accepted.
\<close>

theorem next_status_accepted:
  assumes "nextStatus (os_status order) = Some t"
    and "\<not> (os_status order = PENDING \<and> os_paymentMethod order = SSLCOMMERZ \<and> os_paymentStatus order = UNPAID)"
  shows "\<exists>plan. planTransition order \<lparr>rq_to = t, rq_mode = Advance, rq_actor = STAFF, rq_credit = None, rq_now = now\<rparr> =
    Inr plan \<and> tp_to plan = t \<and> isOpen (os_status order)"
  using assms
  by (cases "os_status order")
    (auto simp: nextStatus_def ORDER_FLOW_def planTransition_def forward_plan_sel(2) [OF _ refl] Let_def nth_Cons')

theorem next_status_accepted_witness:
  "\<exists>plan. planTransition sample_order \<lparr>rq_to = HANDED_TO_COURIER, rq_mode = Advance, rq_actor = STAFF,
     rq_credit = None, rq_now = 7\<rparr> = Inr plan \<and> tp_to plan = HANDED_TO_COURIER"
  using next_status_accepted [of sample_order HANDED_TO_COURIER 7]
  by (simp add: sample_order_def nextStatus_def ORDER_FLOW_def)

text \<open>
  The tracker tells the truth: it always shows the five delivery steps and the cancel step; for
  an order that is not cancelled or returned, the steps before the current status are done, the
  current one is marked, and the later ones wait; for a closed one the steps it had reached are
  done, the others skipped and the cancel step set.
\<close>

theorem timeline_shape:
  "map tl_status (tm_steps (buildTimeline t)) = STEPS @ [CANCELLED] \<and>
   map tl_state (tm_steps (buildTimeline t)) =
     (if dead t
      then (let k = nat (1 + reached_step t) in replicate k Done @ replicate (5 - k) Skip @ [Cancel])
      else if ti_status t = PENDING then replicate 6 Wait
      else if ti_status t = DELIVERED then replicate 5 Done @ [Wait]
      else (let k = nat (rank (ti_status t) - 1) in replicate k Done @ [Now] @ replicate (5 - k) Wait))"
proof -
  have r: "reached_step t \<in> {-2, -1, 0, 1, 2, 3, 4}"
    by (cases "if dead t then (case ti_cancelledFrom t of None \<Rightarrow> PENDING | Some c \<Rightarrow> c) else ti_status t")
      (simp_all add: reached_step_def STEPS_def Let_def)
  have live: "\<not> dead t \<Longrightarrow> reached_step t = rank (ti_status t) - 1"
    by (cases "ti_status t") (simp_all add: reached_step_def dead_def STEPS_def)
  have five: "[0..<length STEPS] = [0, 1, 2, 3, 4]" by (simp add: STEPS_def upt_rec)
  show ?thesis
  proof (cases "dead t")
    case True
    then have "ti_status t \<noteq> PENDING" by (auto simp: dead_def)
    moreover from r have "reached_step t = -2 \<or> reached_step t = -1 \<or> reached_step t = 0 \<or> reached_step t = 1 \<or>
        reached_step t = 2 \<or> reached_step t = 3 \<or> reached_step t = 4" by auto
    ultimately show ?thesis using True
      by (elim disjE) (simp_all add: buildTimeline_def five timeline_step_def Let_def STEPS_def numeral_eq_Suc)
  next
    case False
    with live show ?thesis
      by (cases "ti_status t")
        (simp_all add: buildTimeline_def five timeline_step_def Let_def STEPS_def numeral_eq_Suc dead_def)
  qed
qed

end
