(* ===== verification/Orders.thy ===== *)
theory Orders
  imports Quote Inventory Order_Status
begin

text \<open>
  The tables of the orders module on top of the stock tables, the coupon usage
  (\<open>promotions/application/coupon-lookup.service.ts\<close>), and the transition service
  (\<open>application/order-transition.service.ts\<close>): \<open>apply\<close>, \<open>regress\<close> and \<open>reopen\<close> with every write
  they make. Audit entries, notes and metrics are output only and are left out; the events that are
  published after the commit are part of the result.
\<close>

record order_row = order_snapshot +
  or_id :: id
  or_orderNo :: string
  or_customerId :: id
  or_itemsSubtotal :: money
  or_discountTotal :: money
  or_couponCode :: "string option"
  or_shippingFee :: money
  or_taxTotal :: money
  or_grandTotal :: money
  or_amountPaid :: money
  or_amountRefunded :: money
  or_itemsCost :: "money option"
  or_courierCost :: money
  or_gatewayFee :: money
  or_courierLoss :: money
  or_cancelReason :: "string option"
  or_cancelledFrom :: "order_status option"
  or_placedAt :: time
  or_deliveredAt :: "time option"
  or_cancelledAt :: "time option"
  or_paidAt :: "time option"
  or_version :: int

record customer_row =
  cs_id :: id
  cs_userId :: "id option"
  cs_phone :: string
  cs_email :: "string option"
  cs_name :: string
  cs_isBlocked :: bool
  cs_ordersCount :: int
  cs_liveOrders :: int
  cs_cancelledOrders :: int
  cs_totalSpent :: money
  cs_firstOrderAt :: "time option"
  cs_lastOrderAt :: "time option"
  cs_deletedAt :: "time option"

record redemption =
  rd_couponId :: id
  rd_orderId :: id
  rd_customerId :: id
  rd_discount :: money
  rd_revokedAt :: "time option"

record history_row =
  hi_orderId :: id
  hi_fromStatus :: "order_status option"
  hi_toStatus :: order_status
  hi_actorType :: actor

record shop = store +
  sh_orders :: "order_row list"
  sh_customers :: "customer_row list"
  sh_coupons :: "coupon_rule list"
  sh_redemptions :: "redemption list"
  sh_history :: "history_row list"

section \<open>Reading and writing rows\<close>

definition find_order :: "id \<Rightarrow> 'a shop_scheme \<Rightarrow> order_row option" where
  "find_order i s = find (\<lambda>o'. or_id o' = i) (sh_orders s)"

definition find_customer :: "id \<Rightarrow> 'a shop_scheme \<Rightarrow> customer_row option" where
  "find_customer i s = find (\<lambda>c. cs_id c = i) (sh_customers s)"

definition items_of :: "'a store_scheme \<Rightarrow> id \<Rightarrow> order_item list" where
  "items_of s ord = filter (\<lambda>i. oi_orderId i = ord) (st_items s)"

text \<open>The constraints of the orders table, in the order they are tested.\<close>

definition orders_checks :: "order_row \<Rightarrow> (string \<times> bool) list" where
  "orders_checks r =
     [(''orders_amounts_nonneg'',
       or_itemsSubtotal r \<ge> 0 \<and> or_discountTotal r \<ge> 0 \<and> or_shippingFee r \<ge> 0 \<and> or_taxTotal r \<ge> 0 \<and>
       or_grandTotal r \<ge> 0 \<and> or_amountPaid r \<ge> 0 \<and> or_amountRefunded r \<ge> 0 \<and> or_courierCost r \<ge> 0 \<and>
       or_gatewayFee r \<ge> 0 \<and> or_courierLoss r \<ge> 0),
      (''orders_cancel_reason'', os_status r \<notin> {CANCELLED, RETURNED} \<or> or_cancelledAt r \<noteq> None),
      (''orders_discount_lte_subtotal'', or_discountTotal r \<le> or_itemsSubtotal r),
      (''orders_refund_lte_paid'', or_amountRefunded r \<le> or_amountPaid r),
      (''orders_total_math'',
       or_grandTotal r = or_itemsSubtotal r - or_discountTotal r + or_shippingFee r + or_taxTotal r)]"

definition check_order :: "order_row \<Rightarrow> unit result" where
  "check_order r = (case find (\<lambda>c. \<not> snd c) (orders_checks r) of
      None \<Rightarrow> Inr () | Some c \<Rightarrow> Inl (CheckViolation (fst c)))"

text \<open>\<open>updateMany\<close> guarded by the version: the number of rows it changed, and the tables.\<close>

definition update_order ::
  "id \<Rightarrow> int \<Rightarrow> (order_row \<Rightarrow> order_row) \<Rightarrow> 'a shop_scheme \<Rightarrow> (nat \<times> 'a shop_scheme) result" where
  "update_order i v f s =
     (case find (\<lambda>o'. or_id o' = i \<and> or_version o' = v) (sh_orders s) of
        None \<Rightarrow> Inr (0, s)
      | Some r \<Rightarrow> ebind (check_order (f r)) (\<lambda>_.
          Inr (1, s\<lparr>sh_orders := map (\<lambda>o'. if or_id o' = i then f o' else o') (sh_orders s)\<rparr>)))"

text \<open>An update of one order by its id.\<close>

definition set_order :: "id \<Rightarrow> (order_row \<Rightarrow> order_row) \<Rightarrow> 'a shop_scheme \<Rightarrow> ('a shop_scheme) result" where
  "set_order i f s =
     (case find_order i s of
        None \<Rightarrow> Inl (DomainError ''P2025'' 500)
      | Some r \<Rightarrow> ebind (check_order (f r)) (\<lambda>_.
          Inr (s\<lparr>sh_orders := map (\<lambda>o'. if or_id o' = i then f o' else o') (sh_orders s)\<rparr>)))"

definition update_customer ::
  "id \<Rightarrow> (customer_row \<Rightarrow> customer_row) \<Rightarrow> 'a shop_scheme \<Rightarrow> ('a shop_scheme) result" where
  "update_customer i f s =
     (if find_customer i s = None then Inl (DomainError ''P2025'' 500)
      else Inr (s\<lparr>sh_customers := map (\<lambda>c. if cs_id c = i then f c else c) (sh_customers s)\<rparr>))"

definition update_coupon :: "id \<Rightarrow> (coupon_rule \<Rightarrow> coupon_rule) \<Rightarrow> 'a shop_scheme \<Rightarrow> 'a shop_scheme" where
  "update_coupon i f s = s\<lparr>sh_coupons := map (\<lambda>c. if cr_id c = i then f c else c) (sh_coupons s)\<rparr>"

definition add_history :: "history_row \<Rightarrow> 'a shop_scheme \<Rightarrow> 'a shop_scheme" where
  "add_history h s = s\<lparr>sh_history := sh_history s @ [h]\<rparr>"

section \<open>Coupon usage\<close>

text \<open>The code column is \<open>citext\<close>: it is compared without regard to case.\<close>

definition findRule :: "string \<Rightarrow> 'a shop_scheme \<Rightarrow> coupon_rule option" where
  "findRule code s =
     (let c = normalizeCouponCode code
      in if c = '''' then None
         else find (\<lambda>r. map upper_char (cr_code r) = map upper_char c) (sh_coupons s))"

definition usage :: "id \<Rightarrow> id option \<Rightarrow> 'a shop_scheme \<Rightarrow> coupon_usage" where
  "usage couponId customerId s =
     (case customerId of
        None \<Rightarrow> \<lparr>cu_customerRedemptions = None, cu_customerPriorOrders = None\<rparr>
      | Some c \<Rightarrow>
          \<lparr>cu_customerRedemptions = Some (int (length (filter (\<lambda>r. rd_couponId r = couponId \<and>
              rd_customerId r = c \<and> rd_revokedAt r = None) (sh_redemptions s)))),
           cu_customerPriorOrders = Some (int (length (filter (\<lambda>o'. or_customerId o' = c \<and>
              os_status o' \<noteq> CANCELLED) (sh_orders s))))\<rparr>)"

definition redeem :: "id \<Rightarrow> id \<Rightarrow> id \<Rightarrow> money \<Rightarrow> 'a shop_scheme \<Rightarrow> ('a shop_scheme) result" where
  "redeem couponId orderId customerId discount s =
     (if list_ex (\<lambda>r. rd_orderId r = orderId) (sh_redemptions s) then Inl (DomainError ''P2002'' 500)
      else if discount < 0 then Inl (CheckViolation ''coupon_redemptions_discount'')
      else Inr (update_coupon couponId (\<lambda>c. c\<lparr>cr_usedCount := cr_usedCount c + 1\<rparr>)
             (s\<lparr>sh_redemptions := sh_redemptions s @ [\<lparr>rd_couponId = couponId, rd_orderId = orderId,
                rd_customerId = customerId, rd_discount = discount, rd_revokedAt = None\<rparr>]\<rparr>)))"

definition set_revoked :: "id \<Rightarrow> time option \<Rightarrow> 'a shop_scheme \<Rightarrow> 'a shop_scheme" where
  "set_revoked orderId t s =
     s\<lparr>sh_redemptions := map (\<lambda>r. if rd_orderId r = orderId then r\<lparr>rd_revokedAt := t\<rparr> else r) (sh_redemptions s)\<rparr>"

definition revoke :: "id \<Rightarrow> 'a shop_scheme \<Rightarrow> bool \<times> 'a shop_scheme" where
  "revoke orderId s =
     (case find (\<lambda>r. rd_orderId r = orderId) (sh_redemptions s) of
        None \<Rightarrow> (False, s)
      | Some r \<Rightarrow>
          if rd_revokedAt r \<noteq> None then (False, s)
          else (True, update_coupon (rd_couponId r) (\<lambda>c. c\<lparr>cr_usedCount := max (cr_usedCount c - 1) 0\<rparr>)
                        (set_revoked orderId (Some (st_now s)) s)))"

definition restore :: "id \<Rightarrow> 'a shop_scheme \<Rightarrow> bool \<times> 'a shop_scheme" where
  "restore orderId s =
     (case find (\<lambda>r. rd_orderId r = orderId) (sh_redemptions s) of
        None \<Rightarrow> (False, s)
      | Some r \<Rightarrow>
          if rd_revokedAt r = None then (False, s)
          else (True, update_coupon (rd_couponId r) (\<lambda>c. c\<lparr>cr_usedCount := cr_usedCount c + 1\<rparr>)
                        (set_revoked orderId None s)))"

section \<open>Transitions\<close>

text \<open>What \<open>orderRef\<close> makes of a route parameter.\<close>

datatype order_ref = ById id | ByNo string

definition order_by_ref :: "order_ref option \<Rightarrow> 'a shop_scheme \<Rightarrow> order_row option" where
  "order_by_ref ref s = (case ref of
      None \<Rightarrow> None
    | Some (ById i) \<Rightarrow> find_order i s
    | Some (ByNo n) \<Rightarrow> find (\<lambda>o'. or_orderNo o' = n) (sh_orders s))"

definition item_lines :: "order_item \<Rightarrow> stock_line list" where
  "item_lines i =
     (case oi_productId i of
        Some p \<Rightarrow> if oi_kind i = PRODUCT \<and> p \<noteq> '''' then [(p, oi_quantity i)] else []
      | None \<Rightarrow> []) @ map (\<lambda>c. (oc_productId c, oc_quantity c)) (oi_components i)"

definition stockLinesOf :: "order_item list \<Rightarrow> stock_line list" where
  "stockLinesOf items = concat (map item_lines items)"

record transition_command =
  tc_to :: order_status
  tc_mode :: mode
  tc_note :: "string option"
  tc_credit :: "(string \<times> rat option) option"
  tc_expectedVersion :: "int option"

record actor_ref =
  ac_id :: "id option"
  ac_type :: actor

record status_event =
  se_orderId :: id
  se_from :: order_status
  se_to :: order_status
  se_credit :: "credit_input option"

record pending_events =
  pe_statusChanged :: status_event
  pe_paid :: "(id \<times> money) option"
  pe_lowStock :: "low_stock_hit list"

text \<open>
  The stock side effect of a plan. The inventory service is injected into the transition service;
  here its three methods are arguments.
\<close>

definition run_stock ::
  "(stock_line list \<Rightarrow> stock_ctx \<Rightarrow> 's \<Rightarrow> (low_stock_hit list \<times> 's) result) \<Rightarrow>
   (stock_line list \<Rightarrow> stock_ctx \<Rightarrow> 's \<Rightarrow> 's result) \<Rightarrow> (stock_line list \<Rightarrow> stock_ctx \<Rightarrow> 's \<Rightarrow> 's result) \<Rightarrow>
   stock_move \<Rightarrow> stock_line list \<Rightarrow> stock_ctx \<Rightarrow> 's \<Rightarrow> (low_stock_hit list \<times> 's) result" where
  "run_stock fulfil_m release_m restock_m move lines ctx s =
     (if lines = [] then Inr ([], s)
      else case move of
             FULFIL \<Rightarrow> fulfil_m lines ctx s
           | RELEASE \<Rightarrow> ebind (release_m lines ctx s) (\<lambda>s. Inr ([], s))
           | RESTOCK \<Rightarrow> ebind (restock_m lines ctx s) (\<lambda>s. Inr ([], s))
           | NONE \<Rightarrow> Inr ([], s))"

text \<open>The columns that the \<open>UPDATE\<close> of \<open>apply\<close> sets.\<close>

definition write_plan :: "transition_plan \<Rightarrow> string option \<Rightarrow> time \<Rightarrow> order_row \<Rightarrow> order_row" where
  "write_plan plan note now r =
     (let st = tp_set plan;
          r = r\<lparr>os_status := tp_to plan,
                os_confirmedAt := (if ps_confirmedAt st \<noteq> None then ps_confirmedAt st else os_confirmedAt r),
                os_shippedAt := (if ps_shippedAt st \<noteq> None then ps_shippedAt st else os_shippedAt r),
                or_deliveredAt := (if ps_deliveredAt st \<noteq> None then ps_deliveredAt st else or_deliveredAt r),
                or_cancelledAt := (if ps_cancelledAt st \<noteq> None then ps_cancelledAt st else or_cancelledAt r),
                or_cancelledFrom := (if ps_cancelledFrom st \<noteq> None then ps_cancelledFrom st else or_cancelledFrom r),
                os_stockReserved := (case ps_stockReserved st of None \<Rightarrow> os_stockReserved r | Some b \<Rightarrow> b),
                or_version := or_version r + 1\<rparr>;
          r = (if tp_voids plan
               then r\<lparr>or_cancelReason := (case tp_credit plan of Some c \<Rightarrow> Some (ci_reason c) | None \<Rightarrow> note),
                      or_courierLoss := (case tp_credit plan of Some c \<Rightarrow> ci_courierLoss c | None \<Rightarrow> or_courierLoss r)\<rparr>
               else r)
      in if tp_markPaid plan
         then r\<lparr>os_paymentStatus := PAID, or_amountPaid := or_grandTotal r, or_paidAt := Some now\<rparr> else r)"

text \<open>The counters of the customer: the \<open>update\<close>, and the \<open>GREATEST\<close> that follows a close.\<close>

definition close_customer :: "transition_plan \<Rightarrow> money \<Rightarrow> customer_row \<Rightarrow> customer_row" where
  "close_customer plan grandTotal c =
     (let c = (if tp_closes plan then c\<lparr>cs_liveOrders := cs_liveOrders c - 1\<rparr> else c);
          c = (if tp_voids plan then c\<lparr>cs_cancelledOrders := cs_cancelledOrders c + 1,
                                      cs_totalSpent := cs_totalSpent c - grandTotal\<rparr> else c)
      in if tp_closes plan then c\<lparr>cs_liveOrders := max (cs_liveOrders c) 0\<rparr> else c)"

definition apply_tx ::
  "decimal_js \<Rightarrow> order_ref option \<Rightarrow> transition_command \<Rightarrow> actor_ref \<Rightarrow> 'a shop_scheme \<Rightarrow>
   (transition_plan \<times> pending_events \<times> 'a shop_scheme) result" where
  "apply_tx J ref cmd by_a s =
     (case order_by_ref ref s of
        None \<Rightarrow> Inl (NotFoundError ''Order'' '''')
      | Some order \<Rightarrow>
          if (case tc_expectedVersion cmd of None \<Rightarrow> False | Some v \<Rightarrow> v \<noteq> or_version order)
          then Inl (ConflictError ''order.version_conflict'')
          else
            let now = st_now s;
                credit = map_option (\<lambda>(reason, loss). \<lparr>ci_reason = reason, ci_courierLoss = round2 (D loss)\<rparr>) (tc_credit cmd)
            in case planTransition order \<lparr>rq_to = tc_to cmd, rq_mode = tc_mode cmd, rq_actor = ac_type by_a,
                                         rq_credit = credit, rq_now = now\<rparr> of
                 Inl code \<Rightarrow> Inl (BusinessRuleError code)
               | Inr plan \<Rightarrow>
                   ebind (update_order (or_id order) (or_version order) (write_plan plan (tc_note cmd) now) s) (\<lambda>(count, s).
                   if count = 0 then Inl (ConflictError ''order.version_conflict'')
                   else
                   ebind (run_stock (fulfill J) release restock (tp_stock plan) (stockLinesOf (items_of s (or_id order)))
                            \<lparr>sc_orderId = Some (or_id order), sc_purchaseId = None\<rparr> s) (\<lambda>(lowStock, s).
                   let s = (if tp_revokeCoupon plan then snd (revoke (or_id order) s) else s)
                   in ebind (if tp_closes plan \<or> tp_voids plan
                             then update_customer (or_customerId order) (close_customer plan (or_grandTotal order)) s
                             else Inr s) (\<lambda>s.
                   let s = add_history \<lparr>hi_orderId = or_id order, hi_fromStatus = Some (tp_from plan),
                                        hi_toStatus = tp_to plan, hi_actorType = ac_type by_a\<rparr> s
                   in Inr (plan,
                       \<lparr>pe_statusChanged = \<lparr>se_orderId = or_id order, se_from = tp_from plan, se_to = tp_to plan,
                                            se_credit = tp_credit plan\<rparr>,
                        pe_paid = (if tp_markPaid plan then Some (or_id order, or_grandTotal order) else None),
                        pe_lowStock = lowStock\<rparr>, s)))))"

definition regress ::
  "decimal_js \<Rightarrow> order_ref option \<Rightarrow> string option \<Rightarrow> int option \<Rightarrow> actor_ref \<Rightarrow> 'a shop_scheme \<Rightarrow>
   (transition_plan \<times> pending_events \<times> 'a shop_scheme) result" where
  "regress J ref note v by_a s =
     (case order_by_ref ref s of
        None \<Rightarrow> Inl (NotFoundError ''Order'' '''')
      | Some cur \<Rightarrow>
          (case regressTarget (os_status cur) of
             None \<Rightarrow> Inl (BusinessRuleError ''order.regress_not_allowed'')
           | Some to_s \<Rightarrow> apply_tx J ref \<lparr>tc_to = to_s, tc_mode = Regress, tc_note = note, tc_credit = None,
                                         tc_expectedVersion = v\<rparr> by_a s))"

section \<open>Reopening\<close>

definition write_reopen :: "reopen_target \<Rightarrow> time \<Rightarrow> order_row \<Rightarrow> order_row" where
  "write_reopen to_t now r =
     r\<lparr>os_status := reopen_status to_t, or_version := or_version r + 1, or_cancelledAt := None,
       or_cancelReason := None, or_cancelledFrom := None, or_courierLoss := 0, os_shippedAt := None,
       or_deliveredAt := None, os_confirmedAt := (if to_t = ToConfirmed then Some now else None),
       os_stockReserved := True\<rparr>"

definition reopen_customer :: "money \<Rightarrow> customer_row \<Rightarrow> customer_row" where
  "reopen_customer grandTotal c =
     c\<lparr>cs_liveOrders := cs_liveOrders c + 1, cs_totalSpent := cs_totalSpent c + grandTotal,
       cs_cancelledOrders := max (cs_cancelledOrders c - 1) 0\<rparr>"

definition reopen_tx ::
  "order_ref option \<Rightarrow> string \<Rightarrow> reopen_target option \<Rightarrow> int option \<Rightarrow> actor_ref \<Rightarrow> 'a shop_scheme \<Rightarrow>
   (status_event \<times> 'a shop_scheme) result" where
  "reopen_tx ref reason to_o v by_a s =
     (case order_by_ref ref s of
        None \<Rightarrow> Inl (NotFoundError ''Order'' '''')
      | Some order \<Rightarrow>
          if (case v of None \<Rightarrow> False | Some v \<Rightarrow> v \<noteq> or_version order)
          then Inl (ConflictError ''order.version_conflict'')
          else
            (case planReopen order (or_cancelledFrom order) \<lparr>rr_to = to_o, rr_reason = reason, rr_actor = ac_type by_a\<rparr> of
               Inl code \<Rightarrow> Inl (BusinessRuleError code)
             | Inr (from_s, to_t) \<Rightarrow>
                 ebind (update_order (or_id order) (or_version order) (write_reopen to_t (st_now s)) s) (\<lambda>(count, s).
                 if count = 0 then Inl (ConflictError ''order.version_conflict'')
                 else
                 let lines = stockLinesOf (items_of s (or_id order))
                 in ebind (if lines \<noteq> [] then reserve lines \<lparr>sc_orderId = Some (or_id order), sc_purchaseId = None\<rparr> s
                           else Inr s) (\<lambda>s.
                 let s = snd (restore (or_id order) s)
                 in ebind (update_customer (or_customerId order) (reopen_customer (or_grandTotal order)) s) (\<lambda>s.
                 Inr (\<lparr>se_orderId = or_id order, se_from = from_s, se_to = reopen_status to_t, se_credit = None\<rparr>,
                      add_history \<lparr>hi_orderId = or_id order, hi_fromStatus = Some from_s,
                                   hi_toStatus = reopen_status to_t, hi_actorType = ac_type by_a\<rparr> s))))))"

section \<open>Publishing\<close>

datatype shop_event =
    OrderStatusChanged status_event
  | OrderPaid id money
  | StockLow low_stock_hit

text \<open>The events after the commit, in the order they are emitted, and the change of the gauge of open orders.\<close>

definition publish :: "pending_events \<Rightarrow> shop_event list \<times> int" where
  "publish e =
     (let c = pe_statusChanged e
      in ([OrderStatusChanged c] @ (case pe_paid e of None \<Rightarrow> [] | Some (i, amount) \<Rightarrow> [OrderPaid i amount]) @
            map StockLow (pe_lowStock e),
          if isOpen (se_from c) \<and> \<not> isOpen (se_to c) then -1 else 0))"

definition transition ::
  "decimal_js \<Rightarrow> order_ref option \<Rightarrow> transition_command \<Rightarrow> actor_ref \<Rightarrow> 'a shop_scheme \<Rightarrow>
   (shop_event list \<times> 'a shop_scheme) result" where
  "transition J ref cmd by_a s =
     ebind (apply_tx J ref cmd by_a s) (\<lambda>(plan, events, s). Inr (fst (publish events), s))"

end
