(* ===== verification/Text.thy ===== *)
theory Text
  imports Prelude "HOL-Library.Char_ord"
begin

text \<open>
  Strings with Bangla text, and \<open>common/utils/text.ts\<close>: phone numbers and document numbers. A
  JavaScript string is the list of its UTF-16 code units; a string that only ever holds ASCII (a
  code, a number, a normalised phone) stays a HOL \<open>string\<close>, and \<open>js\<close> embeds it.
\<close>

type_synonym jstr = "nat list"

definition js :: "string \<Rightarrow> jstr" where
  "js s = map of_char s"

definition is_js_space :: "nat \<Rightarrow> bool" where
  "is_js_space n \<longleftrightarrow> 9 \<le> n \<and> n \<le> 13 \<or> n \<in> {32, 160, 5760, 8232, 8233, 8239, 8287, 12288, 65279} \<or> 8192 \<le> n \<and> n \<le> 8202"

definition jtrim :: "jstr \<Rightarrow> jstr" where
  "jtrim s = rev (dropWhile is_js_space (rev (dropWhile is_js_space s)))"

lemma js_append [simp]: "js (a @ b) = js a @ js b"
  by (simp add: js_def)

lemma js_inject [simp]: "js a = js b \<longleftrightarrow> a = b"
  by (auto simp: js_def intro: injD [OF inj_mapI] inj_on_char_of_nat
      dest!: map_injective simp: inj_def)

section \<open>Digits\<close>

definition ascii_digit :: "char \<Rightarrow> bool" where
  "ascii_digit c \<longleftrightarrow> CHR ''0'' \<le> c \<and> c \<le> CHR ''9''"

text \<open>The Bangla digits are the code units 2534 to 2543.\<close>

definition asciiDigits :: "jstr \<Rightarrow> jstr" where
  "asciiDigits s = map (\<lambda>d. if 2534 \<le> d \<and> d \<le> 2543 then d - 2534 + 48 else d) s"

text \<open>What is left after \<open>replace(/\D/g, '')\<close>; it is ASCII.\<close>

definition only_digits :: "jstr \<Rightarrow> string" where
  "only_digits s = map char_of (filter (\<lambda>d. 48 \<le> d \<and> d \<le> 57) s)"

definition starts_with :: "'a list \<Rightarrow> 'a list \<Rightarrow> bool" where
  "starts_with p s \<longleftrightarrow> take (length p) s = p"

definition bd_mobile :: "string \<Rightarrow> bool" where
  "bd_mobile d \<longleftrightarrow> length d = 10 \<and> d ! 0 = CHR ''1'' \<and> CHR ''3'' \<le> d ! 1 \<and> d ! 1 \<le> CHR ''9'' \<and> list_all ascii_digit (drop 2 d)"

definition normalizeBdPhone :: "jstr option \<Rightarrow> string option" where
  "normalizeBdPhone input =
     (case input of
        None \<Rightarrow> None
      | Some s \<Rightarrow>
          if s = [] then None
          else
            let d = only_digits (asciiDigits s);
                d = (if starts_with ''880'' d then drop 3 d else d);
                d = (if starts_with ''0'' d then drop 1 d else d)
            in if bd_mobile d then Some (''+880'' @ d) else None)"

definition localPhone :: "string \<Rightarrow> string" where
  "localPhone e164 = (if starts_with ''+880'' e164 then ''0'' @ drop 4 e164 else e164)"

section \<open>Document numbers\<close>

text \<open>\<open>String(n)\<close> of a non-negative integer.\<close>

function nat_string :: "nat \<Rightarrow> string" where
  "nat_string n = (if n < 10 then [char_of (48 + n)] else nat_string (n div 10) @ [char_of (48 + n mod 10)])"
  by pat_completeness auto
termination by (relation "measure id") auto

declare nat_string.simps [simp del]

definition padStart :: "string \<Rightarrow> nat \<Rightarrow> char \<Rightarrow> string" where
  "padStart s width c = replicate (width - length s) c @ s"

definition padNo :: "string \<Rightarrow> nat \<Rightarrow> nat \<Rightarrow> string" where
  "padNo prefix n width = prefix @ padStart (nat_string n) width CHR ''0''"

section \<open>Normal forms\<close>

lemma ascii_digit_code: "ascii_digit c \<longleftrightarrow> 48 \<le> (of_char c :: nat) \<and> (of_char c :: nat) \<le> 57"
  by (simp add: ascii_digit_def less_eq_char_def)

lemma ascii_digits_js [simp]: "asciiDigits (js s) = js s"
proof -
  have "(of_char c :: nat) < 2534" for c :: char using nat_of_char_less_256 [of c] by linarith
  then have "\<not> 2534 \<le> (of_char c :: nat)" for c :: char by (simp add: not_le)
  then show ?thesis by (simp add: asciiDigits_def js_def)
qed

lemma only_digits_js: "only_digits (js s) = filter ascii_digit s"
  by (simp add: only_digits_def js_def filter_map comp_def ascii_digit_code [abs_def])

lemma bd_mobile_digits:
  assumes "bd_mobile d"
  shows "list_all ascii_digit d" "filter ascii_digit d = d" "take 1 d = ''1''" "length d = 10"
proof -
  note a = assms [unfolded bd_mobile_def]
  from a obtain x y r where d: "d = x # y # r" by (cases d; cases "tl d") auto
  have "CHR ''3'' \<le> c \<Longrightarrow> c \<le> CHR ''9'' \<Longrightarrow> ascii_digit c" for c
    by (simp add: ascii_digit_def less_eq_char_def)
  then show l: "list_all ascii_digit d" using a unfolding d by (simp add: ascii_digit_def less_eq_char_def)
  then show "filter ascii_digit d = d" by (simp add: list_all_iff)
  show "take 1 d = ''1''" "length d = 10" using a unfolding d by simp_all
qed

lemma normalizeBdPhone_digits:
  assumes "bd_mobile d"
  shows "normalizeBdPhone (Some (js (''+880'' @ d))) = Some (''+880'' @ d)"
    and "normalizeBdPhone (Some (js (''0'' @ d))) = Some (''+880'' @ d)"
proof -
  note b = bd_mobile_digits [OF assms]
  have nz: "take (Suc 0) d \<noteq> ''0''" using b(3) by simp
  have f1: "only_digits (js (''+880'' @ d)) = ''880'' @ d" unfolding only_digits_js using b(2) by (simp add: ascii_digit_def less_eq_char_def)
  have f2: "only_digits (js (''0'' @ d)) = ''0'' @ d" unfolding only_digits_js using b(2) by (simp add: ascii_digit_def less_eq_char_def)
  have js_ne: "js (c # cs) \<noteq> []" for c cs by (simp add: js_def)
  show "normalizeBdPhone (Some (js (''+880'' @ d))) = Some (''+880'' @ d)"
    unfolding normalizeBdPhone_def ascii_digits_js f1 option.case using assms nz js_ne
    by (simp add: starts_with_def Let_def)
  show "normalizeBdPhone (Some (js (''0'' @ d))) = Some (''+880'' @ d)"
    unfolding normalizeBdPhone_def ascii_digits_js f2 option.case using assms js_ne
    by (simp add: starts_with_def Let_def)
qed

lemma normalizeBdPhone_Some: "normalizeBdPhone input = Some p \<Longrightarrow> \<exists>d. p = ''+880'' @ d \<and> bd_mobile d"
  by (auto simp: normalizeBdPhone_def Let_def split: option.splits if_splits)

text \<open>
  C34. A phone number that normalises at all normalises to thirteen digits after a plus sign, in the
  form the constraint \<open>customers_phone_e164\<close> demands; normalising it again, or normalising the
  local form that is printed for the courier, gives the same number back, so one person keeps one
  customer row however the number is typed.
\<close>

theorem phone_normal_form:
  assumes "normalizeBdPhone input = Some p"
  shows "(\<exists>d. p = ''+880'' @ d \<and> bd_mobile d) \<and> length p = 14 \<and>
    normalizeBdPhone (Some (js p)) = Some p \<and> normalizeBdPhone (Some (js (localPhone p))) = Some p \<and>
    length (localPhone p) = 11"
proof -
  obtain d where d: "p = ''+880'' @ d" "bd_mobile d" using normalizeBdPhone_Some [OF assms] by blast
  have "localPhone p = ''0'' @ d" by (simp add: d(1) localPhone_def starts_with_def)
  then show ?thesis using normalizeBdPhone_digits [OF d(2)] d bd_mobile_digits(4) [OF d(2)] by auto
qed

text \<open>The Bangla digits of \<open>01711-111111\<close>, with a dash.\<close>

theorem phone_normal_form_witness:
  "normalizeBdPhone (Some (js ''+8801711111111'')) = Some ''+8801711111111'' \<and>
   normalizeBdPhone (Some [2534, 2535, 2541, 2535, 2535, 45, 2535, 2535, 2535, 2535, 2535, 2535]) = Some ''+8801711111111''"
proof -
  have *: "normalizeBdPhone (Some [2534, 2535, 2541, 2535, 2535, 45, 2535, 2535, 2535, 2535, 2535, 2535]) = Some ''+8801711111111''"
    by code_simp
  show ?thesis using phone_normal_form [OF *] * by blast
qed

text \<open>A padded number reads back as the number.\<close>

definition digits_value :: "string \<Rightarrow> nat" where
  "digits_value s = foldl (\<lambda>v c. 10 * v + (of_char c - 48)) 0 s"

lemma digits_value_nat_string: "digits_value (nat_string n) = n"
proof (induction n rule: nat_string.induct)
  case (1 n)
  show ?case
  proof (cases "n < 10")
    case True
    then show ?thesis by (subst nat_string.simps) (simp add: digits_value_def)
  next
    case False
    have "(of_char (char_of (48 + n mod 10)) :: nat) = 48 + n mod 10" by simp
    with False 1 show ?thesis by (subst nat_string.simps) (simp add: digits_value_def)
  qed
qed

lemma digits_value_padStart: "digits_value (padStart s w CHR ''0'') = digits_value s"
proof -
  have "foldl (\<lambda>v c. 10 * v + (of_char c - 48)) (0::nat) (replicate k CHR ''0'' @ s) =
      foldl (\<lambda>v c. 10 * v + (of_char c - 48)) 0 s" for k
    by (induction k) simp_all
  then show ?thesis by (simp add: digits_value_def padStart_def)
qed

lemma padNo_inject: "padNo prefix n width = padNo prefix m width' \<longleftrightarrow>
    padStart (nat_string n) width CHR ''0'' = padStart (nat_string m) width' CHR ''0''"
  by (simp add: padNo_def)

lemma padNo_number: "padNo prefix n width = padNo prefix m width' \<Longrightarrow> n = m"
  unfolding padNo_inject by (metis digits_value_padStart digits_value_nat_string)

end
