(* ===== verification/Cash.thy ===== *)
theory Cash
  imports Orders Text
begin

text \<open>
  The cash book: \<open>finance/cashbook/domain/cash-math.ts\<close>, the ledger that is the only writer of
  \<open>cash_transactions\<close> (\<open>application/cash-ledger.service.ts\<close>) and the staff commands of
  \<open>application/cashbook.service.ts\<close>. The tables of finance and payments extend the orders' tables.
  Row ids are generated: the state holds the generator and how often it was asked.
\<close>

datatype cash_direction = IN | OUT

datatype cash_kind =
    GATEWAY_SETTLEMENT | COD_REMITTANCE | GATEWAY_FEE | PURCHASE_PAYMENT | REFUND | COURIER_PAYMENT
  | COURIER_LOSS | EXPENSE | TRANSFER | OWNER_CAPITAL | OWNER_DRAW | MANUAL

datatype account_type = CASH_BOX | MOBILE_WALLET | BANK | GATEWAY

record cash_account =
  ca_id :: id
  ca_code :: string
  ca_name :: jstr
  ca_type :: account_type
  ca_openingBalance :: money
  ca_isActive :: bool

record cash_txn =
  ct_id :: id
  ct_accountId :: id
  ct_direction :: cash_direction
  ct_kind :: cash_kind
  ct_amount :: money
  ct_memo :: jstr
  ct_expenseCategory :: "jstr option"
  ct_orderId :: "id option"
  ct_purchaseId :: "id option"
  ct_transferGroupId :: "id option"
  ct_reversesId :: "id option"
  ct_occurredAt :: time

datatype payment_status =
    Pay_INITIATED | Pay_PENDING | Pay_SUCCESS | Pay_FAILED | Pay_CANCELLED | Pay_EXPIRED | Pay_REFUNDED

record payment =
  py_id :: id
  py_orderId :: id
  py_method :: payment_method
  py_provider :: "string option"
  py_status :: payment_status
  py_amount :: money
  py_fee :: money
  py_currency :: string
  py_tranId :: "string option"
  py_valId :: "string option"
  py_bankTranId :: "string option"
  py_riskLevel :: "string option"
  py_failureReason :: "string option"
  py_initiatedAt :: time
  py_succeededAt :: "time option"

datatype refund_status = Rf_REQUESTED | Rf_PROCESSING | Rf_COMPLETED | Rf_FAILED

record refund =
  rf_id :: id
  rf_orderId :: id
  rf_paymentId :: "id option"
  rf_amount :: money
  rf_method :: payment_method
  rf_status :: refund_status
  rf_providerRef :: "string option"
  rf_processedAt :: "time option"

datatype settlement_status = Set_UNPAID | Set_PARTIAL | Set_PAID

datatype purchase_status = Pu_DRAFT | Pu_ORDERED | Pu_RECEIVED | Pu_CANCELLED

record purchase =
  pu_id :: id
  pu_purchaseNo :: string
  pu_supplierId :: id
  pu_status :: purchase_status
  pu_paymentStatus :: settlement_status
  pu_subtotal :: money
  pu_otherCharges :: money
  pu_total :: money
  pu_amountPaid :: money

datatype cod_status = NOT_APPLICABLE | Cod_PENDING | COLLECTED | REMITTED

record shipment =
  sm_id :: id
  sm_orderId :: id
  sm_codAmount :: money
  sm_codStatus :: cod_status
  sm_codCollectedAt :: "time option"
  sm_codRemittedAt :: "time option"

record till = shop +
  tl_uuid :: "nat \<Rightarrow> id"
  tl_issued :: nat
  tl_accounts :: "cash_account list"
  tl_txns :: "cash_txn list"
  tl_payments :: "payment list"
  tl_refunds :: "refund list"
  tl_purchases :: "purchase list"
  tl_shipments :: "shipment list"

definition fresh_id :: "'a till_scheme \<Rightarrow> id \<times> 'a till_scheme" where
  "fresh_id s = (tl_uuid s (tl_issued s), s\<lparr>tl_issued := Suc (tl_issued s)\<rparr>)"

section \<open>The arithmetic of the cash book\<close>

definition signed :: "cash_direction \<Rightarrow> money \<Rightarrow> money" where
  "signed direction amount = (if direction = IN then amount else - amount)"

definition opposite :: "cash_direction \<Rightarrow> cash_direction" where
  "opposite direction = (if direction = IN then OUT else IN)"

record day_totals =
  dt_in :: money
  dt_out :: money

record day_close_row =
  dc_day :: string
  dc_opening :: money
  dc_in :: money
  dc_out :: money
  dc_closing :: money

fun rollDays :: "string list \<Rightarrow> money \<Rightarrow> (string \<times> day_totals) list \<Rightarrow> day_close_row list" where
  "rollDays [] openingBefore perDay = []"
| "rollDays (day # days) openingBefore perDay =
     (let t = (case map_of perDay day of Some t \<Rightarrow> t | None \<Rightarrow> \<lparr>dt_in = 0, dt_out = 0\<rparr>);
          closing = openingBefore + dt_in t - dt_out t
      in \<lparr>dc_day = day, dc_opening = openingBefore, dc_in = dt_in t, dc_out = dt_out t, dc_closing = closing\<rparr>
         # rollDays days closing perDay)"

text \<open>The five system accounts; the names are Bangla words.\<close>

definition SYSTEM_ACCOUNTS :: "(string \<times> jstr \<times> account_type) list" where
  "SYSTEM_ACCOUNTS =
     [(''cash'', [2453, 2509, 2479, 2494, 2486], CASH_BOX),
      (''bkash'', [2476, 2495, 2453, 2494, 2486], MOBILE_WALLET),
      (''nagad'', [2472, 2455, 2470], MOBILE_WALLET),
      (''bank'', [2476, 2509, 2479, 2494, 2434, 2453], BANK),
      (''sslcommerz'', js ''SSLCOMMERZ'', GATEWAY)]"

definition accountForMethod :: "payment_method \<Rightarrow> string" where
  "accountForMethod m = (case m of
      SSLCOMMERZ \<Rightarrow> ''sslcommerz'' | BKASH \<Rightarrow> ''bkash'' | NAGAD \<Rightarrow> ''nagad'' | BANK_TRANSFER \<Rightarrow> ''bank'' | _ \<Rightarrow> ''cash'')"

definition kindAllowsDirection :: "cash_kind \<Rightarrow> cash_direction \<Rightarrow> bool" where
  "kindAllowsDirection kind direction =
     (if kind = EXPENSE \<or> kind = OWNER_DRAW \<or> kind = COURIER_LOSS then direction = OUT
      else if kind = OWNER_CAPITAL then direction = IN
      else True)"

section \<open>The ledger\<close>

datatype account_ref = AccountId id | AccountCode string

definition create_account :: "string \<Rightarrow> jstr \<Rightarrow> account_type \<Rightarrow> 'a till_scheme \<Rightarrow> cash_account \<times> 'a till_scheme" where
  "create_account code name ty s =
     (let (i, s) = fresh_id s;
          acc = \<lparr>ca_id = i, ca_code = code, ca_name = name, ca_type = ty, ca_openingBalance = 0, ca_isActive = True\<rparr>
      in (acc, s\<lparr>tl_accounts := tl_accounts s @ [acc]\<rparr>))"

definition account :: "account_ref \<Rightarrow> bool \<Rightarrow> 'a till_scheme \<Rightarrow> (cash_account \<times> 'a till_scheme) result" where
  "account ref allowInactive s =
     ebind (case ref of
         AccountId i \<Rightarrow> (case find (\<lambda>a. ca_id a = i) (tl_accounts s) of
             None \<Rightarrow> Inl (NotFoundError ''CashAccount'' i)
           | Some a \<Rightarrow> Inr (a, s))
       | AccountCode code \<Rightarrow> (case find (\<lambda>a. ca_code a = code) (tl_accounts s) of
             Some a \<Rightarrow> Inr (a, s)
           | None \<Rightarrow> (case map_of SYSTEM_ACCOUNTS code of
                 Some (name, ty) \<Rightarrow> Inr (create_account code name ty s)
               | None \<Rightarrow> Inl (NotFoundError ''CashAccount'' code))))
       (\<lambda>(acc, s).
         if \<not> ca_isActive acc \<and> \<not> allowInactive then Inl (BusinessRuleError ''cash.account_inactive'') else Inr (acc, s))"

record post_entry =
  pe_ref :: account_ref
  pe_direction :: cash_direction
  pe_kind :: cash_kind
  pe_amount :: money
  pe_memo :: jstr
  pe_expenseCategory :: "jstr option"
  pe_orderId :: "id option"
  pe_purchaseId :: "id option"
  pe_transferGroupId :: "id option"
  pe_reversesId :: "id option"
  pe_occurredAt :: "time option"

text \<open>
  The insert: the ids of reversed entries are unique, amounts are positive, and an order or a
  purchase that is named must exist.
\<close>

definition insert_txn :: "cash_txn \<Rightarrow> 'a till_scheme \<Rightarrow> (cash_txn \<times> 'a till_scheme) result" where
  "insert_txn t s =
     (if ct_reversesId t \<noteq> None \<and> list_ex (\<lambda>x. ct_reversesId x = ct_reversesId t) (tl_txns s) then Inl (DomainError ''P2002'' 500)
      else if ct_amount t \<le> 0 then Inl (CheckViolation ''cash_transactions_amount_pos'')
      else Inr (t, s\<lparr>tl_txns := tl_txns s @ [t]\<rparr>))"

definition post :: "post_entry \<Rightarrow> 'a till_scheme \<Rightarrow> (cash_txn \<times> 'a till_scheme) result" where
  "post e s =
     (let amount = round2 (pe_amount e)
      in if amount \<le> 0 then Inl (BusinessRuleError ''cash.amount_invalid'')
         else ebind (account (pe_ref e) (pe_reversesId e \<noteq> None) s) (\<lambda>(acc, s).
         let (i, s) = fresh_id s
         in insert_txn \<lparr>ct_id = i, ct_accountId = ca_id acc, ct_direction = pe_direction e, ct_kind = pe_kind e,
                        ct_amount = amount, ct_memo = take 500 (pe_memo e), ct_expenseCategory = pe_expenseCategory e,
                        ct_orderId = pe_orderId e, ct_purchaseId = pe_purchaseId e,
                        ct_transferGroupId = pe_transferGroupId e, ct_reversesId = pe_reversesId e,
                        ct_occurredAt = (case pe_occurredAt e of Some t \<Rightarrow> t | None \<Rightarrow> st_now s)\<rparr> s))"

text \<open>A live entry neither is a reversal nor has one.\<close>

definition live_txn :: "'a till_scheme \<Rightarrow> cash_txn \<Rightarrow> bool" where
  "live_txn s t \<longleftrightarrow> ct_reversesId t = None \<and> \<not> list_ex (\<lambda>x. ct_reversesId x = Some (ct_id t)) (tl_txns s)"

record txn_filter =
  tf_orderId :: "id option"
  tf_purchaseId :: "id option"
  tf_kind :: cash_kind
  tf_direction :: "cash_direction option"
  tf_memo :: "jstr option"

definition txn_match :: "txn_filter \<Rightarrow> cash_txn \<Rightarrow> bool" where
  "txn_match w t \<longleftrightarrow>
     (tf_orderId w \<noteq> None \<longrightarrow> ct_orderId t = tf_orderId w) \<and>
     (tf_purchaseId w \<noteq> None \<longrightarrow> ct_purchaseId t = tf_purchaseId w) \<and> ct_kind t = tf_kind w \<and>
     (case tf_direction w of None \<Rightarrow> True | Some d \<Rightarrow> ct_direction t = d) \<and>
     (case tf_memo w of None \<Rightarrow> True | Some m \<Rightarrow> ct_memo t = m)"

definition has :: "txn_filter \<Rightarrow> 'a till_scheme \<Rightarrow> bool" where
  "has w s = list_ex (\<lambda>t. txn_match w t \<and> live_txn s t) (tl_txns s)"

definition total :: "txn_filter \<Rightarrow> 'a till_scheme \<Rightarrow> money" where
  "total w s = sum_list (map ct_amount (filter (\<lambda>t. txn_match w t \<and> live_txn s t) (tl_txns s)))"

definition no_entry :: post_entry where
  "no_entry = \<lparr>pe_ref = AccountCode '''', pe_direction = IN, pe_kind = MANUAL, pe_amount = 0, pe_memo = [],
     pe_expenseCategory = None, pe_orderId = None, pe_purchaseId = None, pe_transferGroupId = None,
     pe_reversesId = None, pe_occurredAt = None\<rparr>"

text \<open>The memos; the Bangla words are for fee and refund.\<close>

definition capture_memo :: "string \<Rightarrow> string \<Rightarrow> jstr" where
  "capture_memo orderNo tranId = js ''SSL '' @ js orderNo @ [32, 183, 32] @ js tranId"

definition fee_memo :: "string \<Rightarrow> string \<Rightarrow> jstr" where
  "fee_memo orderNo tranId = js ''SSL '' @ [2475, 2495, 32] @ js orderNo @ [32, 183, 32] @ js tranId"

definition refund_memo :: "string \<Rightarrow> id \<Rightarrow> jstr" where
  "refund_memo orderNo refundId = [2475, 2503, 2480, 2468, 32] @ js orderNo @ [32, 183, 32] @ js (take 8 refundId)"

definition recordGatewayCapture ::
  "id \<Rightarrow> string \<Rightarrow> string \<Rightarrow> money \<Rightarrow> money \<Rightarrow> time option \<Rightarrow> 'a till_scheme \<Rightarrow> ('a till_scheme) result" where
  "recordGatewayCapture orderId orderNo tranId amount fee at_t s =
     (let memo = capture_memo orderNo tranId
      in if has \<lparr>tf_orderId = Some orderId, tf_purchaseId = None, tf_kind = GATEWAY_SETTLEMENT,
                 tf_direction = Some IN, tf_memo = Some memo\<rparr> s then Inr s
         else ebind (post (no_entry\<lparr>pe_ref := AccountCode ''sslcommerz'', pe_direction := IN, pe_kind := GATEWAY_SETTLEMENT,
                     pe_amount := amount, pe_memo := memo, pe_orderId := Some orderId, pe_occurredAt := at_t\<rparr>) s) (\<lambda>(_, s).
              if fee > 0
              then ebind (post (no_entry\<lparr>pe_ref := AccountCode ''sslcommerz'', pe_direction := OUT, pe_kind := GATEWAY_FEE,
                     pe_amount := fee, pe_memo := fee_memo orderNo tranId, pe_orderId := Some orderId,
                     pe_occurredAt := at_t\<rparr>) s) (\<lambda>(_, s). Inr s)
              else Inr s))"

definition recordRefund ::
  "id \<Rightarrow> string \<Rightarrow> id \<Rightarrow> payment_method \<Rightarrow> money \<Rightarrow> time option \<Rightarrow> 'a till_scheme \<Rightarrow> ('a till_scheme) result" where
  "recordRefund orderId orderNo refundId method amount at_t s =
     (let memo = refund_memo orderNo refundId
      in if has \<lparr>tf_orderId = Some orderId, tf_purchaseId = None, tf_kind = REFUND, tf_direction = None,
                 tf_memo = Some memo\<rparr> s then Inr s
         else ebind (post (no_entry\<lparr>pe_ref := AccountCode (accountForMethod method), pe_direction := OUT, pe_kind := REFUND,
                     pe_amount := amount, pe_memo := memo, pe_orderId := Some orderId, pe_occurredAt := at_t\<rparr>) s)
              (\<lambda>(_, s). Inr s))"

end
