(* ===== verification/Cashbook.thy ===== *)
theory Cashbook
  imports Cash
begin

text \<open>
  Supplier bills (\<open>finance/purchasing/domain/purchase-math.ts\<close>) and the staff commands of the cash
  book (\<open>finance/cashbook/application/cashbook.service.ts\<close>): manual entries, transfers, reversals,
  courier payments and the settlement of collected cash. A command is given its date already parsed;
  \<open>None\<close> is a date that did not parse.
\<close>

section \<open>Bills\<close>

record purchase_line =
  pl_productId :: id
  pl_quantity :: int
  pl_unitCost :: money

record priced_purchase_line = purchase_line +
  pl_lineTotal :: money

record purchase_totals =
  pt_lines :: "priced_purchase_line list"
  pt_subtotal :: money
  pt_otherCharges :: money
  pt_total :: money

definition purchaseTotals :: "purchase_line list \<Rightarrow> money \<Rightarrow> purchase_totals" where
  "purchaseTotals lines otherCharges =
     (let priced = map (\<lambda>l. let unitCost = round2 (pl_unitCost l)
            in \<lparr>pl_productId = pl_productId l, pl_quantity = pl_quantity l, pl_unitCost = unitCost,
                pl_lineTotal = unitCost * of_int (pl_quantity l)\<rparr>) lines;
          subtotal = dec_sum (map pl_lineTotal priced);
          charges = round2 otherCharges
      in \<lparr>pt_lines = priced, pt_subtotal = subtotal, pt_otherCharges = charges, pt_total = subtotal + charges\<rparr>)"

text \<open>Repeated products become one line: the quantities add, the last cost wins, the place is the first one.\<close>

definition merge_purchase_line :: "(id \<times> purchase_line) list \<Rightarrow> purchase_line \<Rightarrow> (id \<times> purchase_line) list" where
  "merge_purchase_line m l =
     (case map_of m (pl_productId l) of
        Some hit \<Rightarrow> AList.update (pl_productId l)
          \<lparr>pl_productId = pl_productId l, pl_quantity = pl_quantity hit + pl_quantity l, pl_unitCost = pl_unitCost l\<rparr> m
      | None \<Rightarrow> AList.update (pl_productId l) l m)"

definition merge_purchase_lines :: "purchase_line list \<Rightarrow> purchase_line list" where
  "merge_purchase_lines lines = map snd (foldl merge_purchase_line [] lines)"

definition settlementStatus :: "money \<Rightarrow> money \<Rightarrow> settlement_status" where
  "settlementStatus tot paid = (if paid \<le> 0 then Set_UNPAID else if paid \<ge> tot then Set_PAID else Set_PARTIAL)"

definition outstanding_due :: "money \<Rightarrow> money \<Rightarrow> money" where
  "outstanding_due tot paid = (let d = tot - paid in if d < 0 then 0 else d)"

definition checkPayment :: "money \<Rightarrow> money \<Rightarrow> money \<Rightarrow> string + unit" where
  "checkPayment tot paid amount =
     (let due = outstanding_due tot paid
      in if amount \<le> 0 then Inl ''purchase.payment_invalid''
         else if due = 0 then Inl ''purchase.already_paid''
         else if amount > due then Inl ''purchase.overpayment''
         else Inr ())"

section \<open>Entering\<close>

definition cash_when :: "time option \<Rightarrow> time \<Rightarrow> time result" where
  "cash_when d now = (case d of
      None \<Rightarrow> Inl (BusinessRuleError ''cash.date_invalid'')
    | Some t \<Rightarrow> if t > now + 5 * 60000 then Inl (BusinessRuleError ''cash.date_future'') else Inr t)"

record manual_dto =
  md_accountId :: id
  md_direction :: cash_direction
  md_kind :: cash_kind
  md_amount :: money
  md_memo :: jstr
  md_expenseCategory :: "jstr option"
  md_occurredAt :: "time option"

definition trimmed :: "jstr option \<Rightarrow> jstr option" where
  "trimmed o' = (case o' of None \<Rightarrow> None | Some s \<Rightarrow> if jtrim s = [] then None else Some (jtrim s))"

definition manualEntry :: "manual_dto \<Rightarrow> 'a till_scheme \<Rightarrow> (cash_txn \<times> 'a till_scheme) result" where
  "manualEntry dto s =
     (if \<not> kindAllowsDirection (md_kind dto) (md_direction dto) then Inl (BusinessRuleError ''cash.kind_direction'')
      else if md_kind dto = EXPENSE \<and> trimmed (md_expenseCategory dto) = None
           then Inl (BusinessRuleError ''cash.expense_category_required'')
      else ebind (cash_when (md_occurredAt dto) (st_now s)) (\<lambda>occurredAt.
           post (no_entry\<lparr>pe_ref := AccountId (md_accountId dto), pe_direction := md_direction dto, pe_kind := md_kind dto,
                 pe_amount := md_amount dto, pe_memo := jtrim (md_memo dto),
                 pe_expenseCategory := trimmed (md_expenseCategory dto), pe_occurredAt := Some occurredAt\<rparr>) s))"

record transfer_dto =
  tr_fromAccountId :: id
  tr_toAccountId :: id
  tr_amount :: money
  tr_memo :: "jstr option"
  tr_occurredAt :: "time option"

definition transfer_leg :: "id \<Rightarrow> cash_direction \<Rightarrow> money \<Rightarrow> jstr \<Rightarrow> id \<Rightarrow> time \<Rightarrow> post_entry" where
  "transfer_leg acc direction amount memo grp occurredAt =
     no_entry\<lparr>pe_ref := AccountId acc, pe_direction := direction, pe_kind := TRANSFER, pe_amount := amount,
       pe_memo := memo, pe_transferGroupId := Some grp, pe_occurredAt := Some occurredAt\<rparr>"

definition transfer :: "transfer_dto \<Rightarrow> 'a till_scheme \<Rightarrow> ((cash_txn \<times> cash_txn) \<times> 'a till_scheme) result" where
  "transfer dto s =
     (if tr_fromAccountId dto = tr_toAccountId dto then Inl (BusinessRuleError ''cash.transfer_same'')
      else ebind (cash_when (tr_occurredAt dto) (st_now s)) (\<lambda>occurredAt.
      ebind (account (AccountId (tr_fromAccountId dto)) False s) (\<lambda>(from_a, s).
      ebind (account (AccountId (tr_toAccountId dto)) False s) (\<lambda>(to_a, s).
      let (grp, s) = fresh_id s;
          memo = (case trimmed (tr_memo dto) of Some m \<Rightarrow> m | None \<Rightarrow> ca_name from_a @ [32, 8594, 32] @ ca_name to_a)
      in ebind (post (transfer_leg (ca_id from_a) OUT (tr_amount dto) memo grp occurredAt) s) (\<lambda>(out_t, s).
         ebind (post (transfer_leg (ca_id to_a) IN (tr_amount dto) memo grp occurredAt) s) (\<lambda>(in_t, s).
         Inr ((out_t, in_t), s)))))))"

section \<open>Reversing\<close>

definition put_purchase :: "purchase \<Rightarrow> 'a till_scheme \<Rightarrow> ('a till_scheme) result" where
  "put_purchase p s =
     (if pu_amountPaid p < 0 \<or> pu_amountPaid p > pu_total p then Inl (CheckViolation ''purchases_paid'')
      else Inr (s\<lparr>tl_purchases := map (\<lambda>x. if pu_id x = pu_id p then p else x) (tl_purchases s)\<rparr>))"

definition unpayPurchase :: "id \<Rightarrow> money \<Rightarrow> 'a till_scheme \<Rightarrow> ('a till_scheme) result" where
  "unpayPurchase purchaseId amount s =
     (case find (\<lambda>p. pu_id p = purchaseId) (tl_purchases s) of
        None \<Rightarrow> Inr s
      | Some p \<Rightarrow>
          let paid = pu_amountPaid p - amount;
              paid = (if paid < 0 then 0 else paid);
              paid = (if paid > pu_total p then pu_total p else paid)
          in put_purchase (p\<lparr>pu_amountPaid := paid, pu_paymentStatus := settlementStatus (pu_total p) paid\<rparr>) s)"

definition reverse_memo :: "jstr \<Rightarrow> jstr \<Rightarrow> jstr" where
  "reverse_memo memo reason = [2441, 2482, 2509, 2463, 2507, 58, 32] @ memo @ [32, 8212, 32] @ jtrim reason"

definition reverse_leg ::
  "id option \<Rightarrow> jstr \<Rightarrow> time \<Rightarrow> cash_txn \<Rightarrow> cash_txn list \<times> 'a till_scheme \<Rightarrow> (cash_txn list \<times> 'a till_scheme) result" where
  "reverse_leg grp reason occurredAt leg st =
     (case st of (created, s) \<Rightarrow>
      ebind (post \<lparr>pe_ref = AccountId (ct_accountId leg), pe_direction = opposite (ct_direction leg), pe_kind = ct_kind leg,
                   pe_amount = ct_amount leg, pe_memo = reverse_memo (ct_memo leg) reason,
                   pe_expenseCategory = ct_expenseCategory leg, pe_orderId = ct_orderId leg,
                   pe_purchaseId = ct_purchaseId leg, pe_transferGroupId = grp, pe_reversesId = Some (ct_id leg),
                   pe_occurredAt = Some occurredAt\<rparr> s) (\<lambda>(t, s).
      ebind (case ct_purchaseId leg of
               Some p \<Rightarrow> if ct_kind leg = PURCHASE_PAYMENT
                 then unpayPurchase p (if ct_direction leg = OUT then ct_amount leg else - ct_amount leg) s else Inr s
             | None \<Rightarrow> Inr s) (\<lambda>s.
      Inr (created @ [t], s))))"

definition reversed_by :: "'a till_scheme \<Rightarrow> cash_txn \<Rightarrow> bool" where
  "reversed_by s t \<longleftrightarrow> list_ex (\<lambda>x. ct_reversesId x = Some (ct_id t)) (tl_txns s)"

definition reverse_tx :: "id \<Rightarrow> jstr \<Rightarrow> time \<Rightarrow> 'a till_scheme \<Rightarrow> ((id list \<times> cash_txn list) \<times> 'a till_scheme) result" where
  "reverse_tx i reason occurredAt s =
     (case find (\<lambda>t. ct_id t = i) (tl_txns s) of
        None \<Rightarrow> Inl (NotFoundError ''CashTransaction'' i)
      | Some orig \<Rightarrow>
          if ct_reversesId orig \<noteq> None then Inl (BusinessRuleError ''cash.reverse_of_reversal'')
          else if reversed_by s orig then Inl (ConflictError ''cash.already_reversed'')
          else
            let legs = (case ct_transferGroupId orig of
                  Some g \<Rightarrow> filter (\<lambda>t. ct_transferGroupId t = Some g \<and> ct_reversesId t = None) (tl_txns s)
                | None \<Rightarrow> [orig])
            in if list_ex (reversed_by s) legs then Inl (ConflictError ''cash.already_reversed'')
               else
                 let (grp, s) = (if ct_transferGroupId orig \<noteq> None then (case fresh_id s of (g, s) \<Rightarrow> (Some g, s)) else (None, s))
                 in ebind (efold (reverse_leg grp reason occurredAt) legs ([], s)) (\<lambda>(created, s).
                    Inr ((map ct_id legs, created), s)))"

text \<open>Losing a race on the unique column is reported like finding the entry reversed.\<close>

definition reverse_entry ::
  "id \<Rightarrow> jstr \<Rightarrow> time option \<Rightarrow> 'a till_scheme \<Rightarrow> ((id list \<times> cash_txn list) \<times> 'a till_scheme) result" where
  "reverse_entry i reason d s =
     ebind (cash_when d (st_now s)) (\<lambda>occurredAt.
       case reverse_tx i reason occurredAt s of
         Inl e \<Rightarrow> if e = DomainError ''P2002'' 500 then Inl (ConflictError ''cash.already_reversed'') else Inl e
       | Inr r \<Rightarrow> Inr r)"

section \<open>Couriers\<close>

definition courierPayment ::
  "id \<Rightarrow> id \<Rightarrow> money option \<Rightarrow> jstr option \<Rightarrow> time option \<Rightarrow> 'a till_scheme \<Rightarrow> (cash_txn \<times> 'a till_scheme) result" where
  "courierPayment orderId accountId amount memo d s =
     ebind (cash_when d (st_now s)) (\<lambda>occurredAt.
       case find_order orderId s of
         None \<Rightarrow> Inl (NotFoundError ''Order'' orderId)
       | Some order \<Rightarrow>
           if os_status order = PENDING then Inl (BusinessRuleError ''cash.courier_order_pending'')
           else if has \<lparr>tf_orderId = Some orderId, tf_purchaseId = None, tf_kind = COURIER_PAYMENT,
                        tf_direction = Some OUT, tf_memo = None\<rparr> s
           then Inl (ConflictError ''cash.courier_already_paid'')
           else
             let amount = (case amount of Some a \<Rightarrow> a | None \<Rightarrow> or_courierCost order)
             in if amount \<le> 0 then Inl (BusinessRuleError ''cash.courier_cost_missing'')
                else post (no_entry\<lparr>pe_ref := AccountId accountId, pe_direction := OUT, pe_kind := COURIER_PAYMENT,
                       pe_amount := amount,
                       pe_memo := (case trimmed memo of Some m \<Rightarrow> m
                         | None \<Rightarrow> [2453, 2497, 2480, 2495, 2479, 2492, 2494, 2480, 32] @ js (or_orderNo order)),
                       pe_orderId := Some orderId, pe_occurredAt := Some occurredAt\<rparr>) s)"

text \<open>The settlement with the courier for the cash it collected.\<close>

definition order_no_of :: "'a till_scheme \<Rightarrow> id \<Rightarrow> string" where
  "order_no_of s i = (case find_order i s of Some r \<Rightarrow> or_orderNo r | None \<Rightarrow> [])"

definition book_cod :: "time \<Rightarrow> shipment \<Rightarrow> 'a till_scheme \<Rightarrow> ('a till_scheme) result" where
  "book_cod occurredAt sm s =
     (if has \<lparr>tf_orderId = Some (sm_orderId sm), tf_purchaseId = None, tf_kind = COD_REMITTANCE,
             tf_direction = Some IN, tf_memo = None\<rparr> s then Inr s
      else ebind (post (no_entry\<lparr>pe_ref := AccountCode ''cash'', pe_direction := IN, pe_kind := COD_REMITTANCE,
             pe_amount := sm_codAmount sm,
             pe_memo := [2453, 2509, 2479, 2494, 2486, 32, 2437, 2472, 32] @ js (order_no_of s (sm_orderId sm)),
             pe_orderId := Some (sm_orderId sm), pe_occurredAt := Some occurredAt\<rparr>) s) (\<lambda>(_, s). Inr s))"

definition mark_remitted :: "id list \<Rightarrow> time \<Rightarrow> 'a till_scheme \<Rightarrow> 'a till_scheme" where
  "mark_remitted ids occurredAt s =
     s\<lparr>tl_shipments := map (\<lambda>m. if sm_id m \<in> set ids
         then m\<lparr>sm_codStatus := REMITTED, sm_codRemittedAt := Some occurredAt,
                sm_codCollectedAt := (case sm_codCollectedAt m of None \<Rightarrow> Some (st_now s) | t \<Rightarrow> t)\<rparr>
         else m) (tl_shipments s)\<rparr>"

definition cod_blocked :: "shipment \<Rightarrow> bool" where
  "cod_blocked m \<longleftrightarrow> sm_codStatus m = REMITTED \<or> sm_codStatus m = NOT_APPLICABLE \<or> sm_codAmount m \<le> 0"

definition codRemittance ::
  "id \<Rightarrow> money \<Rightarrow> jstr option \<Rightarrow> id list \<Rightarrow> time option \<Rightarrow> 'a till_scheme \<Rightarrow> (money \<times> 'a till_scheme) result" where
  "codRemittance accountId amount memo shipmentIds d s =
     ebind (cash_when d (st_now s)) (\<lambda>occurredAt.
     ebind (account (AccountId accountId) False s) (\<lambda>(dest, s).
     let received = round2 amount;
         memoBase = (case trimmed memo of Some m \<Rightarrow> m
           | None \<Rightarrow> [2453, 2497, 2480, 2495, 2479, 2492, 2494, 2480, 32, 67, 79, 68, 32,
                      2488, 2503, 2463, 2482, 2478, 2503, 2472, 2509, 2463])
     in if shipmentIds = []
        then ebind (post (no_entry\<lparr>pe_ref := AccountId (ca_id dest), pe_direction := IN, pe_kind := COD_REMITTANCE,
                    pe_amount := received, pe_memo := memoBase, pe_occurredAt := Some occurredAt\<rparr>) s) (\<lambda>(_, s). Inr (0, s))
        else
          let shipments = filter (\<lambda>m. sm_id m \<in> set shipmentIds) (tl_shipments s);
              missing = filter (\<lambda>i. \<not> list_ex (\<lambda>m. sm_id m = i) shipments) shipmentIds
          in if missing \<noteq> [] then Inl (NotFoundError ''Shipment'' (hd missing))
             else if list_ex cod_blocked shipments then Inl (BusinessRuleError ''cash.cod_not_remittable'')
             else
               let due = dec_sum (map sm_codAmount shipments)
               in if received > due then Inl (BusinessRuleError ''cash.cod_overpaid'')
                  else ebind (efold (book_cod occurredAt) shipments s) (\<lambda>s.
                  ebind (account (AccountCode ''cash'') True s) (\<lambda>(cash, s).
                  ebind (if ca_id dest \<noteq> ca_id cash
                         then let (grp, s) = fresh_id s;
                                  m = memoBase @ [32, 183, 32, 2453, 2509, 2479, 2494, 2486, 32, 8594, 32] @ ca_name dest
                              in ebind (post (transfer_leg (ca_id cash) OUT received m grp occurredAt) s) (\<lambda>(_, s).
                                 ebind (post (transfer_leg (ca_id dest) IN received m grp occurredAt) s) (\<lambda>(_, s). Inr s))
                         else Inr s) (\<lambda>s.
                  let deducted = due - received
                  in ebind (if deducted > 0
                            then ebind (post (no_entry\<lparr>pe_ref := AccountId (ca_id cash), pe_direction := OUT,
                                   pe_kind := COURIER_PAYMENT, pe_amount := deducted,
                                   pe_memo := memoBase @ [32, 183, 32, 2453, 2497, 2480, 2495, 2479, 2492, 2494, 2480, 32,
                                     2458, 2494, 2480, 2509, 2460, 32, 2453, 2494, 2463, 2494],
                                   pe_occurredAt := Some occurredAt\<rparr>) s) (\<lambda>(_, s). Inr s)
                            else Inr s) (\<lambda>s.
                     Inr (deducted, mark_remitted shipmentIds occurredAt s)))))))"

section \<open>Day close\<close>

definition DHAKA_OFFSET_MS :: int where
  "DHAKA_OFFSET_MS = 6 * 60 * 60 * 1000"

definition openingBefore :: "time \<Rightarrow> id option \<Rightarrow> 'a till_scheme \<Rightarrow> money" where
  "openingBefore start acc s =
     sum_list (map ca_openingBalance (filter (\<lambda>a. acc = None \<or> acc = Some (ca_id a)) (tl_accounts s))) +
     sum_list (map (\<lambda>t. signed (ct_direction t) (ct_amount t))
       (filter (\<lambda>t. ct_occurredAt t < start \<and> (acc = None \<or> acc = Some (ct_accountId t)) \<and>
                    list_ex (\<lambda>a. ca_id a = ct_accountId t) (tl_accounts s)) (tl_txns s)))"

end
