(* ===== verification/Cash_Laws.thy ===== *)
theory Cash_Laws
  imports Cashbook
begin

text \<open>
  The laws of the cash book: entries are only ever appended, amounts are positive and in whole
  paisa, a reversal mirrors the entry it names and no entry is reversed twice; so the balance of an
  account can be read off the live entries alone.
\<close>

section \<open>What a command may touch\<close>

text \<open>Everything but the accounts, the entries and the generator of ids.\<close>

definition beside :: "'a till_scheme \<Rightarrow> 'a till_scheme" where
  "beside s = s\<lparr>tl_issued := 0, tl_accounts := [], tl_txns := []\<rparr>"

lemma beside_writers [simp]:
  "beside (s\<lparr>tl_issued := n\<rparr>) = beside s" "beside (s\<lparr>tl_accounts := as\<rparr>) = beside s" "beside (s\<lparr>tl_txns := ts\<rparr>) = beside s"
  by (simp_all add: beside_def)

lemma besideD:
  assumes "beside s' = beside s"
  shows "tl_uuid s' = tl_uuid s" "tl_payments s' = tl_payments s" "tl_refunds s' = tl_refunds s"
    "tl_purchases s' = tl_purchases s" "tl_shipments s' = tl_shipments s" "sh_orders s' = sh_orders s"
    "st_now s' = st_now s"
  using assms by (cases s; cases s'; simp add: beside_def)+

text \<open>Ids that were handed out.\<close>

definition issued :: "'a till_scheme \<Rightarrow> id \<Rightarrow> bool" where
  "issued s i \<longleftrightarrow> (\<exists>n < tl_issued s. i = tl_uuid s n)"

definition accounts_ok :: "'a till_scheme \<Rightarrow> bool" where
  "accounts_ok s \<longleftrightarrow> inj (tl_uuid s) \<and> distinct (map ca_id (tl_accounts s)) \<and> distinct (map ca_code (tl_accounts s)) \<and>
     (\<forall>a \<in> set (tl_accounts s). issued s (ca_id a))"

definition mirrors :: "cash_txn \<Rightarrow> cash_txn \<Rightarrow> bool" where
  "mirrors t x \<longleftrightarrow> ct_reversesId t = Some (ct_id x) \<and> ct_reversesId x = None \<and> ct_amount t = ct_amount x \<and>
     ct_direction t = opposite (ct_direction x) \<and> ct_accountId t = ct_accountId x"

definition txn_ok :: "'a till_scheme \<Rightarrow> cash_txn \<Rightarrow> bool" where
  "txn_ok s t \<longleftrightarrow> issued s (ct_id t) \<and> ct_accountId t \<in> ca_id ` set (tl_accounts s) \<and> 0 < ct_amount t \<and> paisa (ct_amount t) \<and>
     (ct_reversesId t \<noteq> None \<longrightarrow> (\<exists>x \<in> set (tl_txns s). mirrors t x))"

definition till_ok :: "'a till_scheme \<Rightarrow> bool" where
  "till_ok s \<longleftrightarrow> accounts_ok s \<and> distinct (map ct_id (tl_txns s)) \<and> (\<forall>t \<in> set (tl_txns s). txn_ok s t) \<and>
     distinct (map ct_reversesId (filter (\<lambda>t. ct_reversesId t \<noteq> None) (tl_txns s)))"

lemma fresh_not_issued: "inj (tl_uuid s) \<Longrightarrow> \<not> issued s (tl_uuid s (tl_issued s))"
  by (auto simp: issued_def dest: injD)

definition accounts_grow :: "'a till_scheme \<Rightarrow> 'a till_scheme \<Rightarrow> bool" where
  "accounts_grow s s' \<longleftrightarrow> tl_issued s \<le> tl_issued s' \<and>
     (\<exists>new. tl_accounts s' = tl_accounts s @ new \<and> (\<forall>a \<in> set new. ca_openingBalance a = 0))"

lemma accounts_grow_refl [simp]: "accounts_grow s s"
  by (simp add: accounts_grow_def)

lemma accounts_grow_trans: "accounts_grow s t \<Longrightarrow> accounts_grow t u \<Longrightarrow> accounts_grow s u"
  by (fastforce simp: accounts_grow_def)

lemma issued_mono: "tl_uuid s' = tl_uuid s \<Longrightarrow> tl_issued s \<le> tl_issued s' \<Longrightarrow> issued s i \<Longrightarrow> issued s' i"
  by (auto simp: issued_def intro: less_le_trans)

lemma txn_ok_mono:
  assumes "txn_ok s t" "tl_uuid s' = tl_uuid s" "accounts_grow s s'" "set (tl_txns s) \<subseteq> set (tl_txns s')"
  shows "txn_ok s' t"
proof -
  have "ca_id ` set (tl_accounts s) \<subseteq> ca_id ` set (tl_accounts s')" "tl_issued s \<le> tl_issued s'"
    using assms(3) by (auto simp: accounts_grow_def)
  then show ?thesis using assms(1,2,4) issued_mono [OF assms(2)] unfolding txn_ok_def by blast
qed

section \<open>One account, one entry\<close>

lemma account_ok:
  assumes "account ref b s = Inr (a, s')" "till_ok s"
  shows "till_ok s' \<and> beside s' = beside s \<and> tl_txns s' = tl_txns s \<and> accounts_grow s s' \<and> a \<in> set (tl_accounts s') \<and>
    (case ref of AccountId i \<Rightarrow> ca_id a = i \<and> s' = s | AccountCode c \<Rightarrow> ca_code a = c)"
proof (cases "\<exists>c. ref = AccountCode c \<and> find (\<lambda>a. ca_code a = c) (tl_accounts s) = None")
  case False
  then have "s' = s \<and> a \<in> set (tl_accounts s) \<and> (case ref of AccountId i \<Rightarrow> ca_id a = i | AccountCode c \<Rightarrow> ca_code a = c)"
    using assms(1)
    by (cases ref) (auto simp: account_def err_simps split: option.splits if_splits dest!: find_SomeD)
  then show ?thesis using assms(2) by (auto split: account_ref.split)
next
  case True
  then obtain c where c: "ref = AccountCode c" "find (\<lambda>a. ca_code a = c) (tl_accounts s) = None" by blast
  with assms(1) obtain name ty where new: "create_account c name ty s = (a, s')"
    by (auto simp: account_def err_simps split: option.splits if_splits)
  then have a: "a = \<lparr>ca_id = tl_uuid s (tl_issued s), ca_code = c, ca_name = name, ca_type = ty, ca_openingBalance = 0, ca_isActive = True\<rparr>"
    and s': "s' = s\<lparr>tl_issued := Suc (tl_issued s), tl_accounts := tl_accounts s @ [a]\<rparr>"
    by (auto simp: create_account_def fresh_id_def Let_def)
  have ok: "accounts_ok s" using assms(2) by (simp add: till_ok_def)
  have grow: "accounts_grow s s'" "tl_uuid s' = tl_uuid s" by (simp_all add: accounts_grow_def s' a)
  have iss: "issued s' i" if "issued s i" for i using that by (rule issued_mono [rotated 2]) (simp_all add: s')
  have "tl_uuid s (tl_issued s) \<notin> ca_id ` set (tl_accounts s)"
    using ok fresh_not_issued [of s] unfolding accounts_ok_def by (metis (no_types, lifting) imageE)
  moreover have "c \<notin> ca_code ` set (tl_accounts s)" using c(2) by (auto simp: find_None_iff)
  moreover have "issued s' (ca_id a)" by (auto simp: issued_def s' a)
  ultimately have "accounts_ok s'" using ok iss by (auto simp: accounts_ok_def s' a)
  moreover have "txn_ok s' t" if "t \<in> set (tl_txns s)" for t
    using txn_ok_mono [OF _ grow(2,1)] that assms(2) by (simp add: till_ok_def s')
  ultimately have "till_ok s'" using assms(2) by (simp add: till_ok_def s')
  then show ?thesis using grow by (simp add: s' c(1) a)
qed

lemma post_ok:
  assumes "post e s = Inr (t, s')" "till_ok s"
    and "\<And>i. pe_reversesId e = Some i \<Longrightarrow> \<exists>x \<in> set (tl_txns s). ct_id x = i \<and> ct_reversesId x = None \<and>
      pe_amount e = ct_amount x \<and> pe_direction e = opposite (ct_direction x) \<and> pe_ref e = AccountId (ct_accountId x)"
  shows "till_ok s' \<and> beside s' = beside s \<and> accounts_grow s s' \<and> tl_txns s' = tl_txns s @ [t] \<and>
    ct_direction t = pe_direction e \<and> ct_kind t = pe_kind e \<and> ct_amount t = round2 (pe_amount e) \<and> 0 < ct_amount t \<and>
    ct_reversesId t = pe_reversesId e \<and> ct_orderId t = pe_orderId e \<and> ct_purchaseId t = pe_purchaseId e \<and>
    ct_transferGroupId t = pe_transferGroupId e \<and> ct_memo t = take 500 (pe_memo e) \<and>
    (\<exists>a \<in> set (tl_accounts s'). ct_accountId t = ca_id a \<and>
      (case pe_ref e of AccountId i \<Rightarrow> ca_id a = i | AccountCode c \<Rightarrow> ca_code a = c))"
proof -
  from assms(1) have pos: "0 < round2 (pe_amount e)" by (auto simp: post_def Let_def split: if_splits)
  with assms(1) obtain a s1 where a: "account (pe_ref e) (pe_reversesId e \<noteq> None) s = Inr (a, s1)"
    and ins: "insert_txn \<lparr>ct_id = tl_uuid s1 (tl_issued s1), ct_accountId = ca_id a, ct_direction = pe_direction e,
        ct_kind = pe_kind e, ct_amount = round2 (pe_amount e), ct_memo = take 500 (pe_memo e),
        ct_expenseCategory = pe_expenseCategory e, ct_orderId = pe_orderId e, ct_purchaseId = pe_purchaseId e,
        ct_transferGroupId = pe_transferGroupId e, ct_reversesId = pe_reversesId e,
        ct_occurredAt = (case pe_occurredAt e of Some t \<Rightarrow> t | None \<Rightarrow> st_now (s1\<lparr>tl_issued := Suc (tl_issued s1)\<rparr>))\<rparr>
        (s1\<lparr>tl_issued := Suc (tl_issued s1)\<rparr>) = Inr (t, s')"
    by (auto simp: post_def Let_def ebind_Inr_iff fresh_id_def)
  note acc = account_ok [OF a assms(2)]
  have t: "t = \<lparr>ct_id = tl_uuid s1 (tl_issued s1), ct_accountId = ca_id a, ct_direction = pe_direction e,
        ct_kind = pe_kind e, ct_amount = round2 (pe_amount e), ct_memo = take 500 (pe_memo e),
        ct_expenseCategory = pe_expenseCategory e, ct_orderId = pe_orderId e, ct_purchaseId = pe_purchaseId e,
        ct_transferGroupId = pe_transferGroupId e, ct_reversesId = pe_reversesId e,
        ct_occurredAt = (case pe_occurredAt e of Some t \<Rightarrow> t | None \<Rightarrow> st_now (s1\<lparr>tl_issued := Suc (tl_issued s1)\<rparr>))\<rparr>"
    and s': "s' = s1\<lparr>tl_issued := Suc (tl_issued s1), tl_txns := tl_txns s1 @ [t]\<rparr>"
    and uniq: "pe_reversesId e \<noteq> None \<Longrightarrow> pe_reversesId e \<notin> ct_reversesId ` set (tl_txns s1)"
    using ins by (auto simp: insert_txn_def list_ex_iff split: if_splits)
  have ok: "accounts_ok s1" "till_ok s1" using acc by (auto simp: till_ok_def)
  have grow: "accounts_grow s1 s'" "tl_uuid s' = tl_uuid s1" by (simp_all add: accounts_grow_def s')
  have fresh: "tl_uuid s1 (tl_issued s1) \<notin> ct_id ` set (tl_txns s1)"
    using ok fresh_not_issued [of s1] unfolding accounts_ok_def till_ok_def txn_ok_def by (metis (no_types, lifting) imageE)
  have "accounts_ok s'"
    using ok(1) issued_mono [OF grow(2)] by (auto simp: accounts_ok_def s')
  moreover have "txn_ok s' x" if "x \<in> set (tl_txns s1)" for x
    using txn_ok_mono [OF _ grow(2,1)] that ok(2) by (auto simp: till_ok_def s')
  moreover have "txn_ok s' t"
  proof -
    have "issued s' (ct_id t)" by (auto simp: issued_def s' t)
    moreover have "\<exists>x \<in> set (tl_txns s'). mirrors t x" if "ct_reversesId t \<noteq> None"
    proof -
      from that obtain i where i: "pe_reversesId e = Some i" by (auto simp: t)
      from assms(3) [OF i] obtain x where x: "x \<in> set (tl_txns s)" "ct_id x = i" "ct_reversesId x = None"
        "pe_amount e = ct_amount x" "pe_direction e = opposite (ct_direction x)" "pe_ref e = AccountId (ct_accountId x)" by blast
      have "paisa (ct_amount x)" using x(1) assms(2) by (simp add: till_ok_def txn_ok_def)
      then have "mirrors t x" using x i acc by (simp add: mirrors_def t)
      then show ?thesis using x(1) acc by (auto simp: s')
    qed
    ultimately show ?thesis using acc pos by (auto simp: txn_ok_def t s')
  qed
  ultimately have "till_ok s'"
    using ok(2) fresh uniq by (auto simp: till_ok_def s' t)
  then show ?thesis
    using acc pos accounts_grow_trans [OF conjunct1 [OF conjunct2 [OF conjunct2 [OF conjunct2 [OF acc]]]] grow(1)]
    by (auto simp: s' t split: account_ref.splits)
qed

text \<open>A step that only appends entries.\<close>

definition appends :: "'a till_scheme \<Rightarrow> cash_txn list \<Rightarrow> 'a till_scheme \<Rightarrow> bool" where
  "appends s new s' \<longleftrightarrow> till_ok s' \<and> beside s' = beside s \<and> accounts_grow s s' \<and> tl_txns s' = tl_txns s @ new"

lemma appends_refl: "till_ok s \<Longrightarrow> appends s [] s"
  by (simp add: appends_def)

lemma appends_trans: "appends s xs t \<Longrightarrow> appends t ys u \<Longrightarrow> appends s (xs @ ys) u"
  by (auto simp: appends_def intro: accounts_grow_trans)

lemma appends_ok: "appends s new s' \<Longrightarrow> till_ok s'"
  by (simp add: appends_def)

lemma post_plain:
  assumes "post e s = Inr (t, s')" "till_ok s" "pe_reversesId e = None"
  shows "appends s [t] s'"
    and "ct_direction t = pe_direction e" "ct_kind t = pe_kind e" "ct_amount t = round2 (pe_amount e)" "0 < ct_amount t"
    and "ct_reversesId t = None" "ct_orderId t = pe_orderId e" "ct_transferGroupId t = pe_transferGroupId e"
    and "ct_memo t = take 500 (pe_memo e)"
    and "\<exists>a \<in> set (tl_accounts s'). ct_accountId t = ca_id a \<and>
      (case pe_ref e of AccountId i \<Rightarrow> ca_id a = i | AccountCode c \<Rightarrow> ca_code a = c)"
  using post_ok [OF assms(1,2)] assms(3) by (simp_all add: appends_def)

lemma post_account_id:
  assumes "post e s = Inr (t, s')" "pe_ref e = AccountId i"
  shows "ct_accountId t = i"
  using assms
  by (auto simp: post_def Let_def err_simps account_def fresh_id_def insert_txn_def split: if_splits option.splits dest!: find_SomeD)

section \<open>Balances\<close>

definition flow :: "id \<Rightarrow> cash_txn list \<Rightarrow> money" where
  "flow a ts = sum_list (map (\<lambda>t. if ct_accountId t = a then signed (ct_direction t) (ct_amount t) else 0) ts)"

definition all_flow :: "cash_txn list \<Rightarrow> money" where
  "all_flow ts = sum_list (map (\<lambda>t. signed (ct_direction t) (ct_amount t)) ts)"

definition opening_of :: "'a till_scheme \<Rightarrow> id \<Rightarrow> money" where
  "opening_of s a = sum_list (map (\<lambda>x. if ca_id x = a then ca_openingBalance x else 0) (tl_accounts s))"

definition balance :: "'a till_scheme \<Rightarrow> id \<Rightarrow> money" where
  "balance s a = opening_of s a + flow a (tl_txns s)"

definition worth :: "'a till_scheme \<Rightarrow> money" where
  "worth s = sum_list (map ca_openingBalance (tl_accounts s)) + all_flow (tl_txns s)"

lemma flow_simps [simp]: "flow a [] = 0" "flow a (xs @ ys) = flow a xs + flow a ys"
  "flow a (t # ts) = (if ct_accountId t = a then signed (ct_direction t) (ct_amount t) else 0) + flow a ts"
  by (simp_all add: flow_def)

lemma all_flow_simps [simp]: "all_flow [] = 0" "all_flow (xs @ ys) = all_flow xs + all_flow ys"
  "all_flow (t # ts) = signed (ct_direction t) (ct_amount t) + all_flow ts"
  by (simp_all add: all_flow_def)

lemma appends_balance:
  assumes "appends s new s'"
  shows "balance s' a = balance s a + flow a new" "worth s' = worth s + all_flow new"
proof -
  from assms obtain as where as: "tl_accounts s' = tl_accounts s @ as" "\<forall>x \<in> set as. ca_openingBalance x = 0"
    by (auto simp: appends_def accounts_grow_def)
  then have z: "map ca_openingBalance as = map (\<lambda>x. 0) as" "map (\<lambda>x. if ca_id x = a then ca_openingBalance x else 0) as = map (\<lambda>x. 0) as"
    by simp_all
  have zz: "sum_list (map (\<lambda>x. 0::money) as) = 0" by (induction as) auto
  show "balance s' a = balance s a + flow a new" "worth s' = worth s + all_flow new"
    using assms as zz unfolding balance_def opening_of_def worth_def appends_def by (simp_all only: map_append sum_list.append z) simp_all
qed

text \<open>Both legs of a reversal cancel, so an account's balance is carried by the live entries.\<close>

lemma mirrors_cancel: "mirrors t x \<Longrightarrow> signed (ct_direction t) (ct_amount t) = - signed (ct_direction x) (ct_amount x)"
  by (auto simp: mirrors_def signed_def opposite_def)

lemma live_flow:
  assumes "till_ok s"
  shows "flow a (filter (live_txn s) (tl_txns s)) = flow a (tl_txns s)"
proof -
  let ?T = "set (tl_txns s)"
  let ?g = "\<lambda>t. if ct_accountId t = a then signed (ct_direction t) (ct_amount t) else 0"
  define R where "R = {t \<in> ?T. ct_reversesId t \<noteq> None}"
  define Q where "Q = {x \<in> ?T. reversed_by s x \<and> ct_reversesId x = None}"
  have d: "distinct (tl_txns s)" using assms by (simp add: till_ok_def distinct_map)
  have ids: "x = y" if "x \<in> ?T" "y \<in> ?T" "ct_id x = ct_id y" for x y
    using assms that by (auto simp: till_ok_def distinct_map inj_on_def)
  have mir: "\<exists>x \<in> ?T. mirrors t x" if "t \<in> R" for t using assms that by (auto simp: R_def till_ok_def txn_ok_def)
  define orig where "orig t = (SOME x. x \<in> ?T \<and> mirrors t x)" for t
  have orig: "orig t \<in> ?T" "mirrors t (orig t)" if "t \<in> R" for t
    using someI_ex [of "\<lambda>x. x \<in> ?T \<and> mirrors t x"] mir [OF that] unfolding orig_def by blast+
  have inj: "inj_on orig R"
  proof (rule inj_onI)
    fix t u assume tu: "t \<in> R" "u \<in> R" "orig t = orig u"
    then have "ct_reversesId t = ct_reversesId u" using orig(2) by (metis mirrors_def)
    moreover have "inj_on ct_reversesId (set (filter (\<lambda>t. ct_reversesId t \<noteq> None) (tl_txns s)))"
      using assms by (simp add: till_ok_def distinct_map)
    ultimately show "t = u" using tu(1,2) by (auto simp: inj_on_def R_def)
  qed
  have img: "orig ` R = Q"
  proof (intro set_eqI iffI)
    fix x assume "x \<in> orig ` R"
    then obtain t where t: "t \<in> R" "x = orig t" by blast
    then show "x \<in> Q" using orig [OF t(1)] by (auto simp: Q_def reversed_by_def list_ex_iff R_def mirrors_def)
  next
    fix x assume "x \<in> Q"
    then obtain t where t: "t \<in> ?T" "ct_reversesId t = Some (ct_id x)" "x \<in> ?T"
      by (auto simp: Q_def reversed_by_def list_ex_iff)
    then have "t \<in> R" by (simp add: R_def)
    moreover have "orig t = x"
      using ids [OF orig(1) [OF \<open>t \<in> R\<close>] t(3)] orig(2) [OF \<open>t \<in> R\<close>] t(2) by (simp add: mirrors_def)
    ultimately show "x \<in> orig ` R" by blast
  qed
  have fin: "finite R" "finite Q" by (simp_all add: R_def Q_def)
  have disj: "R \<inter> Q = {}" by (auto simp: R_def Q_def)
  have "sum ?g R = sum (\<lambda>t. - ?g (orig t)) R"
  proof (rule sum.cong)
    fix t assume "t \<in> R"
    from orig(2) [OF this] show "?g t = - ?g (orig t)" by (auto simp: mirrors_cancel) (auto simp: mirrors_def)
  qed simp
  also have "\<dots> = - sum ?g Q" by (simp add: sum_negf sum.reindex [OF inj, symmetric, unfolded comp_def] img [symmetric] sum.reindex [OF inj])
  finally have cancel: "sum ?g R + sum ?g Q = 0" by simp
  have split: "?T = set (filter (live_txn s) (tl_txns s)) \<union> (R \<union> Q)"
    by (auto simp: R_def Q_def live_txn_def reversed_by_def)
  have sep: "set (filter (live_txn s) (tl_txns s)) \<inter> (R \<union> Q) = {}"
    by (auto simp: R_def Q_def live_txn_def reversed_by_def)
  have "flow a (tl_txns s) = sum ?g ?T" by (simp add: flow_def sum_list_distinct_conv_sum_set d)
  also have "\<dots> = sum ?g (set (filter (live_txn s) (tl_txns s))) + sum ?g (R \<union> Q)"
    by (subst split, rule sum.union_disjoint) (use sep fin in auto)
  also have "sum ?g (R \<union> Q) = 0" using cancel fin disj by (simp add: sum.union_disjoint)
  also have "sum ?g (set (filter (live_txn s) (tl_txns s))) = flow a (filter (live_txn s) (tl_txns s))"
    by (simp add: flow_def sum_list_distinct_conv_sum_set d)
  finally show ?thesis by simp
qed

end
