(* ===== verification/Cash_Properties.thy ===== *)
theory Cash_Properties
  imports Cash_Laws
begin

text \<open>
  What the commands of the cash book do to the balances: the step relation of the book and its
  invariant, transfers, reversals, gateway captures, refunds and the settlement with the courier.
\<close>

section \<open>Commands append\<close>

definition grows :: "'a till_scheme \<Rightarrow> cash_txn list \<Rightarrow> 'a till_scheme \<Rightarrow> bool" where
  "grows s new s' \<longleftrightarrow> till_ok s' \<and> tl_uuid s' = tl_uuid s \<and> accounts_grow s s' \<and> tl_txns s' = tl_txns s @ new"

lemma appends_grows: "appends s new s' \<Longrightarrow> grows s new s'"
  by (auto simp: appends_def grows_def dest: besideD(1))

lemma grows_refl: "till_ok s \<Longrightarrow> grows s [] s"
  by (simp add: grows_def)

lemma grows_trans: "grows s xs t \<Longrightarrow> grows t ys u \<Longrightarrow> grows s (xs @ ys) u"
  by (auto simp: grows_def intro: accounts_grow_trans)

lemma grows_balance:
  assumes "grows s new s'"
  shows "balance s' a = balance s a + flow a new" "worth s' = worth s + all_flow new"
proof -
  from assms obtain as where as: "tl_accounts s' = tl_accounts s @ as" "\<forall>x \<in> set as. ca_openingBalance x = 0"
    by (auto simp: grows_def accounts_grow_def)
  then have z: "map ca_openingBalance as = map (\<lambda>x. 0) as" "map (\<lambda>x. if ca_id x = a then ca_openingBalance x else 0) as = map (\<lambda>x. 0) as"
    by simp_all
  have zz: "sum_list (map (\<lambda>x. 0::money) as) = 0" by (induction as) auto
  show "balance s' a = balance s a + flow a new" "worth s' = worth s + all_flow new"
    using assms as zz unfolding balance_def opening_of_def worth_def grows_def by (simp_all only: map_append sum_list.append z) simp_all
qed

text \<open>Tables of other components may change under a command; the book does not notice.\<close>

definition same_book :: "'a till_scheme \<Rightarrow> 'b till_scheme \<Rightarrow> bool" where
  "same_book s s' \<longleftrightarrow> tl_uuid s' = tl_uuid s \<and> tl_issued s' = tl_issued s \<and> tl_accounts s' = tl_accounts s \<and> tl_txns s' = tl_txns s"

lemma same_book_ok:
  assumes "same_book s s'"
  shows "till_ok s' = till_ok s" "live_txn s' = live_txn s" "reversed_by s' = reversed_by s" "balance s' a = balance s a"
    "has w s' = has w s"
proof -
  have iss: "issued s' = issued s" using assms by (simp add: same_book_def issued_def fun_eq_iff)
  then show "till_ok s' = till_ok s"
    using assms by (simp add: same_book_def till_ok_def accounts_ok_def txn_ok_def)
  show "live_txn s' = live_txn s" "reversed_by s' = reversed_by s" "balance s' a = balance s a"
    using assms by (simp_all add: same_book_def live_txn_def reversed_by_def balance_def opening_of_def fun_eq_iff)
  then show "has w s' = has w s" using assms by (simp add: has_def same_book_def)
qed

lemma same_book_grows: "same_book s s' \<Longrightarrow> grows t new s \<Longrightarrow> grows t new s'"
  using same_book_ok(1) [of s s'] by (auto simp: grows_def same_book_def accounts_grow_def)

lemma fresh_id_ok:
  assumes "fresh_id s = (i, s')" "till_ok s"
  shows "appends s [] s'" "i = tl_uuid s (tl_issued s)"
proof -
  have s': "s' = s\<lparr>tl_issued := Suc (tl_issued s)\<rparr>" "i = tl_uuid s (tl_issued s)" using assms(1) by (auto simp: fresh_id_def)
  have iss: "issued s' j" if "issued s j" for j using that by (rule issued_mono [rotated 2]) (simp_all add: s')
  have "accounts_ok s'" using assms(2) iss by (auto simp: till_ok_def accounts_ok_def s')
  moreover have "txn_ok s' t" if "t \<in> set (tl_txns s)" for t
    using that assms(2) iss by (auto simp: till_ok_def txn_ok_def s')
  ultimately show "appends s [] s'" using assms(2) by (auto simp: appends_def till_ok_def accounts_grow_def s')
  show "i = tl_uuid s (tl_issued s)" by (rule s')
qed

lemma no_entry_simps [simp]: "pe_reversesId no_entry = None" "pe_orderId no_entry = None"
  by (simp_all add: no_entry_def)

lemma manualEntry_ok:
  assumes "manualEntry dto s = Inr (t, s')" "till_ok s"
  shows "appends s [t] s' \<and> ct_accountId t = md_accountId dto \<and> ct_direction t = md_direction dto \<and> ct_kind t = md_kind dto \<and>
    ct_amount t = round2 (md_amount dto) \<and> ct_orderId t = None \<and> kindAllowsDirection (ct_kind t) (ct_direction t) \<and>
    ct_occurredAt t \<le> st_now s + 5 * 60000"
proof -
  let ?e = "\<lambda>d. no_entry\<lparr>pe_ref := AccountId (md_accountId dto), pe_direction := md_direction dto, pe_kind := md_kind dto,
     pe_amount := md_amount dto, pe_memo := jtrim (md_memo dto), pe_expenseCategory := trimmed (md_expenseCategory dto),
     pe_occurredAt := Some d\<rparr>"
  from assms(1) obtain at_t where at: "cash_when (md_occurredAt dto) (st_now s) = Inr at_t" and p: "post (?e at_t) s = Inr (t, s')"
    and k: "kindAllowsDirection (md_kind dto) (md_direction dto)"
    by (auto simp: manualEntry_def err_simps split: if_splits)
  have occ: "ct_occurredAt t = at_t" using p by (auto simp: post_def Let_def err_simps insert_txn_def fresh_id_def split: if_splits)
  have "at_t \<le> st_now s + 5 * 60000" using at by (auto simp: cash_when_def split: option.splits if_splits)
  then show ?thesis using post_plain [OF p assms(2)] post_account_id [OF p] k occ by simp
qed

lemma transfer_ok:
  assumes "transfer dto s = Inr ((o', i), s')" "till_ok s"
  shows "appends s [o', i] s' \<and> ct_accountId o' = tr_fromAccountId dto \<and> ct_accountId i = tr_toAccountId dto \<and>
    ct_direction o' = OUT \<and> ct_direction i = IN \<and> ct_amount o' = round2 (tr_amount dto) \<and> ct_amount i = round2 (tr_amount dto) \<and>
    tr_fromAccountId dto \<noteq> tr_toAccountId dto"
proof -
  from assms(1) obtain at_t fa sa ta sb m s2 where
    ne: "tr_fromAccountId dto \<noteq> tr_toAccountId dto"
    and fa: "account (AccountId (tr_fromAccountId dto)) False s = Inr (fa, sa)"
    and ta: "account (AccountId (tr_toAccountId dto)) False sa = Inr (ta, sb)"
    and q: "post (transfer_leg (ca_id fa) OUT (tr_amount dto) m (fst (fresh_id sb)) at_t) (snd (fresh_id sb)) = Inr (o', s2)"
      "post (transfer_leg (ca_id ta) IN (tr_amount dto) m (fst (fresh_id sb)) at_t) s2 = Inr (i, s')"
    by (auto simp: transfer_def ebind_Inr_iff Let_def case_prod_beta split: if_splits)
  have f: "sa = s" "ca_id fa = tr_fromAccountId dto" using account_ok [OF fa assms(2)] by simp_all
  have g: "sb = s" "ca_id ta = tr_toAccountId dto" using account_ok [OF ta] assms(2) by (simp_all add: f)
  obtain grp s1 where fr: "fresh_id s = (grp, s1)" by (cases "fresh_id s")
  note ok1 = fresh_id_ok(1) [OF fr assms(2)]
  have p1: "post (transfer_leg (tr_fromAccountId dto) OUT (tr_amount dto) m grp at_t) s1 = Inr (o', s2)"
    and p2: "post (transfer_leg (tr_toAccountId dto) IN (tr_amount dto) m grp at_t) s2 = Inr (i, s')"
    using q by (simp_all add: f g fr)
  have leg: "pe_reversesId (transfer_leg a d x m' g' t') = None" "pe_direction (transfer_leg a d x m' g' t') = d"
    "pe_amount (transfer_leg a d x m' g' t') = x" "pe_ref (transfer_leg a d x m' g' t') = AccountId a" for a d x m' g' t'
    by (simp_all add: transfer_leg_def)
  note q1 = post_plain [OF p1 appends_ok [OF ok1] leg(1)]
  note q2 = post_plain [OF p2 appends_ok [OF q1(1)] leg(1)]
  have "appends s ([] @ [o'] @ [i]) s'" by (intro appends_trans [OF ok1] appends_trans [OF q1(1)] q2(1))
  then show ?thesis using q1(2,4) q2(2,4) ne post_account_id [OF p1 leg(4)] post_account_id [OF p2 leg(4)] by (simp add: leg)
qed

section \<open>Reversals\<close>

lemma unpay_same_book:
  assumes "unpayPurchase p x s = Inr s'"
  shows "same_book s s' \<and> st_now s' = st_now s"
  using assms by (auto simp: unpayPurchase_def put_purchase_def Let_def same_book_def split: option.splits if_splits)

lemma reverse_leg_ok:
  assumes "reverse_leg grp reason at_t leg (cr, s) = Inr (cr', s')" "till_ok s" "leg \<in> set (tl_txns s)" "ct_reversesId leg = None"
  shows "\<exists>t. cr' = cr @ [t] \<and> grows s [t] s' \<and> mirrors t leg"
proof -
  let ?e = "\<lparr>pe_ref = AccountId (ct_accountId leg), pe_direction = opposite (ct_direction leg), pe_kind = ct_kind leg,
     pe_amount = ct_amount leg, pe_memo = reverse_memo (ct_memo leg) reason, pe_expenseCategory = ct_expenseCategory leg,
     pe_orderId = ct_orderId leg, pe_purchaseId = ct_purchaseId leg, pe_transferGroupId = grp,
     pe_reversesId = Some (ct_id leg), pe_occurredAt = Some at_t\<rparr>"
  from assms(1) obtain t s1 where p: "post ?e s = Inr (t, s1)" and cr: "cr' = cr @ [t]"
    and c: "(case ct_purchaseId leg of
               Some p \<Rightarrow> if ct_kind leg = PURCHASE_PAYMENT
                 then unpayPurchase p (if ct_direction leg = OUT then ct_amount leg else - ct_amount leg) s1 else Inr s1
             | None \<Rightarrow> Inr s1) = Inr s'"
    by (auto simp: reverse_leg_def ebind_Inr_iff)
  from c have u: "s' = s1 \<or> (\<exists>p x. unpayPurchase p x s1 = Inr s')" by (auto split: option.splits if_splits)
  note q = post_ok [OF p assms(2)]
  have q': "till_ok s1 \<and> beside s1 = beside s \<and> accounts_grow s s1 \<and> tl_txns s1 = tl_txns s @ [t] \<and>
    ct_direction t = opposite (ct_direction leg) \<and> ct_amount t = round2 (ct_amount leg) \<and> ct_reversesId t = Some (ct_id leg)"
    using q assms(3,4) by auto
  have "same_book s1 s'" using u unpay_same_book by (auto simp: same_book_def)
  moreover have "grows s [t] s1" using q' by (auto simp: grows_def dest: besideD(1))
  moreover have "paisa (ct_amount leg)" using assms(2,3) by (simp add: till_ok_def txn_ok_def)
  ultimately show ?thesis
    using same_book_grows cr q' assms(4) post_account_id [OF p] by (auto simp: mirrors_def)
qed

lemma reverse_legs_ok:
  assumes "efold (reverse_leg grp reason at_t) legs (cr, s) = Inr (cr', s')" "till_ok s"
    "\<forall>l \<in> set legs. l \<in> set (tl_txns s) \<and> ct_reversesId l = None"
  shows "\<exists>new. cr' = cr @ new \<and> grows s new s' \<and> list_all2 mirrors new legs"
  using assms
proof (induction legs arbitrary: cr s)
  case Nil
  then show ?case by (auto intro: grows_refl)
next
  case (Cons leg legs)
  from Cons.prems(1) obtain cr1 s1 where s1: "reverse_leg grp reason at_t leg (cr, s) = Inr (cr1, s1)"
    "efold (reverse_leg grp reason at_t) legs (cr1, s1) = Inr (cr', s')"
    by (auto simp: ebind_Inr_iff)
  obtain t where t: "cr1 = cr @ [t]" "grows s [t] s1" "mirrors t leg"
    using reverse_leg_ok [OF s1(1) Cons.prems(2)] Cons.prems(3) by auto
  then have "\<forall>l \<in> set legs. l \<in> set (tl_txns s1) \<and> ct_reversesId l = None" "till_ok s1"
    using Cons.prems(3) by (auto simp: grows_def)
  from Cons.IH [OF s1(2) this(2,1)] obtain new where "cr' = cr1 @ new" "grows s1 new s'" "list_all2 mirrors new legs" by blast
  then show ?case using t grows_trans [OF t(2)] by (intro exI [of _ "t # new"]) simp
qed

lemma mirrors_flow: "list_all2 mirrors new legs \<Longrightarrow> flow a new = - flow a legs"
proof (induction rule: list_all2_induct)
  case (Cons t ts x xs)
  then show ?case using mirrors_cancel [OF Cons(1)] by (simp add: mirrors_def)
qed simp

lemma reverse_entry_ok:
  assumes "reverse_entry i reason d s = Inr ((ids, created), s')" "till_ok s"
  shows "\<exists>legs. ids = map ct_id legs \<and> i \<in> set ids \<and> set legs \<subseteq> set (tl_txns s) \<and> grows s created s' \<and>
    list_all2 mirrors created legs \<and> (\<forall>l \<in> set legs. live_txn s l)"
proof -
  from assms(1) obtain at_t where "(case reverse_tx i reason at_t s of
       Inl e \<Rightarrow> if e = DomainError ''P2002'' 500 then Inl (ConflictError ''cash.already_reversed'') else Inl e
     | Inr r \<Rightarrow> Inr r) = Inr ((ids, created), s')"
    by (auto simp: reverse_entry_def ebind_Inr_iff)
  then have tx: "reverse_tx i reason at_t s = Inr ((ids, created), s')" by (auto split: sum.splits if_splits)
  then obtain orig where o: "find (\<lambda>t. ct_id t = i) (tl_txns s) = Some orig" "ct_reversesId orig = None" "\<not> reversed_by s orig"
    by (auto simp: reverse_tx_def split: option.splits if_splits)
  define legs where "legs = (case ct_transferGroupId orig of
      Some g \<Rightarrow> filter (\<lambda>t. ct_transferGroupId t = Some g \<and> ct_reversesId t = None) (tl_txns s) | None \<Rightarrow> [orig])"
  define s1 where "s1 = (if ct_transferGroupId orig \<noteq> None then snd (fresh_id s) else s)"
  from tx o have nr: "\<not> list_ex (reversed_by s) legs"
    by (auto simp: reverse_tx_def legs_def Let_def split: if_splits)
  from tx o nr obtain grp where e: "efold (reverse_leg grp reason at_t) legs ([], s1) = Inr (created, s')" and ids: "ids = map ct_id legs"
    by (cases "ct_transferGroupId orig")
      (auto simp: reverse_tx_def legs_def [symmetric] s1_def Let_def case_prod_beta ebind_Inr_iff legs_def)
  have mem: "orig \<in> set (tl_txns s)" "ct_id orig = i" using find_SomeD [OF o(1)] by simp_all
  have sub: "\<forall>l \<in> set legs. l \<in> set (tl_txns s) \<and> ct_reversesId l = None"
    using mem o(2) by (auto simp: legs_def split: option.splits)
  have s1: "appends s [] s1" using fresh_id_ok(1) [of s "fst (fresh_id s)" "snd (fresh_id s)"] assms(2) appends_refl
    by (auto simp: s1_def)
  then have "tl_txns s1 = tl_txns s" "till_ok s1" by (simp_all add: appends_def)
  with reverse_legs_ok [OF e] sub obtain new where "created = new" "grows s1 new s'" "list_all2 mirrors new legs" by auto
  moreover have "grows s new s'" using grows_trans [OF appends_grows [OF s1] \<open>grows s1 new s'\<close>] by simp
  moreover have "i \<in> set ids" using mem o(2) by (auto simp: ids legs_def split: option.splits)
  moreover have "\<forall>l \<in> set legs. live_txn s l"
    using nr sub by (auto simp: live_txn_def reversed_by_def list_ex_iff)
  ultimately show ?thesis using ids sub by blast
qed

text \<open>
  C18. Reversing an entry (or both legs of a transfer) appends exactly one mirror entry per leg, takes
  the legs' flow back out of every account, leaves no leg live, and any further attempt on the
  same entry is refused as already reversed.
\<close>

theorem reversal_nets_out:
  assumes "reverse_entry i reason d s = Inr ((ids, created), s')" "till_ok s"
  shows "\<exists>legs. ids = map ct_id legs \<and> i \<in> set ids \<and> set legs \<subseteq> set (tl_txns s) \<and>
    tl_txns s' = tl_txns s @ created \<and> list_all2 mirrors created legs \<and>
    (\<forall>a. balance s' a = balance s a - flow a legs) \<and> (\<forall>l \<in> set legs. live_txn s l \<and> \<not> live_txn s' l) \<and>
    (\<forall>reason' t. t \<le> st_now s' + 5 * 60000 \<longrightarrow>
       reverse_entry i reason' (Some t) s' = Inl (ConflictError ''cash.already_reversed''))"
proof -
  from reverse_entry_ok [OF assms] obtain legs where l: "ids = map ct_id legs" "i \<in> set ids" "set legs \<subseteq> set (tl_txns s)"
    "grows s created s'" "list_all2 mirrors created legs" "\<forall>l \<in> set legs. live_txn s l" by blast
  have ok': "till_ok s'" and tx: "tl_txns s' = tl_txns s @ created" using l(4) by (simp_all add: grows_def)
  have rev: "reversed_by s' x" if x: "x \<in> set legs" for x
  proof -
    obtain t where "t \<in> set created" "mirrors t x" using l(5) x by (metis list_all2_conv_all_nth in_set_conv_nth)
    then show ?thesis by (auto simp: reversed_by_def list_ex_iff tx mirrors_def)
  qed
  from l(1,2) obtain x where x: "x \<in> set legs" "ct_id x = i" by auto
  have "find (\<lambda>t. ct_id t = i) (tl_txns s') \<noteq> None"
    using x l(3) by (auto simp: find_None_iff tx)
  then obtain y where y: "find (\<lambda>t. ct_id t = i) (tl_txns s') = Some y" by blast
  have xin: "x \<in> set (tl_txns s')" using x(1) l(3) by (auto simp: tx)
  have inj: "inj_on ct_id (set (tl_txns s'))" using ok' by (simp add: till_ok_def distinct_map)
  have yx: "y = x" by (rule inj_onD [OF inj]) (use find_SomeD [OF y] xin x(2) in auto)
  have "ct_reversesId x = None" using l(6) x(1) by (simp add: live_txn_def)
  then have again: "reverse_tx i reason' t s' = Inl (ConflictError ''cash.already_reversed'')" for reason' t
    using y rev [OF x(1)] by (simp add: reverse_tx_def yx)
  have dead: "\<forall>l \<in> set legs. live_txn s l \<and> \<not> live_txn s' l"
    using l(6) rev by (auto simp: live_txn_def reversed_by_def)
  have bal: "balance s' a = balance s a - flow a legs" for a
    using grows_balance(1) [OF l(4)] mirrors_flow [OF l(5)] by simp
  show ?thesis
    using l(1-3,5) tx dead bal again
    by (intro exI [of _ legs] conjI) (auto simp: reverse_entry_def cash_when_def)
qed

text \<open>A book with a cash box and an owner's deposit of 1000.\<close>

definition empty_till :: till where
  "empty_till = \<lparr>st_now = 0, st_nextId = 0, st_products = (\<lambda>_. None), st_lots = [], st_uses = [], st_moves = [], st_items = [],
     sh_orders = [], sh_customers = [], sh_coupons = [], sh_redemptions = [], sh_history = [],
     tl_uuid = (\<lambda>n. replicate n CHR ''u''), tl_issued = 0, tl_accounts = [], tl_txns = [], tl_payments = [],
     tl_refunds = [], tl_purchases = [], tl_shipments = []\<rparr>"

definition deposit :: cash_txn where
  "deposit = \<lparr>ct_id = ''u'', ct_accountId = '''', ct_direction = IN, ct_kind = OWNER_CAPITAL, ct_amount = 1000, ct_memo = [],
     ct_expenseCategory = None, ct_orderId = None, ct_purchaseId = None, ct_transferGroupId = None, ct_reversesId = None,
     ct_occurredAt = 0\<rparr>"

definition sample_till :: till where
  "sample_till = empty_till\<lparr>tl_issued := 2, tl_accounts := [\<lparr>ca_id = '''', ca_code = ''cash'', ca_name = [], ca_type = CASH_BOX,
     ca_openingBalance = 0, ca_isActive = True\<rparr>], tl_txns := [deposit]\<rparr>"

lemma sample_till_simps [simp]:
  "tl_uuid sample_till = (\<lambda>n. replicate n CHR ''u'')" "tl_issued sample_till = 2" "tl_txns sample_till = [deposit]"
  "tl_accounts sample_till = [\<lparr>ca_id = '''', ca_code = ''cash'', ca_name = [], ca_type = CASH_BOX,
     ca_openingBalance = 0, ca_isActive = True\<rparr>]" "st_now sample_till = 0" "sh_orders sample_till = []"
  "tl_shipments sample_till = []"
  by (simp_all add: sample_till_def empty_till_def)

lemma sample_till_ok: "till_ok sample_till"
proof -
  have "inj (\<lambda>n. replicate n CHR ''u'')" by (auto intro: injI)
  moreover have "\<exists>n<2. '''' = replicate n CHR ''u''" by (intro exI [of _ 0]) simp
  moreover have "\<exists>n<2. ''u'' = replicate n CHR ''u''" by (intro exI [of _ 1]) simp
  ultimately show ?thesis by (auto simp: till_ok_def accounts_ok_def txn_ok_def issued_def deposit_def)
qed

theorem reversal_nets_out_witness:
  "\<exists>created s'. reverse_entry ''u'' [] (Some 0) sample_till = Inr (([''u''], created), s') \<and>
     balance s' '''' = balance sample_till '''' - 1000"
proof -
  have "case reverse_entry ''u'' [] (Some 0) sample_till of Inr ((ids, created), s') \<Rightarrow> ids = [''u''] | Inl e \<Rightarrow> False"
    by code_simp
  then obtain created s' where r: "reverse_entry ''u'' [] (Some 0) sample_till = Inr (([''u''], created), s')"
    by (auto split: sum.splits)
  from reversal_nets_out [OF r sample_till_ok] obtain legs where l: "[''u''] = map ct_id legs"
    "set legs \<subseteq> set (tl_txns sample_till)" "\<forall>a. balance s' a = balance sample_till a - flow a legs"
    by (elim exE conjE) (rule that)
  then have "legs = [deposit]" by (cases legs) auto
  then have "balance s' [] = balance sample_till [] - flow [] [deposit]" using l(3) by blast
  then show ?thesis using r by (simp add: deposit_def signed_def)
qed

section \<open>Automatic postings\<close>

lemma fresh_live:
  assumes "grows s new s'" "t \<in> set new" "\<forall>x \<in> set new. ct_reversesId x = None" "till_ok s"
  shows "live_txn s' t"
proof -
  have "ct_reversesId x \<noteq> Some (ct_id t)" if x: "x \<in> set (tl_txns s')" for x
  proof
    assume e: "ct_reversesId x = Some (ct_id t)"
    then have "x \<in> set (tl_txns s)" using x assms(1,3) by (auto simp: grows_def)
    then obtain y where "y \<in> set (tl_txns s)" "mirrors x y" using assms(4) e by (force simp: till_ok_def txn_ok_def)
    then have "ct_id t \<in> ct_id ` set (tl_txns s)" using e by (auto simp: mirrors_def)
    moreover have "till_ok s'" "tl_txns s' = tl_txns s @ new" using assms(1) by (simp_all add: grows_def)
    then have "distinct (map ct_id (tl_txns s) @ map ct_id new)" by (simp add: till_ok_def)
    ultimately show False using assms(2) by auto
  qed
  then show ?thesis using assms(2,3) by (auto simp: live_txn_def list_ex_iff)
qed

lemma recorded_has:
  assumes "appends s new s'" "till_ok s" "\<forall>x \<in> set new. ct_reversesId x = None" "t \<in> set new" "txn_match w t"
  shows "has w s'"
proof -
  have "t \<in> set (tl_txns s')" using assms(1,4) by (simp add: appends_def)
  then show ?thesis using fresh_live [OF appends_grows [OF assms(1)] assms(4,3,2)] assms(5) by (auto simp: has_def list_ex_iff)
qed

abbreviation captured :: "id \<Rightarrow> string \<Rightarrow> string \<Rightarrow> txn_filter" where
  "captured orderId orderNo tranId \<equiv> \<lparr>tf_orderId = Some orderId, tf_purchaseId = None, tf_kind = GATEWAY_SETTLEMENT,
     tf_direction = Some IN, tf_memo = Some (capture_memo orderNo tranId)\<rparr>"

lemma capture_ok:
  assumes "recordGatewayCapture orderId orderNo tranId amount fee at_t s = Inr s'" "till_ok s"
    "\<not> has (captured orderId orderNo tranId) s"
  shows "\<exists>t ts. appends s (t # ts) s' \<and> ct_direction t = IN \<and> ct_kind t = GATEWAY_SETTLEMENT \<and> ct_amount t = round2 amount \<and>
    ct_orderId t = Some orderId \<and> ct_memo t = take 500 (capture_memo orderNo tranId) \<and>
    (if fee > 0 then \<exists>f. ts = [f] \<and> ct_direction f = OUT \<and> ct_kind f = GATEWAY_FEE \<and> ct_amount f = round2 fee \<and>
       ct_accountId f = ct_accountId t else ts = []) \<and>
    (\<forall>x \<in> set (t # ts). ct_reversesId x = None) \<and>
    (\<exists>a \<in> set (tl_accounts s'). ct_accountId t = ca_id a \<and> ca_code a = ''sslcommerz'')"
proof -
  let ?e = "no_entry\<lparr>pe_ref := AccountCode ''sslcommerz'', pe_direction := IN, pe_kind := GATEWAY_SETTLEMENT,
                     pe_amount := amount, pe_memo := capture_memo orderNo tranId, pe_orderId := Some orderId, pe_occurredAt := at_t\<rparr>"
  let ?f = "no_entry\<lparr>pe_ref := AccountCode ''sslcommerz'', pe_direction := OUT, pe_kind := GATEWAY_FEE,
                     pe_amount := fee, pe_memo := fee_memo orderNo tranId,
                     pe_orderId := Some orderId, pe_occurredAt := at_t\<rparr>"
  from assms(1,3) obtain t s1 where p: "post ?e s = Inr (t, s1)"
    and r: "(if fee > 0 then ebind (post ?f s1) (\<lambda>(_, s). Inr s) else Inr s1) = Inr s'"
    by (auto simp: recordGatewayCapture_def Let_def ebind_Inr_iff)
  note q = post_plain [OF p assms(2)]
  have p_t: "appends s [t] s1" "ct_direction t = IN" "ct_kind t = GATEWAY_SETTLEMENT" "ct_amount t = round2 amount"
    "ct_orderId t = Some orderId" "ct_memo t = take 500 (capture_memo orderNo tranId)" "ct_reversesId t = None" using q by simp_all
  obtain a where a: "a \<in> set (tl_accounts s1)" "ct_accountId t = ca_id a" "ca_code a = ''sslcommerz''"
    using q(10) by auto
  show ?thesis
  proof (cases "fee > 0")
    case False
    then show ?thesis using r p_t a by (intro exI [of _ t] exI [of _ "[]"]) auto
  next
    case True
    then obtain f where f: "post ?f s1 = Inr (f, s')" using r by (auto simp: ebind_Inr_iff)
    note g = post_plain [OF f appends_ok [OF p_t(1)]]
    have "appends s1 [f] s'" using g(1) by simp
    then have "appends s ([t] @ [f]) s'" by (rule appends_trans [OF p_t(1)])
    moreover obtain b where b: "b \<in> set (tl_accounts s')" "ct_accountId f = ca_id b" "ca_code b = ''sslcommerz''" using g(10) by auto
    moreover have a': "a \<in> set (tl_accounts s')" using a(1) g(1) by (auto simp: appends_def accounts_grow_def)
    moreover have "b = a"
      using appends_ok [OF g(1)] a(3) a' b by (auto simp: till_ok_def accounts_ok_def distinct_map inj_on_def)
    ultimately show ?thesis using p_t g a True by (intro exI [of _ t] exI [of _ "[f]"]) auto
  qed
qed

text \<open>
  C23. A capture is booked once: the gateway account gains the amount less the fee, no other account
  moves, and recording the same transaction of the order again, with whatever amounts, changes
  nothing.
\<close>

theorem capture_booked_once:
  assumes "recordGatewayCapture orderId orderNo tranId amount fee at_t s = Inr s'" "till_ok s"
    and "\<not> has (captured orderId orderNo tranId) s" "length (capture_memo orderNo tranId) \<le> 500"
    and "paisa amount" "paisa fee" "0 \<le> fee"
  shows "till_ok s' \<and>
    (\<exists>a \<in> set (tl_accounts s'). ca_code a = ''sslcommerz'' \<and> balance s' (ca_id a) = balance s (ca_id a) + amount - fee \<and>
       (\<forall>b. b \<noteq> ca_id a \<longrightarrow> balance s' b = balance s b)) \<and>
    (\<forall>amount' fee' at'. recordGatewayCapture orderId orderNo tranId amount' fee' at' s' = Inr s')"
proof -
  from capture_ok [OF assms(1-3)] obtain t ts a where
    q: "appends s (t # ts) s'" "ct_direction t = IN" "ct_kind t = GATEWAY_SETTLEMENT" "ct_amount t = round2 amount"
      "ct_orderId t = Some orderId" "ct_memo t = take 500 (capture_memo orderNo tranId)"
      "\<forall>x \<in> set (t # ts). ct_reversesId x = None"
      "if fee > 0 then \<exists>f. ts = [f] \<and> ct_direction f = OUT \<and> ct_kind f = GATEWAY_FEE \<and> ct_amount f = round2 fee \<and>
       ct_accountId f = ct_accountId t else ts = []"
    and a: "a \<in> set (tl_accounts s')" "ct_accountId t = ca_id a" "ca_code a = ''sslcommerz''" by blast
  have "txn_match (captured orderId orderNo tranId) t"
    using q(2,3,5,6) assms(4) by (simp add: txn_match_def)
  then have "has (captured orderId orderNo tranId) s'" by (rule recorded_has [OF q(1) assms(2) q(7), rotated]) simp
  then have again: "recordGatewayCapture orderId orderNo tranId amount' fee' at' s' = Inr s'" for amount' fee' at'
    by (simp add: recordGatewayCapture_def Let_def)
  have net: "flow b (t # ts) = (if b = ca_id a then amount - fee else 0)" for b
    using q(2,4,8) a(2) assms(5-7) by (auto simp: signed_def split: if_splits)
  have bal: "balance s' b = balance s b + (if b = ca_id a then amount - fee else 0)" for b
    using grows_balance(1) [OF appends_grows [OF q(1)], of b] by (simp only: net)
  show ?thesis using appends_ok [OF q(1)] again a by (intro conjI bexI [of _ a]) (simp_all add: bal)
qed

theorem capture_booked_once_witness:
  "\<exists>s'. recordGatewayCapture ''o1'' ''CLO-2042'' ''T1'' 500 10 None sample_till = Inr s' \<and>
     recordGatewayCapture ''o1'' ''CLO-2042'' ''T1'' 700 0 None s' = Inr s'"
proof -
  have "case recordGatewayCapture ''o1'' ''CLO-2042'' ''T1'' 500 10 None sample_till of Inr s' \<Rightarrow> True | Inl e \<Rightarrow> False"
    by code_simp
  then obtain s' where r: "recordGatewayCapture ''o1'' ''CLO-2042'' ''T1'' 500 10 None sample_till = Inr s'"
    by (auto split: sum.splits)
  have h: "\<not> has (captured ''o1'' ''CLO-2042'' ''T1'') sample_till" by code_simp
  have l: "length (capture_memo ''CLO-2042'' ''T1'') \<le> 500" by (simp add: capture_memo_def js_def)
  show ?thesis using capture_booked_once [OF r sample_till_ok h l] r by auto
qed

text \<open>
  C35. The memo of a refund carries the first eight characters of its id only. Ids are time ordered
  (their first eight hex digits are the high 32 of 48 bits of the millisecond clock), so two refunds
  of one order that are made within about a minute share them, and the second refund never reaches
  the cash book: \<open>recordRefund\<close> takes it for a repetition, whatever its amount.
\<close>

theorem refund_memo_collision:
  assumes "recordRefund orderId orderNo first method amount at_t s = Inr s1" "till_ok s"
    and "\<not> has \<lparr>tf_orderId = Some orderId, tf_purchaseId = None, tf_kind = REFUND, tf_direction = None,
      tf_memo = Some (refund_memo orderNo first)\<rparr> s"
    and "take 8 second = take 8 first" "length orderNo \<le> 400"
  shows "(\<exists>t. tl_txns s1 = tl_txns s @ [t] \<and> ct_amount t = round2 amount) \<and>
    (\<forall>amount' method' at'. recordRefund orderId orderNo second method' amount' at' s1 = Inr s1)"
proof -
  let ?w = "\<lparr>tf_orderId = Some orderId, tf_purchaseId = None, tf_kind = REFUND, tf_direction = None,
    tf_memo = Some (refund_memo orderNo first)\<rparr>"
  let ?e = "no_entry\<lparr>pe_ref := AccountCode (accountForMethod method), pe_direction := OUT, pe_kind := REFUND,
                     pe_amount := amount, pe_memo := refund_memo orderNo first, pe_orderId := Some orderId, pe_occurredAt := at_t\<rparr>"
  from assms(1,3) obtain t where p: "post ?e s = Inr (t, s1)"
    by (auto simp: recordRefund_def Let_def ebind_Inr_iff)
  note q = post_plain [OF p assms(2)]
  have "length (refund_memo orderNo first) \<le> 500" using assms(5) by (simp add: refund_memo_def js_def)
  then have "txn_match ?w t" using q by (simp add: txn_match_def)
  moreover have one: "\<forall>x \<in> set [t]. ct_reversesId x = None" "t \<in> set [t]" using q(6) by simp_all
  moreover have "appends s [t] s1" using q(1) by simp
  ultimately have "has ?w s1" using recorded_has assms(2) by blast
  moreover have "refund_memo orderNo second = refund_memo orderNo first" using assms(4) by (simp add: refund_memo_def)
  ultimately have "recordRefund orderId orderNo second method' amount' at' s1 = Inr s1" for method' amount' at'
    by (simp add: recordRefund_def Let_def)
  then show ?thesis using q by (auto simp: appends_def)
qed

theorem refund_memo_collision_witness:
  "\<exists>s1. recordRefund ''o1'' ''CLO-2042'' ''01929abc-0001'' CASH 300 None sample_till = Inr s1 \<and>
     recordRefund ''o1'' ''CLO-2042'' ''01929abc-7f02'' CASH 450 None s1 = Inr s1"
proof -
  have "case recordRefund ''o1'' ''CLO-2042'' ''01929abc-0001'' CASH 300 None sample_till of Inr s' \<Rightarrow> True | Inl e \<Rightarrow> False"
    by code_simp
  then obtain s1 where r: "recordRefund ''o1'' ''CLO-2042'' ''01929abc-0001'' CASH 300 None sample_till = Inr s1"
    by (auto split: sum.splits)
  have h: "\<not> has \<lparr>tf_orderId = Some ''o1'', tf_purchaseId = None, tf_kind = REFUND, tf_direction = None,
      tf_memo = Some (refund_memo ''CLO-2042'' ''01929abc-0001'')\<rparr> sample_till"
    by code_simp
  show ?thesis using refund_memo_collision [OF r sample_till_ok h, of "''01929abc-7f02''"] r by auto
qed

end
