(* ===== verification/Gateway.thy ===== *)
theory Gateway
  imports Money Text "HOL-Library.List_Lexorder"
begin

text \<open>
  What the payment gateway says and what it means:
  \<open>payments/sslcommerz/domain/validation.ts\<close>, \<open>signature.ts\<close> and the transaction ids of
  \<open>session-fields.ts\<close>. Everything the gateway sends arrives as strings; a missing field is \<open>None\<close>.
  The text in which \<open>Number\<close> would read the risk level is carried unread.
\<close>

record ssl_validation =
  sv_status :: "string option"
  sv_tran_id :: "string option"
  sv_val_id :: "string option"
  sv_amount :: "string option"
  sv_store_amount :: "string option"
  sv_currency :: "string option"
  sv_currency_type :: "string option"
  sv_currency_amount :: "string option"
  sv_bank_tran_id :: "string option"
  sv_risk_level :: "string option"
  sv_error :: "string option"

record expected_payment =
  ex_tranId :: string
  ex_amount :: money
  ex_currency :: string

datatype not_paid_status = NotPaid_FAILED | NotPaid_CANCELLED | NotPaid_EXPIRED

datatype validation_decision =
    Success string "string option" "string option"
  | NotPaid not_paid_status string
  | Mismatch string
  | Foreign string
  | Pending string

section \<open>Reading strings\<close>

definition upper_s :: "string \<Rightarrow> string" where "upper_s s = map upper_char s"

definition lower_s :: "string \<Rightarrow> string" where "lower_s s = map lower_char s"

text \<open>JavaScript truth of a string field, and \<open>a || b\<close> on two of them.\<close>

definition truthy :: "string option \<Rightarrow> bool" where
  "truthy v \<longleftrightarrow> v \<noteq> None \<and> v \<noteq> Some ''''"

definition or_str :: "string option \<Rightarrow> string option \<Rightarrow> string option" where
  "or_str a b = (if truthy a then a else b)"

definition str_of :: "string option \<Rightarrow> string" where
  "str_of v = (case v of None \<Rightarrow> '''' | Some s \<Rightarrow> s)"

text \<open>The numerals that \<open>isNumeric\<close> admits, and their value.\<close>

definition numeral_value :: "string \<Rightarrow> rat option" where
  "numeral_value s =
     (let neg = starts_with ''-'' s;
          body = (if neg then drop 1 s else s);
          whole = takeWhile ascii_digit body;
          rest = dropWhile ascii_digit body;
          frac = drop 1 rest;
          v = of_nat (digits_value whole) + of_nat (digits_value frac) / 10 ^ length frac
      in if whole = [] \<or> rest \<noteq> [] \<and> (hd rest \<noteq> CHR ''.'' \<or> frac = [] \<or> \<not> list_all ascii_digit frac) then None
         else Some (if neg then - v else v))"

definition isNumeric :: "string \<Rightarrow> bool" where
  "isNumeric v \<longleftrightarrow> numeral_value (js_trim v) \<noteq> None"

text \<open>\<open>new Decimal(s)\<close> does not trim: a numeral with white space around it throws.\<close>

definition decimal_of :: "string \<Rightarrow> rat result" where
  "decimal_of s = (case numeral_value s of None \<Rightarrow> Inl (DomainError ''DecimalError'' 500) | Some v \<Rightarrow> Inr v)"

section \<open>The validation answer\<close>

definition mapNotPaid :: "string \<Rightarrow> not_paid_status option" where
  "mapNotPaid status =
     (let u = upper_s status
      in if u = ''FAILED'' then Some NotPaid_FAILED
         else if u = ''CANCELLED'' then Some NotPaid_CANCELLED
         else if u = ''EXPIRED'' \<or> u = ''UNATTEMPTED'' then Some NotPaid_EXPIRED
         else None)"

definition PAID_WORDS :: "string list" where
  "PAID_WORDS = [''VALID'', ''VALIDATED'']"

definition evaluateValidation :: "expected_payment \<Rightarrow> ssl_validation option \<Rightarrow> validation_decision result" where
  "evaluateValidation expected answer =
     (case answer of
        None \<Rightarrow> Inr (Pending ''no_response'')
      | Some v \<Rightarrow>
          let status = upper_s (str_of (sv_status v))
          in if truthy (sv_tran_id v) \<and> sv_tran_id v \<noteq> Some (ex_tranId expected) then Inr (Foreign ''tran_id_mismatch'')
             else if status = ''INVALID_TRANSACTION'' \<or> \<not> truthy (sv_tran_id v)
             then Inr (Foreign (if status \<noteq> '''' then lower_s status else ''no_tran_id''))
             else if status \<in> set PAID_WORDS
             then
               let currency = upper_s (str_of (or_str (sv_currency_type v) (sv_currency v)));
                   amount = (case sv_currency_amount v of Some a \<Rightarrow> Some a | None \<Rightarrow> sv_amount v)
               in if currency \<noteq> upper_s (ex_currency expected)
                  then Inr (Mismatch (''currency '' @ (if currency \<noteq> '''' then currency else ''?'')))
                  else (case amount of
                          None \<Rightarrow> Inr (Mismatch ''amount ?'')
                        | Some a \<Rightarrow>
                            if \<not> isNumeric a then Inr (Mismatch (''amount '' @ a))
                            else ebind (decimal_of a) (\<lambda>d.
                              if round2 d \<noteq> round2 (ex_amount expected) then Inr (Mismatch (''amount '' @ a))
                              else if \<not> truthy (sv_val_id v) then Inr (Pending ''no_val_id'')
                              else Inr (Success (str_of (sv_val_id v))
                                     (if truthy (sv_bank_tran_id v) then sv_bank_tran_id v else None)
                                     (if truthy (sv_risk_level v) then sv_risk_level v else None))))
             else (case mapNotPaid status of
                     Some np \<Rightarrow> Inr (NotPaid np (take 200 (if truthy (sv_error v) then str_of (sv_error v) else status)))
                   | None \<Rightarrow> Inr (Pending (if status \<noteq> '''' then lower_s status else ''unknown''))))"

record tran_query =
  tq_APIConnect :: "string option"
  tq_element :: "ssl_validation list option"

datatype query_outcome = Q_paid string | Q_not_paid not_paid_status string | Q_none | Q_pending

definition interpretTransactionQuery :: "tran_query option \<Rightarrow> string \<Rightarrow> query_outcome" where
  "interpretTransactionQuery q tranId =
     (case q of
        None \<Rightarrow> Q_pending
      | Some q \<Rightarrow>
          if truthy (tq_APIConnect q) \<and> tq_APIConnect q \<noteq> Some ''DONE'' then Q_pending
          else
            let els = filter (\<lambda>e. \<not> truthy (sv_tran_id e) \<or> sv_tran_id e = Some tranId)
                  (case tq_element q of None \<Rightarrow> [] | Some es \<Rightarrow> es)
            in if els = [] then Q_none
               else (case find (\<lambda>e. upper_s (str_of (sv_status e)) \<in> set PAID_WORDS \<and> truthy (sv_val_id e)) els of
                       Some e \<Rightarrow> Q_paid (str_of (sv_val_id e))
                     | None \<Rightarrow>
                         if list_ex (\<lambda>e. upper_s (str_of (sv_status e)) = ''PENDING'') els then Q_pending
                         else
                           let e = last els
                           in (case mapNotPaid (str_of (sv_status e)) of
                                 Some np \<Rightarrow> Q_not_paid np (take 200 (str_of (or_str (sv_error e) (sv_status e))))
                               | None \<Rightarrow> Q_pending)))"

text \<open>
  The fee. The sign of a decimal survives rounding to zero, so \<open>fee.isNegative()\<close> asks about the
  unrounded difference.
\<close>

definition fallback_fee :: "decimal_js \<Rightarrow> money \<Rightarrow> rat \<Rightarrow> money" where
  "fallback_fee J amount pct = (if pct > 0 then percentOf J amount pct else 0)"

definition computeGatewayFee :: "decimal_js \<Rightarrow> money \<Rightarrow> string option \<Rightarrow> rat \<Rightarrow> money result" where
  "computeGatewayFee J amount storeAmount pct =
     (case storeAmount of
        None \<Rightarrow> Inr (fallback_fee J amount pct)
      | Some st \<Rightarrow>
          if st = '''' \<or> \<not> isNumeric st then Inr (fallback_fee J amount pct)
          else ebind (decimal_of st) (\<lambda>d.
            let fee = round2 (amount - d)
            in if 0 \<le> amount - d \<and> fee \<le> amount then Inr fee else Inr (fallback_fee J amount pct)))"

section \<open>What is kept of an answer\<close>

datatype jvalue = JString string | JNumber rat | JBool bool | JNullish | JOther string

definition SECRET_KEYS :: "string list" where
  "SECRET_KEYS = [''card_no'', ''card_number'', ''cardnumber'', ''pan'', ''cvv'', ''cvc'', ''store_passwd'', ''store_password'',
     ''verify_key'', ''verify_sign'', ''verify_sign_sha2'']"

definition has_infix :: "string \<Rightarrow> string \<Rightarrow> bool" where
  "has_infix p s \<longleftrightarrow> list_ex (\<lambda>i. starts_with p (drop i s)) [0..<Suc (length s)]"

definition card_digits :: "string \<Rightarrow> bool" where
  "card_digits s \<longleftrightarrow> (let d = filter (\<lambda>c. \<not> is_space c \<and> c \<noteq> CHR ''-'') s
     in list_all ascii_digit d \<and> 12 \<le> length d \<and> length d \<le> 19)"

definition keep_field :: "string \<times> jvalue \<Rightarrow> (string \<times> jvalue) list" where
  "keep_field kv =
     (let (k, v) = kv
      in if lower_s k \<in> set SECRET_KEYS then []
         else case v of
                JNullish \<Rightarrow> []
              | JString s \<Rightarrow> [(k, JString (if card_digits s \<and> has_infix ''card'' (lower_s k) then ''[redacted]'' else take 500 s))]
              | JOther s \<Rightarrow> [(k, JString (take 1000 s))]
              | _ \<Rightarrow> [(k, v)])"

definition sanitizeGatewayPayload :: "(string \<times> jvalue) list \<Rightarrow> (string \<times> jvalue) list" where
  "sanitizeGatewayPayload v = concat (map keep_field v)"

section \<open>Signatures\<close>

text \<open>\<open>md5\<close> is an argument: the hash is the platform's.\<close>

fun split_on :: "char \<Rightarrow> string \<Rightarrow> string list" where
  "split_on c [] = [[]]"
| "split_on c (x # xs) =
     (if x = c then [] # split_on c xs
      else (case split_on c xs of [] \<Rightarrow> [[x]] | y # ys \<Rightarrow> (x # y) # ys))"

definition payload_str :: "(string \<times> string) list \<Rightarrow> string \<Rightarrow> string" where
  "payload_str payload k = str_of (map_of payload k)"

definition join_amp :: "string list \<Rightarrow> string" where
  "join_amp parts = (case parts of [] \<Rightarrow> '''' | p # ps \<Rightarrow> p @ concat (map (\<lambda>q. ''&'' @ q) ps))"

definition signature_data :: "(string \<Rightarrow> string) \<Rightarrow> (string \<times> string) list \<Rightarrow> string \<Rightarrow> string \<Rightarrow> (string \<times> string) list" where
  "signature_data md5 payload verifyKey storePassword =
     AList.update ''store_passwd'' (md5 storePassword)
       (fold (\<lambda>k d. let key = js_trim k in if key \<noteq> '''' then AList.update key (payload_str payload key) d else d)
          (split_on CHR '','' verifyKey) [])"

definition computeSslSignature :: "(string \<Rightarrow> string) \<Rightarrow> (string \<times> string) list \<Rightarrow> string \<Rightarrow> string option" where
  "computeSslSignature md5 payload storePassword =
     (let verifyKey = payload_str payload ''verify_key''
      in if verifyKey = '''' then None
         else let data = signature_data md5 payload verifyKey storePassword
              in Some (md5 (join_amp (map (\<lambda>k. k @ ''='' @ str_of (map_of data k)) (sort (map fst data))))))"

definition verifySslSignature :: "(string \<Rightarrow> string) \<Rightarrow> (string \<times> string) list \<Rightarrow> string \<Rightarrow> bool" where
  "verifySslSignature md5 payload storePassword =
     (let sign = lower_s (payload_str payload ''verify_sign'')
      in case computeSslSignature md5 payload storePassword of
           None \<Rightarrow> False
         | Some e \<Rightarrow> sign \<noteq> '''' \<and> e \<noteq> '''' \<and> length sign = length e \<and> sign = e)"

definition SSL_MIN_AMOUNT :: money where "SSL_MIN_AMOUNT = 10"

definition SSL_MAX_AMOUNT :: money where "SSL_MAX_AMOUNT = 500000"

definition makeTranId :: "string \<Rightarrow> nat \<Rightarrow> string" where
  "makeTranId orderNo attempt = take 30 (orderNo @ ''-'' @ nat_string attempt)"

end
