(* ===== verification/Payments.thy ===== *)
theory Payments
  imports Cash Gateway
begin

text \<open>
  Gateway payments: the settlement of an attempt (\<open>payment-settlement.service.ts\<close>), the log of
  callbacks (\<open>payment-events.service.ts\<close>), the callback and IPN handlers
  (\<open>payment-callbacks.service.ts\<close>), the reconciler and the start of an attempt
  (\<open>payment-checkout.service.ts\<close>). The gateway's API is a record of functions; the events that are
  emitted are returned.
\<close>

datatype 'a reply = Reply 'a | Unreachable | Crash domain_error

record gateway_api =
  ga_validate :: "string \<Rightarrow> ssl_validation option reply"
  ga_query :: "string \<Rightarrow> tran_query option reply"

datatype pay_event =
    PaymentSucceeded id id money money string
  | PaymentFailed id id string

record payment_event =
  pv_eventKey :: string
  pv_signatureOk :: bool
  pv_paymentId :: "id option"
  pv_processedAt :: "time option"
  pv_error :: bool

record pay_desk = till +
  pd_events :: "payment_event list"
  pd_gatewayFeePct :: rat

definition PAY_OPEN :: "payment_status list" where
  "PAY_OPEN = [Pay_INITIATED, Pay_PENDING]"

definition FINAL_OK :: "payment_status list" where
  "FINAL_OK = [Pay_SUCCESS, Pay_REFUNDED]"

definition find_payment :: "(payment \<Rightarrow> bool) \<Rightarrow> 'a till_scheme \<Rightarrow> payment option" where
  "find_payment P s = find P (tl_payments s)"

text \<open>A conditional update: how many rows it changed, and the tables.\<close>

definition update_payments :: "(payment \<Rightarrow> bool) \<Rightarrow> (payment \<Rightarrow> payment) \<Rightarrow> 'a till_scheme \<Rightarrow> nat \<times> 'a till_scheme" where
  "update_payments P f s =
     (length (filter P (tl_payments s)), s\<lparr>tl_payments := map (\<lambda>p. if P p then f p else p) (tl_payments s)\<rparr>)"

section \<open>Settling\<close>

definition statusOf :: "id \<Rightarrow> 'a till_scheme \<Rightarrow> payment_status option" where
  "statusOf i s = map_option py_status (find_payment (\<lambda>p. py_id p = i) s)"

definition markPending :: "id \<Rightarrow> string \<Rightarrow> 'a till_scheme \<Rightarrow> 'a till_scheme" where
  "markPending i reason s = snd (update_payments (\<lambda>p. py_id p = i \<and> py_status p = Pay_INITIATED)
     (\<lambda>p. p\<lparr>py_status := Pay_PENDING, py_failureReason := Some (take 200 reason)\<rparr>) s)"

fun failed_status :: "not_paid_status \<Rightarrow> payment_status" where
  "failed_status NotPaid_FAILED = Pay_FAILED"
| "failed_status NotPaid_CANCELLED = Pay_CANCELLED"
| "failed_status NotPaid_EXPIRED = Pay_EXPIRED"

fun failed_word :: "not_paid_status \<Rightarrow> string" where
  "failed_word NotPaid_FAILED = ''failed''"
| "failed_word NotPaid_CANCELLED = ''cancelled''"
| "failed_word NotPaid_EXPIRED = ''expired''"

definition fail_payment :: "payment \<Rightarrow> not_paid_status \<Rightarrow> string \<Rightarrow> 'a till_scheme \<Rightarrow> pay_event list \<times> 'a till_scheme" where
  "fail_payment payment status reason s =
     (let (n, s) = update_payments (\<lambda>p. py_id p = py_id payment \<and> py_status p \<in> set PAY_OPEN)
            (\<lambda>p. p\<lparr>py_status := failed_status status, py_failureReason := Some (take 500 reason)\<rparr>) s
      in if n = 0 then ([], s)
         else ([PaymentFailed (py_id payment) (py_orderId payment) (take 300 (failed_word status @ '': '' @ reason))], s))"

text \<open>
  The transaction of a success: the row, and atomically with it the money in the gateway's balance.
  A constraint or the ledger may still reject it, and then nothing is written.
\<close>

definition settle_tx ::
  "payment \<Rightarrow> string \<Rightarrow> string option \<Rightarrow> string option \<Rightarrow> money \<Rightarrow> 'a till_scheme \<Rightarrow> (bool \<times> 'a till_scheme) result" where
  "settle_tx payment valId bankTranId risk fee s =
     (let (n, s') = update_payments (\<lambda>p. py_id p = py_id payment \<and> py_status p \<notin> set FINAL_OK)
            (\<lambda>p. p\<lparr>py_status := Pay_SUCCESS, py_valId := Some valId, py_bankTranId := bankTranId, py_riskLevel := risk,
                   py_fee := fee, py_succeededAt := Some (st_now s), py_failureReason := None\<rparr>) s
      in if n = 0 then Inr (False, s)
         else if fee < 0 then Inl (CheckViolation ''payments_amounts'')
         else ebind (recordGatewayCapture (py_orderId payment) (case find_order (py_orderId payment) s of Some r \<Rightarrow> or_orderNo r | None \<Rightarrow> [])
                       (str_of (py_tranId payment)) (py_amount payment) fee (Some (st_now s)) s') (\<lambda>s'. Inr (True, s')))"

definition settle_success ::
  "decimal_js \<Rightarrow> payment \<Rightarrow> string \<Rightarrow> string option \<Rightarrow> string option \<Rightarrow> string option \<Rightarrow> 'a pay_desk_scheme \<Rightarrow>
   (payment_status option \<times> pay_event list \<times> 'a pay_desk_scheme) result" where
  "settle_success J payment valId bankTranId risk storeAmount s =
     ebind (computeGatewayFee J (py_amount payment) storeAmount (pd_gatewayFeePct s)) (\<lambda>fee.
     ebind (settle_tx payment valId bankTranId risk fee s) (\<lambda>(won, s).
       if \<not> won then Inr (statusOf (py_id payment) s, [], s)
       else Inr (Some Pay_SUCCESS,
         [PaymentSucceeded (py_id payment) (py_orderId payment) (py_amount payment) fee (str_of (py_tranId payment))], s)))"

definition confirm ::
  "decimal_js \<Rightarrow> gateway_api \<Rightarrow> string \<Rightarrow> string \<Rightarrow> 'a pay_desk_scheme \<Rightarrow>
   (payment_status option \<times> pay_event list \<times> 'a pay_desk_scheme) result" where
  "confirm J api tranId valId s =
     (case find_payment (\<lambda>p. py_tranId p = Some tranId) s of
        None \<Rightarrow> Inr (None, [], s)
      | Some payment \<Rightarrow>
          let pend = (\<lambda>reason. let s = markPending (py_id payment) reason s in (statusOf (py_id payment) s, [], s));
              close = (\<lambda>status reason. let (evs, s) = fail_payment payment status reason s
                                       in (statusOf (py_id payment) s, evs, s))
          in if py_status payment \<in> set FINAL_OK then Inr (Some (py_status payment), [], s)
             else (case ga_validate api valId of
                     Unreachable \<Rightarrow> Inr (pend ''validation_unavailable'')
                   | Crash e \<Rightarrow> Inr (pend ''validation_unavailable'')
                   | Reply validation \<Rightarrow>
                       ebind (evaluateValidation \<lparr>ex_tranId = tranId, ex_amount = py_amount payment, ex_currency = py_currency payment\<rparr> validation)
                       (\<lambda>decision. case decision of
                          Foreign reason \<Rightarrow> Inr (Some (py_status payment), [], s)
                        | Pending reason \<Rightarrow> Inr (pend reason)
                        | Mismatch reason \<Rightarrow> Inr (close NotPaid_FAILED (''mismatch: '' @ reason))
                        | NotPaid st reason \<Rightarrow> Inr (close st reason)
                        | Success val bank risk \<Rightarrow>
                            settle_success J payment val bank risk
                              (case validation of None \<Rightarrow> None | Some v \<Rightarrow> sv_store_amount v) s)))"

definition reconcile ::
  "decimal_js \<Rightarrow> gateway_api \<Rightarrow> payment \<Rightarrow> (not_paid_status \<times> string) option \<Rightarrow> 'a pay_desk_scheme \<Rightarrow>
   (payment_status option \<times> pay_event list \<times> 'a pay_desk_scheme) result" where
  "reconcile J api payment fallback s =
     (let status_after = (\<lambda>(evs, s). (statusOf (py_id payment) s, evs, s))
      in if \<not> truthy (py_tranId payment) then Inr (Some (py_status payment), [], s)
         else (case ga_query api (str_of (py_tranId payment)) of
                 Crash e \<Rightarrow> Inl e
               | Unreachable \<Rightarrow> Inr (Some (py_status payment), [], s)
               | Reply q \<Rightarrow>
                   (case interpretTransactionQuery q (str_of (py_tranId payment)) of
                      Q_paid valId \<Rightarrow> confirm J api (str_of (py_tranId payment)) valId s
                    | Q_not_paid st reason \<Rightarrow> Inr (status_after (fail_payment payment st reason s))
                    | Q_none \<Rightarrow> Inr (status_after (case fallback of Some (st, reason) \<Rightarrow> fail_payment payment st reason s | None \<Rightarrow> ([], s)))
                    | Q_pending \<Rightarrow> Inr (status_after (case fallback of
                          Some (NotPaid_EXPIRED, reason) \<Rightarrow>
                            if py_status payment = Pay_PENDING then fail_payment payment NotPaid_EXPIRED reason s
                            else ([], markPending (py_id payment) ''gateway_pending'' s)
                        | _ \<Rightarrow> ([], markPending (py_id payment) ''gateway_pending'' s))))))"

section \<open>Callbacks\<close>

text \<open>The log: a key is stored once, and an earlier delivery that failed may be tried again.\<close>

definition record_event :: "string \<Rightarrow> bool \<Rightarrow> 'a pay_desk_scheme \<Rightarrow> (string \<times> bool) \<times> 'a pay_desk_scheme" where
  "record_event eventKey signatureOk s =
     (let key = take 120 eventKey
      in case find (\<lambda>e. pv_eventKey e = key) (pd_events s) of
           None \<Rightarrow> ((key, False), s\<lparr>pd_events := pd_events s @
               [\<lparr>pv_eventKey = key, pv_signatureOk = signatureOk, pv_paymentId = None, pv_processedAt = None, pv_error = False\<rparr>]\<rparr>)
         | Some e \<Rightarrow> ((key, pv_processedAt e \<noteq> None), s))"

definition done_event :: "string \<Rightarrow> id option \<Rightarrow> bool \<Rightarrow> 'a pay_desk_scheme \<Rightarrow> 'a pay_desk_scheme" where
  "done_event key paymentId error s =
     s\<lparr>pd_events := map (\<lambda>e. if pv_eventKey e = key
        then e\<lparr>pv_processedAt := (if error then None else Some (st_now s)), pv_error := error,
               pv_paymentId := (if paymentId = None then pv_paymentId e else paymentId)\<rparr> else e) (pd_events s)\<rparr>"

datatype callback_kind = CbSuccess | CbFail | CbCancel

fun kind_word :: "callback_kind \<Rightarrow> string" where
  "kind_word CbSuccess = ''success''" | "kind_word CbFail = ''fail''" | "kind_word CbCancel = ''cancel''"

record callback_body =
  cb_tran_id :: string
  cb_val_id :: string
  cb_status :: string
  cb_error :: string

definition event_key :: "string \<Rightarrow> callback_body \<Rightarrow> string" where
  "event_key kind body = kind @ '':'' @ cb_tran_id body @ '':'' @ (if cb_val_id body \<noteq> '''' then cb_val_id body else cb_status body)"

definition payment_of_body :: "callback_body \<Rightarrow> 'a till_scheme \<Rightarrow> payment option" where
  "payment_of_body body s =
     (if cb_tran_id body \<noteq> '''' then find_payment (\<lambda>p. py_tranId p = Some (cb_tran_id body)) s else None)"

text \<open>The browser's return: where it is sent, the events and the tables.\<close>

definition callback ::
  "decimal_js \<Rightarrow> gateway_api \<Rightarrow> callback_kind \<Rightarrow> callback_body \<Rightarrow> bool \<Rightarrow> 'a pay_desk_scheme \<Rightarrow>
   callback_kind \<times> pay_event list \<times> 'a pay_desk_scheme" where
  "callback J api kind body sigOk s =
     (let ((key, duplicate), s) = record_event (event_key (kind_word kind) body) sigOk s;
          payment = payment_of_body body s;
          r = (case payment of
                 None \<Rightarrow> Inr (kind, [], s)
               | Some p \<Rightarrow>
                   if duplicate then Inr (if py_status p = Pay_SUCCESS then CbSuccess else kind, [], s)
                   else if kind = CbSuccess \<and> cb_val_id body \<noteq> ''''
                   then ebind (confirm J api (cb_tran_id body) (cb_val_id body) s) (\<lambda>(st, evs, s).
                     Inr (if st = Some Pay_SUCCESS then CbSuccess else if st = Some Pay_CANCELLED then CbCancel else CbFail, evs, s))
                   else ebind (reconcile J api p
                            (if sigOk then Some (if kind = CbCancel then NotPaid_CANCELLED else NotPaid_FAILED,
                                                  if cb_error body \<noteq> '''' then cb_error body else kind_word kind) else None) s)
                     (\<lambda>(st, evs, s). Inr (if st = Some Pay_SUCCESS then CbSuccess else kind, evs, s)))
      in case r of
           Inr (result, evs, s) \<Rightarrow> (result, evs, done_event key (map_option py_id payment) False s)
         | Inl e \<Rightarrow> (kind, [], done_event key None True s))"

definition ipn ::
  "decimal_js \<Rightarrow> gateway_api \<Rightarrow> callback_body \<Rightarrow> bool \<Rightarrow> 'a pay_desk_scheme \<Rightarrow>
   (bool result) \<times> pay_event list \<times> 'a pay_desk_scheme" where
  "ipn J api body sigOk s =
     (let ((key, duplicate), s) = record_event (event_key ''ipn'' body) sigOk s
      in if duplicate then (Inr True, [], s)
         else if \<not> sigOk then (Inr False, [], done_event key None True s)
         else
           let payment = payment_of_body body s;
               r = (case payment of
                      None \<Rightarrow> Inr (None, [], s)
                    | Some p \<Rightarrow> if cb_val_id body \<noteq> '''' then confirm J api (cb_tran_id body) (cb_val_id body) s
                                else reconcile J api p None s)
           in case r of
                Inr (st, evs, s) \<Rightarrow> (Inr True, evs, done_event key (map_option py_id payment) False s)
              | Inl e \<Rightarrow> (Inl e, [], done_event key None True s))"

section \<open>The reconciler\<close>

definition EXPIRE_AFTER_MIN :: int where "EXPIRE_AFTER_MIN = 45"

definition stale_reason :: string where "stale_reason = ''no payment within 45 min''"

definition reconcile_batch :: "'a pay_desk_scheme \<Rightarrow> payment list" where
  "reconcile_batch s = take 50 (sort_key py_initiatedAt (filter (\<lambda>p. py_provider p = Some ''sslcommerz'' \<and>
     py_status p \<in> set PAY_OPEN \<and> py_initiatedAt p < st_now s - 5 * 60000) (tl_payments s)))"

definition reconcile_all :: "decimal_js \<Rightarrow> gateway_api \<Rightarrow> 'a pay_desk_scheme \<Rightarrow> pay_event list \<times> 'a pay_desk_scheme" where
  "reconcile_all J api s =
     (let cutoff = st_now s - EXPIRE_AFTER_MIN * 60000
      in foldl (\<lambda>(evs, s) p.
           case reconcile J api p (if py_initiatedAt p < cutoff then Some (NotPaid_EXPIRED, stale_reason) else None) s of
             Inr (st, evs', s) \<Rightarrow> (evs @ evs', s)
           | Inl e \<Rightarrow> (evs, s)) ([], s) (reconcile_batch s))"

section \<open>Starting an attempt\<close>

text \<open>
  The checks and the rows that \<open>init\<close> writes before it calls the gateway, and what it does with the
  gateway's answer.
\<close>

definition init_attempt ::
  "id option \<Rightarrow> bool \<Rightarrow> bool \<Rightarrow> order_row option \<Rightarrow> string \<Rightarrow> 'a till_scheme \<Rightarrow> (payment \<times> 'a till_scheme) result" where
  "init_attempt userCustomerId ownsByPhone staff order currency s =
     (case order of
        None \<Rightarrow> Inl (NotFoundError ''Order'' '''')
      | Some o' \<Rightarrow>
          if userCustomerId \<noteq> Some (or_customerId o') \<and> \<not> ownsByPhone \<and> \<not> staff then Inl (ForbiddenError ''payment.not_owner'')
          else if os_paymentMethod o' \<noteq> SSLCOMMERZ then Inl (BusinessRuleError ''payment.method_mismatch'')
          else if os_status o' = CANCELLED \<or> os_status o' = RETURNED then Inl (BusinessRuleError ''payment.order_closed'')
          else if os_paymentStatus o' \<noteq> UNPAID then Inl (BusinessRuleError ''payment.already_paid'')
          else
            let amount = or_grandTotal o' - or_amountPaid o'
            in if amount < SSL_MIN_AMOUNT \<or> amount > SSL_MAX_AMOUNT then Inl (BusinessRuleError ''payment.amount_out_of_range'')
               else
                 let attempt = Suc (length (filter (\<lambda>p. py_orderId p = or_id o') (tl_payments s)));
                     tranId = makeTranId (or_orderNo o') attempt;
                     (_, s) = update_payments (\<lambda>p. py_orderId p = or_id o' \<and> py_status p \<in> set PAY_OPEN)
                       (\<lambda>p. p\<lparr>py_status := Pay_CANCELLED, py_failureReason := Some ''superseded''\<rparr>) s;
                     (i, s) = fresh_id s;
                     p = \<lparr>py_id = i, py_orderId = or_id o', py_method = SSLCOMMERZ, py_provider = Some ''sslcommerz'',
                          py_status = Pay_INITIATED, py_amount = amount, py_fee = 0, py_currency = currency,
                          py_tranId = Some tranId, py_valId = None, py_bankTranId = None, py_riskLevel = None,
                          py_failureReason = None, py_initiatedAt = st_now s, py_succeededAt = None\<rparr>
                 in if list_ex (\<lambda>x. py_tranId x = Some tranId) (tl_payments s) then Inl (DomainError ''P2002'' 500)
                    else Inr (p, s\<lparr>tl_payments := tl_payments s @ [p]\<rparr>))"

record session_reply =
  sr_status :: string
  sr_GatewayPageURL :: string
  sr_failedreason :: string

definition init_finish :: "payment \<Rightarrow> session_reply reply \<Rightarrow> 'a till_scheme \<Rightarrow> (string result) \<times> 'a till_scheme" where
  "init_finish p answer s =
     (let fail = (\<lambda>reason. snd (update_payments (\<lambda>x. py_id x = py_id p)
            (\<lambda>x. x\<lparr>py_status := Pay_FAILED, py_failureReason := Some (take 500 reason)\<rparr>) s))
      in case answer of
           Unreachable \<Rightarrow> (Inl (BusinessRuleError ''payment.gateway_unavailable''), fail ''session: '')
         | Crash e \<Rightarrow> (Inl e, fail ''session: '')
         | Reply r \<Rightarrow>
             if upper_s (sr_status r) \<noteq> ''SUCCESS'' \<or> sr_GatewayPageURL r = ''''
             then (Inl (BusinessRuleError ''payment.session_failed''), fail (sr_failedreason r))
             else (Inr (sr_GatewayPageURL r), s))"

end
