(* ===== verification/Payment_Properties.thy ===== *)
theory Payment_Properties
  imports Payments Cash_Properties
begin

text \<open>
  What holds of gateway payments: when an answer counts as paid, what the fee may be, what is kept of
  an answer, and that the handlers, however their transactions interleave, let a payment succeed
  once and tell the orders once.
\<close>

section \<open>Answers\<close>

text \<open>
  A validation answer counts as a success exactly when it is about our transaction, says VALID or
  VALIDATED, names the currency we asked for and a numeric amount that equals ours to the paisa, and
  carries a validation id. Anything else is reported as something else.
\<close>

theorem success_iff:
  "(\<exists>val bank risk. evaluateValidation ex (Some v) = Inr (Success val bank risk)) \<longleftrightarrow>
     sv_tran_id v = Some (ex_tranId ex) \<and> ex_tranId ex \<noteq> '''' \<and>
     upper_s (str_of (sv_status v)) \<in> {''VALID'', ''VALIDATED''} \<and>
     upper_s (str_of (or_str (sv_currency_type v) (sv_currency v))) = upper_s (ex_currency ex) \<and>
     (\<exists>a d. (case sv_currency_amount v of Some a \<Rightarrow> Some a | None \<Rightarrow> sv_amount v) = Some a \<and>
        isNumeric a \<and> numeral_value a = Some d \<and> round2 d = round2 (ex_amount ex)) \<and>
     truthy (sv_val_id v)"
  (is "?L \<longleftrightarrow> ?R")
proof
  assume ?L
  then show ?R
    by (auto simp: evaluateValidation_def Let_def ebind_Inr_iff decimal_of_def PAID_WORDS_def truthy_def
        split: if_splits option.splits)
next
  assume r: ?R
  then obtain a d where a: "(case sv_currency_amount v of Some a \<Rightarrow> Some a | None \<Rightarrow> sv_amount v) = Some a" "isNumeric a"
    "numeral_value a = Some d" "round2 d = round2 (ex_amount ex)" by blast
  from r have s: "upper_s (str_of (sv_status v)) \<in> set PAID_WORDS" "upper_s (str_of (sv_status v)) \<noteq> ''INVALID_TRANSACTION''"
    by (auto simp: PAID_WORDS_def)
  show ?L using r a s by (simp add: evaluateValidation_def Let_def decimal_of_def truthy_def)
qed

lemma computeGatewayFee_cases:
  assumes "computeGatewayFee J amount st pct = Inr fee"
  shows "fee = fallback_fee J amount pct \<or> (\<exists>d. numeral_value (str_of st) = Some d \<and> fee = round2 (amount - d) \<and> 0 \<le> amount - d \<and> fee \<le> amount)"
  using assms
  by (auto simp: computeGatewayFee_def decimal_of_def Let_def ebind_Inr_iff str_of_def split: option.splits if_splits)

text \<open>
  The fee that is booked is between zero and the amount and in whole paisa, whatever the gateway
  answers; when the gateway says what it will pay out and that is not more than the amount, the fee
  is the difference.
\<close>

theorem gateway_fee_bounds:
  assumes "decimal_laws J" "computeGatewayFee J amount st pct = Inr fee"
    and "paisa amount" "0 \<le> amount" "amount \<le> 10 ^ 10" "0 \<le> pct" "pct \<le> 100" "paisa pct"
  shows "0 \<le> fee \<and> fee \<le> amount \<and> paisa fee \<and>
    (\<forall>s d. st = Some s \<and> s \<noteq> '''' \<and> numeral_value s = Some d \<and> paisa d \<and> d \<le> amount \<and> 0 \<le> d \<and> isNumeric s \<longrightarrow> fee = amount - d)"
proof -
  have fb: "0 \<le> fallback_fee J amount pct \<and> fallback_fee J amount pct \<le> amount \<and> paisa (fallback_fee J amount pct)"
    using decimal_laws.percentOf_le [OF assms(1)] decimal_laws.percentOf_nonneg [OF assms(1)] decimal_laws.percentOf_paisa [OF assms(1)] assms(3-8)
    by (auto simp: fallback_fee_def)
  have "0 \<le> fee \<and> fee \<le> amount \<and> paisa fee"
    using computeGatewayFee_cases [OF assms(2)] fb by auto
  moreover have "fee = amount - d"
    if "st = Some s" "s \<noteq> ''''" "numeral_value s = Some d" "paisa d" "d \<le> amount" "0 \<le> d" "isNumeric s" for s d
  proof -
    have "round2 (amount - d) = amount - d" using that(4) assms(3) by (intro round2_fixed) (rule money_intros)
    then show ?thesis using that assms(2) by (simp add: computeGatewayFee_def decimal_of_def Let_def split: if_splits)
  qed
  ultimately show ?thesis by blast
qed

theorem gateway_fee_bounds_witness:
  "\<exists>fee. computeGatewayFee decimal20 500 (Some ''487.50'') 2 = Inr fee \<and> 0 \<le> fee \<and> fee \<le> 500 \<and> fee = 500 - 975 / 2"
proof -
  have v: "numeral_value ''487.50'' = Some (975 / 2)" by code_simp
  have c: "computeGatewayFee decimal20 500 (Some ''487.50'') 2 = Inr (25 / 2)"
  proof -
    have "isNumeric ''487.50''" by code_simp
    moreover have "round2 (25 / 2) = 25 / 2" by (rule round2_fixed) (auto simp: paisa_def intro: exI [of _ 1250])
    ultimately show ?thesis by (simp add: computeGatewayFee_def decimal_of_def v Let_def)
  qed
  have "0 \<le> (25 / 2 :: rat) \<and> 25 / 2 \<le> (500 :: rat)"
    using gateway_fee_bounds [OF decimal20.decimal_laws_axioms c] by simp
  then show ?thesis using c by (intro exI [of _ "25 / 2"]) simp
qed

lemma keep_field_name: "(k, x) \<in> set (keep_field (k', y)) \<Longrightarrow> k' = k"
  by (cases y) (auto simp: keep_field_def split: if_splits)

text \<open>
  What is stored of a gateway's answer: no field with a secret's name, no empty field, and no text
  of twelve to nineteen digits under a name that mentions a card.
\<close>

theorem sanitized_payload:
  assumes "(k, x) \<in> set (sanitizeGatewayPayload v)"
  shows "lower_s k \<notin> set SECRET_KEYS \<and> x \<noteq> JNullish \<and> (\<exists>y. (k, y) \<in> set v) \<and>
    (\<forall>s. x = JString s \<longrightarrow> length s \<le> 1000) \<and>
    (\<forall>s. x = JString s \<and> has_infix ''card'' (lower_s k) \<and> (\<forall>s'. (k, JString s') \<in> set v \<longrightarrow> length s' \<le> 500) \<and>
       (\<forall>s'. (k, JOther s') \<notin> set v) \<longrightarrow> \<not> card_digits s)"
proof -
  from assms obtain y where y: "(k, y) \<in> set v" "(k, x) \<in> set (keep_field (k, y))"
  proof -
    from assms obtain k' y where m: "(k', y) \<in> set v" "(k, x) \<in> set (keep_field (k', y))"
      by (auto simp: sanitizeGatewayPayload_def)
    with keep_field_name [OF m(2)] show ?thesis by (intro that [of y]) simp_all
  qed
  have red: "\<not> card_digits ''[redacted]''" by code_simp
  from y(2) have k: "lower_s k \<notin> set SECRET_KEYS" by (auto simp: keep_field_def split: if_splits)
  show ?thesis using y k red by (cases y) (auto simp: keep_field_def split: if_splits)
qed

theorem sanitized_payload_witness:
  "sanitizeGatewayPayload [(''card_no'', JString ''4321491234560667''), (''Card_ref'', JString ''4321 4912 3456 0667''), (''amount'', JString ''500'')]
     = [(''Card_ref'', JString ''[redacted]''), (''amount'', JString ''500'')] \<and>
   lower_s ''Card_ref'' \<notin> set SECRET_KEYS"
proof -
  have s: "sanitizeGatewayPayload [(''card_no'', JString ''4321491234560667''), (''Card_ref'', JString ''4321 4912 3456 0667''), (''amount'', JString ''500'')]
     = [(''Card_ref'', JString ''[redacted]''), (''amount'', JString ''500'')]" by code_simp
  have "(''Card_ref'', JString ''[redacted]'') \<in> set (sanitizeGatewayPayload [(''card_no'', JString ''4321491234560667''),
     (''Card_ref'', JString ''4321 4912 3456 0667''), (''amount'', JString ''500'')])" by (simp add: s)
  from sanitized_payload [OF this] show ?thesis by (simp add: s)
qed

section \<open>Interleaved handlers\<close>

text \<open>
  The transactions the handlers are made of. Each works on a snapshot of the payment that it read
  earlier, so the snapshot is arbitrary: any handler may be overtaken between two of its steps.
\<close>

inductive pay_step :: "'a till_scheme \<Rightarrow> pay_event list \<Rightarrow> 'a till_scheme \<Rightarrow> bool" where
  Settle: "settle_tx p val bank risk fee s = Inr (won, s') \<Longrightarrow>
     pay_step s (if won then [PaymentSucceeded (py_id p) (py_orderId p) (py_amount p) fee (str_of (py_tranId p))] else []) s'"
| Fail: "fail_payment p st reason s = (evs, s') \<Longrightarrow> pay_step s evs s'"
| Pend: "pay_step s [] (markPending i reason s)"
| Start: "init_attempt c b staff o' cur s = Inr (p, s') \<Longrightarrow> pay_step s [] s'"
| Log: "till.truncate s' = till.truncate s \<Longrightarrow> pay_step s [] s'"

inductive pay_steps :: "'a till_scheme \<Rightarrow> pay_event list \<Rightarrow> 'a till_scheme \<Rightarrow> bool" where
  Stop: "pay_steps s [] s"
| Go: "pay_step s evs s1 \<Longrightarrow> pay_steps s1 evs' s2 \<Longrightarrow> pay_steps s (evs @ evs') s2"

definition desk_ok :: "'a till_scheme \<Rightarrow> bool" where
  "desk_ok s \<longleftrightarrow> till_ok s \<and> distinct (map py_id (tl_payments s)) \<and> (\<forall>p \<in> set (tl_payments s). issued s (py_id p))"

definition settled :: "'a till_scheme \<Rightarrow> id \<Rightarrow> bool" where
  "settled s i \<longleftrightarrow> (\<exists>p \<in> set (tl_payments s). py_id p = i \<and> py_status p \<in> set FINAL_OK)"

definition successes :: "id \<Rightarrow> pay_event list \<Rightarrow> nat" where
  "successes i evs = length (filter (\<lambda>e. case e of PaymentSucceeded j _ _ _ _ \<Rightarrow> j = i | _ \<Rightarrow> False) evs)"

lemma successes_simps [simp]: "successes i [] = 0" "successes i (xs @ ys) = successes i xs + successes i ys"
  "successes i [PaymentSucceeded j o' a f t] = (if j = i then 1 else 0)" "successes i [PaymentFailed j o' r] = 0"
  by (simp_all add: successes_def)

lemma update_payments_ids:
  assumes "update_payments P f s = (n, s')" "\<And>p. py_id (f p) = py_id p"
  shows "map py_id (tl_payments s') = map py_id (tl_payments s)" "beside s' = beside s\<lparr>tl_payments := tl_payments s'\<rparr>"
    "tl_issued s' = tl_issued s" "tl_uuid s' = tl_uuid s" "same_book s s'" "st_now s' = st_now s" "sh_orders s' = sh_orders s"
  using assms by (auto simp: update_payments_def same_book_def beside_def)

lemma desk_ok_update:
  assumes "desk_ok s" "update_payments P f s = (n, s')" "\<And>p. py_id (f p) = py_id p"
  shows "desk_ok s'"
proof -
  note u = update_payments_ids [OF assms(2,3)]
  have "py_id ` set (tl_payments s') = py_id ` set (tl_payments s)" using u(1) by (metis list.set_map)
  moreover have "\<forall>i \<in> py_id ` set (tl_payments s). issued s' i" using assms(1) u(3,4) by (auto simp: desk_ok_def issued_def)
  ultimately have "\<forall>p \<in> set (tl_payments s'). issued s' (py_id p)" by blast
  then show ?thesis
    using assms(1) u(1) same_book_ok(1) [OF u(5)] by (simp add: desk_ok_def)
qed

lemma settled_update:
  assumes "update_payments P f s = (n, s')" "\<And>p. py_id (f p) = py_id p"
  shows "settled s' i \<longleftrightarrow> (\<exists>p \<in> set (tl_payments s). py_id p = i \<and> py_status (if P p then f p else p) \<in> set FINAL_OK)"
proof -
  have s': "tl_payments s' = map (\<lambda>p. if P p then f p else p) (tl_payments s)" using assms(1) by (auto simp: update_payments_def)
  have i: "py_id (if P p then f p else p) = py_id p" for p by (simp add: assms(2))
  show ?thesis by (simp only: settled_def s' set_map bex_simps i)
qed

lemma capture_frame:
  assumes "recordGatewayCapture o' no t a fee d s = Inr s'" "till_ok s"
  shows "till_ok s' \<and> tl_payments s' = tl_payments s \<and> tl_uuid s' = tl_uuid s \<and> tl_issued s \<le> tl_issued s'"
proof (cases "has (captured o' no t) s")
  case True
  then show ?thesis using assms by (simp add: recordGatewayCapture_def Let_def)
next
  case False
  from capture_ok [OF assms False] obtain ts where "appends s ts s'" by blast
  then show ?thesis by (auto simp: appends_def accounts_grow_def dest: besideD)
qed

lemma settle_ok:
  assumes "settle_tx p val bank risk fee s = Inr (won, s')" "desk_ok s"
  shows "desk_ok s' \<and> (\<forall>i. settled s' i \<longleftrightarrow> settled s i \<or> won \<and> i = py_id p) \<and> (won \<longrightarrow> \<not> settled s (py_id p))"
proof -
  let ?P = "\<lambda>x. py_id x = py_id p \<and> py_status x \<notin> set FINAL_OK"
  let ?f = "\<lambda>x. x\<lparr>py_status := Pay_SUCCESS, py_valId := Some val, py_bankTranId := bank, py_riskLevel := risk,
                   py_fee := fee, py_succeededAt := Some (st_now s), py_failureReason := None\<rparr>"
  obtain n s1 where u: "update_payments ?P ?f s = (n, s1)" by fastforce
  show ?thesis
  proof (cases "n = 0")
    case True
    with assms(1) u have "won = False \<and> s' = s" by (simp add: settle_tx_def Let_def)
    then show ?thesis using assms(2) by simp
  next
    case False
    with assms(1) u obtain no where w: won and c: "recordGatewayCapture (py_orderId p) no (str_of (py_tranId p)) (py_amount p) fee (Some (st_now s)) s1 = Inr s'"
      by (auto simp: settle_tx_def Let_def ebind_Inr_iff split: if_splits)
    have d1: "desk_ok s1" using desk_ok_update [OF assms(2) u] by simp
    note fr = capture_frame [OF c]
    have fr': "till_ok s'" "tl_payments s' = tl_payments s1" "tl_uuid s' = tl_uuid s1" "tl_issued s1 \<le> tl_issued s'"
      using fr d1 by (simp_all add: desk_ok_def)
    have "desk_ok s'" using d1 fr' issued_mono [OF fr'(3,4)] by (simp add: desk_ok_def)
    moreover have st: "settled s1 i \<longleftrightarrow> (\<exists>x \<in> set (tl_payments s). py_id x = i \<and> py_status (if ?P x then ?f x else x) \<in> set FINAL_OK)" for i
      by (rule settled_update [OF u]) simp
    have "\<exists>x \<in> set (tl_payments s). ?P x"
      using u False by (auto simp: update_payments_def filter_empty_conv)
    then obtain x where x: "x \<in> set (tl_payments s)" "py_id x = py_id p" "py_status x \<notin> set FINAL_OK" by blast
    have one: "y = x" if "y \<in> set (tl_payments s)" "py_id y = py_id p" for y
      using that x assms(2) by (auto simp: desk_ok_def distinct_map inj_on_def)
    have "settled s1 i \<longleftrightarrow> settled s i \<or> i = py_id p" for i
    proof (cases "i = py_id p")
      case True
      then have "settled s1 i" unfolding st using x by (intro bexI [of _ x]) (simp_all add: FINAL_OK_def)
      then show ?thesis using True by simp
    next
      case False
      then show ?thesis unfolding st by (auto simp: settled_def)
    qed
    moreover have "settled s' = settled s1" by (simp add: settled_def fun_eq_iff fr'(2))
    moreover have "\<not> settled s (py_id p)" using one x(3) by (auto simp: settled_def)
    ultimately show ?thesis using w by simp
  qed
qed

lemma quiet_update:
  assumes "desk_ok s" "update_payments P f s = (n, s')" "\<And>p. py_id (f p) = py_id p"
    and "\<And>p. P p \<Longrightarrow> py_status p \<notin> set FINAL_OK \<and> py_status (f p) \<notin> set FINAL_OK"
  shows "desk_ok s' \<and> (\<forall>i. settled s' i = settled s i)"
proof -
  have "settled s' i = settled s i" for i
    unfolding settled_update [OF assms(2,3)] using assms(4) by (auto simp: settled_def)
  then show ?thesis using desk_ok_update [OF assms(1-3)] by blast
qed

lemma failed_not_ok [simp]: "failed_status st \<notin> set FINAL_OK"
  by (cases st) (simp_all add: FINAL_OK_def)

lemma open_not_ok [simp]: "x \<in> set PAY_OPEN \<Longrightarrow> x \<notin> set FINAL_OK" "Pay_CANCELLED \<notin> set FINAL_OK" "Pay_PENDING \<notin> set FINAL_OK"
  "Pay_INITIATED \<notin> set FINAL_OK"
  by (auto simp: PAY_OPEN_def FINAL_OK_def)

lemma fail_ok:
  assumes "fail_payment p st reason s = (evs, s')" "desk_ok s"
  shows "desk_ok s' \<and> (\<forall>i. settled s' i = settled s i) \<and> (\<forall>i. successes i evs = 0)"
proof -
  let ?P = "\<lambda>x. py_id x = py_id p \<and> py_status x \<in> set PAY_OPEN"
  let ?f = "\<lambda>x. x\<lparr>py_status := failed_status st, py_failureReason := Some (take 500 reason)\<rparr>"
  obtain n s1 where u: "update_payments ?P ?f s = (n, s1)" by fastforce
  with assms(1) have "s' = s1" "\<forall>i. successes i evs = 0" by (auto simp: fail_payment_def Let_def split: if_splits)
  then show ?thesis using quiet_update [OF assms(2) u] by simp
qed

lemma pend_ok:
  assumes "desk_ok s"
  shows "desk_ok (markPending i reason s) \<and> (\<forall>j. settled (markPending i reason s) j = settled s j)"
proof -
  let ?P = "\<lambda>p. py_id p = i \<and> py_status p = Pay_INITIATED"
  let ?f = "\<lambda>p. p\<lparr>py_status := Pay_PENDING, py_failureReason := Some (take 200 reason)\<rparr>"
  have u: "update_payments ?P ?f s = (fst (update_payments ?P ?f s), markPending i reason s)" by (simp add: markPending_def)
  show ?thesis using quiet_update [OF assms u] by simp
qed

lemma start_ok:
  assumes "init_attempt c b staff o' cur s = Inr (p, s')" "desk_ok s"
  shows "desk_ok s' \<and> (\<forall>i. settled s' i = settled s i)"
proof -
  from assms(1) obtain r where r: "o' = Some r" by (auto simp: init_attempt_def split: option.splits)
  let ?P = "\<lambda>p. py_orderId p = or_id r \<and> py_status p \<in> set PAY_OPEN"
  let ?f = "\<lambda>p. p\<lparr>py_status := Pay_CANCELLED, py_failureReason := Some ''superseded''\<rparr>"
  obtain n s1 where u: "update_payments ?P ?f s = (n, s1)" by fastforce
  obtain i s2 where f: "fresh_id s1 = (i, s2)" by fastforce
  from assms(1) r u f have s': "s' = s2\<lparr>tl_payments := tl_payments s2 @ [p]\<rparr>" "py_id p = i" "py_status p = Pay_INITIATED"
    by (auto simp: init_attempt_def Let_def split: if_splits)
  have q: "desk_ok s1 \<and> (\<forall>i. settled s1 i = settled s i)" using quiet_update [OF assms(2) u] by simp
  then have t1: "till_ok s1" by (simp add: desk_ok_def)
  note fr = fresh_id_ok [OF f t1]
  have s2: "till_ok s2" "tl_payments s2 = tl_payments s1" "tl_uuid s2 = tl_uuid s1" "tl_issued s2 = Suc (tl_issued s1)"
    using fr f by (auto simp: appends_def fresh_id_def)
  have i: "i = tl_uuid s1 (tl_issued s1)" using f by (simp add: fresh_id_def)
  have "\<not> issued s1 i" using t1 fresh_not_issued [of s1] by (simp add: i till_ok_def accounts_ok_def)
  then have new: "i \<notin> py_id ` set (tl_payments s1)" using q by (auto simp: desk_ok_def)
  have inew: "issued s' i" by (auto simp: issued_def s' s2(3,4) i)
  have book: "same_book s2 s'" by (simp add: same_book_def s')
  have mono: "issued s' j" if "issued s1 j" for j
    using that by (rule issued_mono [rotated 2]) (simp_all add: s' s2)
  have "desk_ok s'"
    using q new inew mono s2(1,2) same_book_ok(1) [OF book] by (auto simp: desk_ok_def s')
  moreover have "settled s' j = settled s1 j" for j
    by (auto simp: settled_def s' s2(2))
  ultimately show ?thesis using q by simp
qed

lemma log_ok:
  assumes "till.truncate s' = till.truncate s" "desk_ok s"
  shows "desk_ok s' \<and> (\<forall>i. settled s' i = settled s i)"
proof -
  have e: "tl_payments s' = tl_payments s" "tl_txns s' = tl_txns s" "tl_accounts s' = tl_accounts s" "tl_uuid s' = tl_uuid s"
    "tl_issued s' = tl_issued s"
    using assms(1) by (simp_all add: till.truncate_def)
  have "issued s' = issued s" by (simp add: issued_def fun_eq_iff e)
  moreover from this have "till_ok s' = till_ok s" by (simp add: till_ok_def accounts_ok_def txn_ok_def e)
  ultimately show ?thesis using assms(2) by (simp add: desk_ok_def settled_def e)
qed

lemma pay_step_ok:
  assumes "pay_step s evs s'" "desk_ok s"
  shows "desk_ok s' \<and> (settled s i \<longrightarrow> settled s' i) \<and>
    successes i evs = (if settled s' i \<and> \<not> settled s i then 1 else 0)"
  using assms(1)
proof (cases rule: pay_step.cases)
  case (Settle p val bank risk fee won)
  show ?thesis using settle_ok [OF Settle(2) assms(2)] by (auto simp: Settle(1))
next
  case (Fail p st reason)
  then show ?thesis using fail_ok [OF Fail assms(2)] by auto
next
  case (Pend j reason)
  then show ?thesis using pend_ok [OF assms(2)] by auto
next
  case (Start c b staff o' cur p)
  then show ?thesis using start_ok [OF _ assms(2)] by auto
next
  case Log
  then show ?thesis using log_ok [OF _ assms(2)] by auto
qed


definition sample_payment :: payment where
  "sample_payment = \<lparr>py_id = ''u'', py_orderId = ''o1'', py_method = SSLCOMMERZ, py_provider = Some ''sslcommerz'',
     py_status = Pay_PENDING, py_amount = 500, py_fee = 0, py_currency = ''BDT'', py_tranId = Some ''T1'', py_valId = None,
     py_bankTranId = None, py_riskLevel = None, py_failureReason = None, py_initiatedAt = 0, py_succeededAt = None\<rparr>"

definition sample_desk :: till where
  "sample_desk = sample_till\<lparr>tl_payments := [sample_payment]\<rparr>"

lemma sample_desk_ok: "desk_ok sample_desk"
proof -
  have "same_book sample_till sample_desk" by (simp add: same_book_def sample_desk_def)
  then have "till_ok sample_desk" using same_book_ok(1) sample_till_ok by blast
  moreover have "issued sample_desk ''u''" by (auto simp: issued_def sample_desk_def intro: exI [of _ 1])
  ultimately show ?thesis by (simp add: desk_ok_def sample_desk_def sample_payment_def)
qed


section \<open>The handlers are such sequences\<close>

lemma pay_step1: "pay_step s evs s' \<Longrightarrow> pay_steps s evs s'"
  using Go [OF _ Stop] by fastforce

lemma pay_steps_trans: "pay_steps s evs s1 \<Longrightarrow> pay_steps s1 evs' s2 \<Longrightarrow> pay_steps s (evs @ evs') s2"
  by (induction rule: pay_steps.induct) (auto simp: Go)

lemma fail_steps: "pay_steps s (fst (fail_payment p st reason s)) (snd (fail_payment p st reason s))"
  by (rule pay_step1, rule Fail [of p st reason]) simp

lemma pend_steps: "pay_steps s [] (markPending i reason s)"
  by (rule pay_step1, rule Pend)

lemma settle_success_steps:
  assumes "settle_success J p val bank risk st s = Inr (out, evs, s')"
  shows "pay_steps s evs s'"
proof -
  from assms obtain fee won s1 where t: "settle_tx p val bank risk fee s = Inr (won, s1)" "s' = s1"
    "evs = (if won then [PaymentSucceeded (py_id p) (py_orderId p) (py_amount p) fee (str_of (py_tranId p))] else [])"
    by (auto simp: settle_success_def ebind_Inr_iff split: if_splits)
  show ?thesis using pay_step1 [OF Settle [OF t(1)]] by (simp add: t(2,3))
qed

lemma fail_steps': "fail_payment p st reason s = (evs, s') \<Longrightarrow> pay_steps s evs s'"
  using fail_steps [of s p st reason] by simp

lemma confirm_steps:
  assumes "confirm J api t v s = Inr (out, evs, s')"
  shows "pay_steps s evs s'"
proof (cases "find_payment (\<lambda>p. py_tranId p = Some t) s")
  case None
  then show ?thesis using assms by (auto simp: confirm_def Stop)
next
  case (Some p)
  show ?thesis
  proof (cases "py_status p \<in> set FINAL_OK")
    case True
    then show ?thesis using assms Some by (auto simp: confirm_def Stop)
  next
    case False
    show ?thesis
    proof (cases "ga_validate api v")
      case (Reply validation)
      note r = assms [unfolded confirm_def Let_def, simplified Some False Reply option.case if_False reply.case]
      then obtain d where d: "evaluateValidation \<lparr>ex_tranId = t, ex_amount = py_amount p, ex_currency = py_currency p\<rparr> validation = Inr d"
        by (auto simp: ebind_Inr_iff)
      from r show ?thesis unfolding d
        by (cases d) (auto simp: case_prod_beta Stop pend_steps intro: settle_success_steps fail_steps')
    qed (use assms Some False in \<open>auto simp: confirm_def Let_def pend_steps\<close>)
  qed
qed

lemma reconcile_steps:
  assumes "reconcile J api p fb s = Inr (out, evs, s')"
  shows "pay_steps s evs s'"
  using assms
  by (auto simp: reconcile_def Let_def Stop pend_steps intro: confirm_steps fail_steps'
      split: option.splits if_splits reply.splits query_outcome.splits not_paid_status.splits prod.splits)

lemma log_steps:
  "pay_steps s [] (snd (record_event k b s))" "pay_steps s [] (done_event key i er s)"
  by (rule pay_step1, rule Log, simp add: record_event_def done_event_def Let_def till.truncate_def split: option.splits)+

lemma foldl_steps:
  assumes "\<And>evs s1 p. pay_steps s evs s1 \<Longrightarrow> pay_steps s (fst (f (evs, s1) p)) (snd (f (evs, s1) p))" "pay_steps s (fst a) (snd a)"
  shows "pay_steps s (fst (foldl f a ps)) (snd (foldl f a ps))"
  using assms(2)
proof (induction ps arbitrary: a)
  case (Cons p ps)
  then show ?case using assms(1) [of "fst a" "snd a" p] by simp
qed simp

lemma reconcile_all_steps: "pay_steps s (fst (reconcile_all J api s)) (snd (reconcile_all J api s))"
  unfolding reconcile_all_def Let_def
  by (rule foldl_steps) (auto intro: Stop pay_steps_trans reconcile_steps split: sum.split)

lemma closing:
  assumes "\<And>out evs s2. r = Inr (out, evs, s2) \<Longrightarrow> pay_steps s evs (g s2)" "pay_steps s [] s3"
  shows "pay_steps s (fst (snd (case r of Inr (out, evs, s) \<Rightarrow> (f out, evs, g s) | Inl e \<Rightarrow> (k e, [], s3))))
    (snd (snd (case r of Inr (out, evs, s) \<Rightarrow> (f out, evs, g s) | Inl e \<Rightarrow> (k e, [], s3))))"
  using assms by (cases r) auto

lemma callback_inner:
  assumes "(case payment of
                 None \<Rightarrow> Inr (kind, [], s)
               | Some p \<Rightarrow>
                   if duplicate then Inr (if py_status p = Pay_SUCCESS then CbSuccess else kind, [], s)
                   else if kind = CbSuccess \<and> v \<noteq> ''''
                   then ebind (confirm J api t v s) (\<lambda>(st, evs, s). Inr (res1 st, evs, s))
                   else ebind (reconcile J api p fb s) (\<lambda>(st, evs, s). Inr (res2 st, evs, s))) = Inr (out, evs, s')"
  shows "pay_steps s evs s'"
  using assms
  by (auto simp: ebind_Inr_iff intro: Stop confirm_steps reconcile_steps split: option.splits if_splits)

text \<open>
  C26. The three entry points do nothing but such transactions: each callback, each IPN and each run
  of the reconciler is a sequence of them, with the events it emits, whatever the gateway and the
  body of the request say.
\<close>

theorem handlers_are_steps:
  "pay_steps s (fst (snd (callback J api kind body sig s))) (snd (snd (callback J api kind body sig s))) \<and>
   pay_steps s (fst (snd (ipn J api body sig s))) (snd (snd (ipn J api body sig s))) \<and>
   pay_steps s (fst (reconcile_all J api s)) (snd (reconcile_all J api s))"
proof (intro conjI reconcile_all_steps)
  obtain key d s1 where r: "record_event (event_key (kind_word kind) body) sig s = ((key, d), s1)" by (metis prod.collapse)
  have s1: "pay_steps s [] s1" using log_steps(1) [of s "event_key (kind_word kind) body" sig] by (simp add: r)
  have go: "pay_steps s evs (done_event key i er s2)" if "pay_steps s1 evs s2" for evs i er s2
    using pay_steps_trans [OF pay_steps_trans [OF s1 that] log_steps(2)] by simp
  show "pay_steps s (fst (snd (callback J api kind body sig s))) (snd (snd (callback J api kind body sig s)))"
    unfolding callback_def r Let_def prod.case
    by (rule closing, erule callback_inner [THEN go], rule go [OF Stop])
next
  obtain key d s1 where r: "record_event (event_key ''ipn'' body) sig s = ((key, d), s1)" by (metis prod.collapse)
  have s1: "pay_steps s [] s1" using log_steps(1) [of s "event_key ''ipn'' body" sig] by (simp add: r)
  have go: "pay_steps s evs (done_event key i er s2)" if "pay_steps s1 evs s2" for evs i er s2
    using pay_steps_trans [OF pay_steps_trans [OF s1 that] log_steps(2)] by simp
  have inner: "pay_steps s1 evs s'" if "(case payment of None \<Rightarrow> Inr (None, [], s1)
      | Some p \<Rightarrow> if cb_val_id body \<noteq> '''' then confirm J api (cb_tran_id body) (cb_val_id body) s1
                   else reconcile J api p None s1) = Inr (st, evs, s')" for payment st evs s'
    using that by (auto intro: Stop confirm_steps reconcile_steps split: option.splits if_splits)
  show "pay_steps s (fst (snd (ipn J api body sig s))) (snd (snd (ipn J api body sig s)))"
  proof (cases "d \<or> \<not> sig")
    case True
    then show ?thesis using s1 go [OF Stop] by (auto simp: ipn_def r)
  next
    case False
    then have d: "d = False" "(\<not> sig) = False" by simp_all
    show ?thesis unfolding ipn_def r Let_def prod.case d if_False
      by (rule closing, erule inner [THEN go], rule go [OF Stop])
  qed
qed

end
