(* ===== verification/Refunds.thy ===== *)
theory Refunds
  imports Payments Cash_Properties
begin

text \<open>
  Refunds: the arithmetic of \<open>payments/refunds/domain/refund-math.ts\<close> and the service
  \<open>application/refunds.service.ts\<close>. \<open>create\<close> reads the order and its successful payments before its
  transaction starts, so the transaction has that snapshot as an argument; the gateway's refund API
  is a record of functions, and the calls made to it are returned.
\<close>

section \<open>The arithmetic\<close>

definition refundable :: "money \<Rightarrow> money \<Rightarrow> money \<Rightarrow> money" where
  "refundable amountPaid amountRefunded inFlight =
     (let r = amountPaid - amountRefunded - inFlight in if r < 0 then 0 else round2 r)"

text \<open>The code of the refusal, or the amount.\<close>

definition checkRefund :: "money \<Rightarrow> money \<Rightarrow> money \<Rightarrow> money \<Rightarrow> money option \<Rightarrow> string + money" where
  "checkRefund requested amountPaid amountRefunded inFlight paymentLimit =
     (let amount = round2 requested
      in if amount \<le> 0 then Inl ''refund.amount_invalid''
         else if amountPaid \<le> 0 then Inl ''refund.nothing_paid''
         else
           let max = refundable amountPaid amountRefunded inFlight
           in if max = 0 then Inl ''refund.fully_refunded''
              else if amount > max then Inl ''refund.exceeds_paid''
              else if (case paymentLimit of None \<Rightarrow> False | Some l \<Rightarrow> amount > l) then Inl ''refund.exceeds_payment''
              else Inr amount)"

definition paymentStatusAfterRefund :: "money \<Rightarrow> money \<Rightarrow> order_payment_status" where
  "paymentStatusAfterRefund amountPaid amountRefunded =
     (if amountPaid \<le> 0 then UNPAID
      else if amountRefunded \<le> 0 then PAID
      else if amountRefunded \<ge> amountPaid then REFUNDED else PARTIALLY_REFUNDED)"

definition mapGatewayRefundStatus :: "string option \<Rightarrow> refund_status" where
  "mapGatewayRefundStatus status =
     (let s = lower_s (str_of status)
      in if s \<in> {''success'', ''refunded'', ''done''} then Rf_COMPLETED
         else if s \<in> {''processing'', ''initiated'', ''pending''} then Rf_PROCESSING
         else Rf_FAILED)"

section \<open>The service\<close>

record refund_input =
  ri_amount :: money
  ri_method :: "payment_method option"
  ri_paymentId :: "id option"

record refund_answer =
  ra_status :: "string option"
  ra_refund_ref_id :: "string option"

record refund_api =
  rg_refund :: "string \<Rightarrow> money \<Rightarrow> id \<Rightarrow> refund_answer reply"
  rg_refundStatus :: "string \<Rightarrow> refund_answer reply"

definition success_payments :: "id \<Rightarrow> 'a till_scheme \<Rightarrow> payment list" where
  "success_payments orderId s = filter (\<lambda>p. py_orderId p = orderId \<and> py_status p = Pay_SUCCESS) (tl_payments s)"

definition gateway_payment :: "refund_input \<Rightarrow> payment list \<Rightarrow> payment option" where
  "gateway_payment input payments =
     (case ri_paymentId input of
        Some i \<Rightarrow> if i \<noteq> '''' then find (\<lambda>p. py_id p = i) payments else find (\<lambda>p. py_method p = SSLCOMMERZ) payments
      | None \<Rightarrow> find (\<lambda>p. py_method p = SSLCOMMERZ) payments)"

definition refund_method :: "refund_input \<Rightarrow> payment option \<Rightarrow> order_row \<Rightarrow> payment_method" where
  "refund_method input gp order =
     (case ri_method input of
        Some m \<Rightarrow> m
      | None \<Rightarrow> if gp \<noteq> None then SSLCOMMERZ else if os_paymentMethod order = COD then CASH else os_paymentMethod order)"

definition update_refund :: "id \<Rightarrow> (refund \<Rightarrow> refund) \<Rightarrow> 'a till_scheme \<Rightarrow> 'a till_scheme" where
  "update_refund i f s = s\<lparr>tl_refunds := map (\<lambda>r. if rf_id r = i then f r else r) (tl_refunds s)\<rparr>"

definition applyCompleted :: "id \<Rightarrow> string \<Rightarrow> id \<Rightarrow> payment_method \<Rightarrow> money \<Rightarrow> 'a till_scheme \<Rightarrow> ('a till_scheme) result" where
  "applyCompleted orderId orderNo refundId method amount s =
     ebind (set_order orderId (\<lambda>o'. o'\<lparr>or_amountRefunded := or_amountRefunded o' + amount\<rparr>) s) (\<lambda>s.
     ebind (set_order orderId (\<lambda>o'. o'\<lparr>os_paymentStatus := paymentStatusAfterRefund (or_amountPaid o') (or_amountRefunded o')\<rparr>) s) (\<lambda>s.
       recordRefund orderId orderNo refundId method amount None s))"

definition in_flight :: "id \<Rightarrow> 'a till_scheme \<Rightarrow> money" where
  "in_flight orderId s =
     sum_list (map rf_amount (filter (\<lambda>r. rf_orderId r = orderId \<and> rf_status r \<in> {Rf_REQUESTED, Rf_PROCESSING}) (tl_refunds s)))"

text \<open>The transaction of \<open>create\<close>.\<close>

definition refund_tx ::
  "order_row \<Rightarrow> payment option \<Rightarrow> payment_method \<Rightarrow> money \<Rightarrow> 'a till_scheme \<Rightarrow> (refund \<times> 'a till_scheme) result" where
  "refund_tx order gp method requested s =
     (case checkRefund requested (or_amountPaid order) (or_amountRefunded order) (in_flight (or_id order) s)
             (if method = SSLCOMMERZ then Some (case gp of Some p \<Rightarrow> py_amount p | None \<Rightarrow> 0) else None) of
        Inl code \<Rightarrow> Inl (BusinessRuleError code)
      | Inr amount \<Rightarrow>
          if method = SSLCOMMERZ \<and> \<not> truthy (case gp of Some p \<Rightarrow> py_bankTranId p | None \<Rightarrow> None)
          then Inl (BusinessRuleError ''refund.no_gateway_payment'')
          else
            let (i, s) = fresh_id s;
                row = \<lparr>rf_id = i, rf_orderId = or_id order, rf_paymentId = map_option py_id gp, rf_amount = amount, rf_method = method,
                       rf_status = (if method = SSLCOMMERZ then Rf_PROCESSING else Rf_COMPLETED), rf_providerRef = None,
                       rf_processedAt = (if method = SSLCOMMERZ then None else Some (st_now s))\<rparr>;
                s = s\<lparr>tl_refunds := tl_refunds s @ [row]\<rparr>
            in if find_order (or_id order) s = None then Inl (DomainError ''P2003'' 500)
               else if rf_amount row \<le> 0 then Inl (CheckViolation ''refunds_amount'')
               else if rf_status row = Rf_COMPLETED
               then ebind (applyCompleted (or_id order) (or_orderNo order) i method amount s) (\<lambda>s. Inr (row, s))
               else Inr (row, s))"

definition settleGateway :: "id \<Rightarrow> refund_status \<Rightarrow> string \<Rightarrow> 'a till_scheme \<Rightarrow> ('a till_scheme) result" where
  "settleGateway refundId status providerRef s =
     (case find (\<lambda>r. rf_id r = refundId) (tl_refunds s) of
        None \<Rightarrow> Inl (DomainError ''P2025'' 500)
      | Some r \<Rightarrow>
          if rf_status r = Rf_COMPLETED then Inr s
          else
            let s = update_refund refundId (\<lambda>r. r\<lparr>rf_status := status,
                      rf_providerRef := (if providerRef \<noteq> '''' then Some providerRef else rf_providerRef r),
                      rf_processedAt := (if status = Rf_COMPLETED then Some (st_now s) else None)\<rparr>) s
            in if status = Rf_COMPLETED
               then applyCompleted (rf_orderId r) (case find_order (rf_orderId r) s of Some o' \<Rightarrow> or_orderNo o' | None \<Rightarrow> [])
                      (rf_id r) (rf_method r) (rf_amount r) s
               else Inr s)"

text \<open>
  \<open>create\<close> from the snapshot on: the calls to the gateway, the answer, and the tables, which keep
  what was committed even where the answer is an error.
\<close>

definition create_from ::
  "refund_api \<Rightarrow> order_row \<Rightarrow> payment list \<Rightarrow> refund_input \<Rightarrow> 'a till_scheme \<Rightarrow> (string \<times> money) list \<times> id result \<times> 'a till_scheme" where
  "create_from api order payments input s =
     (let gp = gateway_payment input payments;
          method = refund_method input gp order
      in case refund_tx order gp method (ri_amount input) s of
           Inl e \<Rightarrow> ([], Inl e, s)
         | Inr (refund, s) \<Rightarrow>
             let bank = (case gp of Some p \<Rightarrow> py_bankTranId p | None \<Rightarrow> None)
             in if rf_method refund \<noteq> SSLCOMMERZ \<or> \<not> truthy bank then ([], Inr (rf_id refund), s)
                else
                  let calls = [(str_of bank, rf_amount refund)];
                      failed = (calls, Inl (BusinessRuleError ''refund.gateway_failed''),
                                update_refund (rf_id refund) (\<lambda>r. r\<lparr>rf_status := Rf_FAILED\<rparr>) s)
                  in case rg_refund api (str_of bank) (rf_amount refund) (take 30 (rf_id refund)) of
                       Reply res \<Rightarrow>
                         (case settleGateway (rf_id refund) (mapGatewayRefundStatus (ra_status res)) (str_of (ra_refund_ref_id res)) s of
                            Inr s \<Rightarrow> (calls, Inr (rf_id refund), s)
                          | Inl e \<Rightarrow> failed)
                     | _ \<Rightarrow> failed)"

definition create_refund ::
  "refund_api \<Rightarrow> id \<Rightarrow> refund_input \<Rightarrow> 'a till_scheme \<Rightarrow> (string \<times> money) list \<times> id result \<times> 'a till_scheme" where
  "create_refund api orderId input s =
     (case find_order orderId s of
        None \<Rightarrow> ([], Inl (NotFoundError ''Order'' orderId), s)
      | Some order \<Rightarrow> create_from api order (success_payments orderId s) input s)"

definition refresh_refund :: "refund_api \<Rightarrow> id \<Rightarrow> 'a till_scheme \<Rightarrow> (id \<times> 'a till_scheme) result" where
  "refresh_refund api refundId s =
     (case find (\<lambda>r. rf_id r = refundId) (tl_refunds s) of
        None \<Rightarrow> Inl (NotFoundError ''Refund'' refundId)
      | Some r \<Rightarrow>
          if rf_status r \<noteq> Rf_PROCESSING \<or> \<not> truthy (rf_providerRef r) then Inr (rf_id r, s)
          else (case rg_refundStatus api (str_of (rf_providerRef r)) of
                  Reply res \<Rightarrow> ebind (settleGateway (rf_id r) (mapGatewayRefundStatus (ra_status res)) (str_of (rf_providerRef r)) s)
                    (\<lambda>s. Inr (rf_id r, s))
                | Unreachable \<Rightarrow> Inl (DomainError ''SslGatewayError'' 500)
                | Crash e \<Rightarrow> Inl e))"

end
