(* ===== verification/Stock_Service.thy ===== *)
theory Stock_Service
  imports Stock_Laws Orders
begin

text \<open>
  The contract between the orders module and the inventory service: the locale lists what a
  transition relies on, and proves what its stock side effect does to the figures of a product. The
  interpretation at the end discharges the contract for \<open>inventory.service.ts\<close>.
\<close>

definition on_shelf :: "position \<Rightarrow> int" where
  "on_shelf x = (case x of None \<Rightarrow> 0 | Some (a, b) \<Rightarrow> a)"

definition on_hold :: "position \<Rightarrow> int" where
  "on_hold x = (case x of None \<Rightarrow> 0 | Some (a, b) \<Rightarrow> b)"

lemma on_shelf_pos: "on_shelf (pos s p) = on_hand s p"
  by (simp add: on_shelf_def pos_def on_hand_def split: option.split)

lemma on_hold_pos: "on_hold (pos s p) = reserved s p"
  by (simp add: on_hold_def pos_def reserved_def split: option.split)

lemma position_moves:
  "on_hold (hold q x) = (if x = None then 0 else on_hold x + q)"
  "on_shelf (hold q x) = on_shelf x" "on_shelf (unhold q x) = on_shelf x" "on_hold (unship q x) = on_hold x"
  "q \<le> on_hold x \<Longrightarrow> 0 \<le> q \<Longrightarrow> on_hold (unhold q x) = on_hold x - q"
  "q \<le> on_hold x \<Longrightarrow> 0 \<le> q \<Longrightarrow> on_hold (ship q x) = on_hold x - q"
  "on_shelf (ship q x) = (if x = None then 0 else on_shelf x - q)"
  "on_shelf (unship q x) = (if x = None then 0 else on_shelf x + q)"
  by (auto simp: on_hold_def on_shelf_def hold_def unhold_def ship_def unship_def split: option.splits)

lemma spread_nil [simp]: "spread h [] P = P"
  by (simp add: spread_def fun_eq_iff)

text \<open>The side effect of a transition, whatever its kind, on positions.\<close>

definition shift :: "stock_move \<Rightarrow> int \<Rightarrow> position \<Rightarrow> position" where
  "shift move = (case move of FULFIL \<Rightarrow> ship | RELEASE \<Rightarrow> unhold | RESTOCK \<Rightarrow> unship | NONE \<Rightarrow> (\<lambda>q x. x))"

lemma shift_simps [simp]:
  "shift FULFIL = ship" "shift RELEASE = unhold" "shift RESTOCK = unship" "shift NONE = (\<lambda>q x. x)"
  by (simp_all add: shift_def)

lemma spread_id [simp]: "spread (\<lambda>q x. x) ls P = P"
  by (simp add: spread_def fun_eq_iff)

locale stock_service =
  fixes ok :: "'s \<Rightarrow> bool" and place :: "'s \<Rightarrow> id \<Rightarrow> position" and others :: "'s \<Rightarrow> 'r"
    and reserve_m :: "stock_line list \<Rightarrow> stock_ctx \<Rightarrow> 's \<Rightarrow> 's result"
    and release_m :: "stock_line list \<Rightarrow> stock_ctx \<Rightarrow> 's \<Rightarrow> 's result"
    and restock_m :: "stock_line list \<Rightarrow> stock_ctx \<Rightarrow> 's \<Rightarrow> 's result"
    and fulfil_m :: "stock_line list \<Rightarrow> stock_ctx \<Rightarrow> 's \<Rightarrow> (low_stock_hit list \<times> 's) result"
  assumes reserve_law: "ok s \<Longrightarrow> reserve_m ls c s = Inr s' \<Longrightarrow>
      ok s' \<and> others s' = others s \<and> place s' = spread hold ls (place s)"
    and reserve_known: "reserve_m ls c s = Inr s' \<Longrightarrow> l \<in> set ls \<Longrightarrow> place s (fst l) \<noteq> None \<and> 0 < snd l"
    and release_law: "ok s \<Longrightarrow> release_m ls c s = Inr s' \<Longrightarrow>
      ok s' \<and> others s' = others s \<and> place s' = spread unhold ls (place s)"
    and restock_law: "ok s \<Longrightarrow> restock_m ls c s = Inr s' \<Longrightarrow>
      ok s' \<and> others s' = others s \<and> place s' = spread unship ls (place s)"
    and fulfil_law: "ok s \<Longrightarrow> fulfil_m ls c s = Inr (low, s') \<Longrightarrow>
      ok s' \<and> others s' = others s \<and> place s' = spread ship ls (place s)"
begin

lemma run_stock_law:
  assumes "ok s" "run_stock fulfil_m release_m restock_m move ls c s = Inr (low, s')"
  shows "ok s' \<and> others s' = others s \<and> place s' = spread (shift move) ls (place s)"
proof (cases "ls = []")
  case True
  with assms show ?thesis by (auto simp: run_stock_def)
next
  case False
  with assms show ?thesis
    by (cases move)
      (auto simp: run_stock_def ebind_Inr_iff dest: fulfil_law release_law restock_law)
qed

text \<open>
  When the lines are covered by the hold, shipping and releasing give the hold back exactly; goods
  leave the shelf when shipped and come back when restocked.
\<close>

lemma run_stock_figures:
  assumes "ok s" "run_stock fulfil_m release_m restock_m move ls c s = Inr (low, s')"
    and "0 \<le> units ls p" "move \<in> {FULFIL, RELEASE} \<Longrightarrow> units ls p \<le> on_hold (place s p)"
  shows "on_hold (place s' p) = on_hold (place s p) - (if move \<in> {FULFIL, RELEASE} then units ls p else 0)"
    and "place s p \<noteq> None \<Longrightarrow> on_shelf (place s' p) = on_shelf (place s p) +
      (case move of FULFIL \<Rightarrow> - units ls p | RESTOCK \<Rightarrow> units ls p | _ \<Rightarrow> 0)"
    and "place s' p = None \<longleftrightarrow> place s p = None"
proof -
  have p: "place s' p = spread (shift move) ls (place s) p" using run_stock_law [OF assms(1,2)] by simp
  show "on_hold (place s' p) = on_hold (place s p) - (if move \<in> {FULFIL, RELEASE} then units ls p else 0)"
    using assms(3,4) unfolding p
    by (cases move) (auto simp: spread_def shift_def position_moves units_notin)
  show "place s p \<noteq> None \<Longrightarrow> on_shelf (place s' p) = on_shelf (place s p) +
      (case move of FULFIL \<Rightarrow> - units ls p | RESTOCK \<Rightarrow> units ls p | _ \<Rightarrow> 0)"
    unfolding p by (cases move) (auto simp: spread_def shift_def position_moves units_notin)
  show "place s' p = None \<longleftrightarrow> place s p = None"
    unfolding p by (cases move) (auto simp: spread_def shift_def ship_def unhold_def unship_def)
qed

lemma reserve_figures:
  assumes "ok s" "reserve_m ls c s = Inr s'"
  shows "on_hold (place s' p) = on_hold (place s p) + units ls p" "on_shelf (place s' p) = on_shelf (place s p)"
    "0 \<le> units ls p" "place s' p = None \<longleftrightarrow> place s p = None"
proof -
  have p: "place s' p = spread hold ls (place s) p" using reserve_law [OF assms] by simp
  have known: "p \<in> fst ` set ls \<Longrightarrow> place s p \<noteq> None" using reserve_known [OF assms(2)] by auto
  show "on_hold (place s' p) = on_hold (place s p) + units ls p"
    unfolding p using known by (cases "p \<in> fst ` set ls") (auto simp: spread_def position_moves units_notin simp del: not_None_eq)
  show "on_shelf (place s' p) = on_shelf (place s p)"
    unfolding p by (auto simp: spread_def position_moves)
  show "0 \<le> units ls p"
    unfolding units_def by (rule sum_list_nonneg) (use reserve_known [OF assms(2)] in \<open>auto intro: less_imp_le\<close>)
  show "place s' p = None \<longleftrightarrow> place s p = None" unfolding p by (auto simp: spread_def hold_def)
qed

end

section \<open>The inventory service keeps the contract\<close>

lemma reserve_one_exists: "reserve_one ctx l s = Inr s' \<Longrightarrow> st_products s (fst l) \<noteq> None"
  by (auto simp: reserve_one_def Let_def split: prod.splits option.splits)

lemma reserve_one_dom: "reserve_one ctx l s = Inr s' \<Longrightarrow> st_products s' x = None \<longleftrightarrow> st_products s x = None"
  by (auto simp: reserve_one_def Let_def stock_err log_movement_def split: prod.splits option.splits if_splits)

lemma reserve_loop_exists:
  "efold (reserve_one ctx) ls s = Inr s' \<Longrightarrow> l \<in> set ls \<Longrightarrow> st_products s (fst l) \<noteq> None"
proof (induction ls arbitrary: s)
  case (Cons x ls)
  then obtain s1 where "reserve_one ctx x s = Inr s1" "efold (reserve_one ctx) ls s1 = Inr s'"
    by (auto simp: ebind_Inr_iff)
  then show ?case
    using Cons.IH [of s1] Cons.prems(2) reserve_one_exists [of ctx x s] reserve_one_dom [of ctx x s s1] by auto
qed simp

lemma reserve_known_products:
  assumes "reserve ls ctx s = Inr s'" "l \<in> set ls"
  shows "pos s (fst l) \<noteq> None \<and> 0 < snd l"
proof -
  from assms(1) obtain ms where ms: "merge_lines ls = Inr ms" "efold (reserve_one ctx) ms s = Inr s'"
    by (auto simp: reserve_def ebind_Inr_iff)
  have "fst l \<in> fst ` set ms" using merge_linesD(4) [OF ms(1)] assms(2) by (metis imageI)
  then have "st_products s (fst l) \<noteq> None" using reserve_loop_exists [OF ms(2)] by auto
  then show ?thesis using merge_linesD(1) [OF ms(1)] assms(2) by (simp add: pos_def)
qed

interpretation inventory: stock_service store_ok pos rest_of reserve release restock "fulfill J" for J
  by unfold_locales
    (auto dest: reserve_ok release_ok restock_ok fulfill_ok reserve_known_products)

end
