(* ===== verification/Order_Laws.thy ===== *)
theory Order_Laws
  imports Stock_Service
begin

text \<open>
  The books of the orders module: what every transition and reopening keeps across the tables. The
  hold on a product is the sum of what the live orders hold, the customers' counters and the usage
  of the coupons are the counts they stand for, and goods never appear or vanish.
\<close>

section \<open>Only the orders' tables\<close>

definition same_store :: "'a store_scheme \<Rightarrow> 'b store_scheme \<Rightarrow> bool" where
  "same_store s s' \<longleftrightarrow> st_now s' = st_now s \<and> st_nextId s' = st_nextId s \<and> st_products s' = st_products s \<and>
     st_lots s' = st_lots s \<and> st_uses s' = st_uses s \<and> st_moves s' = st_moves s \<and> st_items s' = st_items s"

lemma same_store_refl [simp]: "same_store s s"
  by (simp add: same_store_def)

lemma same_store_trans: "same_store s t \<Longrightarrow> same_store t u \<Longrightarrow> same_store s u"
  by (simp add: same_store_def)

lemma same_storeD:
  assumes "same_store s s'"
  shows "pos s' = pos s" "store_ok s' = store_ok s" "items_of s' i = items_of s i"
    "on_hand s' p = on_hand s p" "reserved s' p = reserved s p" "unexplained s' = unexplained s"
proof -
  note a = assms [unfolded same_store_def]
  show "pos s' = pos s" "items_of s' i = items_of s i" "on_hand s' p = on_hand s p" "reserved s' p = reserved s p"
    using a by (simp_all add: pos_def items_of_def on_hand_def reserved_def fun_eq_iff)
  have "on_hand s' = on_hand s" "lots_left s' = lots_left s" "outstanding s' = outstanding s" "ledger s' = ledger s"
    using a by (simp_all add: on_hand_def lots_left_def outstanding_def ledger_def fun_eq_iff)
  then show "store_ok s' = store_ok s" "unexplained s' = unexplained s"
    using a by (simp_all add: store_ok_def shelf_ok_def lots_ok_def unexplained_def fun_eq_iff)
qed

lemma same_store_writers [simp]:
  "same_store s (update_coupon i f s)" "same_store s (set_revoked i t s)" "same_store s (add_history h s)"
  "same_store s (snd (revoke i s))" "same_store s (snd (restore i s))"
  by (auto simp: same_store_def update_coupon_def set_revoked_def add_history_def revoke_def restore_def
      split: option.split)

text \<open>A stock method keeps the orders' tables, and the lines of every order.\<close>

lemma rest_of_shop:
  fixes s s' :: "'a shop_scheme"
  assumes "rest_of s' = rest_of s"
  shows "sh_orders s' = sh_orders s" "sh_customers s' = sh_customers s" "sh_coupons s' = sh_coupons s"
    "sh_redemptions s' = sh_redemptions s" "sh_history s' = sh_history s" "st_now s' = st_now s"
    "shop.more s' = shop.more s"
  using assms by (cases s; cases s'; simp add: rest_of_def)+

definition order_lines :: "'a store_scheme \<Rightarrow> id \<Rightarrow> stock_line list" where
  "order_lines s i = stockLinesOf (items_of s i)"

lemma order_lines_rest:
  assumes "rest_of s' = rest_of s"
  shows "order_lines s' i = order_lines s i"
proof -
  let ?g = "\<lambda>(ord, kind, p, q, cs). (case p of Some p \<Rightarrow> if kind = PRODUCT \<and> p \<noteq> '''' then [(p, q)] else []
    | None \<Rightarrow> []) @ cs"
  have "item_lines = (\<lambda>i. ?g (item_shape i))"
    by (auto simp: item_lines_def item_shape_def fun_eq_iff split: option.split)
  then have "order_lines t i = concat (map ?g (filter (\<lambda>h. fst h = i) (map item_shape (st_items t))))" for t :: "'a store_scheme"
    by (simp add: order_lines_def stockLinesOf_def items_of_def filter_map comp_def item_shape_def)
  then show ?thesis using assms by (simp add: rest_of_def)
qed

section \<open>One order changes\<close>

lemma sum_one_order:
  fixes g :: "order_row \<Rightarrow> 'v::ab_group_add"
  assumes "distinct (map or_id os)" "r \<in> set os"
  shows "sum_list (map g (map (\<lambda>o'. if or_id o' = or_id r then f o' else o') os)) =
    sum_list (map g os) + g (f r) - g r"
  using sum_update_one [OF assms, where P = "\<lambda>_. True" and g = g and f = f] by simp

lemma update_orderD:
  assumes "update_order (or_id r) (or_version r) f s = Inr (n, s')" "n \<noteq> 0"
    "distinct (map or_id (sh_orders s))" "r \<in> set (sh_orders s)"
  shows "s' = s\<lparr>sh_orders := map (\<lambda>o'. if or_id o' = or_id r then f o' else o') (sh_orders s)\<rparr>"
    "check_order (f r) = Inr ()"
proof -
  from assms(1,2) obtain x where x: "find (\<lambda>o'. or_id o' = or_id r \<and> or_version o' = or_version r) (sh_orders s) = Some x"
    "check_order (f x) = Inr ()" "s' = s\<lparr>sh_orders := map (\<lambda>o'. if or_id o' = or_id r then f o' else o') (sh_orders s)\<rparr>"
    by (auto simp: update_order_def err_simps split: option.splits)
  then have "x \<in> set (sh_orders s)" "or_id x = or_id r" by (auto simp: find_Some_iff)
  then have "x = r" using assms(3,4) by (auto simp: distinct_map inj_on_def)
  with x show "s' = s\<lparr>sh_orders := map (\<lambda>o'. if or_id o' = or_id r then f o' else o') (sh_orders s)\<rparr>"
    "check_order (f r) = Inr ()" by auto
qed

lemma order_by_ref_mem: "order_by_ref ref s = Some r \<Longrightarrow> r \<in> set (sh_orders s)"
  by (auto simp: order_by_ref_def find_order_def find_Some_iff in_set_conv_nth split: option.splits order_ref.splits)

text \<open>Inversion of a committed transition and of a committed reopening, step by step.\<close>

definition written :: "id \<Rightarrow> (order_row \<Rightarrow> order_row) \<Rightarrow> 'a shop_scheme \<Rightarrow> 'a shop_scheme" where
  "written i f s = s\<lparr>sh_orders := map (\<lambda>o'. if or_id o' = i then f o' else o') (sh_orders s)\<rparr>"

lemma check_order_iff: "check_order r = Inr () \<longleftrightarrow> (\<forall>c \<in> set (orders_checks r). snd c)"
proof (cases "find (\<lambda>c. \<not> snd c) (orders_checks r)")
  case None
  have "check_order r = Inr ()" using None by (simp add: check_order_def)
  moreover have "\<forall>c \<in> set (orders_checks r). snd c" using None [unfolded find_None_iff] by blast
  ultimately show ?thesis by blast
next
  case (Some c)
  from find_SomeD [OF this] show ?thesis using Some by (auto simp: check_order_def)
qed

lemma check_orderD: "check_order r = Inr () \<Longrightarrow> or_amountRefunded r \<le> or_amountPaid r \<and> 0 \<le> or_amountRefunded r"
  by (simp add: check_order_iff orders_checks_def)

lemma set_orderD:
  assumes "set_order i f s = Inr s'"
  shows "\<exists>r. find_order i s = Some r \<and> check_order (f r) = Inr () \<and> s' = written i f s"
  using assms by (auto simp: set_order_def ebind_Inr_iff written_def split: option.splits)

lemma find_orderD: "find_order i s = Some r \<Longrightarrow> r \<in> set (sh_orders s) \<and> or_id r = i"
  by (auto simp: find_order_def dest: find_SomeD)

lemma same_store_written [simp]: "same_store s (written i f s)"
  by (simp add: same_store_def written_def)

lemma order_lines_same_store: "same_store s s' \<Longrightarrow> order_lines s' i = order_lines s i"
  by (simp add: order_lines_def same_storeD)

definition bookkeep :: "transition_plan \<Rightarrow> order_row \<Rightarrow> actor \<Rightarrow> 'a shop_scheme \<Rightarrow> ('a shop_scheme) result" where
  "bookkeep plan order a s =
     (let s = (if tp_revokeCoupon plan then snd (revoke (or_id order) s) else s)
      in ebind (if tp_closes plan \<or> tp_voids plan
                then update_customer (or_customerId order) (close_customer plan (or_grandTotal order)) s
                else Inr s) (\<lambda>s.
         Inr (add_history \<lparr>hi_orderId = or_id order, hi_fromStatus = Some (tp_from plan),
                           hi_toStatus = tp_to plan, hi_actorType = a\<rparr> s)))"

lemma apply_tx_Inr:
  assumes "apply_tx J ref cmd by_a s = Inr (plan, ev, s')" "distinct (map or_id (sh_orders s))"
  obtains order low s2 where
    "order \<in> set (sh_orders s)" "order_by_ref ref s = Some order"
    "planTransition order \<lparr>rq_to = tc_to cmd, rq_mode = tc_mode cmd, rq_actor = ac_type by_a,
       rq_credit = map_option (\<lambda>(reason, loss). \<lparr>ci_reason = reason, ci_courierLoss = round2 (D loss)\<rparr>) (tc_credit cmd),
       rq_now = st_now s\<rparr> = Inr plan"
    "check_order (write_plan plan (tc_note cmd) (st_now s) order) = Inr ()"
    "run_stock (fulfill J) release restock (tp_stock plan) (order_lines s (or_id order))
       \<lparr>sc_orderId = Some (or_id order), sc_purchaseId = None\<rparr>
       (written (or_id order) (write_plan plan (tc_note cmd) (st_now s)) s) = Inr (low, s2)"
    "bookkeep plan order (ac_type by_a) s2 = Inr s'" "pe_lowStock ev = low"
    "pe_paid ev = (if tp_markPaid plan then Some (or_id order, or_grandTotal order) else None)"
    "pe_statusChanged ev = \<lparr>se_orderId = or_id order, se_from = tp_from plan, se_to = tp_to plan, se_credit = tp_credit plan\<rparr>"
proof -
  from assms(1) obtain order where o: "order_by_ref ref s = Some order"
    by (auto simp: apply_tx_def split: option.splits)
  note mem = order_by_ref_mem [OF o]
  from assms(1) o have p: "planTransition order \<lparr>rq_to = tc_to cmd, rq_mode = tc_mode cmd, rq_actor = ac_type by_a,
       rq_credit = map_option (\<lambda>(reason, loss). \<lparr>ci_reason = reason, ci_courierLoss = round2 (D loss)\<rparr>) (tc_credit cmd),
       rq_now = st_now s\<rparr> = Inr plan"
    by (auto simp: apply_tx_def Let_def ebind_Inr_iff split: if_splits sum.splits prod.splits)
  let ?f = "write_plan plan (tc_note cmd) (st_now s)"
  from assms(1) o p obtain n s1 where u: "update_order (or_id order) (or_version order) ?f s = Inr (n, s1)" "n \<noteq> 0"
    by (auto simp: apply_tx_def Let_def ebind_Inr_iff split: if_splits prod.splits)
  note w = update_orderD [OF u assms(2) mem]
  have s1: "s1 = written (or_id order) ?f s" by (simp add: w(1) written_def)
  have lines: "stockLinesOf (items_of s1 (or_id order)) = order_lines s (or_id order)"
    by (simp add: s1 order_lines_def items_of_def written_def)
  from assms(1) o p u obtain low s2 where r: "run_stock (fulfill J) release restock (tp_stock plan)
      (order_lines s (or_id order)) \<lparr>sc_orderId = Some (or_id order), sc_purchaseId = None\<rparr> s1 = Inr (low, s2)"
    by (auto simp: apply_tx_def Let_def ebind_Inr_iff lines split: if_splits prod.splits)
  from assms(1) o p u r have b: "bookkeep plan order (ac_type by_a) s2 = Inr s'" "pe_lowStock ev = low"
    "pe_paid ev = (if tp_markPaid plan then Some (or_id order, or_grandTotal order) else None)"
    "pe_statusChanged ev = \<lparr>se_orderId = or_id order, se_from = tp_from plan, se_to = tp_to plan, se_credit = tp_credit plan\<rparr>"
    by (simp_all add: apply_tx_def Let_def lines bookkeep_def ebind_def split: if_splits sum.splits)
      auto
  show thesis by (rule that [OF mem o p w(2) r [unfolded s1] b])
qed

lemma reopen_tx_Inr:
  assumes "reopen_tx ref reason to_o v by_a s = Inr (ev, s')" "distinct (map or_id (sh_orders s))"
  obtains order to_t s2 where
    "order \<in> set (sh_orders s)"
    "planReopen order (or_cancelledFrom order) \<lparr>rr_to = to_o, rr_reason = reason, rr_actor = ac_type by_a\<rparr> =
       Inr (os_status order, to_t)"
    "check_order (write_reopen to_t (st_now s) order) = Inr ()"
    "(if order_lines s (or_id order) \<noteq> [] then reserve (order_lines s (or_id order))
         \<lparr>sc_orderId = Some (or_id order), sc_purchaseId = None\<rparr> (written (or_id order) (write_reopen to_t (st_now s)) s)
       else Inr (written (or_id order) (write_reopen to_t (st_now s)) s)) = Inr s2"
    "ebind (update_customer (or_customerId order) (reopen_customer (or_grandTotal order)) (snd (restore (or_id order) s2)))
       (\<lambda>s. Inr (add_history \<lparr>hi_orderId = or_id order, hi_fromStatus = Some (os_status order),
                              hi_toStatus = reopen_status to_t, hi_actorType = ac_type by_a\<rparr> s)) = Inr s'"
proof -
  from assms(1) obtain order where o: "order_by_ref ref s = Some order"
    by (auto simp: reopen_tx_def split: option.splits)
  note mem = order_by_ref_mem [OF o]
  from assms(1) o obtain from_s to_t where p0: "planReopen order (or_cancelledFrom order)
      \<lparr>rr_to = to_o, rr_reason = reason, rr_actor = ac_type by_a\<rparr> = Inr (from_s, to_t)"
    by (auto simp: reopen_tx_def Let_def split: if_splits sum.splits)
  then have from_s: "from_s = os_status order" by (auto simp: planReopen_def Let_def split: if_splits)
  note p = p0 [unfolded from_s]
  let ?f = "write_reopen to_t (st_now s)"
  from assms(1) o p obtain n s1 where u: "update_order (or_id order) (or_version order) ?f s = Inr (n, s1)" "n \<noteq> 0"
    by (auto simp: reopen_tx_def Let_def ebind_Inr_iff split: if_splits prod.splits)
  note w = update_orderD [OF u assms(2) mem]
  have s1: "s1 = written (or_id order) ?f s" by (simp add: w(1) written_def)
  have lines: "stockLinesOf (items_of s1 (or_id order)) = order_lines s (or_id order)"
    by (simp add: s1 order_lines_def items_of_def written_def)
  from assms(1) o p u obtain s2 where r: "(if order_lines s (or_id order) \<noteq> [] then reserve (order_lines s (or_id order))
      \<lparr>sc_orderId = Some (or_id order), sc_purchaseId = None\<rparr> s1 else Inr s1) = Inr s2"
    "ebind (update_customer (or_customerId order) (reopen_customer (or_grandTotal order)) (snd (restore (or_id order) s2)))
       (\<lambda>s. Inr (add_history \<lparr>hi_orderId = or_id order, hi_fromStatus = Some (os_status order),
                              hi_toStatus = reopen_status to_t, hi_actorType = ac_type by_a\<rparr> s)) = Inr s'"
    by (auto simp: reopen_tx_def Let_def ebind_Inr_iff lines split: if_splits prod.splits)
  show thesis by (rule that [OF mem p w(2) r(1) [unfolded s1] r(2)])
qed

section \<open>Stock and stages\<close>

text \<open>Where the goods of an order are, read off its status.\<close>

definition stage_ok :: "order_row \<Rightarrow> bool" where
  "stage_ok r \<longleftrightarrow>
     (os_stockReserved r \<longleftrightarrow> os_status r \<in> {PENDING, CONFIRMED, PROCESSING}) \<and>
     (os_status r \<in> {PENDING, CONFIRMED, PROCESSING} \<longrightarrow> os_shippedAt r = None) \<and>
     (os_status r \<in> {HANDED_TO_COURIER, OUT_FOR_DELIVERY, DELIVERED} \<longrightarrow> os_shippedAt r \<noteq> None)"

definition held_by :: "'a store_scheme \<Rightarrow> id \<Rightarrow> order_row \<Rightarrow> int" where
  "held_by s p r = (if os_stockReserved r then units (order_lines s (or_id r)) p else 0)"

definition out_with :: "'a store_scheme \<Rightarrow> id \<Rightarrow> order_row \<Rightarrow> int" where
  "out_with s p r = (if isShippedStage (os_status r) then units (order_lines s (or_id r)) p else 0)"

definition held :: "'a shop_scheme \<Rightarrow> id \<Rightarrow> int" where
  "held s p = sum_list (map (held_by s p) (sh_orders s))"

definition outside :: "'a shop_scheme \<Rightarrow> id \<Rightarrow> int" where
  "outside s p = sum_list (map (out_with s p) (sh_orders s))"

definition stock_books :: "'a shop_scheme \<Rightarrow> bool" where
  "stock_books s \<longleftrightarrow> store_ok s \<and> distinct (map or_id (sh_orders s)) \<and>
     (\<forall>r \<in> set (sh_orders s). stage_ok r \<and> (\<forall>l \<in> set (order_lines s (or_id r)). 0 < snd l)) \<and>
     (\<forall>p. reserved s p = held s p)"

lemma units_nonneg: "(\<forall>l \<in> set ls. 0 < snd l) \<Longrightarrow> 0 \<le> units ls p"
  unfolding units_def by (rule sum_list_nonneg) (auto intro: less_imp_le)

lemma stock_books_units: "stock_books s \<Longrightarrow> r \<in> set (sh_orders s) \<Longrightarrow> 0 \<le> units (order_lines s (or_id r)) p"
  by (rule units_nonneg) (auto simp: stock_books_def)

lemma held_by_le:
  assumes "stock_books s" "r \<in> set (sh_orders s)"
  shows "held_by s p r \<le> reserved s p"
proof -
  have "held_by s p r \<le> sum_list (map (held_by s p) (sh_orders s))"
    using assms(2) stock_books_units [OF assms(1)] by (intro sum_list_member_le) (auto simp: held_by_def)
  then show ?thesis using assms(1) by (simp add: stock_books_def held_def)
qed

lemma held_cong:
  assumes "sh_orders s' = sh_orders s" "\<And>i. order_lines s' i = order_lines s i"
  shows "held s' p = held s p" "outside s' p = outside s p"
proof -
  have "held_by s' p = held_by s p" "out_with s' p = out_with s p"
    by (simp_all add: held_by_def out_with_def fun_eq_iff assms(2))
  then show "held s' p = held s p" "outside s' p = outside s p" by (simp_all add: held_def outside_def assms(1))
qed

lemma held_written:
  assumes "distinct (map or_id (sh_orders s))" "r \<in> set (sh_orders s)" "or_id (f r) = or_id r"
  shows "held (written (or_id r) f s) p = held s p + held_by s p (f r) - held_by s p r"
    and "outside (written (or_id r) f s) p = outside s p + out_with s p (f r) - out_with s p r"
proof -
  have l: "order_lines (written (or_id r) f s) i = order_lines s i" for i
    by (simp add: order_lines_same_store)
  have "held_by (written (or_id r) f s) p = held_by s p" "out_with (written (or_id r) f s) p = out_with s p"
    by (simp_all add: held_by_def out_with_def fun_eq_iff l)
  then show "held (written (or_id r) f s) p = held s p + held_by s p (f r) - held_by s p r"
    "outside (written (or_id r) f s) p = outside s p + out_with s p (f r) - out_with s p r"
    using sum_one_order [OF assms(1,2)] by (simp_all add: held_def outside_def, simp_all add: written_def)
qed

lemma written_ids: "(\<And>r. or_id (f r) = or_id r) \<Longrightarrow> map or_id (sh_orders (written i f s)) = map or_id (sh_orders s)"
  by (simp add: written_def)

lemma written_mem: "r \<in> set (sh_orders (written i f s)) \<Longrightarrow> distinct (map or_id (sh_orders s)) \<Longrightarrow>
    x \<in> set (sh_orders s) \<Longrightarrow> or_id x = i \<Longrightarrow> r = f x \<or> r \<in> set (sh_orders s)"
  by (auto simp: written_def distinct_map inj_on_def split: if_splits)

text \<open>
  The step both handlers share: the row is rewritten, a stock method moves the hold and the goods by
  the same amounts, and the books balance again.
\<close>

lemma stock_books_step:
  assumes "stock_books s" "r \<in> set (sh_orders s)" "\<And>x. or_id (f x) = or_id x" "stage_ok (f r)"
    and "rest_of s2 = rest_of (written (or_id r) f s)" "store_ok s2"
    and hold: "\<And>p. reserved s2 p = reserved s p + held_by s p (f r) - held_by s p r"
    and goods: "\<And>p. pos s p \<noteq> None \<Longrightarrow> on_hand s2 p = on_hand s p - out_with s p (f r) + out_with s p r"
    and "same_store s2 s'" "sh_orders s' = sh_orders s2"
  shows "stock_books s' \<and> (\<forall>p. pos s p \<noteq> None \<longrightarrow> on_hand s' p + outside s' p = on_hand s p + outside s p)"
proof -
  let ?w = "written (or_id r) f s"
  have d: "distinct (map or_id (sh_orders s))" using assms(1) by (simp add: stock_books_def)
  have o: "sh_orders s' = sh_orders ?w" using rest_of_shop(1) [OF assms(5)] assms(10) by simp
  have l: "order_lines s' i = order_lines s i" for i
    using order_lines_same_store [OF assms(9)] order_lines_rest [OF assms(5)] by (simp add: order_lines_same_store)
  have h: "held s' p = held s p + held_by s p (f r) - held_by s p r"
    "outside s' p = outside s p + out_with s p (f r) - out_with s p r" for p
    using held_written [where r = r and f = f, OF d assms(2,3)] held_cong [OF o, of p] l
    by (simp_all add: order_lines_same_store [OF same_store_written])
  have "stage_ok x \<and> (\<forall>l \<in> set (order_lines s' (or_id x)). 0 < snd l)" if "x \<in> set (sh_orders s')" for x
  proof -
    have old: "stage_ok y \<and> (\<forall>l \<in> set (order_lines s (or_id y)). 0 < snd l)" if "y \<in> set (sh_orders s)" for y
      using assms(1) that by (simp add: stock_books_def)
    from written_mem [OF that [unfolded o] d assms(2) refl] have "x = f r \<or> x \<in> set (sh_orders s)" .
    then show ?thesis using old [OF assms(2)] old [of x] assms(3,4) by (auto simp only: l)
  qed
  moreover have "reserved s' p = held s' p" for p
    using hold [of p] h(1) [of p] assms(1) same_storeD(5) [OF assms(9)] by (simp add: stock_books_def)
  ultimately have "stock_books s'"
    using d assms(6) same_storeD(2) [OF assms(9)] by (simp add: stock_books_def o written_ids [OF assms(3)])
  then show ?thesis using goods h(2) same_storeD(4) [OF assms(9)] by simp
qed

lemma bookkeep_frame:
  assumes "bookkeep plan order a s = Inr s'"
  shows "same_store s s'" "sh_orders s' = sh_orders s"
proof -
  have "same_store (if tp_revokeCoupon plan then snd (revoke (or_id order) s) else s) s' \<and>
      sh_orders s' = sh_orders s"
    using assms
    by (auto simp: bookkeep_def Let_def update_customer_def same_store_def add_history_def revoke_def
        update_coupon_def set_revoked_def split: if_splits option.splits)
  then show "same_store s s'" "sh_orders s' = sh_orders s"
    using same_store_trans [OF same_store_writers(4)] by (auto split: if_splits)
qed

lemma write_plan_id [simp]: "or_id (write_plan plan note now r) = or_id r"
  by (simp add: write_plan_def Let_def)

lemma write_plan_cols [simp]:
  "os_status (write_plan plan note now r) = tp_to plan"
  "os_shippedAt (write_plan plan note now r) =
     (if ps_shippedAt (tp_set plan) \<noteq> None then ps_shippedAt (tp_set plan) else os_shippedAt r)"
  "os_stockReserved (write_plan plan note now r) =
     (case ps_stockReserved (tp_set plan) of None \<Rightarrow> os_stockReserved r | Some b \<Rightarrow> b)"
  "or_customerId (write_plan plan note now r) = or_customerId r"
  "or_grandTotal (write_plan plan note now r) = or_grandTotal r"
  by (simp_all add: write_plan_def Let_def)

text \<open>A plan moves the row and the goods together.\<close>

lemma plan_moves:
  assumes "planTransition r req = Inr plan" "stage_ok r" and r': "r' = write_plan plan note now r"
  shows "stage_ok r' \<and>
    held_by s p r' = held_by s p r - (if tp_stock plan \<in> {FULFIL, RELEASE} then units (order_lines s (or_id r)) p else 0) \<and>
    out_with s p r' = out_with s p r -
      (case tp_stock plan of FULFIL \<Rightarrow> - units (order_lines s (or_id r)) p | RESTOCK \<Rightarrow> units (order_lines s (or_id r)) p | _ \<Rightarrow> 0) \<and>
    (tp_stock plan \<in> {FULFIL, RELEASE} \<longrightarrow> os_stockReserved r)"
  using assms(1)
proof (cases rule: planTransition_cases)
  case Back
  then show ?thesis using assms(2) unfolding r' by (auto simp: basePlan_def stage_ok_def held_by_def out_with_def)
next
  case Void
  note v = planVoid_Inr [OF Void(3,2)]
  show ?thesis
    using assms(2) Void(2,4) unfolding r' by (cases "os_status r") (auto simp: v stage_ok_def held_by_def out_with_def)
next
  case Forward
  show ?thesis
    using assms(2) Forward(2-4) unfolding r'
    by (cases "os_status r"; cases "rq_to req")
      (auto simp: Forward(8,9,11,12) stage_ok_def held_by_def out_with_def)
qed

lemma apply_stock_books:
  assumes "apply_tx J ref cmd by_a s = Inr (plan, ev, s')" "stock_books s"
  shows "stock_books s' \<and> (\<forall>p. pos s p \<noteq> None \<longrightarrow> on_hand s' p + outside s' p = on_hand s p + outside s p)"
proof -
  have d: "distinct (map or_id (sh_orders s))" "store_ok s" using assms(2) by (auto simp: stock_books_def)
  from apply_tx_Inr [OF assms(1) d(1)] obtain r low s2 req f where r: "r \<in> set (sh_orders s)"
    "planTransition r req = Inr plan" and f: "f = write_plan plan (tc_note cmd) (st_now s)"
    and run: "run_stock (fulfill J) release restock (tp_stock plan) (order_lines s (or_id r))
       \<lparr>sc_orderId = Some (or_id r), sc_purchaseId = None\<rparr> (written (or_id r) f s) = Inr (low, s2)"
    and b: "bookkeep plan r (ac_type by_a) s2 = Inr s'" by metis
  let ?w = "written (or_id r) f s"
  have w: "store_ok ?w" "\<And>p. pos ?w p = pos s p" using d(2) by (simp_all add: same_storeD [OF same_store_written])
  have st: "stage_ok r" using assms(2) r(1) by (auto simp: stock_books_def)
  have fr: "f r = write_plan plan (tc_note cmd) (st_now s) r" by (simp add: f)
  note m = plan_moves [OF r(2) st fr, where s = s]
  have res: "os_stockReserved r" if "tp_stock plan \<in> {FULFIL, RELEASE}" using m that by blast
  have cover: "units (order_lines s (or_id r)) p \<le> on_hold (pos ?w p)" if "tp_stock plan \<in> {FULFIL, RELEASE}" for p
    using held_by_le [OF assms(2) r(1), of p] res [OF that] by (simp add: held_by_def w(2) on_hold_pos)
  note law = inventory.run_stock_law [OF w(1) run]
    and fig = inventory.run_stock_figures [OF w(1) run stock_books_units [OF assms(2) r(1)] cover]
  show ?thesis
  proof (rule stock_books_step [where r = r and f = f, OF assms(2) r(1) _ m [THEN conjunct1] _ _ _ _ bookkeep_frame [OF b]])
    show "or_id (f x) = or_id x" for x by (simp add: f)
    show "rest_of s2 = rest_of ?w" "store_ok s2" using law by auto
    show "reserved s2 p = reserved s p + held_by s p (f r) - held_by s p r" for p
      using fig(1) [of p] m by (simp add: w(2) on_hold_pos)
    show "on_hand s2 p = on_hand s p - out_with s p (f r) + out_with s p r" if "pos s p \<noteq> None" for p
      using fig(2) [of p] that m by (simp add: w(2) on_shelf_pos)
  qed
qed

lemma reopen_stock_books:
  assumes "reopen_tx ref reason to_o v by_a s = Inr (ev, s')" "stock_books s"
  shows "stock_books s' \<and> (\<forall>p. pos s p \<noteq> None \<longrightarrow> on_hand s' p + outside s' p = on_hand s p + outside s p)"
proof -
  have d: "distinct (map or_id (sh_orders s))" "store_ok s" using assms(2) by (auto simp: stock_books_def)
  obtain r to_t s2 where r: "r \<in> set (sh_orders s)" "planReopen r (or_cancelledFrom r)
      \<lparr>rr_to = to_o, rr_reason = reason, rr_actor = ac_type by_a\<rparr> = Inr (os_status r, to_t)"
    and run: "(if order_lines s (or_id r) \<noteq> [] then reserve (order_lines s (or_id r))
         \<lparr>sc_orderId = Some (or_id r), sc_purchaseId = None\<rparr> (written (or_id r) (write_reopen to_t (st_now s)) s)
       else Inr (written (or_id r) (write_reopen to_t (st_now s)) s)) = Inr s2"
    and b: "ebind (update_customer (or_customerId r) (reopen_customer (or_grandTotal r)) (snd (restore (or_id r) s2)))
       (\<lambda>s. Inr (add_history \<lparr>hi_orderId = or_id r, hi_fromStatus = Some (os_status r),
                              hi_toStatus = reopen_status to_t, hi_actorType = ac_type by_a\<rparr> s)) = Inr s'"
    by (rule reopen_tx_Inr [OF assms(1) d(1)])
  let ?f = "write_reopen to_t (st_now s)"
  let ?w = "written (or_id r) ?f s"
  have w: "store_ok ?w" "\<And>p. pos ?w p = pos s p" using d(2) by (simp_all add: same_storeD [OF same_store_written])
  have closed: "os_status r \<in> {CANCELLED, RETURNED}" using r(2) by (auto simp: planReopen_def split: if_splits)
  then have r0: "held_by s p r = 0" "out_with s p r = 0" for p
    using assms(2) r(1) by (auto simp: stock_books_def stage_ok_def held_by_def out_with_def)
  have r1: "stage_ok (?f r)" "held_by s p (?f r) = units (order_lines s (or_id r)) p" "out_with s p (?f r) = 0" for p
    by (cases to_t; simp add: write_reopen_def stage_ok_def held_by_def out_with_def)+
  have law: "rest_of s2 = rest_of ?w \<and> store_ok s2 \<and> reserved s2 p = reserved s p + units (order_lines s (or_id r)) p \<and>
      on_hand s2 p = on_hand s p" for p
  proof (cases "order_lines s (or_id r) = []")
    case True
    with run w show ?thesis by (auto simp flip: on_hold_pos on_shelf_pos)
  next
    case False
    with run have res: "reserve (order_lines s (or_id r)) \<lparr>sc_orderId = Some (or_id r), sc_purchaseId = None\<rparr> ?w = Inr s2" by simp
    note fig = inventory.reserve_figures(1,2) [OF w(1) res, of p, unfolded on_hold_pos on_shelf_pos]
    have "rest_of s2 = rest_of ?w \<and> store_ok s2" using reserve_ok [OF res w(1)] by blast
    then show ?thesis using fig by (simp add: same_storeD [OF same_store_written])
  qed
  have fr: "same_store s2 s'" "sh_orders s' = sh_orders s2"
  proof -
    have "same_store (snd (restore (or_id r) s2)) s' \<and> sh_orders s' = sh_orders s2"
      using b by (auto simp: update_customer_def same_store_def add_history_def restore_def update_coupon_def
          set_revoked_def split: if_splits option.splits)
    then show "same_store s2 s'" "sh_orders s' = sh_orders s2"
      using same_store_trans [OF same_store_writers(5)] by auto
  qed
  show ?thesis
    by (rule stock_books_step [where r = r and f = ?f, OF assms(2) r(1) _ r1(1) _ _ _ _ fr])
      (use law r0 r1 in \<open>auto simp: write_reopen_def\<close>)
qed

end
