(* ===== verification/Refund_Properties.thy ===== *)
theory Refund_Properties
  imports Refunds Order_Laws
begin

text \<open>
  What holds of refunds: the refunded total of an order is the sum of its completed refunds and never
  exceeds what was paid, along any sequence of creations, with however old a snapshot of the order,
  and refreshes; what the gateway is asked for; and the one way a refund is sent to the gateway that
  can no longer be booked.
\<close>

lemma recordRefund_frame:
  assumes "recordRefund o' no rid m a d s = Inr s'" "till_ok s"
  shows "till_ok s'" "beside s' = beside s" "tl_issued s \<le> tl_issued s'"
proof -
  have "till_ok s' \<and> beside s' = beside s \<and> tl_issued s \<le> tl_issued s'"
  proof (cases "has \<lparr>tf_orderId = Some o', tf_purchaseId = None, tf_kind = REFUND, tf_direction = None,
                 tf_memo = Some (refund_memo no rid)\<rparr> s")
    case True
    then show ?thesis using assms by (simp add: recordRefund_def Let_def)
  next
    case False
    then obtain t where "post (no_entry\<lparr>pe_ref := AccountCode (accountForMethod m), pe_direction := OUT, pe_kind := REFUND,
                     pe_amount := a, pe_memo := refund_memo no rid, pe_orderId := Some o', pe_occurredAt := d\<rparr>) s = Inr (t, s')"
      using assms(1) by (auto simp: recordRefund_def Let_def ebind_Inr_iff)
    from post_plain(1) [OF this assms(2)] show ?thesis by (simp add: appends_def accounts_grow_def)
  qed
  then show "till_ok s'" "beside s' = beside s" "tl_issued s \<le> tl_issued s'" by blast+
qed

definition add_refund :: "money \<Rightarrow> order_row \<Rightarrow> order_row" where
  "add_refund a r = r\<lparr>or_amountRefunded := or_amountRefunded r + a,
     os_paymentStatus := paymentStatusAfterRefund (or_amountPaid r) (or_amountRefunded r + a)\<rparr>"

lemma add_refund_sel [simp]:
  "or_id (add_refund a r) = or_id r" "or_amountPaid (add_refund a r) = or_amountPaid r"
  "or_amountRefunded (add_refund a r) = or_amountRefunded r + a"
  "os_paymentStatus (add_refund a r) = paymentStatusAfterRefund (or_amountPaid r) (or_amountRefunded r + a)"
  by (simp_all add: add_refund_def)

lemma applyCompleted_ok:
  assumes "applyCompleted i no rid m a s = Inr s'" "till_ok s" "distinct (map or_id (sh_orders s))"
  shows "till_ok s'" "tl_refunds s' = tl_refunds s" "tl_uuid s' = tl_uuid s" "tl_issued s \<le> tl_issued s'"
    "sh_orders s' = map (\<lambda>r. if or_id r = i then add_refund a r else r) (sh_orders s)"
    "\<exists>r. find_order i s = Some r" "\<And>r. r \<in> set (sh_orders s) \<Longrightarrow> or_id r = i \<Longrightarrow> or_amountRefunded r + a \<le> or_amountPaid r"
proof -
  let ?f = "\<lambda>o'. o'\<lparr>or_amountRefunded := or_amountRefunded o' + a\<rparr>"
  let ?g = "\<lambda>o'. o'\<lparr>os_paymentStatus := paymentStatusAfterRefund (or_amountPaid o') (or_amountRefunded o')\<rparr>"
  from assms(1) obtain s1 s2 where st: "set_order i ?f s = Inr s1" "set_order i ?g s1 = Inr s2" "recordRefund i no rid m a None s2 = Inr s'"
    by (auto simp: applyCompleted_def ebind_Inr_iff)
  obtain r where r: "find_order i s = Some r" "check_order (?f r) = Inr ()" "s1 = written i ?f s" using set_orderD [OF st(1)] by blast
  have s2: "s2 = written i ?g s1" using set_orderD [OF st(2)] by blast
  have b: "same_book s s2" by (simp add: same_book_def s2 r(3) written_def)
  note c = recordRefund_frame [OF st(3)]
  have t2: "till_ok s2" using same_book_ok(1) [OF b] assms(2) by simp
  note d = besideD [OF c(2) [OF t2]]
  show "till_ok s'" "tl_refunds s' = tl_refunds s" "tl_uuid s' = tl_uuid s" "tl_issued s \<le> tl_issued s'" "\<exists>r. find_order i s = Some r"
    using c [OF t2] d r by (simp_all add: s2 written_def)
  show "sh_orders s' = map (\<lambda>r. if or_id r = i then add_refund a r else r) (sh_orders s)"
    by (simp add: d(6) s2 r(3) written_def add_refund_def)
  fix r' assume "r' \<in> set (sh_orders s)" "or_id r' = i"
  then have "r' = r" using find_orderD [OF r(1)] assms(3) by (auto simp: distinct_map inj_on_def)
  then show "or_amountRefunded r' + a \<le> or_amountPaid r'" using check_orderD [OF r(2)] by simp
qed

section \<open>The books of refunds\<close>

definition completed_for :: "refund list \<Rightarrow> id \<Rightarrow> money" where
  "completed_for rs i = sum_list (map rf_amount (filter (\<lambda>x. rf_orderId x = i \<and> rf_status x = Rf_COMPLETED) rs))"

definition refund_row_ok :: "'a till_scheme \<Rightarrow> order_row \<Rightarrow> bool" where
  "refund_row_ok s r \<longleftrightarrow> or_amountRefunded r = completed_for (tl_refunds s) (or_id r) \<and>
     or_amountRefunded r \<le> or_amountPaid r \<and>
     (or_amountRefunded r > 0 \<longrightarrow> os_paymentStatus r = paymentStatusAfterRefund (or_amountPaid r) (or_amountRefunded r))"

definition refund_books :: "'a till_scheme \<Rightarrow> bool" where
  "refund_books s \<longleftrightarrow> till_ok s \<and> distinct (map or_id (sh_orders s)) \<and> distinct (map rf_id (tl_refunds s)) \<and>
     (\<forall>x \<in> set (tl_refunds s). issued s (rf_id x) \<and> 0 < rf_amount x) \<and> (\<forall>r \<in> set (sh_orders s). refund_row_ok s r)"

lemma completed_for_simps [simp]:
  "completed_for [] i = 0" "completed_for (xs @ ys) i = completed_for xs i + completed_for ys i"
  "completed_for (x # xs) i = (if rf_orderId x = i \<and> rf_status x = Rf_COMPLETED then rf_amount x else 0) + completed_for xs i"
  by (simp_all add: completed_for_def)

lemma completed_for_update:
  assumes "distinct (map rf_id rs)" "x \<in> set rs" "rf_status x \<noteq> Rf_COMPLETED"
    and "\<And>y. rf_amount (f y) = rf_amount y \<and> rf_orderId (f y) = rf_orderId y \<and> rf_status (f y) = st"
  shows "completed_for (map (\<lambda>r. if rf_id r = rf_id x then f r else r) rs) i =
    completed_for rs i + (if st = Rf_COMPLETED \<and> rf_orderId x = i then rf_amount x else 0)"
  using assms(1,2)
proof (induction rs)
  case (Cons y ys)
  show ?case
  proof (cases "y = x")
    case True
    then have "map (\<lambda>r. if rf_id r = rf_id x then f r else r) ys = ys"
      using Cons(2) by (intro map_idI) (auto simp: image_iff)
    then show ?thesis using True assms(3,4) by auto
  next
    case False
    then have "rf_id y \<noteq> rf_id x" using Cons(2,3) by (auto simp: image_iff)
    then show ?thesis using False Cons by simp
  qed
qed simp

lemma update_refund_sel [simp]:
  "tl_refunds (update_refund i f s) = map (\<lambda>r. if rf_id r = i then f r else r) (tl_refunds s)"
  "sh_orders (update_refund i f s) = sh_orders s" "issued (update_refund i f s) = issued s" "same_book s (update_refund i f s)"
  "till_ok (update_refund i f s) = till_ok s"
proof -
  show "same_book s (update_refund i f s)" by (simp add: same_book_def update_refund_def)
  then show "till_ok (update_refund i f s) = till_ok s" by (rule same_book_ok(1))
qed (simp_all add: update_refund_def issued_def fun_eq_iff)

text \<open>A write to the refunds that books nothing.\<close>

lemma refund_books_quiet:
  assumes "refund_books s" "x \<in> set (tl_refunds s)" "rf_status x \<noteq> Rf_COMPLETED" "st \<noteq> Rf_COMPLETED"
    and "\<And>y. rf_amount (f y) = rf_amount y \<and> rf_orderId (f y) = rf_orderId y \<and> rf_status (f y) = st \<and> rf_id (f y) = rf_id y"
  shows "refund_books (update_refund (rf_id x) f s)"
proof -
  let ?s = "update_refund (rf_id x) f s"
  have m: "map rf_id (tl_refunds ?s) = map rf_id (tl_refunds s)" using assms(5) by simp
  have "completed_for (tl_refunds ?s) = completed_for (tl_refunds s)"
    using completed_for_update [of "tl_refunds s" x f st] assms by (auto simp: refund_books_def fun_eq_iff)
  then have "refund_row_ok ?s = refund_row_ok s" by (simp add: refund_row_ok_def fun_eq_iff)
  moreover have "\<forall>y \<in> set (tl_refunds ?s). issued ?s (rf_id y) \<and> 0 < rf_amount y"
    using assms(1,5) by (auto simp: refund_books_def)
  moreover have "distinct (map rf_id (tl_refunds ?s))" by (simp only: m) (use assms(1) in \<open>simp add: refund_books_def\<close>)
  ultimately show ?thesis using assms(1) unfolding refund_books_def update_refund_sel(2,5) by simp
qed

text \<open>A write to the refunds together with the order's totals.\<close>

lemma refund_books_apply:
  assumes "applyCompleted o' no rid m a s1 = Inr s'" "refund_books s" "till_ok s1" "0 < a" "sh_orders s1 = sh_orders s"
    and "\<And>i. completed_for (tl_refunds s1) i = completed_for (tl_refunds s) i + (if i = o' then a else 0)"
    and "distinct (map rf_id (tl_refunds s1))" "\<forall>x \<in> set (tl_refunds s1). issued s1 (rf_id x) \<and> 0 < rf_amount x"
  shows "refund_books s'"
proof -
  have d: "distinct (map or_id (sh_orders s1))" using assms(2,5) by (simp add: refund_books_def)
  note c = applyCompleted_ok [OF assms(1,3) d]
  have "refund_row_ok s' r'" if "r' \<in> set (sh_orders s')" for r'
  proof -
    from that c(5) obtain r where r: "r \<in> set (sh_orders s)" "r' = (if or_id r = o' then add_refund a r else r)"
      by (auto simp: assms(5))
    then have ok: "refund_row_ok s r" using assms(2) by (simp add: refund_books_def)
    show ?thesis
    proof (cases "or_id r = o'")
      case True
      have "or_amountRefunded r + a \<le> or_amountPaid r" using c(7) [of r] r(1) True assms(5) by simp
      then show ?thesis using True ok r c(2) assms(6) by (simp add: refund_row_ok_def)
    next
      case False
      then show ?thesis using ok r c(2) assms(6) by (simp add: refund_row_ok_def)
    qed
  qed
  moreover have "map or_id (sh_orders s') = map or_id (sh_orders s)" by (simp add: c(5) assms(5))
  moreover have "issued s' x" if "issued s1 x" for x using issued_mono [OF c(3,4) that] .
  ultimately show ?thesis using c(1,2) assms(2,7,8) by (simp add: refund_books_def)
qed

lemma settle_refund_books:
  assumes "settleGateway i st ref s = Inr s'" "refund_books s"
  shows "refund_books s'"
proof -
  from assms(1) obtain x where f: "find (\<lambda>r. rf_id r = i) (tl_refunds s) = Some x" by (auto simp: settleGateway_def split: option.splits)
  from find_SomeD [OF f] have x: "x \<in> set (tl_refunds s)" "rf_id x = i" by simp_all
  let ?f = "\<lambda>r. r\<lparr>rf_status := st, rf_providerRef := (if ref \<noteq> '''' then Some ref else rf_providerRef r),
                      rf_processedAt := (if st = Rf_COMPLETED then Some (st_now s) else None)\<rparr>"
  let ?s = "update_refund (rf_id x) ?f s"
  show ?thesis
  proof (cases "rf_status x = Rf_COMPLETED")
    case True
    then show ?thesis using assms f by (simp add: settleGateway_def)
  next
    case open_x: False
    show ?thesis
    proof (cases "st = Rf_COMPLETED")
      case False
      then have "s' = ?s" using assms(1) f open_x x(2) by (simp add: settleGateway_def Let_def)
      then show ?thesis using refund_books_quiet [OF assms(2) x(1) open_x False, of ?f] by simp
    next
      case True
      then obtain no where a: "applyCompleted (rf_orderId x) no (rf_id x) (rf_method x) (rf_amount x) ?s = Inr s'"
        using assms(1) f open_x x(2) by (auto simp: settleGateway_def Let_def)
      have dist: "distinct (map rf_id (tl_refunds s))" using assms(2) by (simp add: refund_books_def)
      have "completed_for (tl_refunds ?s) i = completed_for (tl_refunds s) i + (if st = Rf_COMPLETED \<and> rf_orderId x = i then rf_amount x else 0)" for i
        unfolding update_refund_sel by (rule completed_for_update [OF dist x(1) open_x]) simp
      then have c: "completed_for (tl_refunds ?s) i = completed_for (tl_refunds s) i + (if i = rf_orderId x then rf_amount x else 0)" for i
        using True by auto
      have ids: "map rf_id (tl_refunds ?s) = map rf_id (tl_refunds s)" by simp
      have rows: "\<forall>y \<in> set (tl_refunds ?s). issued ?s (rf_id y) \<and> 0 < rf_amount y"
        using assms(2) by (auto simp: refund_books_def)
      have pos: "0 < rf_amount x" "till_ok ?s" using assms(2) x(1) by (simp_all add: refund_books_def)
      show ?thesis
        by (rule refund_books_apply [OF a assms(2) pos(2,1) _ c _ rows]) (simp, simp only: ids dist)
    qed
  qed
qed

lemma refund_tx_books:
  assumes "refund_tx order gp m req s = Inr (row, s')" "refund_books s"
  shows "refund_books s'" "row \<in> set (tl_refunds s')" "rf_status row = (if m = SSLCOMMERZ then Rf_PROCESSING else Rf_COMPLETED)"
    "rf_method row = m"
proof -
  obtain i s0 where f: "fresh_id s = (i, s0)" by fastforce
  from assms(2) have t: "till_ok s" by (simp add: refund_books_def)
  note fr = fresh_id_ok [OF f t]
  define s1 where "s1 = s0\<lparr>tl_refunds := tl_refunds s0 @ [row]\<rparr>"
  from assms(1) f obtain amount where row: "rf_id row = i" "rf_orderId row = or_id order" "rf_amount row = amount" "rf_method row = m"
    "rf_status row = (if m = SSLCOMMERZ then Rf_PROCESSING else Rf_COMPLETED)" "0 < amount"
    and s': "if m = SSLCOMMERZ then s' = s1 else applyCompleted (or_id order) (or_orderNo order) i m amount s1 = Inr s'"
    by (auto simp: refund_tx_def Let_def s1_def ebind_Inr_iff split: sum.splits if_splits)
  have s0: "till_ok s0" "tl_refunds s0 = tl_refunds s" "tl_uuid s0 = tl_uuid s" "tl_issued s0 = Suc (tl_issued s)" "sh_orders s0 = sh_orders s"
    using fr(1) f by (auto simp: appends_def fresh_id_def)
  have b: "same_book s0 s1" by (simp add: same_book_def s1_def)
  have t1: "till_ok s1" using same_book_ok(1) [OF b] s0(1) by simp
  have iss: "issued s1 j" if "issued s j" for j
    by (rule issued_mono [OF _ _ that]) (simp_all add: s1_def s0)
  have ni: "\<not> issued s i" using t fresh_not_issued [of s] fr(2) by (simp add: till_ok_def accounts_ok_def)
  have new: "i \<notin> rf_id ` set (tl_refunds s)" using ni assms(2) by (auto simp: refund_books_def)
  have ii: "issued s1 i" by (auto simp: issued_def s1_def s0 fr(2))
  have rows: "\<forall>x \<in> set (tl_refunds s1). issued s1 (rf_id x) \<and> 0 < rf_amount x" "distinct (map rf_id (tl_refunds s1))"
    using assms(2) iss ii new row by (auto simp: s1_def s0 refund_books_def)
  show b': "refund_books s'"
  proof (cases "m = SSLCOMMERZ")
    case True
    then have e: "s' = s1" "rf_status row = Rf_PROCESSING" using s' row by simp_all
    have "refund_row_ok s1 = refund_row_ok s" by (simp add: refund_row_ok_def fun_eq_iff s1_def s0 e)
    then show ?thesis using assms(2) t1 rows by (simp add: refund_books_def e(1)) (simp add: s1_def s0)
  next
    case False
    then have a: "applyCompleted (or_id order) (or_orderNo order) i m amount s1 = Inr s'" "rf_status row = Rf_COMPLETED" using s' row by simp_all
    show ?thesis
      by (rule refund_books_apply [OF a(1) assms(2) t1 row(6)]) (use rows row a(2) in \<open>auto simp: s1_def s0\<close>)
  qed
  have "tl_refunds s' = tl_refunds s1"
  proof (cases "m = SSLCOMMERZ")
    case False
    then show ?thesis using s' applyCompleted_ok(2) [OF _ t1] assms(2) by (simp add: refund_books_def s1_def s0)
  qed (use s' in simp)
  then show "row \<in> set (tl_refunds s')" by (simp add: s1_def)
  show "rf_status row = (if m = SSLCOMMERZ then Rf_PROCESSING else Rf_COMPLETED)" "rf_method row = m" by (rule row)+
qed

lemma create_from_books:
  assumes "refund_books s"
  shows "refund_books (snd (snd (create_from api order payments input s)))"
proof -
  let ?gp = "gateway_payment input payments"
  let ?m = "refund_method input ?gp order"
  show ?thesis
  proof (cases "refund_tx order ?gp ?m (ri_amount input) s")
    case (Inl e)
    then show ?thesis using assms by (simp add: create_from_def Let_def)
  next
    case (Inr r)
    then obtain row s1 where t: "refund_tx order ?gp ?m (ri_amount input) s = Inr (row, s1)" by (cases r) auto
    note b = refund_tx_books [OF t assms]
    show ?thesis
    proof (cases "rf_method row = SSLCOMMERZ")
      case True
      have q: "refund_books (update_refund (rf_id row) (\<lambda>r. r\<lparr>rf_status := Rf_FAILED\<rparr>) s1)"
        by (rule refund_books_quiet [OF b(1,2), of Rf_FAILED]) (use b(3,4) True in simp_all)
      have z: "refund_books s2" if "settleGateway j st ref s1 = Inr s2" for j st ref s2
        using settle_refund_books [OF that b(1)] .
      show ?thesis
        unfolding create_from_def Let_def t sum.case prod.case
        by (auto simp: b(1) q simp del: update_refund_sel intro: z split: reply.split sum.split)
    next
      case False
      then show ?thesis using b(1) t by (simp add: create_from_def Let_def)
    qed
  qed
qed

text \<open>The commands, each with whatever snapshot it read earlier.\<close>

inductive refund_steps :: "'a till_scheme \<Rightarrow> 'a till_scheme \<Rightarrow> bool" where
  Start: "refund_steps s s"
| Create: "refund_steps s s1 \<Longrightarrow> refund_steps s (snd (snd (create_from api order payments input s1)))"
| Refresh: "refund_steps s s1 \<Longrightarrow> refresh_refund api i s1 = Inr (j, s2) \<Longrightarrow> refund_steps s s2"

text \<open>
  C6. Along any sequence of refunds and refreshes, whatever the gateway answers and however old the
  order the command read, the refunded total of every order is the sum of its completed refunds, is
  never more than what was paid, and the payment status says so.
\<close>

theorem refund_totals:
  assumes "refund_steps s s'" "refund_books s"
  shows "refund_books s'"
  using assms
proof (induction rule: refund_steps.induct)
  case (Create s s1 api order payments input)
  then show ?case by (simp add: create_from_books)
next
  case (Refresh s s1 api i j s2)
  from Refresh(2) have "s2 = s1 \<or> (\<exists>x st ref. settleGateway x st ref s1 = Inr s2)"
    by (auto simp: refresh_refund_def ebind_Inr_iff split: option.splits if_splits reply.splits)
  then show ?case using Refresh settle_refund_books by blast
qed

section \<open>What the gateway is asked for\<close>

lemma checkRefund_InrD:
  assumes "checkRefund req paid refunded inflight cap = Inr a" "paisa (paid - refunded - inflight)"
  shows "a = round2 req" "0 < a" "a \<le> paid - refunded - inflight" "\<And>l. cap = Some l \<Longrightarrow> a \<le> l"
  using assms by (auto simp: checkRefund_def refundable_def Let_def split: if_splits)

lemma create_from_calls:
  assumes "create_from api order payments input s = (calls, out, s')" "c \<in> set calls"
  shows "\<exists>p b row s1. gateway_payment input payments = Some p \<and> py_bankTranId p = Some b \<and> b \<noteq> '''' \<and> c = (b, rf_amount row) \<and>
    calls = [c] \<and> refund_tx order (Some p) SSLCOMMERZ (ri_amount input) s = Inr (row, s1)"
proof -
  let ?gp = "gateway_payment input payments"
  let ?m = "refund_method input ?gp order"
  obtain row s1 where t: "refund_tx order ?gp ?m (ri_amount input) s = Inr (row, s1)"
    using assms by (cases "refund_tx order ?gp ?m (ri_amount input) s") (auto simp: create_from_def Let_def)
  have m: "rf_method row = ?m"
    using t by (auto simp: refund_tx_def Let_def ebind_Inr_iff fresh_id_def split: sum.splits if_splits)
  have "rf_method row = SSLCOMMERZ \<and> truthy (case ?gp of Some p \<Rightarrow> py_bankTranId p | None \<Rightarrow> None) \<and>
    calls = [(str_of (case ?gp of Some p \<Rightarrow> py_bankTranId p | None \<Rightarrow> None), rf_amount row)]"
    using assms t by (auto simp: create_from_def Let_def split: if_splits reply.splits sum.splits)
  then show ?thesis using t m assms(2) by (auto simp: truthy_def str_of_def split: option.splits)
qed

text \<open>
  C24. A refund asks the gateway at most once, for a positive amount that is no more than what is left
  of the order after earlier refunds and those in flight, and no more than the payment itself; so
  commands that run one after the other cannot send back more than was paid.
\<close>

theorem gateway_refund_bound:
  assumes "create_refund api i input s = (calls, out, s')" "c \<in> set calls"
    and "\<forall>r \<in> set (sh_orders s). paisa (or_amountPaid r - or_amountRefunded r)" "paisa (in_flight i s)"
  shows "calls = [c] \<and> 0 < snd c \<and>
    (\<exists>r \<in> set (sh_orders s). or_id r = i \<and> snd c \<le> or_amountPaid r - or_amountRefunded r - in_flight i s) \<and>
    (\<exists>p \<in> set (tl_payments s). py_orderId p = i \<and> py_status p = Pay_SUCCESS \<and> py_bankTranId p = Some (fst c) \<and> snd c \<le> py_amount p)"
proof -
  from assms(1,2) obtain r where r: "find_order i s = Some r" "create_from api r (success_payments i s) input s = (calls, out, s')"
    by (auto simp: create_refund_def split: option.splits)
  note r' = find_orderD [OF r(1)]
  from create_from_calls [OF r(2) assms(2)] obtain p b row s1 where c: "gateway_payment input (success_payments i s) = Some p"
    "py_bankTranId p = Some b" "c = (b, rf_amount row)" "calls = [c]" "refund_tx r (Some p) SSLCOMMERZ (ri_amount input) s = Inr (row, s1)" by blast
  have p: "p \<in> set (success_payments i s)" using c(1) by (auto simp: gateway_payment_def dest: find_SomeD split: option.splits if_splits)
  from c(5) have k: "checkRefund (ri_amount input) (or_amountPaid r) (or_amountRefunded r) (in_flight (or_id r) s) (Some (py_amount p)) = Inr (rf_amount row)"
    by (auto simp: refund_tx_def Let_def ebind_Inr_iff fresh_id_def split: sum.splits if_splits)
  have "paisa (or_amountPaid r - or_amountRefunded r - in_flight (or_id r) s)" using assms(3,4) r' by (auto intro: money_intros)
  note q = checkRefund_InrD [OF k this]
  show ?thesis using c p q(2,3) q(4) [OF refl] r' by (auto simp: success_payments_def)
qed


section \<open>Concrete runs\<close>

text \<open>An order of 500, paid online, and a refund of it that was completed in cash.\<close>

definition paid_order :: order_row where
  "paid_order = \<lparr>os_status = DELIVERED, os_paymentMethod = SSLCOMMERZ, os_paymentStatus = PAID, os_stockReserved = False,
     os_confirmedAt = Some 0, os_shippedAt = Some 0, or_id = ''o1'', or_orderNo = ''CLO-2042'', or_customerId = ''c1'',
     or_itemsSubtotal = 450, or_discountTotal = 0, or_couponCode = None, or_shippingFee = 50, or_taxTotal = 0, or_grandTotal = 500,
     or_amountPaid = 500, or_amountRefunded = 0, or_itemsCost = None, or_courierCost = 0, or_gatewayFee = 0, or_courierLoss = 0,
     or_cancelReason = None, or_cancelledFrom = None, or_placedAt = 0, or_deliveredAt = Some 0, or_cancelledAt = None,
     or_paidAt = Some 0, or_version = 1\<rparr>"

definition online_payment :: payment where
  "online_payment = \<lparr>py_id = ''p1'', py_orderId = ''o1'', py_method = SSLCOMMERZ, py_provider = Some ''sslcommerz'',
     py_status = Pay_SUCCESS, py_amount = 500, py_fee = 10, py_currency = ''BDT'', py_tranId = Some ''CLO-2042-1'',
     py_valId = Some ''V1'', py_bankTranId = Some ''B1'', py_riskLevel = None, py_failureReason = None, py_initiatedAt = 0,
     py_succeededAt = Some 0\<rparr>"

definition cash_refund :: refund where
  "cash_refund = \<lparr>rf_id = ''u'', rf_orderId = ''o1'', rf_paymentId = None, rf_amount = 500, rf_method = CASH,
     rf_status = Rf_COMPLETED, rf_providerRef = None, rf_processedAt = Some 0\<rparr>"

definition paid_till :: till where
  "paid_till = sample_till\<lparr>sh_orders := [paid_order], tl_payments := [online_payment]\<rparr>"

definition refunded_till :: till where
  "refunded_till = paid_till\<lparr>sh_orders := [add_refund 500 paid_order], tl_refunds := [cash_refund]\<rparr>"

definition willing_gateway :: refund_api where
  "willing_gateway = \<lparr>rg_refund = (\<lambda>_ _ _. Reply \<lparr>ra_status = Some ''success'', ra_refund_ref_id = Some ''R1''\<rparr>),
     rg_refundStatus = (\<lambda>_. Unreachable)\<rparr>"

definition full_refund :: "payment_method option \<Rightarrow> refund_input" where
  "full_refund m = \<lparr>ri_amount = 500, ri_method = m, ri_paymentId = None\<rparr>"

lemma paid_till_books: "refund_books paid_till"
proof -
  have "same_book sample_till paid_till" by (simp add: same_book_def paid_till_def)
  then have "till_ok paid_till" using same_book_ok(1) sample_till_ok by blast
  then show ?thesis
    by (simp add: refund_books_def paid_till_def sample_till_def empty_till_def refund_row_ok_def paid_order_def)
qed

lemma refunded_till_books: "refund_books refunded_till"
proof -
  have "same_book sample_till refunded_till" by (simp add: same_book_def refunded_till_def paid_till_def)
  then have "till_ok refunded_till" using same_book_ok(1) sample_till_ok by blast
  moreover have "issued refunded_till ''u''" by (auto simp: issued_def refunded_till_def paid_till_def intro: exI [of _ 1])
  ultimately show ?thesis
    by (simp add: refund_books_def refunded_till_def refund_row_ok_def paid_order_def cash_refund_def)
qed

theorem refund_totals_witness:
  "let s = snd (snd (create_from willing_gateway paid_order [online_payment] (full_refund None) paid_till))
   in refund_books s \<and> map or_amountRefunded (sh_orders s) = [500]"
proof -
  have "map or_amountRefunded (sh_orders (snd (snd (create_from willing_gateway paid_order [online_payment] (full_refund None) paid_till)))) = [500]"
    by code_simp
  then show ?thesis using refund_totals [OF Create [OF Start] paid_till_books] by (simp add: Let_def)
qed

theorem gateway_refund_bound_witness:
  "case create_refund willing_gateway ''o1'' (full_refund None) paid_till of (calls, out, s) \<Rightarrow>
     calls = [(''B1'', 500)] \<and> (500::rat) \<le> 500 - 0 - in_flight ''o1'' paid_till"
proof -
  obtain calls out s' where c: "create_refund willing_gateway ''o1'' (full_refund None) paid_till = (calls, out, s')" by (metis prod.collapse)
  have "fst (create_refund willing_gateway ''o1'' (full_refund None) paid_till) = [(''B1'', 500)]" by code_simp
  then have calls: "calls = [(''B1'', 500)]" by (simp add: c)
  have o1: "sh_orders paid_till = [paid_order]" "in_flight ''o1'' paid_till = 0"
    by (simp_all add: paid_till_def in_flight_def sample_till_def empty_till_def)
  have "\<exists>r \<in> set (sh_orders paid_till). or_id r = ''o1'' \<and> snd (''B1'', 500::rat) \<le> or_amountPaid r - or_amountRefunded r - in_flight ''o1'' paid_till"
    using gateway_refund_bound [OF c, of "(''B1'', 500)"] by (simp add: calls o1 paid_order_def)
  then show ?thesis by (simp add: c calls o1 paid_order_def)
qed


end
