(* ===== verification/Order_Books.thy ===== *)
theory Order_Books
  imports Order_Laws
begin

text \<open>
  The cached counters next to the orders: the customer's live, cancelled and spent figures, and the
  usage of the coupons. Each is the count or sum over the orders it stands for, and every transition
  keeps it so.
\<close>

section \<open>The customer's counters\<close>

definition of_customer :: "id \<Rightarrow> (order_status \<Rightarrow> bool) \<Rightarrow> order_row \<Rightarrow> bool" where
  "of_customer c P r \<longleftrightarrow> or_customerId r = c \<and> P (os_status r)"

definition count_orders :: "'a shop_scheme \<Rightarrow> id \<Rightarrow> (order_status \<Rightarrow> bool) \<Rightarrow> int" where
  "count_orders s c P = sum_list (map (\<lambda>r. if of_customer c P r then 1 else 0) (sh_orders s))"

definition spent :: "'a shop_scheme \<Rightarrow> id \<Rightarrow> money" where
  "spent s c = sum_list (map (\<lambda>r. if of_customer c (\<lambda>st. \<not> isTerminal st) r then or_grandTotal r else 0) (sh_orders s))"

definition customer_ok :: "'a shop_scheme \<Rightarrow> customer_row \<Rightarrow> bool" where
  "customer_ok s c \<longleftrightarrow> cs_liveOrders c = count_orders s (cs_id c) isOpen \<and>
     cs_cancelledOrders c = count_orders s (cs_id c) isTerminal \<and> cs_totalSpent c = spent s (cs_id c)"

definition customer_books :: "'a shop_scheme \<Rightarrow> bool" where
  "customer_books s \<longleftrightarrow> (\<forall>c \<in> set (sh_customers s). customer_ok s c)"

lemma count_orders_nonneg: "0 \<le> count_orders s c P"
  unfolding count_orders_def by (rule sum_list_nonneg) auto

lemma count_length: "count_orders s c P = int (length (filter (of_customer c P) (sh_orders s)))"
proof -
  have "sum_list (map (\<lambda>r. if Q r then 1 else 0) xs) = int (length (filter Q xs))" for Q and xs :: "order_row list"
    by (induction xs) auto
  then show ?thesis by (simp add: count_orders_def)
qed

lemma count_orders_cong: "sh_orders s' = sh_orders s \<Longrightarrow> count_orders s' = count_orders s \<and> spent s' = spent s"
  by (simp add: count_orders_def spent_def fun_eq_iff)

lemma count_written:
  assumes "distinct (map or_id (sh_orders s))" "r \<in> set (sh_orders s)"
  shows "count_orders (written (or_id r) f s) c P =
      count_orders s c P + (if of_customer c P (f r) then 1 else 0) - (if of_customer c P r then 1 else 0)"
    and "spent (written (or_id r) f s) c = spent s c +
      (if of_customer c (\<lambda>st. \<not> isTerminal st) (f r) then or_grandTotal (f r) else 0) -
      (if of_customer c (\<lambda>st. \<not> isTerminal st) r then or_grandTotal r else 0)"
  using sum_one_order [OF assms, where f = f and g = "\<lambda>r. if of_customer c P r then 1 else (0::int)"]
    sum_one_order [OF assms, where f = f and g = "\<lambda>r. if of_customer c (\<lambda>st. \<not> isTerminal st) r then or_grandTotal r else 0"]
  unfolding count_orders_def spent_def written_def by (simp_all del: map_map isTerminal_iff)

lemma customer_books_step:
  assumes "customer_books s" "distinct (map or_id (sh_orders s))" "r \<in> set (sh_orders s)"
    and "sh_orders s' = sh_orders (written (or_id r) f s)"
    and "sh_customers s' = map (\<lambda>c. if cs_id c = or_customerId r then g c else c) (sh_customers s)"
    and keep: "or_customerId (f r) = or_customerId r" "or_grandTotal (f r) = or_grandTotal r"
    and g: "\<And>c. c \<in> set (sh_customers s) \<Longrightarrow> cs_id c = or_customerId r \<Longrightarrow> cs_id (g c) = cs_id c \<and>
      cs_liveOrders (g c) = cs_liveOrders c + (if isOpen (os_status (f r)) then 1 else 0) - (if isOpen (os_status r) then 1 else 0) \<and>
      cs_cancelledOrders (g c) = cs_cancelledOrders c + (if isTerminal (os_status (f r)) then 1 else 0)
        - (if isTerminal (os_status r) then 1 else 0) \<and>
      cs_totalSpent (g c) = cs_totalSpent c + (if isTerminal (os_status (f r)) then 0 else or_grandTotal r)
        - (if isTerminal (os_status r) then 0 else or_grandTotal r)"
  shows "customer_books s'"
proof -
  note cong = count_orders_cong [OF assms(4)] and cw = count_written [OF assms(2,3), where f = f]
  have "customer_ok s' c" if "c \<in> set (sh_customers s')" for c
  proof -
    from that obtain x where x: "x \<in> set (sh_customers s)" "c = (if cs_id x = or_customerId r then g x else x)"
      by (auto simp: assms(5))
    have ok: "customer_ok s x" using assms(1) x(1) by (simp add: customer_books_def)
    show ?thesis
    proof (cases "cs_id x = or_customerId r")
      case True
      with g [OF x(1) True] x(2) ok keep show ?thesis
        by (simp add: customer_ok_def cong cw of_customer_def)
    next
      case False
      with x(2) ok keep show ?thesis by (simp add: customer_ok_def cong cw of_customer_def)
    qed
  qed
  then show ?thesis by (simp add: customer_books_def)
qed

text \<open>A plan and the status flags it sets.\<close>

lemma plan_flags:
  assumes "planTransition r req = Inr plan"
  shows "\<not> isTerminal (os_status r) \<and> tp_from plan = os_status r \<and> tp_to plan = rq_to req \<and>
    tp_voids plan = isTerminal (tp_to plan) \<and> tp_revokeCoupon plan = isTerminal (tp_to plan) \<and>
    tp_closes plan = (isOpen (os_status r) \<and> \<not> isOpen (tp_to plan)) \<and> (isOpen (tp_to plan) \<longrightarrow> isOpen (os_status r))"
  using assms
proof (cases rule: planTransition_cases)
  case Back
  then show ?thesis by (simp add: basePlan_def)
next
  case Void
  then show ?thesis using planVoid_Inr [OF Void(3,2)] by auto
next
  case Forward
  then show ?thesis by (cases "os_status r"; cases "rq_to req"; simp)
qed

lemma bookkeep_customers:
  assumes "bookkeep plan r a s2 = Inr s'"
  shows "sh_customers s' = (if tp_closes plan \<or> tp_voids plan
    then map (\<lambda>c. if cs_id c = or_customerId r then close_customer plan (or_grandTotal r) c else c) (sh_customers s2)
    else sh_customers s2)"
  using assms by (auto simp: bookkeep_def Let_def update_customer_def add_history_def revoke_def update_coupon_def
      set_revoked_def split: if_splits option.splits)

lemma apply_customer_books:
  assumes "apply_tx J ref cmd by_a s = Inr (plan, ev, s')" "stock_books s" "customer_books s"
  shows "customer_books s'"
proof -
  have d: "distinct (map or_id (sh_orders s))" "store_ok s" using assms(2) by (auto simp: stock_books_def)
  from apply_tx_Inr [OF assms(1) d(1)] obtain r low s2 req f where r: "r \<in> set (sh_orders s)"
    "planTransition r req = Inr plan" and f: "f = write_plan plan (tc_note cmd) (st_now s)"
    and run: "run_stock (fulfill J) release restock (tp_stock plan) (order_lines s (or_id r))
       \<lparr>sc_orderId = Some (or_id r), sc_purchaseId = None\<rparr> (written (or_id r) f s) = Inr (low, s2)"
    and b: "bookkeep plan r (ac_type by_a) s2 = Inr s'" by metis
  have "store_ok (written (or_id r) f s)" using d(2) by (simp add: same_storeD [OF same_store_written])
  note rest = rest_of_shop [OF inventory.run_stock_law [OF this run, THEN conjunct2, THEN conjunct1]]
  note fl = plan_flags [OF r(2)]
  have c2: "sh_customers s2 = sh_customers s" using rest(2) by (simp add: written_def)
  define g where "g = (if tp_closes plan \<or> tp_voids plan then close_customer plan (or_grandTotal r) else (\<lambda>c. c))"
  show ?thesis
  proof (rule customer_books_step [where r = r and f = f and g = g, OF assms(3) d(1) r(1)])
    show "sh_orders s' = sh_orders (written (or_id r) f s)" using bookkeep_frame(2) [OF b] rest(1) by simp
    show "sh_customers s' = map (\<lambda>c. if cs_id c = or_customerId r then g c else c) (sh_customers s)"
      using bookkeep_customers [OF b]
      by (cases "tp_closes plan \<or> tp_voids plan") (simp_all add: c2 g_def cong: if_cong)
    show "or_customerId (f r) = or_customerId r" "or_grandTotal (f r) = or_grandTotal r" by (simp_all add: f)
    fix c
    assume c: "c \<in> set (sh_customers s)" "cs_id c = or_customerId r"
    have live: "cs_liveOrders c = count_orders s (or_customerId r) isOpen"
      using assms(3) c by (auto simp: customer_books_def customer_ok_def)
    have pos: "1 \<le> cs_liveOrders c" if "isOpen (os_status r)"
    proof -
      have "1 \<le> length (filter (of_customer (or_customerId r) isOpen) (sh_orders s))"
        using r(1) that by (auto simp: Suc_le_eq length_greater_0_conv filter_empty_conv of_customer_def)
      then show ?thesis unfolding live count_length by simp
    qed
    show "cs_id (g c) = cs_id c \<and>
      cs_liveOrders (g c) = cs_liveOrders c + (if isOpen (os_status (f r)) then 1 else 0) - (if isOpen (os_status r) then 1 else 0) \<and>
      cs_cancelledOrders (g c) = cs_cancelledOrders c + (if isTerminal (os_status (f r)) then 1 else 0)
        - (if isTerminal (os_status r) then 1 else 0) \<and>
      cs_totalSpent (g c) = cs_totalSpent c + (if isTerminal (os_status (f r)) then 0 else or_grandTotal r)
        - (if isTerminal (os_status r) then 0 else or_grandTotal r)"
      using fl pos by (auto simp: f g_def close_customer_def Let_def)
  qed
qed

lemma reopen_customer_books:
  assumes "reopen_tx ref reason to_o v by_a s = Inr (ev, s')" "stock_books s" "customer_books s"
  shows "customer_books s'"
proof -
  have d: "distinct (map or_id (sh_orders s))" "store_ok s" using assms(2) by (auto simp: stock_books_def)
  obtain r to_t s2 where r: "r \<in> set (sh_orders s)" "planReopen r (or_cancelledFrom r)
      \<lparr>rr_to = to_o, rr_reason = reason, rr_actor = ac_type by_a\<rparr> = Inr (os_status r, to_t)"
    and run: "(if order_lines s (or_id r) \<noteq> [] then reserve (order_lines s (or_id r))
         \<lparr>sc_orderId = Some (or_id r), sc_purchaseId = None\<rparr> (written (or_id r) (write_reopen to_t (st_now s)) s)
       else Inr (written (or_id r) (write_reopen to_t (st_now s)) s)) = Inr s2"
    and b: "ebind (update_customer (or_customerId r) (reopen_customer (or_grandTotal r)) (snd (restore (or_id r) s2)))
       (\<lambda>s. Inr (add_history \<lparr>hi_orderId = or_id r, hi_fromStatus = Some (os_status r),
                              hi_toStatus = reopen_status to_t, hi_actorType = ac_type by_a\<rparr> s)) = Inr s'"
    by (rule reopen_tx_Inr [OF assms(1) d(1)])
  let ?f = "write_reopen to_t (st_now s)"
  have "store_ok (written (or_id r) ?f s)" using d(2) by (simp add: same_storeD [OF same_store_written])
  then have "rest_of s2 = rest_of (written (or_id r) ?f s)"
    using run reserve_ok by (auto split: if_splits)
  note rest = rest_of_shop [OF this]
  have closed: "os_status r \<in> {CANCELLED, RETURNED}" using r(2) by (auto simp: planReopen_def split: if_splits)
  show ?thesis
  proof (rule customer_books_step [where r = r and f = ?f and g = "reopen_customer (or_grandTotal r)", OF assms(3) d(1) r(1)])
    show "sh_orders s' = sh_orders (written (or_id r) ?f s)"
      using b rest(1) by (auto simp: update_customer_def add_history_def restore_def update_coupon_def set_revoked_def
          split: if_splits option.splits)
    show "sh_customers s' = map (\<lambda>c. if cs_id c = or_customerId r then reopen_customer (or_grandTotal r) c else c) (sh_customers s)"
      using b rest(2) by (auto simp: update_customer_def add_history_def restore_def update_coupon_def set_revoked_def
          written_def split: if_splits option.splits)
    show "or_customerId (?f r) = or_customerId r" "or_grandTotal (?f r) = or_grandTotal r"
      by (simp_all add: write_reopen_def)
    fix c
    assume c: "c \<in> set (sh_customers s)" "cs_id c = or_customerId r"
    have "1 \<le> length (filter (of_customer (or_customerId r) isTerminal) (sh_orders s))"
      using r(1) closed by (auto simp: Suc_le_eq length_greater_0_conv filter_empty_conv of_customer_def)
    then have "1 \<le> cs_cancelledOrders c"
      using assms(3) c by (auto simp: customer_books_def customer_ok_def count_length)
    then show "cs_id (reopen_customer (or_grandTotal r) c) = cs_id c \<and>
      cs_liveOrders (reopen_customer (or_grandTotal r) c) =
        cs_liveOrders c + (if isOpen (os_status (?f r)) then 1 else 0) - (if isOpen (os_status r) then 1 else 0) \<and>
      cs_cancelledOrders (reopen_customer (or_grandTotal r) c) =
        cs_cancelledOrders c + (if isTerminal (os_status (?f r)) then 1 else 0) - (if isTerminal (os_status r) then 1 else 0) \<and>
      cs_totalSpent (reopen_customer (or_grandTotal r) c) =
        cs_totalSpent c + (if isTerminal (os_status (?f r)) then 0 else or_grandTotal r)
        - (if isTerminal (os_status r) then 0 else or_grandTotal r)"
      using closed by (cases to_t) (auto simp: write_reopen_def reopen_customer_def)
  qed
qed

section \<open>The usage of the coupons\<close>

definition used_times :: "'a shop_scheme \<Rightarrow> id \<Rightarrow> int" where
  "used_times s c = sum_list (map (\<lambda>r. if rd_couponId r = c \<and> rd_revokedAt r = None then 1 else 0) (sh_redemptions s))"

definition redemption_ok :: "'a shop_scheme \<Rightarrow> redemption \<Rightarrow> bool" where
  "redemption_ok s x \<longleftrightarrow> (\<exists>r \<in> set (sh_orders s). or_id r = rd_orderId x \<and>
     (rd_revokedAt x = None \<longleftrightarrow> \<not> isTerminal (os_status r)))"

definition coupon_books :: "'a shop_scheme \<Rightarrow> bool" where
  "coupon_books s \<longleftrightarrow> distinct (map rd_orderId (sh_redemptions s)) \<and>
     (\<forall>c \<in> set (sh_coupons s). cr_usedCount c = used_times s (cr_id c)) \<and>
     (\<forall>x \<in> set (sh_redemptions s). redemption_ok s x)"

lemma used_times_set_revoked:
  assumes "distinct (map rd_orderId (sh_redemptions s))" "x \<in> set (sh_redemptions s)"
  shows "used_times (set_revoked (rd_orderId x) t s) c = used_times s c +
    (if rd_couponId x = c then (if t = None then 1 else 0) - (if rd_revokedAt x = None then 1 else 0) else 0)"
  using sum_update_one [OF assms, where P = "\<lambda>_. True" and f = "\<lambda>r. r\<lparr>rd_revokedAt := t\<rparr>"
      and g = "\<lambda>r. if rd_couponId r = c \<and> rd_revokedAt r = None then 1 else (0::int)"]
  by (simp add: used_times_def set_revoked_def)

lemma used_times_update_coupon [simp]: "used_times (update_coupon i f s) c = used_times s c"
  by (simp add: used_times_def update_coupon_def)

lemma used_times_pos:
  assumes "x \<in> set (sh_redemptions s)" "rd_revokedAt x = None"
  shows "1 \<le> used_times s (rd_couponId x)"
proof -
  let ?g = "\<lambda>r. if rd_couponId r = rd_couponId x \<and> rd_revokedAt r = None then 1 else (0::int)"
  have "?g x \<le> sum_list (map ?g (sh_redemptions s))" using assms(1) by (intro sum_list_member_le) auto
  then show ?thesis using assms(2) by (simp add: used_times_def)
qed

text \<open>
  A redemption is flipped when its order is closed or reopened; the counters follow.
\<close>

lemma coupon_books_flip:
  assumes "coupon_books s" "sh_coupons t = sh_coupons s" "sh_redemptions t = sh_redemptions s"
    and "sh_orders t = sh_orders (written (or_id r) f s)" "r \<in> set (sh_orders s)" "distinct (map or_id (sh_orders s))"
    and "or_id (f r) = or_id r" "isTerminal (os_status (f r)) \<noteq> isTerminal (os_status r)"
    and t': "t' = (if isTerminal (os_status (f r)) then snd (revoke (or_id r) t) else snd (restore (or_id r) t))"
  shows "coupon_books t'"
proof -
  have mem: "f r \<in> set (sh_orders t)" "\<And>o'. o' \<in> set (sh_orders s) \<Longrightarrow> or_id o' \<noteq> or_id r \<Longrightarrow> o' \<in> set (sh_orders t)"
    using assms(5) by (force simp: assms(4) written_def)+
  have uniq: "o' = r" if "o' \<in> set (sh_orders s)" "or_id o' = or_id r" for o'
    using that assms(5,6) by (auto simp: distinct_map inj_on_def)
  have other: "redemption_ok t x" if "x \<in> set (sh_redemptions s)" "rd_orderId x \<noteq> or_id r" for x
    using that assms(1) mem(2) by (fastforce simp: coupon_books_def redemption_ok_def)
  show ?thesis
  proof (cases "find (\<lambda>x. rd_orderId x = or_id r) (sh_redemptions t)")
    case None
    then have none: "\<forall>x \<in> set (sh_redemptions s). rd_orderId x \<noteq> or_id r" by (simp add: find_None_iff assms(3))
    have "t' = t" using None by (simp add: t' revoke_def restore_def)
    then show ?thesis using assms(1-3) other none by (auto simp: coupon_books_def used_times_def)
  next
    case (Some x)
    then have x: "x \<in> set (sh_redemptions s)" "rd_orderId x = or_id r" by (auto simp: find_Some_iff assms(3) in_set_conv_nth)
    have "redemption_ok s x" using x(1) assms(1) by (simp add: coupon_books_def)
    then have was: "rd_revokedAt x = None \<longleftrightarrow> \<not> isTerminal (os_status r)"
      unfolding redemption_ok_def x(2) using uniq by blast
    define tm where "tm = (if isTerminal (os_status (f r)) then Some (st_now t) else None)"
    define h :: "coupon_rule \<Rightarrow> coupon_rule" where "h = (\<lambda>c. c\<lparr>cr_usedCount := (if isTerminal (os_status (f r)) then max (cr_usedCount c - 1) 0 else cr_usedCount c + 1)\<rparr>)"
    have t'': "t' = update_coupon (rd_couponId x) h (set_revoked (or_id r) tm t)"
      using Some was assms(8) by (auto simp: t' revoke_def restore_def tm_def h_def)
    have dt: "distinct (map rd_orderId (sh_redemptions t))" and xt: "x \<in> set (sh_redemptions t)"
      using assms(1,3) x(1) by (auto simp: coupon_books_def)
    have ut: "used_times t c = used_times s c" for c by (simp add: used_times_def assms(3))
    have used: "used_times t' c = used_times s c +
        (if rd_couponId x = c then (if tm = None then 1 else 0) - (if rd_revokedAt x = None then 1 else 0) else 0)" for c
      using used_times_set_revoked [OF dt xt, of tm c] by (simp add: t'' x(2) ut)
    have "cr_usedCount c = used_times t' (cr_id c)" if "c \<in> set (sh_coupons t')" for c
    proof -
      from that obtain y where y: "y \<in> set (sh_coupons s)" "c = (if cr_id y = rd_couponId x then h y else y)"
        by (auto simp: t'' update_coupon_def set_revoked_def assms(2))
      have "cr_usedCount y = used_times s (cr_id y)" using assms(1) y(1) by (auto simp: coupon_books_def)
      then show ?thesis
        using y(2) was assms(8) used_times_pos [OF x(1)] by (auto simp: used h_def tm_def)
    qed
    moreover have "distinct (map rd_orderId (sh_redemptions t'))"
      using dt by (simp add: t'' update_coupon_def set_revoked_def comp_def if_distrib cong: if_cong)
    moreover have "redemption_ok t' z" if "z \<in> set (sh_redemptions t')" for z
    proof -
      have o: "sh_orders t' = sh_orders t" by (simp add: t'' update_coupon_def set_revoked_def)
      from that obtain w where w: "w \<in> set (sh_redemptions s)" "z = (if rd_orderId w = or_id r then w\<lparr>rd_revokedAt := tm\<rparr> else w)"
        by (auto simp: t'' update_coupon_def set_revoked_def assms(3))
      show ?thesis
      proof (cases "rd_orderId w = or_id r")
        case True
        with w(2) mem(1) assms(7) show ?thesis by (auto simp: redemption_ok_def o tm_def)
      next
        case False
        with other [OF w(1)] w(2) show ?thesis by (simp add: redemption_ok_def o)
      qed
    qed
    ultimately show ?thesis by (simp add: coupon_books_def)
  qed
qed

lemma coupon_books_same:
  assumes "coupon_books s" "sh_coupons t = sh_coupons s" "sh_redemptions t = sh_redemptions s"
    and "sh_orders t = sh_orders (written (or_id r) f s)" "r \<in> set (sh_orders s)" "distinct (map or_id (sh_orders s))"
    and "or_id (f r) = or_id r" "isTerminal (os_status (f r)) = isTerminal (os_status r)"
  shows "coupon_books t"
proof -
  have "redemption_ok t x" if "x \<in> set (sh_redemptions s)" for x
  proof -
    have "redemption_ok s x" using that assms(1) by (simp add: coupon_books_def)
    then obtain o' where o: "o' \<in> set (sh_orders s)" "or_id o' = rd_orderId x"
      "(rd_revokedAt x = None) = (\<not> isTerminal (os_status o'))"
      unfolding redemption_ok_def by (elim bexE conjE) (rule that)
    show ?thesis
    proof (cases "or_id o' = or_id r")
      case True
      then have "o' = r" using o(1) assms(5,6) by (simp add: distinct_map inj_on_def)
      moreover have "f r \<in> set (sh_orders t)" using assms(5) by (force simp: assms(4) written_def)
      ultimately show ?thesis unfolding redemption_ok_def using o(2,3) assms(7,8) by metis
    next
      case False
      then have "o' \<in> set (sh_orders t)" using o(1) unfolding assms(4) by (force simp: written_def)
      then show ?thesis unfolding redemption_ok_def using o(2,3) by metis
    qed
  qed
  then show ?thesis using assms(1-3) by (simp add: coupon_books_def used_times_def)
qed

lemma coupon_books_frame:
  assumes "sh_orders t = sh_orders s" "sh_coupons t = sh_coupons s" "sh_redemptions t = sh_redemptions s"
  shows "coupon_books t = coupon_books s"
  using assms by (simp add: coupon_books_def redemption_ok_def used_times_def)

lemma apply_coupon_books:
  assumes "apply_tx J ref cmd by_a s = Inr (plan, ev, s')" "stock_books s" "coupon_books s"
  shows "coupon_books s'"
proof -
  have d: "distinct (map or_id (sh_orders s))" "store_ok s" using assms(2) by (auto simp: stock_books_def)
  from apply_tx_Inr [OF assms(1) d(1)] obtain r low s2 req f where r: "r \<in> set (sh_orders s)"
    "planTransition r req = Inr plan" and f: "f = write_plan plan (tc_note cmd) (st_now s)"
    and run: "run_stock (fulfill J) release restock (tp_stock plan) (order_lines s (or_id r))
       \<lparr>sc_orderId = Some (or_id r), sc_purchaseId = None\<rparr> (written (or_id r) f s) = Inr (low, s2)"
    and b: "bookkeep plan r (ac_type by_a) s2 = Inr s'" by metis
  have "store_ok (written (or_id r) f s)" using d(2) by (simp add: same_storeD [OF same_store_written])
  note rest = rest_of_shop [OF inventory.run_stock_law [OF this run, THEN conjunct2, THEN conjunct1]]
  note fl = plan_flags [OF r(2)]
  have s2: "sh_coupons s2 = sh_coupons s" "sh_redemptions s2 = sh_redemptions s"
    "sh_orders s2 = sh_orders (written (or_id r) f s)" using rest by (simp_all add: written_def)
  have st: "os_status (f r) = tp_to plan" by (simp add: f)
  define s3 where "s3 = (if tp_revokeCoupon plan then snd (revoke (or_id r) s2) else s2)"
  have "coupon_books s3"
  proof (cases "tp_revokeCoupon plan")
    case True
    then show ?thesis using fl by (intro coupon_books_flip [OF assms(3) s2 r(1) d(1)]) (simp_all add: s3_def f)
  next
    case False
    then show ?thesis using fl by (intro coupon_books_same [OF assms(3) _ _ _ r(1) d(1), where f = f]) (simp_all add: s3_def s2 f)
  qed
  moreover have "sh_orders s' = sh_orders s3" "sh_coupons s' = sh_coupons s3" "sh_redemptions s' = sh_redemptions s3"
    using b by (auto simp: bookkeep_def s3_def [symmetric] update_customer_def add_history_def split: if_splits)
  ultimately show ?thesis using coupon_books_frame by blast
qed

lemma reopen_coupon_books:
  assumes "reopen_tx ref reason to_o v by_a s = Inr (ev, s')" "stock_books s" "coupon_books s"
  shows "coupon_books s'"
proof -
  have d: "distinct (map or_id (sh_orders s))" "store_ok s" using assms(2) by (auto simp: stock_books_def)
  obtain r to_t s2 where r: "r \<in> set (sh_orders s)" "planReopen r (or_cancelledFrom r)
      \<lparr>rr_to = to_o, rr_reason = reason, rr_actor = ac_type by_a\<rparr> = Inr (os_status r, to_t)"
    and run: "(if order_lines s (or_id r) \<noteq> [] then reserve (order_lines s (or_id r))
         \<lparr>sc_orderId = Some (or_id r), sc_purchaseId = None\<rparr> (written (or_id r) (write_reopen to_t (st_now s)) s)
       else Inr (written (or_id r) (write_reopen to_t (st_now s)) s)) = Inr s2"
    and b: "ebind (update_customer (or_customerId r) (reopen_customer (or_grandTotal r)) (snd (restore (or_id r) s2)))
       (\<lambda>s. Inr (add_history \<lparr>hi_orderId = or_id r, hi_fromStatus = Some (os_status r),
                              hi_toStatus = reopen_status to_t, hi_actorType = ac_type by_a\<rparr> s)) = Inr s'"
    by (rule reopen_tx_Inr [OF assms(1) d(1)])
  let ?f = "write_reopen to_t (st_now s)"
  have "store_ok (written (or_id r) ?f s)" using d(2) by (simp add: same_storeD [OF same_store_written])
  then have "rest_of s2 = rest_of (written (or_id r) ?f s)" using run reserve_ok by (auto split: if_splits)
  note rest = rest_of_shop [OF this]
  have s2: "sh_coupons s2 = sh_coupons s" "sh_redemptions s2 = sh_redemptions s"
    "sh_orders s2 = sh_orders (written (or_id r) ?f s)" using rest by (simp_all add: written_def)
  have closed: "isTerminal (os_status r)" using r(2) by (auto simp: planReopen_def split: if_splits)
  have "coupon_books (snd (restore (or_id r) s2))"
    using closed by (intro coupon_books_flip [OF assms(3) s2 r(1) d(1)]) (cases to_t; simp add: write_reopen_def)+
  moreover have "sh_orders s' = sh_orders (snd (restore (or_id r) s2))" "sh_coupons s' = sh_coupons (snd (restore (or_id r) s2))"
    "sh_redemptions s' = sh_redemptions (snd (restore (or_id r) s2))"
    using b by (auto simp: update_customer_def add_history_def split: if_splits)
  ultimately show ?thesis using coupon_books_frame by blast
qed

end
