(* ===== verification/Order_Payments.thy ===== *)
theory Order_Payments
  imports Payments
begin

text \<open>
  Money in on an order (\<open>orders/application/order-payment.service.ts\<close>) and the listener that connects
  it to the payments module (\<open>orders/listeners/payment.listener.ts\<close>): cash received by staff, a
  gateway success or failure, and the sweep over online orders that were never paid. The three Bangla
  notes that end up in the order's history are arguments.
\<close>

record pay_notes =
  nt_success :: "string \<Rightarrow> string"
  nt_failure :: "string \<Rightarrow> string"
  nt_swept :: string

definition webhook_actor :: actor_ref where
  "webhook_actor = \<lparr>ac_id = None, ac_type = WEBHOOK\<rparr>"

definition system_actor :: actor_ref where
  "system_actor = \<lparr>ac_id = None, ac_type = SYSTEM\<rparr>"

definition command_to :: "order_status \<Rightarrow> string \<Rightarrow> transition_command" where
  "command_to st note = \<lparr>tc_to = st, tc_mode = Advance, tc_note = Some note, tc_credit = None, tc_expectedVersion = None\<rparr>"

text \<open>The cash was received.\<close>

definition write_paid :: "time \<Rightarrow> order_row \<Rightarrow> order_row" where
  "write_paid now r = r\<lparr>os_paymentStatus := PAID, or_amountPaid := or_grandTotal r, or_paidAt := Some now, or_version := or_version r + 1\<rparr>"

definition markPaid :: "order_ref option \<Rightarrow> int option \<Rightarrow> 'a shop_scheme \<Rightarrow> (shop_event list \<times> 'a shop_scheme) result" where
  "markPaid ref v s =
     (case order_by_ref ref s of
        None \<Rightarrow> Inl (NotFoundError ''Order'' '''')
      | Some r \<Rightarrow>
          if (case v of None \<Rightarrow> False | Some v \<Rightarrow> v \<noteq> or_version r) then Inl (ConflictError ''order.version_conflict'')
          else if os_status r = CANCELLED \<or> os_status r = RETURNED then Inl (BusinessRuleError ''order.closed'')
          else if os_paymentStatus r \<noteq> UNPAID then Inl (BusinessRuleError ''order.already_paid'')
          else ebind (update_order (or_id r) (or_version r) (write_paid (st_now s)) s) (\<lambda>(count, s).
            if count = 0 then Inl (ConflictError ''order.version_conflict'')
            else Inr ([OrderPaid (or_id r) (or_grandTotal r)], s)))"

text \<open>
  The gateway captured the money. The update is by id only; the confirmation that follows is part of
  the same transaction.
\<close>

definition write_captured :: "money \<Rightarrow> money \<Rightarrow> time \<Rightarrow> order_row \<Rightarrow> order_row" where
  "write_captured amount fee now r =
     r\<lparr>os_paymentStatus := PAID, or_amountPaid := amount, or_paidAt := Some now, or_gatewayFee := or_gatewayFee r + fee,
       or_version := or_version r + 1\<rparr>"

definition onGatewaySuccess ::
  "decimal_js \<Rightarrow> pay_notes \<Rightarrow> id \<Rightarrow> money \<Rightarrow> money \<Rightarrow> string \<Rightarrow> 'a shop_scheme \<Rightarrow> (shop_event list \<times> 'a shop_scheme) result" where
  "onGatewaySuccess J notes orderId amount fee tranId s =
     (case find_order orderId s of
        None \<Rightarrow> Inr ([], s)
      | Some r \<Rightarrow>
          if os_paymentStatus r \<noteq> UNPAID then Inr ([], s)
          else ebind (set_order (or_id r) (write_captured amount fee (st_now s)) s) (\<lambda>s.
            if os_status r = PENDING
            then ebind (apply_tx J (Some (ById (or_id r))) (command_to CONFIRMED (nt_success notes tranId)) webhook_actor s) (\<lambda>(plan, ev, s).
              Inr (OrderPaid (or_id r) amount # fst (publish ev), s))
            else Inr ([OrderPaid (or_id r) amount], s)))"

definition alive_attempts :: "id \<Rightarrow> id \<Rightarrow> 'a till_scheme \<Rightarrow> nat" where
  "alive_attempts orderId paymentId s = length (filter (\<lambda>p. py_orderId p = orderId \<and> py_id p \<noteq> paymentId \<and>
     py_status p \<in> {Pay_INITIATED, Pay_PENDING, Pay_SUCCESS}) (tl_payments s))"

definition onGatewayFailure ::
  "decimal_js \<Rightarrow> pay_notes \<Rightarrow> id \<Rightarrow> id \<Rightarrow> string \<Rightarrow> 'a till_scheme \<Rightarrow> (shop_event list \<times> 'a till_scheme) result" where
  "onGatewayFailure J notes paymentId orderId reason s =
     (case find_order orderId s of
        None \<Rightarrow> Inr ([], s)
      | Some r \<Rightarrow>
          if os_paymentMethod r \<noteq> SSLCOMMERZ \<or> os_status r \<noteq> PENDING \<or> os_paymentStatus r \<noteq> UNPAID then Inr ([], s)
          else if alive_attempts (or_id r) paymentId s > 0 then Inr ([], s)
          else ebind (apply_tx J (Some (ById (or_id r))) (command_to CANCELLED (take 500 (nt_failure notes reason))) webhook_actor s)
            (\<lambda>(plan, ev, s). Inr (fst (publish ev), s)))"

text \<open>The listener: an event of the payments module, and an error is only logged.\<close>

definition on_pay_event :: "decimal_js \<Rightarrow> pay_notes \<Rightarrow> pay_event \<Rightarrow> 'a till_scheme \<Rightarrow> shop_event list \<times> 'a till_scheme" where
  "on_pay_event J notes e s =
     (case (case e of
              PaymentSucceeded paymentId orderId amount fee tranId \<Rightarrow> onGatewaySuccess J notes orderId amount fee tranId s
            | PaymentFailed paymentId orderId reason \<Rightarrow> onGatewayFailure J notes paymentId orderId reason s) of
        Inr (evs, s) \<Rightarrow> (evs, s)
      | Inl _ \<Rightarrow> ([], s))"

text \<open>
  The sweep: the orders are selected first, and each is then cancelled in a transaction of its own.
\<close>

definition STALE_SSL_MINUTES :: int where "STALE_SSL_MINUTES = 45"

definition stale_orders :: "int \<Rightarrow> 'a till_scheme \<Rightarrow> id list" where
  "stale_orders olderThanMinutes s =
     (let cutoff = st_now s - olderThanMinutes * 60000
      in map or_id (take 100 (filter (\<lambda>r. os_paymentMethod r = SSLCOMMERZ \<and> os_status r = PENDING \<and> os_paymentStatus r = UNPAID \<and>
           or_placedAt r < cutoff \<and>
           \<not> list_ex (\<lambda>p. py_orderId p = or_id r \<and> py_status p \<in> {Pay_SUCCESS, Pay_PENDING}) (tl_payments s)) (sh_orders s))))"

fun cancel_each :: "decimal_js \<Rightarrow> pay_notes \<Rightarrow> id list \<Rightarrow> 'a shop_scheme \<Rightarrow> (nat \<times> shop_event list) \<times> 'a shop_scheme" where
  "cancel_each J notes [] s = ((0, []), s)"
| "cancel_each J notes (i # is) s =
     (case transition J (Some (ById i)) (command_to CANCELLED (nt_swept notes)) system_actor s of
        Inr (evs, s) \<Rightarrow> let ((n, evs'), s) = cancel_each J notes is s in ((Suc n, evs @ evs'), s)
      | Inl _ \<Rightarrow> cancel_each J notes is s)"

definition cancelStaleUnpaid :: "decimal_js \<Rightarrow> pay_notes \<Rightarrow> int \<Rightarrow> 'a till_scheme \<Rightarrow> (nat \<times> shop_event list) \<times> 'a till_scheme" where
  "cancelStaleUnpaid J notes olderThanMinutes s = cancel_each J notes (stale_orders olderThanMinutes s) s"

end
