(* ===== verification/Shop_Properties.thy ===== *)
theory Shop_Properties
  imports Stock_Properties Order_Books Order_Payments
begin

text \<open>
  The books that span products, orders, customers and coupons, kept by every command on an order and
  by every reaction to a payment: what products hold for open orders, what is on the shelf or out
  with orders, the counters of the customers and the usage of the coupons.
\<close>

definition shop_books :: "'a shop_scheme \<Rightarrow> bool" where
  "shop_books s \<longleftrightarrow> stock_books s \<and> customer_books s \<and> coupon_books s"

text \<open>A product's copies, on the shelf or out with an order.\<close>

definition goods :: "'a shop_scheme \<Rightarrow> id \<Rightarrow> int" where
  "goods s p = on_hand s p + outside s p"

section \<open>Writes that only concern money\<close>

definition quiet :: "(order_row \<Rightarrow> order_row) \<Rightarrow> bool" where
  "quiet f \<longleftrightarrow> (\<forall>r. or_id (f r) = or_id r \<and> or_customerId (f r) = or_customerId r \<and> or_grandTotal (f r) = or_grandTotal r \<and>
     os_status (f r) = os_status r \<and> os_stockReserved (f r) = os_stockReserved r \<and> os_shippedAt (f r) = os_shippedAt r)"

lemma quiet_writes [simp]: "quiet (write_paid now)" "quiet (write_captured amount fee now)"
  by (simp_all add: quiet_def write_paid_def write_captured_def)

lemma quietD:
  assumes "quiet f"
  shows "or_id (f r) = or_id r" "of_customer c P (f r) = of_customer c P r" "or_grandTotal (f r) = or_grandTotal r"
    "stage_ok (f r) = stage_ok r" "held_by s p (f r) = held_by s p r" "out_with s p (f r) = out_with s p r"
    "os_status (f r) = os_status r"
  using assms by (simp_all add: quiet_def of_customer_def stage_ok_def held_by_def out_with_def)

lemma sum_quiet: "(\<And>r. g (f r) = g r) \<Longrightarrow> sum_list (map g (map (\<lambda>r. if P r then f r else r) xs)) = sum_list (map g xs)"
  by (induction xs) auto

lemma quiet_books:
  assumes "quiet f" "shop_books s"
  shows "shop_books (written i f s)" "goods (written i f s) p = goods s p"
proof -
  let ?w = "written i f s"
  note q = quietD [OF assms(1)]
  have o: "sh_orders ?w = map (\<lambda>r. if or_id r = i then f r else r) (sh_orders s)" by (simp add: written_def)
  have l: "order_lines ?w = order_lines s" by (simp add: fun_eq_iff order_lines_same_store [OF same_store_written])
  have hb: "held_by ?w = held_by s" "out_with ?w = out_with s" by (simp_all add: held_by_def out_with_def l fun_eq_iff)
  have st: "store_ok ?w = store_ok s" "reserved ?w = reserved s" "on_hand ?w = on_hand s"
    by (simp_all add: same_storeD [OF same_store_written] fun_eq_iff)
  have ids: "map or_id (sh_orders ?w) = map or_id (sh_orders s)" by (simp add: o q cong: if_cong)
  have h: "held ?w p = held s p" "outside ?w p = outside s p" for p
    unfolding held_def outside_def hb o by (rule sum_quiet, simp add: q)+
  have rows: "stage_ok r \<and> (\<forall>l \<in> set (order_lines s (or_id r)). 0 < snd l)" if "r \<in> set (sh_orders ?w)" for r
  proof -
    from that obtain x where x: "x \<in> set (sh_orders s)" "r = (if or_id x = i then f x else x)" by (auto simp: o)
    then have "stage_ok r = stage_ok x" "or_id r = or_id x" by (simp_all add: q)
    then show ?thesis using x(1) assms(2) unfolding shop_books_def stock_books_def by metis
  qed
  have "stock_books ?w" using assms(2) rows ids by (simp add: shop_books_def stock_books_def st h l)
  moreover have "count_orders ?w c P = count_orders s c P" "spent ?w c = spent s c" for c P
    unfolding count_orders_def spent_def o by (rule sum_quiet, simp add: q)+
  then have "customer_books ?w" using assms(2) by (simp add: shop_books_def customer_books_def customer_ok_def) (simp add: written_def)
  moreover have "redemption_ok ?w x" if rs: "redemption_ok s x" for x
  proof -
    from rs obtain r where r: "r \<in> set (sh_orders s)" "or_id r = rd_orderId x" "(rd_revokedAt x = None) = (\<not> isTerminal (os_status r))"
      unfolding redemption_ok_def by (elim bexE conjE) (rule that)
    show ?thesis unfolding redemption_ok_def
      by (rule bexI [of _ "if or_id r = i then f r else r"]) (use r q in \<open>auto simp: o\<close>)
  qed
  then have "coupon_books ?w"
    using assms(2) by (simp add: shop_books_def coupon_books_def used_times_def) (simp add: written_def)
  ultimately show "shop_books ?w" by (simp add: shop_books_def)
  show "goods ?w p = goods s p" by (simp add: goods_def st h)
qed

lemma apply_books:
  assumes "apply_tx J ref cmd by_a s = Inr (plan, ev, s')" "shop_books s"
  shows "shop_books s'" "pos s p \<noteq> None \<Longrightarrow> goods s' p = goods s p"
  using apply_stock_books [OF assms(1)] apply_customer_books [OF assms(1)] apply_coupon_books [OF assms(1)] assms(2)
  by (auto simp: shop_books_def goods_def)

lemma reopen_books:
  assumes "reopen_tx ref reason to_o v by_a s = Inr (ev, s')" "shop_books s"
  shows "shop_books s'" "pos s p \<noteq> None \<Longrightarrow> goods s' p = goods s p"
  using reopen_stock_books [OF assms(1)] reopen_customer_books [OF assms(1)] reopen_coupon_books [OF assms(1)] assms(2)
  by (auto simp: shop_books_def goods_def)

lemma markPaid_written:
  assumes "markPaid ref v s = Inr (evs, s')" "distinct (map or_id (sh_orders s))"
  shows "\<exists>r \<in> set (sh_orders s). s' = written (or_id r) (write_paid (st_now s)) s \<and> os_paymentStatus r = UNPAID \<and>
    os_status r \<notin> {CANCELLED, RETURNED} \<and> evs = [OrderPaid (or_id r) (or_grandTotal r)]"
proof -
  from assms(1) obtain r n where r: "order_by_ref ref s = Some r" and g: "os_paymentStatus r = UNPAID" "os_status r \<notin> {CANCELLED, RETURNED}"
    and u: "update_order (or_id r) (or_version r) (write_paid (st_now s)) s = Inr (n, s')" "n \<noteq> 0" and e: "evs = [OrderPaid (or_id r) (or_grandTotal r)]"
    by (auto simp: markPaid_def ebind_Inr_iff split: option.splits if_splits)
  note mem = order_by_ref_mem [OF r]
  from update_orderD [OF u assms(2) mem] show ?thesis using mem g e by (auto simp: written_def)
qed

lemma captured_cases:
  assumes "onGatewaySuccess J notes i amount fee t s = Inr (evs, s')"
  shows "(s' = s \<and> evs = []) \<or> (\<exists>r w. find_order i s = Some r \<and> os_paymentStatus r = UNPAID \<and> w = written i (write_captured amount fee (st_now s)) s \<and>
     (s' = w \<and> os_status r \<noteq> PENDING \<or>
      (\<exists>plan ev. os_status r = PENDING \<and> apply_tx J (Some (ById i)) (command_to CONFIRMED (nt_success notes t)) webhook_actor w = Inr (plan, ev, s'))))"
  using assms
  by (auto simp: onGatewaySuccess_def ebind_Inr_iff dest!: set_orderD dest: find_orderD split: option.splits if_splits)

section \<open>The books are kept\<close>

inductive shop_step :: "decimal_js \<Rightarrow> 'a till_scheme \<Rightarrow> 'a till_scheme \<Rightarrow> bool" for J where
  Transition: "apply_tx J ref cmd by_a s = Inr (plan, ev, s') \<Longrightarrow> shop_step J s s'"
| Regress: "regress J ref nt v by_a s = Inr (plan, ev, s') \<Longrightarrow> shop_step J s s'"
| Reopen: "reopen_tx ref reason to_o v by_a s = Inr (ev, s') \<Longrightarrow> shop_step J s s'"
| CashIn: "markPaid ref v s = Inr (evs, s') \<Longrightarrow> shop_step J s s'"
| PayEvent: "on_pay_event J notes e s = (evs, s') \<Longrightarrow> shop_step J s s'"
| Sweep: "cancelStaleUnpaid J notes minutes s = (n, s') \<Longrightarrow> shop_step J s s'"

lemma cancel_each_induct:
  assumes "cancel_each J notes is s = (out, s')" "Q s"
    and "\<And>i s plan ev s'. Q s \<Longrightarrow> apply_tx J (Some (ById i)) (command_to CANCELLED (nt_swept notes)) system_actor s = Inr (plan, ev, s') \<Longrightarrow> Q s'"
  shows "Q s'"
proof -
  have "Q s'" if "cancel_each J notes js t = (out1, s')" "Q t" for js t out1
    using that
  proof (induction js arbitrary: t out1)
    case (Cons i js)
    show ?case
    proof (cases "transition J (Some (ById i)) (command_to CANCELLED (nt_swept notes)) system_actor t")
      case (Inl e)
      then show ?thesis using Cons by auto
    next
      case (Inr r)
      then obtain evs s1 plan ev where r: "r = (evs, s1)"
        and a: "apply_tx J (Some (ById i)) (command_to CANCELLED (nt_swept notes)) system_actor t = Inr (plan, ev, s1)"
        by (auto simp: transition_def ebind_Inr_iff)
      obtain out2 s2 where c: "cancel_each J notes js s1 = (out2, s2)" by fastforce
      have e: "s2 = s'" using Cons(2) Inr r c by (auto simp: Let_def split: prod.splits)
      show ?thesis using Cons(1) [OF c [unfolded e]] assms(3) [OF Cons(3) a] by simp
    qed
  qed simp
  then show ?thesis using assms(1,2) by blast
qed

lemma pay_event_books:
  assumes "on_pay_event J notes e s = (evs, s')" "shop_books s"
  shows "shop_books s'"
proof (cases e)
  case (PaymentSucceeded paymentId i amount fee t)
  then have "s' = s \<or> onGatewaySuccess J notes i amount fee t s = Inr (evs, s')"
    using assms(1) by (auto simp: on_pay_event_def split: sum.splits)
  then show ?thesis
    using assms(2) quiet_books(1) [OF quiet_writes(2) assms(2)] apply_books(1) captured_cases by metis
next
  case (PaymentFailed paymentId i reason)
  then have "s' = s \<or> (\<exists>r c a plan ev. apply_tx J r c a s = Inr (plan, ev, s'))"
    using assms(1) by (auto simp: on_pay_event_def onGatewayFailure_def ebind_Inr_iff split: sum.splits option.splits if_splits)
  then show ?thesis using assms(2) apply_books(1) by metis
qed


section \<open>Goods, and what automatic cancellations spare\<close>

text \<open>
  C25. A transition or a reopening moves copies between the shelf and the orders that are out, and
  neither creates nor loses one: for every product the copies on hand plus those out with shipped
  orders stay the same.
\<close>

theorem goods_conserved:
  assumes "apply_tx J ref cmd by_a s = Inr (plan, ev, s') \<or> reopen_tx ref reason to_o v by_a s = Inr (ev', s')"
    and "stock_books s" "st_products s p \<noteq> None"
  shows "goods s' p = goods s p"
  using assms apply_stock_books reopen_stock_books by (fastforce simp: goods_def pos_def)

lemma apply_order:
  assumes "apply_tx J ref cmd by_a s = Inr (plan, ev, s')" "stock_books s"
  shows "\<exists>r. order_by_ref ref s = Some r \<and> r \<in> set (sh_orders s) \<and>
    planTransition r \<lparr>rq_to = tc_to cmd, rq_mode = tc_mode cmd, rq_actor = ac_type by_a,
       rq_credit = map_option (\<lambda>(reason, loss). \<lparr>ci_reason = reason, ci_courierLoss = round2 (D loss)\<rparr>) (tc_credit cmd),
       rq_now = st_now s\<rparr> = Inr plan \<and>
    sh_orders s' = sh_orders (written (or_id r) (write_plan plan (tc_note cmd) (st_now s)) s)"
proof -
  have d: "distinct (map or_id (sh_orders s))" "store_ok s" using assms(2) by (auto simp: stock_books_def)
  from apply_tx_Inr [OF assms(1) d(1)] obtain r low s2 where r: "r \<in> set (sh_orders s)" "order_by_ref ref s = Some r"
    "planTransition r \<lparr>rq_to = tc_to cmd, rq_mode = tc_mode cmd, rq_actor = ac_type by_a,
       rq_credit = map_option (\<lambda>(reason, loss). \<lparr>ci_reason = reason, ci_courierLoss = round2 (D loss)\<rparr>) (tc_credit cmd),
       rq_now = st_now s\<rparr> = Inr plan"
    and run: "run_stock (fulfill J) release restock (tp_stock plan) (order_lines s (or_id r))
       \<lparr>sc_orderId = Some (or_id r), sc_purchaseId = None\<rparr> (written (or_id r) (write_plan plan (tc_note cmd) (st_now s)) s) = Inr (low, s2)"
    and b: "bookkeep plan r (ac_type by_a) s2 = Inr s'" by metis
  have "store_ok (written (or_id r) (write_plan plan (tc_note cmd) (st_now s)) s)" using d(2) by (simp add: same_storeD [OF same_store_written])
  note rest = rest_of_shop [OF inventory.run_stock_law [OF this run, THEN conjunct2, THEN conjunct1]]
  show ?thesis using r rest(1) bookkeep_frame(2) [OF b] by auto
qed

text \<open>A cancellation without a credit reason reaches pending orders only.\<close>

lemma plain_cancel_pending:
  assumes "apply_tx J (Some (ById i)) (command_to CANCELLED note_text) a s = Inr (plan, ev, s')" "stock_books s"
    and "r \<in> set (sh_orders s)" "os_status r \<noteq> PENDING"
  shows "r \<in> set (sh_orders s')"
proof -
  from apply_order [OF assms(1,2)] obtain x where x: "x \<in> set (sh_orders s)"
    "planTransition x \<lparr>rq_to = CANCELLED, rq_mode = Advance, rq_actor = ac_type a, rq_credit = None, rq_now = st_now s\<rparr> = Inr plan"
    and o: "sh_orders s' = sh_orders (written (or_id x) (write_plan plan (Some note_text) (st_now s)) s)"
    by (auto simp: command_to_def)
  have "os_status x = PENDING" using x(2) by (auto simp: planTransition_def planVoid_def Let_def split: if_splits)
  then have "x \<noteq> r" using assms(4) by auto
  then have "or_id x \<noteq> or_id r" using x(1) assms(2,3) by (auto simp: stock_books_def distinct_map inj_on_def)
  then show ?thesis using assms(3) unfolding o by (force simp: written_def)
qed


text \<open>
  A capture marks its order paid with the captured amount, confirms it when it was pending, and
  any further capture for the order changes nothing and emits nothing.
\<close>

theorem capture_marks_paid_once:
  assumes "onGatewaySuccess J notes i amount fee t s = Inr (evs, s')" "shop_books s" "find_order i s = Some r"
  shows "\<exists>r'. find_order i s' = Some r' \<and> os_paymentStatus r' \<noteq> UNPAID \<and>
    (os_paymentStatus r = UNPAID \<longrightarrow> or_amountPaid r' = amount \<and> or_gatewayFee r' = or_gatewayFee r + fee \<and>
       os_status r' = (if os_status r = PENDING then CONFIRMED else os_status r)) \<and>
    (os_paymentStatus r \<noteq> UNPAID \<longrightarrow> s' = s) \<and>
    onGatewaySuccess J notes i amount2 fee2 t2 s' = Inr ([], s')"
proof -
  let ?c = "write_captured amount fee (st_now s)"
  let ?w = "written i ?c s"
  have find_w: "find_order i (written i f x) = map_option f (find_order i x)" if "\<And>y. or_id (f y) = or_id y"
    for f and x :: "'a shop_scheme"
  proof -
    have "find (\<lambda>y. or_id y = i) (map (\<lambda>y. if or_id y = i then f y else y) ys) = map_option f (find (\<lambda>y. or_id y = i) ys)" for ys
      using that by (induction ys) auto
    then show ?thesis by (simp add: find_order_def written_def)
  qed
  have rid: "or_id r = i" using find_orderD [OF assms(3)] by simp
  have w: "find_order i ?w = Some (?c r)" using assms(3) by (subst find_w) (simp_all add: write_captured_def)
  have noop: "onGatewaySuccess J notes i amount2 fee2 t2 x = Inr ([], x)"
    if "find_order i x = Some r'" "os_paymentStatus r' \<noteq> UNPAID" for x :: "'a shop_scheme" and r'
    using that by (simp add: onGatewaySuccess_def)
  show ?thesis
  proof (cases "os_paymentStatus r = UNPAID")
    case False
    then have "s' = s" using assms(1,3) by (simp add: onGatewaySuccess_def)
    then show ?thesis using False assms(3) noop [OF assms(3) False] by simp
  next
    case True
    from captured_cases [OF assms(1)] have cs: "s' = s \<and> evs = [] \<or> s' = ?w \<and> os_status r \<noteq> PENDING \<or>
      (\<exists>plan ev. os_status r = PENDING \<and> apply_tx J (Some (ById i)) (command_to CONFIRMED (nt_success notes t)) webhook_actor ?w = Inr (plan, ev, s'))"
      using assms(3) by auto
    have "evs \<noteq> []"
      using assms(1,3) True by (auto simp: onGatewaySuccess_def ebind_Inr_iff split: if_splits)
    with cs consider "s' = ?w" "os_status r \<noteq> PENDING"
      | plan ev where "os_status r = PENDING" "apply_tx J (Some (ById i)) (command_to CONFIRMED (nt_success notes t)) webhook_actor ?w = Inr (plan, ev, s')"
      by blast
    then show ?thesis
    proof cases
      case 1
      have "os_paymentStatus (?c r) \<noteq> UNPAID" by (simp add: write_captured_def)
      then show ?thesis using 1 w True noop [OF w] by (simp add: write_captured_def)
    next
      case 2
      have "stock_books ?w" using quiet_books(1) [OF quiet_writes(2) assms(2)] by (simp add: shop_books_def)
      from apply_order [OF 2(2) this] w have p: "planTransition (?c r) \<lparr>rq_to = CONFIRMED, rq_mode = Advance, rq_actor = WEBHOOK,
          rq_credit = None, rq_now = st_now ?w\<rparr> = Inr plan"
        and o: "sh_orders s' = sh_orders (written (or_id (?c r)) (write_plan plan (Some (nt_success notes t)) (st_now ?w)) ?w)"
        by (auto simp: command_to_def webhook_actor_def order_by_ref_def)
      let ?p = "write_plan plan (Some (nt_success notes t)) (st_now ?w)"
      have "plan = forward_plan (?c r) \<lparr>rq_to = CONFIRMED, rq_mode = Advance, rq_actor = WEBHOOK, rq_credit = None, rq_now = st_now ?w\<rparr>"
        using p by (auto simp: planTransition_def Let_def split: if_splits)
      then have pl: "tp_to plan = CONFIRMED" "\<not> tp_markPaid plan" "\<not> tp_voids plan" by (simp_all add: forward_plan_def basePlan_def Let_def)
      have "or_id (?c r) = i" using rid by (simp add: write_captured_def)
      then have "find_order i s' = find_order i (written i ?p ?w)" using o by (simp add: find_order_def)
      then have f: "find_order i s' = Some (?p (?c r))" by (simp add: find_w w)
      have g: "os_paymentStatus (?p (?c r)) = PAID" "or_amountPaid (?p (?c r)) = amount" "or_gatewayFee (?p (?c r)) = or_gatewayFee r + fee"
        "os_status (?p (?c r)) = CONFIRMED"
        using pl by (simp_all add: write_plan_def Let_def write_captured_def)
      show ?thesis using f g 2(1) True noop [OF f] by simp
    qed
  qed
qed

section \<open>A concrete shop\<close>

text \<open>One product with a copy held for a pending online order of 120.\<close>

definition pending_order :: order_row where
  "pending_order = \<lparr>os_status = PENDING, os_paymentMethod = SSLCOMMERZ, os_paymentStatus = UNPAID, os_stockReserved = True,
     os_confirmedAt = None, os_shippedAt = None, or_id = ''o1'', or_orderNo = ''CLO-2042'', or_customerId = ''c1'',
     or_itemsSubtotal = 100, or_discountTotal = 0, or_couponCode = None, or_shippingFee = 20, or_taxTotal = 0, or_grandTotal = 120,
     or_amountPaid = 0, or_amountRefunded = 0, or_itemsCost = None, or_courierCost = 0, or_gatewayFee = 0, or_courierLoss = 0,
     or_cancelReason = None, or_cancelledFrom = None, or_placedAt = 0, or_deliveredAt = None, or_cancelledAt = None,
     or_paidAt = None, or_version = 1\<rparr>"

definition sample_shop :: till where
  "sample_shop = \<lparr>st_now = 10, st_nextId = 2, st_products = [''p'' \<mapsto> sample_row],
     st_lots = [sample_lot 0 2 1, sample_lot 1 3 2], st_uses = [], st_moves = [],
     st_items = [\<lparr>oi_orderId = ''o1'', oi_kind = PRODUCT, oi_productId = Some ''p'', oi_bundleId = None, oi_quantity = 1,
       oi_unitPrice = 100, oi_listPrice = 100, oi_unitCost = None, oi_discount = 0, oi_taxAmount = 0, oi_lineTotal = 100, oi_components = []\<rparr>],
     sh_orders = [pending_order],
     sh_customers = [\<lparr>cs_id = ''c1'', cs_userId = None, cs_phone = ''+8801712345678'', cs_email = None, cs_name = ''A'', cs_isBlocked = False,
       cs_ordersCount = 1, cs_liveOrders = 1, cs_cancelledOrders = 0, cs_totalSpent = 120, cs_firstOrderAt = None, cs_lastOrderAt = None,
       cs_deletedAt = None\<rparr>],
     sh_coupons = [], sh_redemptions = [], sh_history = [],
     tl_uuid = (\<lambda>n. replicate n CHR ''u''), tl_issued = 0, tl_accounts = [], tl_txns = [], tl_payments = [],
     tl_refunds = [], tl_purchases = [], tl_shipments = []\<rparr>"

definition exact_js :: decimal_js where
  "exact_js = \<lparr>prec = (\<lambda>x. x), dbl = (\<lambda>x. x)\<rparr>"

definition plain_notes :: pay_notes where
  "plain_notes = \<lparr>nt_success = (\<lambda>t. t), nt_failure = (\<lambda>t. t), nt_swept = ''swept''\<rparr>"

lemma sample_shop_books: "shop_books sample_shop"
proof -
  have st: "store_ok sample_shop"
    by (auto simp: store_ok_def shelf_ok_def lots_ok_def outstanding_def lots_left_def on_hand_def sample_shop_def sample_row_def sample_lot_def
      products_reserved_lte_hand_def products_stock_nonneg_def split: if_splits)
  have o: "sh_orders sample_shop = [pending_order]" by (simp add: sample_shop_def)
  have i: "or_id pending_order = ''o1''" "stage_ok pending_order" by (simp_all add: pending_order_def stage_ok_def)
  have l: "order_lines sample_shop ''o1'' = [(''p'', 1)]"
    by (simp add: order_lines_def items_of_def stockLinesOf_def item_lines_def sample_shop_def)
  have "held sample_shop p = reserved sample_shop p" for p
    by (simp add: held_def o held_by_def pending_order_def l units_def reserved_def) (simp add: sample_shop_def sample_row_def)
  then have "stock_books sample_shop"
    using st by (simp add: stock_books_def o i l)
  moreover have "customer_books sample_shop"
    by (simp add: customer_books_def customer_ok_def count_orders_def spent_def o of_customer_def pending_order_def) (simp add: sample_shop_def)
  moreover have "coupon_books sample_shop" by (simp add: coupon_books_def sample_shop_def)
  ultimately show ?thesis by (simp add: shop_books_def)
qed


theorem goods_conserved_witness:
  "\<exists>plan ev s'. apply_tx exact_js (Some (ById ''o1'')) (command_to CANCELLED ''x'') system_actor sample_shop = Inr (plan, ev, s') \<and>
     goods s' ''p'' = goods sample_shop ''p''"
proof -
  have "case apply_tx exact_js (Some (ById ''o1'')) (command_to CANCELLED ''x'') system_actor sample_shop of Inl e \<Rightarrow> False | Inr _ \<Rightarrow> True"
    by code_simp
  then obtain plan ev s' where a: "apply_tx exact_js (Some (ById ''o1'')) (command_to CANCELLED ''x'') system_actor sample_shop = Inr (plan, ev, s')"
    by (auto split: sum.splits)
  have "goods s' ''p'' = goods sample_shop ''p''"
    by (rule goods_conserved [OF disjI1 [OF a]]) (use sample_shop_books in \<open>simp_all add: shop_books_def\<close>, simp add: sample_shop_def)
  then show ?thesis using a by blast
qed

theorem capture_marks_paid_once_witness:
  "\<exists>evs s' r'. onGatewaySuccess exact_js plain_notes ''o1'' 120 3 ''CLO-2042-1'' sample_shop = Inr (evs, s') \<and>
     find_order ''o1'' s' = Some r' \<and> os_status r' = CONFIRMED \<and> or_amountPaid r' = 120"
proof -
  have "case onGatewaySuccess exact_js plain_notes ''o1'' 120 3 ''CLO-2042-1'' sample_shop of Inl e \<Rightarrow> False | Inr _ \<Rightarrow> True"
    by code_simp
  then obtain evs s' where a: "onGatewaySuccess exact_js plain_notes ''o1'' 120 3 ''CLO-2042-1'' sample_shop = Inr (evs, s')"
    by (auto split: sum.splits)
  have f: "find_order ''o1'' sample_shop = Some pending_order" by (simp add: find_order_def sample_shop_def pending_order_def)
  have "\<exists>r'. find_order ''o1'' s' = Some r' \<and> os_status r' = CONFIRMED \<and> or_amountPaid r' = 120"
    using capture_marks_paid_once [OF a sample_shop_books f, where ?amount2.0 = 0 and ?fee2.0 = 0 and ?t2.0 = "[]"] by (auto simp: pending_order_def)
  then show ?thesis using a by blast
qed


end
