(* ===== verification/Platform.thy ===== *)
theory Platform
  imports Pricing Order_Payments
begin

text \<open>
  The tables a checkout needs beyond those of orders and finance, and the three platform services it
  calls inside its transaction: numbered documents (\<open>platform/counters/document-counter.service.ts\<close>),
  the outbox (\<open>platform/outbox/outbox.service.ts\<close>) and idempotency keys
  (\<open>orders/application/idempotency.service.ts\<close>, \<open>orders/domain/idempotency.ts\<close>). The hash of a request is
  the platform's and is an argument.
\<close>

section \<open>The tables\<close>

datatype counter_scope = C_order | C_invoice | C_receipt | C_credit_note | C_purchase

record counter_row =
  cn_scope :: counter_scope
  cn_prefix :: string
  cn_next :: nat
  cn_padding :: nat

record placed_body =
  bd_id :: id
  bd_orderNo :: string
  bd_status :: order_status
  bd_paymentMethod :: payment_method
  bd_paymentStatus :: order_payment_status
  bd_itemsSubtotal :: money
  bd_discountTotal :: money
  bd_shippingFee :: money
  bd_taxTotal :: money
  bd_grandTotal :: money
  bd_placedAt :: time
  bd_requiresPayment :: bool

record idem_row =
  ik_key :: string
  ik_scope :: string
  ik_requestHash :: string
  ik_response :: "(int \<times> placed_body) option"
  ik_expiresAt :: time

record outbox_row =
  ob_recipient :: string
  ob_template :: string
  ob_dedupeKey :: "string option"
  ob_nextAttemptAt :: time

record district_row =
  di_id :: int
  di_nameBn :: jstr
  di_nameEn :: "jstr option"
  di_divisionId :: int
  di_zone :: zone_info

record upazila_row =
  uz_id :: int
  uz_districtId :: int
  uz_nameBn :: jstr

record union_row =
  un_upazilaId :: int
  un_nameBn :: jstr

datatype content_status = DRAFT | ACTIVE | ARCHIVED

text \<open>The columns of a product that pricing reads besides those of the stock tables.\<close>

record catalog_row =
  cg_id :: id
  cg_title :: string
  cg_sku :: string
  cg_sectionId :: id
  cg_sectionCode :: string
  cg_categoryId :: id
  cg_subcategoryId :: "id option"
  cg_categoryName :: "string option"
  cg_compareAtPrice :: "money option"
  cg_taxRate :: rat
  cg_freeShipping :: bool
  cg_status :: content_status
  cg_deals :: "deal_like list"

record bundle_row =
  bn_id :: id
  bn_title :: string
  bn_sectionId :: id
  bn_sectionCode :: string
  bn_price :: money
  bn_compareAtPrice :: "money option"
  bn_freeShipping :: bool
  bn_status :: content_status
  bn_deletedAt :: "time option"
  bn_items :: "(id \<times> int) list"

record cart_item =
  ci_id :: id
  ci_productId :: "id option"
  ci_bundleId :: "id option"
  ci_quantity :: int
  ci_addedAt :: time

record cart_row =
  cart_id :: id
  cart_customerId :: "id option"
  cart_guestToken :: "string option"
  cart_couponCode :: "string option"
  cart_items :: "cart_item list"
  cart_updatedAt :: time
  cart_expiresAt :: "time option"

record front = till +
  fr_counters :: "counter_row list"
  fr_keys :: "idem_row list"
  fr_outbox :: "outbox_row list"
  fr_districts :: "district_row list"
  fr_upazilas :: "upazila_row list"
  fr_unions :: "union_row list"
  fr_catalog :: "catalog_row list"
  fr_bundles :: "bundle_row list"
  fr_rules :: "free_shipping_rule list"
  fr_carts :: "cart_row list"

section \<open>Document numbers\<close>

fun counter_default :: "counter_scope \<Rightarrow> string \<times> nat \<times> nat" where
  "counter_default C_order = (''CLO-'', 2042, 4)"
| "counter_default C_invoice = (''INV-'', 1, 6)"
| "counter_default C_receipt = (''RCT-'', 1, 6)"
| "counter_default C_credit_note = (''CRN-'', 1, 6)"
| "counter_default C_purchase = (''PUR-'', 101, 6)"

definition next_number :: "counter_scope \<Rightarrow> counter_row list \<Rightarrow> string \<times> counter_row list" where
  "next_number scope rows =
     (let (prefix, start, padding) = counter_default scope;
          rows = (if list_ex (\<lambda>c. cn_scope c = scope) rows then rows
                  else rows @ [\<lparr>cn_scope = scope, cn_prefix = prefix, cn_next = start, cn_padding = padding\<rparr>]);
          row = the (find (\<lambda>c. cn_scope c = scope) rows)
      in (padNo (cn_prefix row) (cn_next row) (cn_padding row),
          map (\<lambda>c. if cn_scope c = scope then c\<lparr>cn_next := cn_next c + 1\<rparr> else c) rows))"

definition counter_next :: "counter_scope \<Rightarrow> 'a front_scheme \<Rightarrow> string \<times> 'a front_scheme" where
  "counter_next scope s = (let (n, rows) = next_number scope (fr_counters s) in (n, s\<lparr>fr_counters := rows\<rparr>))"

section \<open>The outbox\<close>

definition enqueue :: "outbox_row \<Rightarrow> 'a front_scheme \<Rightarrow> 'a front_scheme" where
  "enqueue msg s =
     (if truthy (ob_dedupeKey msg) \<and> list_ex (\<lambda>m. ob_dedupeKey m = ob_dedupeKey msg) (fr_outbox s) then s
      else s\<lparr>fr_outbox := fr_outbox s @ [msg]\<rparr>)"

section \<open>Idempotency keys\<close>

definition IDEM_TTL :: int where "IDEM_TTL = 24 * 3600000"

definition key_char :: "char \<Rightarrow> bool" where
  "key_char c \<longleftrightarrow> (CHR ''A'' \<le> c \<and> c \<le> CHR ''Z'') \<or> (CHR ''a'' \<le> c \<and> c \<le> CHR ''z'') \<or> (CHR ''0'' \<le> c \<and> c \<le> CHR ''9'') \<or>
     c \<in> set ''._:-''"

definition isValidIdempotencyKey :: "string option \<Rightarrow> bool" where
  "isValidIdempotencyKey key = (case key of None \<Rightarrow> False | Some k \<Rightarrow> list_all key_char k \<and> 8 \<le> length k \<and> length k \<le> 80)"

record idem_ref =
  ir_scope :: string
  ir_key :: string
  ir_hash :: string

definition idem_prepare :: "string \<Rightarrow> string option \<Rightarrow> string \<Rightarrow> idem_ref result" where
  "idem_prepare scope key hash =
     (if isValidIdempotencyKey key then Inr \<lparr>ir_scope = scope, ir_key = str_of key, ir_hash = hash\<rparr>
      else Inl (DomainError ''idempotency.key_required'' 400))"

definition idem_lookup :: "idem_ref \<Rightarrow> 'a front_scheme \<Rightarrow> ((int \<times> placed_body) option) result" where
  "idem_lookup p s =
     (case find (\<lambda>r. ik_key r = ir_key p) (fr_keys s) of
        None \<Rightarrow> Inr None
      | Some row \<Rightarrow>
          if ik_expiresAt row < st_now s then Inr None
          else if ik_scope row \<noteq> ir_scope p \<or> ik_requestHash row \<noteq> ir_hash p then Inl (BusinessRuleError ''idempotency.key_reused'')
          else (case ik_response row of
                  None \<Rightarrow> Inl (ConflictError ''idempotency.in_progress'')
                | Some r \<Rightarrow> Inr (Some r)))"

definition idem_claim :: "idem_ref \<Rightarrow> 'a front_scheme \<Rightarrow> ('a front_scheme) result" where
  "idem_claim p s =
     (let keys = filter (\<lambda>r. \<not> (ik_key r = ir_key p \<and> ik_expiresAt r < st_now s)) (fr_keys s)
      in if list_ex (\<lambda>r. ik_key r = ir_key p) keys then Inl (DomainError ''P2002:key'' 500)
         else Inr (s\<lparr>fr_keys := keys @ [\<lparr>ik_key = ir_key p, ik_scope = ir_scope p, ik_requestHash = ir_hash p, ik_response = None,
                                          ik_expiresAt = st_now s + IDEM_TTL\<rparr>]\<rparr>))"

definition idem_complete :: "string \<Rightarrow> int \<Rightarrow> placed_body \<Rightarrow> 'a front_scheme \<Rightarrow> 'a front_scheme" where
  "idem_complete key code body s =
     s\<lparr>fr_keys := map (\<lambda>r. if ik_key r = key then r\<lparr>ik_response := Some (code, body)\<rparr> else r) (fr_keys s)\<rparr>"

definition isKeyCollision :: "domain_error \<Rightarrow> bool" where
  "isKeyCollision e = (e = DomainError ''P2002:key'' 500)"

end
