(* ===== verification/Pricing_Service.thy ===== *)
theory Pricing_Service
  imports Platform
begin

text \<open>
  \<open>orders/pricing/application/pricing.service.ts\<close>, the one entry point from cart lines to a quote, and
  the parts of \<open>orders/geo/application/geo.service.ts\<close> a placement uses. English district names are
  compared without regard to the case of ASCII letters.
\<close>

section \<open>Districts\<close>

definition jlower :: "jstr \<Rightarrow> jstr" where
  "jlower s = map (\<lambda>d. if 65 \<le> d \<and> d \<le> 90 then d + 32 else d) s"

record district_ref =
  dr_id :: "int option"
  dr_name :: "jstr option"

definition ref_id :: "district_ref \<Rightarrow> int option" where
  "ref_id q = (case dr_id q of Some i \<Rightarrow> if i \<noteq> 0 then Some i else None | None \<Rightarrow> None)"

definition ref_name :: "district_ref \<Rightarrow> jstr" where
  "ref_name q = (case dr_name q of Some n \<Rightarrow> jtrim n | None \<Rightarrow> [])"

definition resolveDistrict :: "district_ref \<Rightarrow> 'a front_scheme \<Rightarrow> district_row result" where
  "resolveDistrict q s =
     (let name = ref_name q
      in if ref_id q = None \<and> name = [] then Inl (BusinessRuleError ''geo.district_required'')
         else (case find (\<lambda>d. case ref_id q of
                          Some i \<Rightarrow> di_id d = i
                        | None \<Rightarrow> di_nameBn d = name \<or> map_option jlower (di_nameEn d) = Some (jlower name)) (fr_districts s) of
                 None \<Rightarrow> Inl (BusinessRuleError ''geo.district_invalid'')
               | Some d \<Rightarrow> Inr d))"

definition checkLocality :: "int \<Rightarrow> jstr option \<Rightarrow> jstr option \<Rightarrow> 'a front_scheme \<Rightarrow> unit result" where
  "checkLocality districtId upazila union_name s =
     (case upazila of
        None \<Rightarrow> Inr ()
      | Some name \<Rightarrow>
          if name = [] \<or> \<not> list_ex (\<lambda>u. uz_districtId u = districtId) (fr_upazilas s) then Inr ()
          else (case find (\<lambda>u. uz_districtId u = districtId \<and> uz_nameBn u = name) (fr_upazilas s) of
                  None \<Rightarrow> Inl (BusinessRuleError ''geo.upazila_invalid'')
                | Some u \<Rightarrow>
                    (case union_name of
                       None \<Rightarrow> Inr ()
                     | Some n \<Rightarrow>
                         if n = [] then Inr ()
                         else if list_ex (\<lambda>x. un_upazilaId x = uz_id u) (fr_unions s) \<and>
                           \<not> list_ex (\<lambda>x. un_upazilaId x = uz_id u \<and> un_nameBn x = n) (fr_unions s)
                         then Inl (BusinessRuleError ''geo.union_invalid'')
                         else Inr ())))"

section \<open>Lines\<close>

record line_ref =
  lr_kind :: item_kind
  lr_productId :: "id option"
  lr_bundleId :: "id option"
  lr_quantity :: int

definition line_target :: "line_ref \<Rightarrow> id option" where
  "line_target l =
     (case (if lr_kind l = PRODUCT then lr_productId l else lr_bundleId l) of
        None \<Rightarrow> None | Some i \<Rightarrow> if i = '''' then None else Some i)"

definition merge_ref :: "line_ref \<Rightarrow> ((item_kind \<times> id) \<times> int) list \<Rightarrow> ((item_kind \<times> id) \<times> int) list result" where
  "merge_ref l m =
     (case line_target l of
        None \<Rightarrow> Inl (BusinessRuleError ''cart.line_invalid'')
      | Some i \<Rightarrow> Inr (bump (lr_kind l, i) (lr_quantity l) m))"

definition line_of :: "(item_kind \<times> id) \<times> int \<Rightarrow> line_ref" where
  "line_of x = (let ((k, i), q) = x
     in \<lparr>lr_kind = k, lr_productId = (if k = PRODUCT then Some i else None),
         lr_bundleId = (if k = BUNDLE then Some i else None), lr_quantity = q\<rparr>)"

definition mergeLines :: "line_ref list \<Rightarrow> line_ref list result" where
  "mergeLines lines =
     ebind (efold merge_ref lines []) (\<lambda>m.
       if list_ex (\<lambda>x. snd x > 99) m then Inl (BusinessRuleError ''cart.qty_limit'') else Inr (map line_of m))"

section \<open>The catalog\<close>

text \<open>A product's row: the catalog columns, and the stock columns of the stock tables.\<close>

definition product_of :: "id \<Rightarrow> 'a front_scheme \<Rightarrow> (catalog_row \<times> product_row) option" where
  "product_of i s =
     (case (find (\<lambda>c. cg_id c = i) (fr_catalog s), st_products s i) of
        (Some c, Some r) \<Rightarrow> Some (c, r) | _ \<Rightarrow> None)"

definition sellable :: "content_status \<Rightarrow> time option \<Rightarrow> bool" where
  "sellable st deletedAt = (st = ACTIVE \<and> deletedAt = None)"

definition toPricedProduct :: "catalog_row \<times> product_row \<Rightarrow> time \<Rightarrow> priced_product" where
  "toPricedProduct p now =
     (let (c, r) = p;
          eff = effectivePrice \<lparr>pl_price = pr_price r, pl_compareAtPrice = cg_compareAtPrice c\<rparr> (filter (liveDealsWhere now) (cg_deals c)) now
      in \<lparr>pp_id = cg_id c, pp_title = cg_title c, pp_sku = cg_sku c, pp_sectionId = cg_sectionId c, pp_sectionCode = cg_sectionCode c,
          pp_categoryId = cg_categoryId c, pp_subcategoryId = cg_subcategoryId c, pp_categoryName = cg_categoryName c,
          pp_unitPrice = ep_price eff, pp_listPrice = ep_listPrice eff, pp_compareAt = ep_compareAt eff,
          pp_unitCost = (case pr_costPrice r of Some x \<Rightarrow> if x > 0 then Some x else None | None \<Rightarrow> None),
          pp_taxRate = cg_taxRate c, pp_freeShipping = cg_freeShipping c,
          pp_available = (if pr_trackInventory r \<and> \<not> pr_allowBackorder r then Some (pr_stockOnHand r - pr_stockReserved r) else None),
          pp_dealEndsAt = ep_deal eff\<rparr>)"

datatype unavailable_reason = Not_found | Inactive | Component_unavailable

record unavailable_line =
  ua_index :: nat
  ua_kind :: item_kind
  ua_id :: id
  ua_reason :: unavailable_reason

text \<open>One line: what it resolves to, or why it cannot be sold.\<close>

definition load_line :: "time \<Rightarrow> 'a front_scheme \<Rightarrow> line_ref \<Rightarrow> (unavailable_reason + quote_line_input)" where
  "load_line now s l =
     (if lr_kind l = PRODUCT then
        (case product_of (str_of (lr_productId l)) s of
           None \<Rightarrow> Inl Not_found
         | Some p \<Rightarrow> if \<not> sellable (cg_status (fst p)) (pr_deletedAt (snd p)) then Inl Inactive
                     else Inr (QProduct (toPricedProduct p now) (lr_quantity l)))
      else
        (case find (\<lambda>b. bn_id b = str_of (lr_bundleId l)) (fr_bundles s) of
           None \<Rightarrow> Inl Not_found
         | Some b \<Rightarrow>
             if \<not> sellable (bn_status b) (bn_deletedAt b) then Inl Inactive
             else if bn_items b = [] \<or> list_ex (\<lambda>(i, q). case product_of i s of None \<Rightarrow> True | Some p \<Rightarrow> pr_deletedAt (snd p) \<noteq> None) (bn_items b)
             then Inl Component_unavailable
             else Inr (QBundle
               \<lparr>pb_id = bn_id b, pb_title = bn_title b, pb_sectionId = bn_sectionId b, pb_sectionCode = bn_sectionCode b,
                pb_unitPrice = bn_price b, pb_compareAt = bn_compareAtPrice b, pb_freeShipping = bn_freeShipping b,
                pb_components = map (\<lambda>(i, q). (toPricedProduct (the (product_of i s)) now, q)) (bn_items b)\<rparr> (lr_quantity l))))"

definition loadLines :: "line_ref list \<Rightarrow> time \<Rightarrow> 'a front_scheme \<Rightarrow> quote_line_input list \<times> unavailable_line list" where
  "loadLines lines now s =
     (concat (map (\<lambda>l. case load_line now s l of Inr x \<Rightarrow> [x] | Inl _ \<Rightarrow> []) lines),
      concat (map (\<lambda>(n, l). case load_line now s l of
                Inl r \<Rightarrow> [\<lparr>ua_index = n, ua_kind = lr_kind l, ua_id = str_of (if lr_kind l = PRODUCT then lr_productId l else lr_bundleId l),
                            ua_reason = r\<rparr>]
              | Inr _ \<Rightarrow> []) (enumerate 0 lines)))"

section \<open>Quotes\<close>

record quote_request =
  qr_lines :: "line_ref list"
  qr_couponCode :: "string option"
  qr_district :: "district_ref option"
  qr_customerId :: "id option"
  qr_phone :: "jstr option"
  qr_now :: time
  qr_strict :: bool

record priced_quote =
  pq_quote :: quote
  pq_district :: "district_row option"
  pq_coupon :: "coupon_rule option"
  pq_unavailable :: "unavailable_line list"
  pq_shortfalls :: "shortfall list"

definition customerIdByPhone :: "jstr option \<Rightarrow> 'a shop_scheme \<Rightarrow> id option" where
  "customerIdByPhone phone s =
     (case normalizeBdPhone phone of
        None \<Rightarrow> None
      | Some e164 \<Rightarrow> map_option cs_id (find (\<lambda>c. cs_phone c = e164) (sh_customers s)))"

text \<open>The availability of every product of the cart; a later entry replaces an earlier one.\<close>

definition available_of :: "quote_line_input list \<Rightarrow> (id \<times> int option) list" where
  "available_of inputs = rev (concat (map (\<lambda>l. case l of
      QProduct p q \<Rightarrow> [(pp_id p, pp_available p)]
    | QBundle b q \<Rightarrow> map (\<lambda>(p, k). (pp_id p, pp_available p)) (pb_components b)) inputs))"

definition has_code :: "string option \<Rightarrow> bool" where
  "has_code c = (case c of None \<Rightarrow> False | Some x \<Rightarrow> js_trim x \<noteq> '''')"

definition pricing_quote :: "decimal_js \<Rightarrow> quote_request \<Rightarrow> 'a front_scheme \<Rightarrow> priced_quote result" where
  "pricing_quote J req s =
     ebind (mergeLines (qr_lines req)) (\<lambda>lines.
     let (inputs, unavailable) = loadLines lines (qr_now req) s
     in ebind (case qr_district req of
                 None \<Rightarrow> Inr None
               | Some d \<Rightarrow> if ref_id d \<noteq> None \<or> ref_name d \<noteq> [] then ebind (resolveDistrict d s) (\<lambda>d. Inr (Some d)) else Inr None) (\<lambda>district.
     if qr_strict req \<and> unavailable \<noteq> [] then Inl (BusinessRuleError ''order.item_unavailable'')
     else
       let coupon = (if has_code (qr_couponCode req) then findRule (str_of (qr_couponCode req)) s else None);
           customerId = (if qr_customerId req \<noteq> None then qr_customerId req else customerIdByPhone (qr_phone req) s);
           q = calculateQuote J \<lparr>qi_lines = inputs, qi_coupon = map_option (\<lambda>c. (c, usage (cr_id c) customerId s)) coupon,
                 qi_zone = map_option di_zone district, qi_shippingRules = filter fs_isActive (fr_rules s), qi_now = qr_now req\<rparr>;
           q = (if has_code (qr_couponCode req) \<and> coupon = None
                then q\<lparr>q_couponRejection := Some ''coupon.not_found''\<rparr> else q)
       in Inr \<lparr>pq_quote = q, pq_district = district, pq_coupon = coupon, pq_unavailable = unavailable,
               pq_shortfalls = stockShortfalls q (available_of inputs)\<rparr>))"

end
