(* ===== verification/Placement.thy ===== *)
theory Placement
  imports Pricing_Service
begin

text \<open>
  Placing an order: \<open>orders/application/order-placement.service.ts\<close>, with every write of its
  transaction, and the cart rows it clears. Metrics, audit entries, notes and the contact and address
  columns of the order are output only; the event emitted after the commit is part of the result.
\<close>

definition SSL_MIN :: money where "SSL_MIN = 10"

record auth_user =
  au_id :: id
  au_customerId :: "id option"
  au_isCustomer :: bool

record cart_owner =
  cw_customerId :: "id option"
  cw_token :: "string option"

record place_dto =
  pd_phone :: jstr
  pd_name :: string
  pd_email :: "string option"
  pd_district :: district_ref
  pd_upazila :: "jstr option"
  pd_union :: "jstr option"
  pd_lines :: "line_ref list"
  pd_couponCode :: "string option"
  pd_paymentMethod :: payment_method
  pd_clearCart :: "bool option"

record placement_context =
  px_user :: "auth_user option"
  px_cart :: "cart_owner option"
  px_idempotencyKey :: "string option"

datatype front_event = OrderPlaced id string id money payment_method time

section \<open>The customer\<close>

definition put_customer :: "id \<Rightarrow> (customer_row \<Rightarrow> customer_row) \<Rightarrow> 'a shop_scheme \<Rightarrow> customer_row \<times> 'a shop_scheme" where
  "put_customer i f s =
     (let s = s\<lparr>sh_customers := map (\<lambda>c. if cs_id c = i then f c else c) (sh_customers s)\<rparr> in (the (find_customer i s), s))"

definition user_taken :: "id \<Rightarrow> 'a shop_scheme \<Rightarrow> bool" where
  "user_taken u s = list_ex (\<lambda>c. cs_userId c = Some u) (sh_customers s)"

text \<open>A new customer; the phone and the user are unique.\<close>

definition create_customer :: "string \<Rightarrow> string \<Rightarrow> string option \<Rightarrow> id option \<Rightarrow> 'a till_scheme \<Rightarrow> (customer_row \<times> 'a till_scheme) result" where
  "create_customer phone name email userId s =
     (let (i, s) = fresh_id s;
          c = \<lparr>cs_id = i, cs_userId = userId, cs_phone = phone, cs_email = email, cs_name = name, cs_isBlocked = False,
               cs_ordersCount = 0, cs_liveOrders = 0, cs_cancelledOrders = 0, cs_totalSpent = 0, cs_firstOrderAt = None,
               cs_lastOrderAt = None, cs_deletedAt = None\<rparr>
      in if list_ex (\<lambda>x. cs_phone x = phone) (sh_customers s) then Inl (DomainError ''P2002'' 500)
         else if (case userId of None \<Rightarrow> False | Some u \<Rightarrow> user_taken u s) then Inl (DomainError ''P2002'' 500)
         else Inr (c, s\<lparr>sh_customers := sh_customers s @ [c]\<rparr>))"

definition own_customer :: "auth_user option \<Rightarrow> 'a shop_scheme \<Rightarrow> customer_row option" where
  "own_customer user s =
     (case user of
        None \<Rightarrow> None
      | Some u \<Rightarrow>
          (case au_customerId u of
             None \<Rightarrow> None
           | Some i \<Rightarrow>
               if i = '''' then None
               else (case find_customer i s of
                       None \<Rightarrow> None
                     | Some mine \<Rightarrow> if cs_deletedAt mine = None then Some mine else None)))"

definition upsertCustomer :: "string \<Rightarrow> string \<Rightarrow> string option \<Rightarrow> auth_user option \<Rightarrow> 'a till_scheme \<Rightarrow> (customer_row \<times> 'a till_scheme) result" where
  "upsertCustomer phone name email user s =
     (case own_customer user s of
        Some mine \<Rightarrow> Inr (put_customer (cs_id mine) (\<lambda>c. c\<lparr>cs_name := (if cs_name mine \<noteq> '''' then cs_name mine else name),
                            cs_email := (if truthy email \<and> \<not> truthy (cs_email mine) then email else cs_email c)\<rparr>) s)
      | None \<Rightarrow>
          let linkUser = (case user of Some u \<Rightarrow> if au_isCustomer u then Some (au_id u) else None | None \<Rightarrow> None);
              taken = (case linkUser of None \<Rightarrow> False | Some u \<Rightarrow> user_taken u s)
          in (case find (\<lambda>c. cs_phone c = phone) (sh_customers s) of
                Some existing \<Rightarrow>
                  Inr (put_customer (cs_id existing) (\<lambda>c. c\<lparr>cs_name := name,
                      cs_email := (if truthy email then email else cs_email c),
                      cs_userId := (if linkUser \<noteq> None \<and> cs_userId existing = None \<and> \<not> taken then linkUser else cs_userId c),
                      cs_deletedAt := None\<rparr>) s)
              | None \<Rightarrow> create_customer phone name email (if linkUser \<noteq> None \<and> \<not> taken then linkUser else None) s))"

section \<open>The order's rows\<close>

definition order_of :: "id \<Rightarrow> string \<Rightarrow> id \<Rightarrow> place_dto \<Rightarrow> quote \<Rightarrow> time \<Rightarrow> order_row" where
  "order_of i orderNo customerId dto q now =
     \<lparr>os_status = PENDING, os_paymentMethod = pd_paymentMethod dto, os_paymentStatus = UNPAID, os_stockReserved = True,
      os_confirmedAt = None, os_shippedAt = None, or_id = i, or_orderNo = orderNo, or_customerId = customerId,
      or_itemsSubtotal = q_itemsSubtotal q, or_discountTotal = q_discountTotal q, or_couponCode = map_option qk_code (q_coupon q),
      or_shippingFee = the (q_shippingFee q), or_taxTotal = q_taxTotal q, or_grandTotal = q_grandTotal q, or_amountPaid = 0,
      or_amountRefunded = 0, or_itemsCost = q_itemsCost q,
      or_courierCost = (case so_expectedCourierCost (q_shipping q) of None \<Rightarrow> 0 | Some c \<Rightarrow> c),
      or_gatewayFee = 0, or_courierLoss = 0, or_cancelReason = None, or_cancelledFrom = None, or_placedAt = now,
      or_deliveredAt = None, or_cancelledAt = None, or_paidAt = None, or_version = 0\<rparr>"

definition item_of :: "id \<Rightarrow> quoted_line \<Rightarrow> order_item" where
  "item_of i l =
     \<lparr>oi_orderId = i, oi_kind = ql_kind l, oi_productId = ql_productId l, oi_bundleId = ql_bundleId l, oi_quantity = ql_quantity l,
      oi_unitPrice = ql_unitPrice l, oi_listPrice = ql_listPrice l, oi_unitCost = ql_unitCost l, oi_discount = ql_discount l,
      oi_taxAmount = ql_taxAmount l, oi_lineTotal = ql_lineTotal l,
      oi_components = map (\<lambda>c. \<lparr>oc_productId = qc_productId c, oc_quantity = qc_quantity c, oc_unitCost = qc_unitCost c,
                                 oc_allocatedRevenue = qc_allocatedRevenue c\<rparr>) (ql_components l)\<rparr>"

text \<open>The constraints of \<open>order_items\<close> and of the components, in the order they are tested.\<close>

definition check_item :: "order_item \<Rightarrow> unit result" where
  "check_item i =
     (if \<not> (0 \<le> oi_unitPrice i \<and> 0 \<le> oi_listPrice i \<and> 0 \<le> oi_discount i \<and> 0 \<le> oi_lineTotal i \<and>
            (case oi_unitCost i of None \<Rightarrow> True | Some c \<Rightarrow> 0 \<le> c)) then Inl (CheckViolation ''order_items_amounts'')
      else if \<not> (oi_kind i = PRODUCT \<and> oi_productId i \<noteq> None \<and> oi_bundleId i = None \<or>
                 oi_kind i = BUNDLE \<and> oi_bundleId i \<noteq> None \<and> oi_productId i = None) then Inl (CheckViolation ''order_items_one_target'')
      else if \<not> 0 < oi_quantity i then Inl (CheckViolation ''order_items_qty'')
      else if list_ex (\<lambda>c. \<not> 0 < oc_quantity c) (oi_components i) then Inl (CheckViolation ''order_item_components_qty'')
      else Inr ())"

definition create_order :: "order_row \<Rightarrow> order_item list \<Rightarrow> 'a front_scheme \<Rightarrow> ('a front_scheme) result" where
  "create_order r items s =
     (if list_ex (\<lambda>x. or_orderNo x = or_orderNo r) (sh_orders s) then Inl (DomainError ''P2002'' 500)
      else ebind (check_order r) (\<lambda>_.
           ebind (efold (\<lambda>i _. check_item i) items ()) (\<lambda>_.
             Inr (s\<lparr>sh_orders := sh_orders s @ [r], st_items := st_items s @ items\<rparr>))))"

definition placed_counters :: "money \<Rightarrow> time \<Rightarrow> customer_row \<Rightarrow> customer_row" where
  "placed_counters grandTotal now c =
     c\<lparr>cs_ordersCount := cs_ordersCount c + 1, cs_liveOrders := cs_liveOrders c + 1, cs_totalSpent := cs_totalSpent c + grandTotal,
       cs_lastOrderAt := Some now, cs_firstOrderAt := (if cs_firstOrderAt c \<noteq> None then cs_firstOrderAt c else Some now)\<rparr>"

definition cart_of :: "cart_owner \<Rightarrow> cart_row \<Rightarrow> bool" where
  "cart_of owner c = (case cw_customerId owner of
      Some i \<Rightarrow> cart_customerId c = Some i
    | None \<Rightarrow> cart_guestToken c = cw_token owner)"

definition clearForOrder :: "cart_owner option \<Rightarrow> 'a front_scheme \<Rightarrow> 'a front_scheme" where
  "clearForOrder owner s =
     (case owner of
        None \<Rightarrow> s
      | Some ow \<Rightarrow> s\<lparr>fr_carts := map (\<lambda>c. if cart_of ow c then c\<lparr>cart_items := [], cart_couponCode := None\<rparr> else c) (fr_carts s)\<rparr>)"

definition toPlacedOrder :: "order_row \<Rightarrow> placed_body" where
  "toPlacedOrder r =
     \<lparr>bd_id = or_id r, bd_orderNo = or_orderNo r, bd_status = os_status r, bd_paymentMethod = os_paymentMethod r,
      bd_paymentStatus = os_paymentStatus r, bd_itemsSubtotal = or_itemsSubtotal r, bd_discountTotal = or_discountTotal r,
      bd_shippingFee = or_shippingFee r, bd_taxTotal = or_taxTotal r, bd_grandTotal = or_grandTotal r, bd_placedAt = or_placedAt r,
      bd_requiresPayment = (os_paymentMethod r = SSLCOMMERZ)\<rparr>"

section \<open>The transaction\<close>

text \<open>What has been established before anything of the order is written.\<close>

definition check_quote :: "payment_method \<Rightarrow> quote \<Rightarrow> unit result" where
  "check_quote m q =
     (case q_couponRejection q of
        Some code \<Rightarrow> Inl (BusinessRuleError code)
      | None \<Rightarrow>
          if q_lines q = [] then Inl (BusinessRuleError ''cart.empty'')
          else if q_shippingFee q = None then Inl (BusinessRuleError ''geo.district_required'')
          else if m = SSLCOMMERZ \<and> q_grandTotal q < SSL_MIN then Inl (BusinessRuleError ''payment.min_amount'')
          else Inr ())"

text \<open>The writes: number, order, hold, redemption, counters, message, cart.\<close>

definition write_order ::
  "place_dto \<Rightarrow> placement_context \<Rightarrow> bool \<Rightarrow> string \<Rightarrow> id \<Rightarrow> priced_quote \<Rightarrow> 'a front_scheme \<Rightarrow> (order_row \<times> 'a front_scheme) result" where
  "write_order dto ctx staff phone customerId priced s =
     (let q = pq_quote priced; now = st_now s;
          (orderNo, s) = counter_next C_order s;
          (i, s) = fresh_id s;
          r = order_of i orderNo customerId dto q now
      in ebind (create_order r (map (item_of i) (q_lines q)) s) (\<lambda>s.
         let s = add_history \<lparr>hi_orderId = i, hi_fromStatus = None, hi_toStatus = PENDING, hi_actorType = (if staff then STAFF else CUSTOMER)\<rparr> s
         in ebind (reserve (q_stockUnits q) \<lparr>sc_orderId = Some i, sc_purchaseId = None\<rparr> s) (\<lambda>s.
         ebind (case (q_coupon q, pq_coupon priced) of
                  (Some k, Some c) \<Rightarrow> redeem (cr_id c) i customerId (qk_discount k) s
                | _ \<Rightarrow> Inr s) (\<lambda>s.
         ebind (update_customer customerId (placed_counters (q_grandTotal q) now) s) (\<lambda>s.
         let s = enqueue \<lparr>ob_recipient = phone, ob_template = ''order.placed'', ob_dedupeKey = Some (''order-placed:'' @ orderNo),
                          ob_nextAttemptAt = now\<rparr> s;
             s = (if \<not> staff \<and> pd_clearCart dto \<noteq> Some False then clearForOrder (px_cart ctx) s else s)
         in Inr (r, s))))))"

definition place_in_tx ::
  "decimal_js \<Rightarrow> place_dto \<Rightarrow> placement_context \<Rightarrow> bool \<Rightarrow> idem_ref option \<Rightarrow> 'a front_scheme \<Rightarrow>
   (placed_body \<times> front_event \<times> 'a front_scheme) result" where
  "place_in_tx J dto ctx staff idem s =
     ebind (case idem of None \<Rightarrow> Inr s | Some p \<Rightarrow> idem_claim p s) (\<lambda>s.
     case normalizeBdPhone (Some (pd_phone dto)) of
       None \<Rightarrow> Inl (BusinessRuleError ''order.phone_invalid'')
     | Some phone \<Rightarrow>
         ebind (resolveDistrict (pd_district dto) s) (\<lambda>district.
         ebind (checkLocality (di_id district) (pd_upazila dto) (pd_union dto) s) (\<lambda>_.
         ebind (upsertCustomer phone (pd_name dto) (map_option lower_s (pd_email dto)) (if staff then None else px_user ctx) s) (\<lambda>(customer, s).
         if cs_isBlocked customer \<and> pd_paymentMethod dto = COD then Inl (BusinessRuleError ''order.customer_blocked'')
         else
           ebind (pricing_quote J \<lparr>qr_lines = pd_lines dto, qr_couponCode = pd_couponCode dto,
                    qr_district = Some \<lparr>dr_id = Some (di_id district), dr_name = None\<rparr>, qr_customerId = Some (cs_id customer),
                    qr_phone = None, qr_now = st_now s, qr_strict = True\<rparr> s) (\<lambda>priced.
           ebind (check_quote (pd_paymentMethod dto) (pq_quote priced)) (\<lambda>_.
           ebind (write_order dto ctx staff phone (cs_id customer) priced s) (\<lambda>(r, s).
           let body = toPlacedOrder r;
               s = (case idem of None \<Rightarrow> s | Some p \<Rightarrow> idem_complete (ir_key p) 201 body s)
           in Inr (body, OrderPlaced (or_id r) (or_orderNo r) (cs_id customer) (or_grandTotal r) (pd_paymentMethod dto) (or_placedAt r), s))))))))"

text \<open>
  The whole request. \<open>hash\<close> is the hash of scope, caller and body. A request that loses the race for
  its key fails with a collision, and then reads what the winner stored. A serialization failure
  leaves the tables as they were and the transaction runs again, so the retries are not written out.
\<close>

record place_reply =
  rp_replayed :: bool
  rp_code :: int
  rp_body :: placed_body

definition place_key :: "placement_context \<Rightarrow> bool \<Rightarrow> string \<Rightarrow> (idem_ref option) result" where
  "place_key ctx staff hash =
     (if staff \<and> \<not> truthy (px_idempotencyKey ctx) then Inr None
      else ebind (idem_prepare (if staff then ''order.admin'' else ''order.place'') (px_idempotencyKey ctx) hash) (\<lambda>p. Inr (Some p)))"

definition replay_of :: "idem_ref option \<Rightarrow> 'a front_scheme \<Rightarrow> (place_reply option) result" where
  "replay_of idem s = (case idem of
      None \<Rightarrow> Inr None
    | Some p \<Rightarrow> ebind (idem_lookup p s) (\<lambda>r. Inr (map_option (\<lambda>(code, body). \<lparr>rp_replayed = True, rp_code = code, rp_body = body\<rparr>) r)))"

definition place ::
  "decimal_js \<Rightarrow> string \<Rightarrow> place_dto \<Rightarrow> placement_context \<Rightarrow> bool \<Rightarrow> 'a front_scheme \<Rightarrow>
   (place_reply \<times> front_event list \<times> 'a front_scheme) result" where
  "place J hash dto ctx staff s =
     ebind (place_key ctx staff hash) (\<lambda>idem.
     ebind (replay_of idem s) (\<lambda>replay.
     case replay of
       Some r \<Rightarrow> Inr (r, [], s)
     | None \<Rightarrow>
         (case place_in_tx J dto ctx staff idem s of
            Inr (body, ev, s) \<Rightarrow> Inr (\<lparr>rp_replayed = False, rp_code = 201, rp_body = body\<rparr>, [ev], s)
          | Inl e \<Rightarrow>
              if idem \<noteq> None \<and> isKeyCollision e
              then ebind (replay_of idem s) (\<lambda>replay. case replay of Some r \<Rightarrow> Inr (r, [], s) | None \<Rightarrow> Inl e)
              else Inl e)))"

definition codCheck :: "jstr option \<Rightarrow> auth_user option \<Rightarrow> 'a shop_scheme \<Rightarrow> bool" where
  "codCheck phoneRaw user s =
     (let mine = (case user of Some u \<Rightarrow> (case au_customerId u of Some i \<Rightarrow> if i \<noteq> '''' then find_customer i s else None | None \<Rightarrow> None) | None \<Rightarrow> None)
      in if (case mine of Some c \<Rightarrow> cs_isBlocked c | None \<Rightarrow> False) then False
         else (case normalizeBdPhone phoneRaw of
                 None \<Rightarrow> True
               | Some phone \<Rightarrow>
                   (case find (\<lambda>c. cs_phone c = phone) (sh_customers s) of Some c \<Rightarrow> \<not> cs_isBlocked c | None \<Rightarrow> True)))"

end
