(* ===== verification/Placement_Properties.thy ===== *)
theory Placement_Properties
  imports Placement Shop_Properties Cash_Laws
begin

text \<open>
  What holds of placements: a placed order extends the books of the shop, holding exactly the units of
  its lines; its row never meets a constraint; its number is new; and a repeated request gets the
  stored answer.
\<close>

section \<open>Units of an order and units of its quote\<close>

lemma add_line_units_item: "add_line_units l m = tally m (item_lines (item_of i l))"
  by (auto simp: add_line_units_def item_lines_def item_of_def Let_def fold_bump_tally tally_append comp_def split: option.split)

lemma fold_units: "fold add_line_units ls m = tally m (stockLinesOf (map (item_of i) ls))"
  by (induction ls arbitrary: m) (simp_all add: stockLinesOf_def tally_append add_line_units_item [of _ _ i])

lemma units_tally: "units (tally [] xs) p = units xs p"
proof -
  have "units (tally [] xs) p = count_of (tally [] xs) p" unfolding units_def by (rule count_of_sum) (simp add: distinct_tally)
  then show ?thesis by (simp add: count_of_tally units_def)
qed

lemma order_units: "units (fold add_line_units ls []) p = units (stockLinesOf (map (item_of i) ls)) p"
  by (simp add: fold_units [of ls "[]" i] units_tally)

section \<open>One order more\<close>

lemma order_lines_more:
  assumes "st_items t = st_items s @ its" "\<forall>x \<in> set its. oi_orderId x = i"
  shows "j \<noteq> i \<Longrightarrow> order_lines t j = order_lines s j"
    and "i \<notin> oi_orderId ` set (st_items s) \<Longrightarrow> order_lines t i = stockLinesOf its"
proof -
  show "order_lines t j = order_lines s j" if "j \<noteq> i"
  proof -
    have "filter (\<lambda>x. oi_orderId x = j) its = []" using assms(2) that by (auto simp: filter_empty_conv)
    then show ?thesis by (simp add: order_lines_def items_of_def assms(1))
  qed
  show "order_lines t i = stockLinesOf its" if "i \<notin> oi_orderId ` set (st_items s)"
  proof -
    have "filter (\<lambda>x. oi_orderId x = i) its = its" "filter (\<lambda>x. oi_orderId x = i) (st_items s) = []"
      using assms(2) that by (auto simp: filter_empty_conv filter_id_conv)
    then show ?thesis by (simp add: order_lines_def items_of_def assms(1))
  qed
qed

lemma placed_stock:
  fixes s :: "'a shop_scheme"
  assumes "stock_books s" "or_id r \<notin> or_id ` set (sh_orders s)" "or_id r \<notin> oi_orderId ` set (st_items s)"
    and "st_items s3 = st_items s @ its" "sh_orders s3 = sh_orders s @ [r]" "st_products s3 = st_products s" "st_lots s3 = st_lots s"
      "st_uses s3 = st_uses s" "st_nextId s3 = st_nextId s"
    and "\<forall>x \<in> set its. oi_orderId x = or_id r" "\<forall>l \<in> set (stockLinesOf its). 0 < snd l"
    and "os_status r = PENDING" "os_stockReserved r" "os_shippedAt r = None"
    and "reserve su ctx s3 = Inr s5" "\<And>p. units su p = units (stockLinesOf its) p"
    and "same_store s5 s'" "sh_orders s' = sh_orders s5"
  shows "stock_books s' \<and> reserved s' p = reserved s p + units (stockLinesOf its) p \<and> on_hand s' p = on_hand s p \<and>
    goods s' p = goods s p \<and> order_lines s' (or_id r) = stockLinesOf its"
proof -
  have st: "store_ok s3 = store_ok s" "reserved s3 = reserved s" "on_hand s3 = on_hand s"
    using assms(6-9) by (simp_all add: store_ok_def shelf_ok_def lots_ok_def lots_left_def outstanding_def on_hand_def reserved_def fun_eq_iff)
  have ok3: "store_ok s3" using assms(1) st by (simp add: stock_books_def)
  note fig = inventory.reserve_figures(1,2) [OF ok3 assms(15), unfolded on_hold_pos on_shelf_pos]
  have r5: "rest_of s5 = rest_of s3" "store_ok s5" using reserve_ok [OF assms(15) ok3] by blast+
  have o: "sh_orders s' = sh_orders s @ [r]" using rest_of_shop(1) [OF r5(1)] assms(5,18) by simp
  have l: "order_lines s' j = order_lines s3 j" for j
    using order_lines_same_store [OF assms(17)] order_lines_rest [OF r5(1)] by simp
  have old: "order_lines s' (or_id x) = order_lines s (or_id x)" if "x \<in> set (sh_orders s)" for x
    using that assms(2) order_lines_more(1) [OF assms(4,10)] by (auto simp: l image_iff)
  have new: "order_lines s' (or_id r) = stockLinesOf its"
    using order_lines_more(2) [OF assms(4,10,3)] by (simp add: l)
  have h: "held_by s' p x = held_by s p x" "out_with s' p x = out_with s p x" if "x \<in> set (sh_orders s)" for x p
    by (simp_all add: held_by_def out_with_def old [OF that])
  have held: "held s' p = held s p + units (stockLinesOf its) p" for p
  proof -
    have "sum_list (map (held_by s' p) (sh_orders s)) = sum_list (map (held_by s p) (sh_orders s))"
      by (rule arg_cong [OF map_cong]) (simp_all add: h)
    moreover have "held_by s' p r = units (stockLinesOf its) p" using assms(13) by (simp add: held_by_def new)
    ultimately show ?thesis by (simp only: held_def o map_append sum_list_append list.map sum_list.Cons sum_list.Nil)
  qed
  have out: "outside s' p = outside s p" for p
  proof -
    have "sum_list (map (out_with s' p) (sh_orders s)) = sum_list (map (out_with s p) (sh_orders s))"
      by (rule arg_cong [OF map_cong]) (simp_all add: h)
    moreover have "out_with s' p r = 0" using assms(12) by (simp add: out_with_def)
    ultimately show ?thesis by (simp only: outside_def o map_append sum_list_append list.map sum_list.Cons sum_list.Nil)
  qed
  have res: "reserved s' p = reserved s p + units (stockLinesOf its) p" "on_hand s' p = on_hand s p" for p
    using fig [of p] same_storeD(4,5) [OF assms(17)] by (simp_all add: st assms(16))
  have rows: "stage_ok x \<and> (\<forall>l \<in> set (order_lines s' (or_id x)). 0 < snd l)" if "x \<in> set (sh_orders s')" for x
  proof (cases "x = r")
    case True
    then show ?thesis using assms(11-14) by (simp add: new stage_ok_def)
  next
    case False
    then have x: "x \<in> set (sh_orders s)" using that by (simp add: o)
    then have "stage_ok x \<and> (\<forall>l \<in> set (order_lines s (or_id x)). 0 < snd l)" using assms(1) by (simp add: stock_books_def)
    then show ?thesis using old [OF x] by simp
  qed
  have "reserved s' p = held s' p" for p using assms(1) by (simp add: res held stock_books_def)
  moreover have "store_ok s'" using r5(2) same_storeD(2) [OF assms(17)] by simp
  moreover have "distinct (map or_id (sh_orders s'))" using assms(1,2) by (simp add: o stock_books_def)
  ultimately have "stock_books s'" using rows by (simp add: stock_books_def)
  then show ?thesis using res out new by (simp add: goods_def)
qed

lemma placed_customers:
  assumes "customer_books s" "sh_orders s' = sh_orders s @ [r]" "os_status r = PENDING"
    and "sh_customers s' = map (\<lambda>c. if cs_id c = or_customerId r then placed_counters (or_grandTotal r) now c else c) (sh_customers s)"
  shows "customer_books s'"
proof -
  have "customer_ok s' c'" if "c' \<in> set (sh_customers s')" for c'
  proof -
    from that obtain c where c: "c \<in> set (sh_customers s)"
      "c' = (if cs_id c = or_customerId r then placed_counters (or_grandTotal r) now c else c)" by (auto simp: assms(4))
    have "customer_ok s c" using assms(1) c(1) by (simp add: customer_books_def)
    then show ?thesis
      by (simp add: c(2) customer_ok_def count_orders_def spent_def assms(2,3) of_customer_def placed_counters_def)
  qed
  then show ?thesis by (simp add: customer_books_def)
qed

lemma placed_coupons:
  assumes "coupon_books s" "sh_orders s' = sh_orders s @ [r]" "os_status r = PENDING" "or_id r \<notin> rd_orderId ` set (sh_redemptions s)"
    and "sh_coupons s' = sh_coupons s \<and> sh_redemptions s' = sh_redemptions s \<or>
      (\<exists>k x. rd_couponId x = k \<and> rd_orderId x = or_id r \<and> rd_revokedAt x = None \<and> sh_redemptions s' = sh_redemptions s @ [x] \<and>
         sh_coupons s' = map (\<lambda>c. if cr_id c = k then c\<lparr>cr_usedCount := cr_usedCount c + 1\<rparr> else c) (sh_coupons s))"
  shows "coupon_books s'"
proof -
  have red: "redemption_ok s' x" if "redemption_ok s x" for x using that by (auto simp: redemption_ok_def assms(2))
  from assms(5) show ?thesis
  proof
    assume "sh_coupons s' = sh_coupons s \<and> sh_redemptions s' = sh_redemptions s"
    then show ?thesis using assms(1) red by (simp add: coupon_books_def used_times_def)
  next
    assume "\<exists>k x. rd_couponId x = k \<and> rd_orderId x = or_id r \<and> rd_revokedAt x = None \<and> sh_redemptions s' = sh_redemptions s @ [x] \<and>
         sh_coupons s' = map (\<lambda>c. if cr_id c = k then c\<lparr>cr_usedCount := cr_usedCount c + 1\<rparr> else c) (sh_coupons s)"
    then obtain x where x: "rd_orderId x = or_id r" "rd_revokedAt x = None" "sh_redemptions s' = sh_redemptions s @ [x]"
      and c: "sh_coupons s' = map (\<lambda>c. if cr_id c = rd_couponId x then c\<lparr>cr_usedCount := cr_usedCount c + 1\<rparr> else c) (sh_coupons s)" by blast
    have u: "used_times s' k = used_times s k + (if rd_couponId x = k then 1 else 0)" for k
      by (simp add: used_times_def x)
    have "cr_usedCount c' = used_times s' (cr_id c')" if "c' \<in> set (sh_coupons s')" for c'
      using that assms(1) by (auto simp: c u coupon_books_def)
    moreover have "redemption_ok s' x" using x(1,2) assms(3) by (auto simp: redemption_ok_def assms(2))
    ultimately show ?thesis using assms(1,4) x red by (auto simp: coupon_books_def)
  qed
qed

section \<open>Keys and references\<close>

text \<open>
  The ids in the tables were issued by the generator, every order belongs to a customer and every
  item to an order (the foreign keys of the schema).
\<close>

definition keys_ok :: "'a till_scheme \<Rightarrow> bool" where
  "keys_ok s \<longleftrightarrow> inj (tl_uuid s) \<and> (\<forall>c \<in> set (sh_customers s). issued s (cs_id c)) \<and>
     (\<forall>r \<in> set (sh_orders s). issued s (or_id r) \<and> or_customerId r \<in> cs_id ` set (sh_customers s)) \<and>
     oi_orderId ` set (st_items s) \<subseteq> or_id ` set (sh_orders s)"

lemma keys_okD:
  assumes "keys_ok s" "fresh_id s = (i, s1)"
  shows "i \<notin> or_id ` set (sh_orders s)" "i \<notin> oi_orderId ` set (st_items s)" "i \<notin> cs_id ` set (sh_customers s)"
    "i \<notin> or_customerId ` set (sh_orders s)" "issued s1 i" "issued s j \<Longrightarrow> issued s1 j" "s1 = s\<lparr>tl_issued := Suc (tl_issued s)\<rparr>"
proof -
  have s1: "s1 = s\<lparr>tl_issued := Suc (tl_issued s)\<rparr>" and i: "i = tl_uuid s (tl_issued s)" using assms(2) by (simp_all add: fresh_id_def)
  have new: "\<not> issued s i" using assms(1) by (simp add: i keys_ok_def fresh_not_issued)
  then have "i \<notin> or_id ` set (sh_orders s)" "i \<notin> cs_id ` set (sh_customers s)" using assms(1) by (auto simp: keys_ok_def)
  then show "i \<notin> or_id ` set (sh_orders s)" "i \<notin> oi_orderId ` set (st_items s)" "i \<notin> cs_id ` set (sh_customers s)"
    "i \<notin> or_customerId ` set (sh_orders s)" using assms(1) by (auto simp: keys_ok_def)
  show "issued s1 i" by (auto simp: s1 i issued_def)
  show "issued s j \<Longrightarrow> issued s1 j" by (auto simp: s1 issued_def less_Suc_eq)
  show "s1 = s\<lparr>tl_issued := Suc (tl_issued s)\<rparr>" by (rule s1)
qed

section \<open>The customer of an order\<close>

lemma upsertCustomer_Inr:
  assumes "upsertCustomer phone name email user s = Inr (c, s1)"
  shows "(\<exists>i f. s1 = s\<lparr>sh_customers := map (\<lambda>c. if cs_id c = i then f c else c) (sh_customers s)\<rparr> \<and> find_customer i s1 = Some c \<and>
      (\<forall>c. cs_id (f c) = cs_id c \<and> cs_liveOrders (f c) = cs_liveOrders c \<and> cs_cancelledOrders (f c) = cs_cancelledOrders c \<and>
        cs_totalSpent (f c) = cs_totalSpent c)) \<or>
    (\<exists>i s0. fresh_id s = (i, s0) \<and> s1 = s0\<lparr>sh_customers := sh_customers s @ [c]\<rparr> \<and> cs_id c = i \<and>
      cs_liveOrders c = 0 \<and> cs_cancelledOrders c = 0 \<and> cs_totalSpent c = 0)"
proof -
  have put: "\<exists>i f. s1 = s\<lparr>sh_customers := map (\<lambda>c. if cs_id c = i then f c else c) (sh_customers s)\<rparr> \<and> find_customer i s1 = Some c \<and>
      (\<forall>c. cs_id (f c) = cs_id c \<and> cs_liveOrders (f c) = cs_liveOrders c \<and> cs_cancelledOrders (f c) = cs_cancelledOrders c \<and>
        cs_totalSpent (f c) = cs_totalSpent c)"
    if "put_customer (cs_id x) f s = (c, s1)" "x \<in> set (sh_customers s)" "\<And>c. cs_id (f c) = cs_id c"
      "\<And>c. cs_liveOrders (f c) = cs_liveOrders c" "\<And>c. cs_cancelledOrders (f c) = cs_cancelledOrders c" "\<And>c. cs_totalSpent (f c) = cs_totalSpent c" for x f
  proof -
    have s1: "s1 = s\<lparr>sh_customers := map (\<lambda>c. if cs_id c = cs_id x then f c else c) (sh_customers s)\<rparr>" "c = the (find_customer (cs_id x) s1)"
      using that(1) by (auto simp: put_customer_def Let_def)
    have "find_customer (cs_id x) s1 \<noteq> None" using that(2,3) by (auto simp: find_customer_def find_None_iff s1(1))
    then have "find_customer (cs_id x) s1 = Some c" using s1(2) by simp
    then show ?thesis using s1(1) that(3-6) by blast
  qed
  show ?thesis
  proof (cases "own_customer user s")
    case (Some mine)
    then have m: "mine \<in> set (sh_customers s)" by (auto simp: own_customer_def find_customer_def dest!: find_SomeD split: option.splits if_splits)
    from assms Some have "put_customer (cs_id mine) (\<lambda>c. c\<lparr>cs_name := (if cs_name mine \<noteq> '''' then cs_name mine else name),
        cs_email := (if truthy email \<and> \<not> truthy (cs_email mine) then email else cs_email c)\<rparr>) s = (c, s1)"
      by (simp add: upsertCustomer_def)
    from put [OF this m] show ?thesis by simp
  next
    case None
    show ?thesis
    proof (cases "find (\<lambda>c. cs_phone c = phone) (sh_customers s)")
      case (Some x)
      then have m: "x \<in> set (sh_customers s)" by (auto dest: find_SomeD)
      from assms Some None obtain f where f: "put_customer (cs_id x) f s = (c, s1)" and "\<And>c. cs_id (f c) = cs_id c"
        "\<And>c. cs_liveOrders (f c) = cs_liveOrders c" "\<And>c. cs_cancelledOrders (f c) = cs_cancelledOrders c" "\<And>c. cs_totalSpent (f c) = cs_totalSpent c"
        by (simp add: upsertCustomer_def Let_def)
      from put [OF f m this(2-5)] show ?thesis by simp
    next
      case no: None
      show ?thesis using assms None no
        by (intro disjI2) (auto simp: upsertCustomer_def create_customer_def Let_def fresh_id_def split: if_splits)
    qed
  qed
qed

lemma books_frame:
  assumes "same_store s s'" "sh_orders s' = sh_orders s"
  shows "stock_books s' = stock_books s" "reserved s' p = reserved s p" "on_hand s' p = on_hand s p" "goods s' p = goods s p"
    and "sh_coupons s' = sh_coupons s \<Longrightarrow> sh_redemptions s' = sh_redemptions s \<Longrightarrow> coupon_books s' = coupon_books s"
    and "sh_customers s' = sh_customers s \<Longrightarrow> customer_books s' = customer_books s"
proof -
  have l: "order_lines s' i = order_lines s i" for i by (rule order_lines_same_store [OF assms(1)])
  note h = held_cong [OF assms(2) l] and st = same_storeD [OF assms(1)]
  show "stock_books s' = stock_books s" by (simp add: stock_books_def st h l assms(2))
  show "reserved s' p = reserved s p" "on_hand s' p = on_hand s p" "goods s' p = goods s p" by (simp_all add: goods_def st h)
  show "coupon_books s' = coupon_books s" if "sh_coupons s' = sh_coupons s" "sh_redemptions s' = sh_redemptions s"
    using that by (simp add: coupon_books_def used_times_def redemption_ok_def assms(2))
  show "customer_books s' = customer_books s" if "sh_customers s' = sh_customers s"
    using that by (simp add: customer_books_def customer_ok_def count_orders_def spent_def assms(2))
qed

lemma upsert_books:
  assumes "upsertCustomer phone name email user s = Inr (c, s1)" "shop_books s" "keys_ok s"
  shows "shop_books s1 \<and> keys_ok s1 \<and> cs_id c \<in> cs_id ` set (sh_customers s1) \<and> same_store s s1 \<and> sh_orders s1 = sh_orders s"
proof -
  have same: "same_store s s1" "sh_orders s1 = sh_orders s" "sh_coupons s1 = sh_coupons s" "sh_redemptions s1 = sh_redemptions s"
    using upsertCustomer_Inr [OF assms(1)] by (auto simp: same_store_def dest!: keys_okD(7) [OF assms(3)])
  note fr = books_frame [OF same(1,2)]
  have cust: "customer_ok s1 x = customer_ok s x" for x
    by (simp add: customer_ok_def count_orders_def spent_def same(2))
  from upsertCustomer_Inr [OF assms(1)] have "customer_books s1 \<and> keys_ok s1 \<and> cs_id c \<in> cs_id ` set (sh_customers s1)"
  proof (elim disjE exE conjE)
    fix i f assume s1: "s1 = s\<lparr>sh_customers := map (\<lambda>c. if cs_id c = i then f c else c) (sh_customers s)\<rparr>" and c: "find_customer i s1 = Some c"
      and f: "\<forall>c. cs_id (f c) = cs_id c \<and> cs_liveOrders (f c) = cs_liveOrders c \<and> cs_cancelledOrders (f c) = cs_cancelledOrders c \<and>
        cs_totalSpent (f c) = cs_totalSpent c"
    have "map cs_id (sh_customers s1) = map cs_id (sh_customers s)"
      using map_key_update [of cs_id f i "sh_customers s"] f by (simp add: s1)
    then have ids: "cs_id ` set (sh_customers s1) = cs_id ` set (sh_customers s)" by (metis list.set_map)
    have "customer_ok s (f x) = customer_ok s x" for x using f by (simp add: customer_ok_def)
    then have "customer_books s1" using assms(2) by (simp add: shop_books_def customer_books_def cust) (auto simp: s1)
    moreover have "keys_ok s1" using assms(3) ids f by (auto simp: keys_ok_def s1 issued_def)
    ultimately show ?thesis using c by (auto simp: find_customer_def dest: find_SomeD)
  next
    fix i s0 assume s0: "fresh_id s = (i, s0)" and s1: "s1 = s0\<lparr>sh_customers := sh_customers s @ [c]\<rparr>" and c: "cs_id c = i"
      "cs_liveOrders c = 0" "cs_cancelledOrders c = 0" "cs_totalSpent c = 0"
    note k = keys_okD [OF assms(3) s0]
    have no: "of_customer i P r \<longleftrightarrow> False" if "r \<in> set (sh_orders s)" for r P using that k(4) by (auto simp: of_customer_def)
    have "count_orders s i P = 0" "spent s i = 0" for P
      unfolding count_orders_def spent_def by (rule sum_list_map_0, simp add: no)+
    then have "customer_ok s c" using c by (simp add: customer_ok_def)
    then have "customer_books s1" using assms(2) by (simp add: shop_books_def customer_books_def cust) (auto simp: s1)
    moreover have "keys_ok s1" using assms(3) k(5,6) by (auto simp: keys_ok_def s1 c(1) k(7) issued_def)
    ultimately show ?thesis by (simp add: s1)
  qed
  then show ?thesis using assms(2) same fr(1) fr(5) [OF same(3,4)] by (simp add: shop_books_def)
qed

section \<open>The writes of a placement\<close>

lemma rest_of_till:
  fixes s s' :: "'a till_scheme"
  assumes "rest_of s' = rest_of s"
  shows "tl_uuid s' = tl_uuid s" "tl_issued s' = tl_issued s" "oi_orderId ` set (st_items s') = oi_orderId ` set (st_items s)"
proof -
  show "tl_uuid s' = tl_uuid s" "tl_issued s' = tl_issued s" using assms by (cases s; cases s'; simp add: rest_of_def)+
  have "map item_shape (st_items s') = map item_shape (st_items s)" using assms by (simp add: rest_of_def)
  from arg_cong [OF this, of "\<lambda>xs. set (map fst xs)"] show "oi_orderId ` set (st_items s') = oi_orderId ` set (st_items s)"
    by (simp add: image_image item_shape_def)
qed

lemma create_orderD:
  assumes "create_order r items s = Inr s'"
  shows "s' = s\<lparr>sh_orders := sh_orders s @ [r], st_items := st_items s @ items\<rparr>" "check_order r = Inr ()"
    "\<forall>i \<in> set items. check_item i = Inr ()" "or_orderNo r \<notin> or_orderNo ` set (sh_orders s)"
proof -
  have ef: "\<forall>i \<in> set is. check_item i = Inr ()" if "efold (\<lambda>i _. check_item i) is () = Inr u" for "is" u
    using that by (induction "is") (auto simp: ebind_Inr_iff)
  show "s' = s\<lparr>sh_orders := sh_orders s @ [r], st_items := st_items s @ items\<rparr>" "check_order r = Inr ()"
    "\<forall>i \<in> set items. check_item i = Inr ()" "or_orderNo r \<notin> or_orderNo ` set (sh_orders s)"
    using assms ef by (auto simp: create_order_def ebind_Inr_iff list_ex_iff split: if_splits)
qed

lemma four_guards:
  "(if a then Inl x else if b then Inl y else if c then Inl z else if d then Inl w else Inr ()) = Inr () \<Longrightarrow> \<not> a \<and> \<not> b \<and> \<not> c \<and> \<not> d"
  by (simp split: if_splits)

lemma check_item_lines:
  assumes "\<forall>i \<in> set items. check_item i = Inr ()"
  shows "\<forall>l \<in> set (stockLinesOf items). 0 < snd l"
proof
  fix l assume "l \<in> set (stockLinesOf items)"
  then obtain i where i: "i \<in> set items" "l \<in> set (item_lines i)" by (auto simp: stockLinesOf_def)
  have "0 < oi_quantity i \<and> (\<forall>c \<in> set (oi_components i). 0 < oc_quantity c)"
    using four_guards [OF bspec [OF assms i(1), unfolded check_item_def]] unfolding list_ex_iff by blast
  then show "0 < snd l" using i(2) by (auto simp: item_lines_def split: option.splits if_splits)
qed

lemma write_order_Inr:
  fixes s :: "'a front_scheme"
  assumes "write_order dto ctx staff phone cid priced s = Inr (r, s')"
  defines "q \<equiv> pq_quote priced"
  obtains orderNo s1 i s2 s3 s5 s6 s7 h where
    "counter_next C_order s = (orderNo, s1)" "fresh_id s1 = (i, s2)" "r = order_of i orderNo cid dto q (st_now s)"
    "create_order r (map (item_of i) (q_lines q)) s2 = Inr s3"
    "reserve (q_stockUnits q) \<lparr>sc_orderId = Some i, sc_purchaseId = None\<rparr> (add_history h s3) = Inr s5"
    "(case (q_coupon q, pq_coupon priced) of (Some k, Some c) \<Rightarrow> redeem (cr_id c) i cid (qk_discount k) s5 | _ \<Rightarrow> Inr s5) = Inr s6"
    "update_customer cid (placed_counters (q_grandTotal q) (st_now s)) s6 = Inr s7"
    "till.truncate s' = till.truncate s7" "fr_keys s' = fr_keys s7"
proof -
  obtain orderNo s1 where c: "counter_next C_order s = (orderNo, s1)" by fastforce
  obtain i s2 where f: "fresh_id s1 = (i, s2)" by fastforce
  have cl: "till.truncate (if b then clearForOrder ow t else t) = till.truncate t" for b ow and t :: "'a front_scheme"
    by (simp add: clearForOrder_def till.defs split: option.split)
  have en: "till.truncate (enqueue m t) = till.truncate t" for m and t :: "'a front_scheme"
    by (simp add: enqueue_def till.defs)
  define h where "h = \<lparr>hi_orderId = i, hi_fromStatus = None, hi_toStatus = PENDING, hi_actorType = (if staff then STAFF else CUSTOMER)\<rparr>"
  from assms(1) obtain s3 s5 s6 s7 m where r: "r = order_of i orderNo cid dto q (st_now s)"
    and o: "create_order r (map (item_of i) (q_lines q)) s2 = Inr s3"
    and v: "reserve (q_stockUnits q) \<lparr>sc_orderId = Some i, sc_purchaseId = None\<rparr> (add_history h s3) = Inr s5"
    and k: "(case (q_coupon q, pq_coupon priced) of (Some k, Some c) \<Rightarrow> redeem (cr_id c) i cid (qk_discount k) s5 | _ \<Rightarrow> Inr s5) = Inr s6"
    and u: "update_customer cid (placed_counters (q_grandTotal q) (st_now s)) s6 = Inr s7"
    and s': "s' = (if \<not> staff \<and> pd_clearCart dto \<noteq> Some False then clearForOrder (px_cart ctx) (enqueue m s7) else enqueue m s7)"
    unfolding write_order_def Let_def c f prod.case ebind_Inr_iff q_def [symmetric] h_def [symmetric] by blast
  have "fr_keys s' = fr_keys s7" by (simp add: s' clearForOrder_def enqueue_def split: option.split)
  with s' show thesis by (intro that [OF c f r o v k u]) (simp_all only: cl en)
qed

lemma truncate_sel:
  fixes s t :: "'a till_scheme"
  assumes "till.truncate s = till.truncate t"
  shows "same_store t s" "sh_orders s = sh_orders t" "sh_customers s = sh_customers t" "sh_coupons s = sh_coupons t"
    "sh_redemptions s = sh_redemptions t" "tl_uuid s = tl_uuid t" "tl_issued s = tl_issued t"
  using assms by (simp_all add: till.defs same_store_def)

lemma redeemed:
  assumes "(case (qc, pc) of (Some k, Some c) \<Rightarrow> redeem (cr_id c) i cid (qk_discount k) s | _ \<Rightarrow> Inr s) = Inr s'"
  shows "same_store s s'" "sh_orders s' = sh_orders s" "sh_customers s' = sh_customers s" "tl_uuid s' = tl_uuid s" "tl_issued s' = tl_issued s"
    and "sh_coupons s' = sh_coupons s \<and> sh_redemptions s' = sh_redemptions s \<or>
      (\<exists>k x. rd_couponId x = k \<and> rd_orderId x = i \<and> rd_revokedAt x = None \<and> sh_redemptions s' = sh_redemptions s @ [x] \<and>
         sh_coupons s' = map (\<lambda>c. if cr_id c = k then c\<lparr>cr_usedCount := cr_usedCount c + 1\<rparr> else c) (sh_coupons s))"
  using assms by (auto simp: redeem_def update_coupon_def same_store_def split: option.splits if_splits)

lemma order_of_sel:
  "or_id (order_of i no cid dto q now) = i" "or_customerId (order_of i no cid dto q now) = cid" "os_status (order_of i no cid dto q now) = PENDING"
  "os_stockReserved (order_of i no cid dto q now)" "os_shippedAt (order_of i no cid dto q now) = None"
  "or_grandTotal (order_of i no cid dto q now) = q_grandTotal q" "or_orderNo (order_of i no cid dto q now) = no"
  by (simp_all add: order_of_def)

lemma write_order_books:
  fixes s :: "'a front_scheme"
  assumes "write_order dto ctx staff phone cid priced s = Inr (r, s')" "shop_books s" "keys_ok s" "cid \<in> cs_id ` set (sh_customers s)"
    and units: "q_stockUnits (pq_quote priced) = fold add_line_units (q_lines (pq_quote priced)) []"
  shows "shop_books s' \<and> keys_ok s' \<and> sh_orders s' = sh_orders s @ [r] \<and> r = order_of (or_id r) (or_orderNo r) cid dto (pq_quote priced) (st_now s) \<and>
    (\<forall>p. reserved s' p = reserved s p + units (order_lines s' (or_id r)) p \<and> on_hand s' p = on_hand s p \<and> goods s' p = goods s p)"
proof -
  let ?q = "pq_quote priced"
  obtain no s1 i s2 s3 s5 s6 s7 h where c: "counter_next C_order s = (no, s1)" and f: "fresh_id s1 = (i, s2)"
    and r: "r = order_of i no cid dto ?q (st_now s)" and o: "create_order r (map (item_of i) (q_lines ?q)) s2 = Inr s3"
    and v: "reserve (q_stockUnits ?q) \<lparr>sc_orderId = Some i, sc_purchaseId = None\<rparr> (add_history h s3) = Inr s5"
    and k: "(case (q_coupon ?q, pq_coupon priced) of (Some k, Some c) \<Rightarrow> redeem (cr_id c) i cid (qk_discount k) s5 | _ \<Rightarrow> Inr s5) = Inr s6"
    and u: "update_customer cid (placed_counters (q_grandTotal ?q) (st_now s)) s6 = Inr s7" and t: "till.truncate s' = till.truncate s7"
    using write_order_Inr [OF assms(1)] by metis
  let ?items = "map (item_of i) (q_lines ?q)"
  have s1: "s1 = s\<lparr>fr_counters := fr_counters s1\<rparr>" using c by (auto simp: counter_next_def split: prod.splits)
  have k1: "keys_ok s1" using assms(3) by (subst s1) (simp add: keys_ok_def issued_def)
  note new = keys_okD [OF k1 f]
  have s2: "same_store s s2" "sh_orders s2 = sh_orders s" "sh_customers s2 = sh_customers s" "sh_coupons s2 = sh_coupons s"
    "sh_redemptions s2 = sh_redemptions s" "tl_uuid s2 = tl_uuid s" "st_items s2 = st_items s"
    unfolding new(7) by (subst s1, simp add: same_store_def)+
  have fresh: "i \<notin> or_id ` set (sh_orders s)" "i \<notin> oi_orderId ` set (st_items s)" "i \<notin> cs_id ` set (sh_customers s)"
    using new(1-3) by (subst (asm) (1 2 3) s1, simp)+
  note s3 = create_orderD [OF o]
  note sel = order_of_sel [of i no cid dto ?q "st_now s", folded r]
  let ?t = "add_history h s3"
  have t3: "st_items ?t = st_items s @ ?items" "sh_orders ?t = sh_orders s @ [r]" "st_products ?t = st_products s" "st_lots ?t = st_lots s"
    "st_uses ?t = st_uses s" "st_nextId ?t = st_nextId s" "sh_customers ?t = sh_customers s" "sh_coupons ?t = sh_coupons s"
    "sh_redemptions ?t = sh_redemptions s" "tl_uuid ?t = tl_uuid s" "tl_issued ?t = tl_issued s2"
    using s2 by (simp_all add: s3(1) add_history_def same_store_def)
  have "store_ok ?t"
    using assms(2) t3(3-6) by (simp add: shop_books_def stock_books_def store_ok_def shelf_ok_def lots_ok_def lots_left_def outstanding_def on_hand_def)
  then have rest: "rest_of s5 = rest_of ?t" using reserve_ok [OF v] by blast
  note s5 = rest_of_shop [OF rest, unfolded t3] rest_of_till [OF rest, unfolded t3]
  note s6 = redeemed [OF k]
  have s7: "s7 = s6\<lparr>sh_customers := map (\<lambda>c. if cs_id c = cid then placed_counters (q_grandTotal ?q) (st_now s) c else c) (sh_customers s6)\<rparr>"
    using u by (auto simp: update_customer_def split: if_splits)
  note s' = truncate_sel [OF t]
  have "same_store s6 s7" by (simp add: s7 same_store_def)
  then have same: "same_store s5 s'" using s6(1) s'(1) same_store_trans by blast
  have ord: "sh_orders s' = sh_orders s @ [r]" using s'(2) s6(2) s5(1) by (simp add: s7)
  have cust: "sh_customers s' = map (\<lambda>c. if cs_id c = or_customerId r then placed_counters (or_grandTotal r) (st_now s) c else c) (sh_customers s)"
    using s'(3) s6(3) s5(2) by (simp add: s7 sel)
  have stock: "stock_books s' \<and> reserved s' p = reserved s p + units (stockLinesOf ?items) p \<and> on_hand s' p = on_hand s p \<and>
      goods s' p = goods s p \<and> order_lines s' (or_id r) = stockLinesOf ?items" for p
    by (rule placed_stock [of s r ?t ?items "q_stockUnits ?q" "\<lparr>sc_orderId = Some i, sc_purchaseId = None\<rparr>" s5 s' p])
      (use assms(2) fresh sel t3 check_item_lines [OF s3(3)] v same ord s5(1) in
        \<open>simp_all add: shop_books_def item_of_def order_units [of _ _ i] units\<close>)
  have "customer_books s'" using assms(2) by (intro placed_customers [OF _ ord sel(3) cust]) (simp add: shop_books_def)
  moreover have "coupon_books s'"
  proof (rule placed_coupons [OF _ ord sel(3)])
    show "coupon_books s" using assms(2) by (simp add: shop_books_def)
    then have "rd_orderId ` set (sh_redemptions s) \<subseteq> or_id ` set (sh_orders s)"
      unfolding coupon_books_def redemption_ok_def by (metis (no_types, lifting) image_subsetI image_eqI)
    then show "or_id r \<notin> rd_orderId ` set (sh_redemptions s)" using fresh(1) sel(1) by blast
    show "sh_coupons s' = sh_coupons s \<and> sh_redemptions s' = sh_redemptions s \<or>
      (\<exists>k x. rd_couponId x = k \<and> rd_orderId x = or_id r \<and> rd_revokedAt x = None \<and> sh_redemptions s' = sh_redemptions s @ [x] \<and>
         sh_coupons s' = map (\<lambda>c. if cr_id c = k then c\<lparr>cr_usedCount := cr_usedCount c + 1\<rparr> else c) (sh_coupons s))"
      using s6(6) s'(4,5) s5(3,4) by (simp add: s7 sel(1))
  qed
  moreover have "keys_ok s'"
  proof -
    have "map cs_id (sh_customers s') = map cs_id (sh_customers s)"
      unfolding cust by (rule map_key_update) (simp add: placed_counters_def)
    from arg_cong [OF this, of set] have ids: "cs_id ` set (sh_customers s') = cs_id ` set (sh_customers s)" by simp
    have uuid: "tl_uuid s' = tl_uuid s" "tl_issued s' = tl_issued s2" using s'(6,7) s6(4,5) s5(8,9) by (simp_all add: s7)
    have e: "st_items s' = st_items s5" using same by (simp add: same_store_def)
    have "oi_orderId ` set ?items \<subseteq> {i}" by (auto simp: item_of_def)
    then have items: "oi_orderId ` set (st_items s') \<subseteq> insert i (oi_orderId ` set (st_items s))"
      unfolding e s5(10) set_append image_Un by blast
    have "issued s1 = issued s" by (subst s1) (simp add: fun_eq_iff issued_def)
    then have iss: "issued s' i" "issued s j \<Longrightarrow> issued s' j" for j
      using new(5,6) uuid s2(6) by (simp_all add: issued_def)
    have "\<forall>c \<in> set (sh_customers s'). issued s' (cs_id c)"
    proof
      fix c assume "c \<in> set (sh_customers s')"
      then have "cs_id c \<in> cs_id ` set (sh_customers s)" using ids by blast
      then show "issued s' (cs_id c)" using assms(3) iss(2) by (auto simp: keys_ok_def)
    qed
    moreover have "\<forall>x \<in> set (sh_orders s'). issued s' (or_id x) \<and> or_customerId x \<in> cs_id ` set (sh_customers s')"
      unfolding ids using assms(3,4) iss by (auto simp: keys_ok_def ord sel(1,2))
    moreover have "oi_orderId ` set (st_items s) \<subseteq> or_id ` set (sh_orders s)" using assms(3) by (simp add: keys_ok_def)
    from subset_trans [OF items insert_mono [OF this]] have "oi_orderId ` set (st_items s') \<subseteq> or_id ` set (sh_orders s')"
      by (simp add: ord sel(1))
    ultimately show ?thesis using assms(3) uuid(1) by (simp add: keys_ok_def)
  qed
  ultimately show ?thesis using stock ord r sel(1,7) by (simp add: shop_books_def)
qed

section \<open>The transaction\<close>

lemma pricing_quote_units:
  assumes "pricing_quote J req s = Inr priced"
  shows "q_stockUnits (pq_quote priced) = fold add_line_units (q_lines (pq_quote priced)) []"
proof -
  have u: "q_stockUnits (calculateQuote J input) = fold add_line_units (q_lines (calculateQuote J input)) []" for input
  proof -
    obtain c rej al el where "coupon_step J input = (c, rej, al, el)" by (metis prod_cases4)
    from calculateQuote_sel(9) [OF this] show ?thesis .
  qed
  obtain lines where m: "mergeLines (qr_lines req) = Inr lines" using assms by (auto simp: pricing_quote_def ebind_Inr_iff)
  obtain inputs un where l: "loadLines lines (qr_now req) s = (inputs, un)" by fastforce
  show ?thesis
    using assms [unfolded pricing_quote_def m ebind_simps l Let_def prod.case] by (auto simp: ebind_Inr_iff u split: if_split_asm)
qed

lemma books_truncate:
  fixes s s' :: "'a till_scheme"
  assumes "till.truncate s' = till.truncate s"
  shows "shop_books s' = shop_books s" "keys_ok s' = keys_ok s" "reserved s' p = reserved s p" "on_hand s' p = on_hand s p"
    "goods s' p = goods s p" "order_lines s' i = order_lines s i" "sh_orders s' = sh_orders s"
proof -
  note t = truncate_sel [OF assms]
  note fr = books_frame [OF t(1,2)]
  show "shop_books s' = shop_books s" by (simp add: shop_books_def fr(1,5,6) t(3,4,5))
  show "keys_ok s' = keys_ok s" using t by (simp add: keys_ok_def issued_def same_store_def)
  show "reserved s' p = reserved s p" "on_hand s' p = on_hand s p" "goods s' p = goods s p" "sh_orders s' = sh_orders s"
    by (rule fr t(2))+
  show "order_lines s' i = order_lines s i" by (rule order_lines_same_store [OF t(1)])
qed

lemma key_writes_truncate:
  "idem_claim p s = Inr s1 \<Longrightarrow> till.truncate s1 = till.truncate s" "till.truncate (idem_complete k c b s) = till.truncate s"
  by (auto simp: idem_claim_def idem_complete_def till.defs Let_def split: if_splits)

lemma place_in_tx_Inr:
  assumes "place_in_tx J dto ctx staff idem s = Inr (body, ev, s')"
  obtains s1 phone district customer s2 priced r s3 where
    "(case idem of None \<Rightarrow> Inr s | Some p \<Rightarrow> idem_claim p s) = Inr s1" "normalizeBdPhone (Some (pd_phone dto)) = Some phone"
    "resolveDistrict (pd_district dto) s1 = Inr district" "checkLocality (di_id district) (pd_upazila dto) (pd_union dto) s1 = Inr ()"
    "upsertCustomer phone (pd_name dto) (map_option lower_s (pd_email dto)) (if staff then None else px_user ctx) s1 = Inr (customer, s2)"
    "\<not> (cs_isBlocked customer \<and> pd_paymentMethod dto = COD)"
    "pricing_quote J \<lparr>qr_lines = pd_lines dto, qr_couponCode = pd_couponCode dto,
       qr_district = Some \<lparr>dr_id = Some (di_id district), dr_name = None\<rparr>, qr_customerId = Some (cs_id customer),
       qr_phone = None, qr_now = st_now s2, qr_strict = True\<rparr> s2 = Inr priced"
    "check_quote (pd_paymentMethod dto) (pq_quote priced) = Inr ()"
    "write_order dto ctx staff phone (cs_id customer) priced s2 = Inr (r, s3)" "body = toPlacedOrder r"
    "ev = OrderPlaced (or_id r) (or_orderNo r) (cs_id customer) (or_grandTotal r) (pd_paymentMethod dto) (or_placedAt r)"
    "s' = (case idem of None \<Rightarrow> s3 | Some p \<Rightarrow> idem_complete (ir_key p) 201 body s3)"
proof -
  from assms obtain s1 phone where k: "(case idem of None \<Rightarrow> Inr s | Some p \<Rightarrow> idem_claim p s) = Inr s1"
    and ph: "normalizeBdPhone (Some (pd_phone dto)) = Some phone"
    by (cases "normalizeBdPhone (Some (pd_phone dto))") (auto simp: place_in_tx_def ebind_Inr_iff)
  from assms obtain district customer s2 where d: "resolveDistrict (pd_district dto) s1 = Inr district"
    "checkLocality (di_id district) (pd_upazila dto) (pd_union dto) s1 = Inr ()"
    and u: "upsertCustomer phone (pd_name dto) (map_option lower_s (pd_email dto)) (if staff then None else px_user ctx) s1 = Inr (customer, s2)"
    by (simp only: place_in_tx_def ebind_Inr_iff k ph option.case) (elim exE conjE, simp split: prod.splits)
  have "\<not> (cs_isBlocked customer \<and> pd_paymentMethod dto = COD)"
    using assms [unfolded place_in_tx_def k ebind_simps ph option.case d u prod.case] by (auto split: if_split_asm)
  then show thesis
    using assms [unfolded place_in_tx_def k ebind_simps ph option.case d u prod.case] k ph d u
    by (auto simp: Let_def ebind_Inr_iff intro: that)
qed

text \<open>
  C2. A placed order extends the books of the shop by exactly one pending order: the shelf is
  untouched, every product holds in addition what the order's lines need, the counters of the
  customer and of the coupon follow, every reference stays sound, and the answer shows the new row.
\<close>

theorem placement_keeps_books:
  assumes "place_in_tx J dto ctx staff idem s = Inr (body, ev, s')" "shop_books s" "keys_ok s"
  shows "shop_books s' \<and> keys_ok s' \<and> (\<exists>r. sh_orders s' = sh_orders s @ [r] \<and> os_status r = PENDING \<and> body = toPlacedOrder r \<and>
    (\<forall>p. reserved s' p = reserved s p + units (order_lines s' (or_id r)) p \<and> on_hand s' p = on_hand s p \<and> goods s' p = goods s p))"
proof -
  from place_in_tx_Inr [OF assms(1)] obtain s1 phone customer s2 priced r s3 req
    where k: "(case idem of None \<Rightarrow> Inr s | Some p \<Rightarrow> idem_claim p s) = Inr s1"
      and u: "upsertCustomer phone (pd_name dto) (map_option lower_s (pd_email dto)) (if staff then None else px_user ctx) s1 = Inr (customer, s2)"
      and q: "pricing_quote J req s2 = Inr priced"
      and w: "write_order dto ctx staff phone (cs_id customer) priced s2 = Inr (r, s3)"
      and b: "body = toPlacedOrder r" and s': "s' = (case idem of None \<Rightarrow> s3 | Some p \<Rightarrow> idem_complete (ir_key p) 201 body s3)" by metis
  have t1: "till.truncate s1 = till.truncate s" using k by (auto simp: key_writes_truncate split: option.splits)
  have t3: "till.truncate s' = till.truncate s3" by (simp add: s' key_writes_truncate split: option.split)
  note u1 = upsert_books [OF u, unfolded books_truncate [OF t1], OF assms(2,3)]
  then have c: "cs_id customer \<in> cs_id ` set (sh_customers s2)" and s2: "shop_books s2" "keys_ok s2" "same_store s1 s2" "sh_orders s2 = sh_orders s"
    by auto
  note b2 = write_order_books [OF w s2(1,2) c pricing_quote_units [OF q]]
  have "os_status r = PENDING" using b2 order_of_sel(3) by metis
  then show ?thesis
    using b2 b s2(4) books_frame(2-4) [OF s2(3)] by (simp add: books_truncate [OF t3] books_truncate [OF t1])
qed

section \<open>A concrete checkout\<close>

text \<open>Evaluation unfolds the sequencing, so that what follows an error is not looked at.\<close>

declare ebind_def [code_unfold]

definition open_front :: front where
  "open_front = \<lparr>st_now = 10, st_nextId = 2, st_products = [''p'' \<mapsto> sample_row\<lparr>pr_stockReserved := 0\<rparr>],
     st_lots = [sample_lot 0 2 1, sample_lot 1 3 2], st_uses = [], st_moves = [], st_items = [],
     sh_orders = [], sh_customers = [], sh_coupons = [], sh_redemptions = [], sh_history = [],
     tl_uuid = (\<lambda>n. replicate n CHR ''u''), tl_issued = 0, tl_accounts = [], tl_txns = [], tl_payments = [],
     tl_refunds = [], tl_purchases = [], tl_shipments = [],
     fr_counters = [\<lparr>cn_scope = C_order, cn_prefix = ''CLO-'', cn_next = 7, cn_padding = 4\<rparr>], fr_keys = [], fr_outbox = [],
     fr_districts = [\<lparr>di_id = 1, di_nameBn = js ''Dhaka'', di_nameEn = Some (js ''Dhaka''), di_divisionId = 1,
       di_zone = \<lparr>zi_id = 1, zi_code = ''inside'', zi_fee = 60, zi_courierCost = 50, zi_etaMinDays = 1, zi_etaMaxDays = 2\<rparr>\<rparr>],
     fr_upazilas = [], fr_unions = [],
     fr_catalog = [\<lparr>cg_id = ''p'', cg_title = ''t'', cg_sku = ''s'', cg_sectionId = ''b'', cg_sectionCode = ''book'', cg_categoryId = ''c'',
       cg_subcategoryId = None, cg_categoryName = None, cg_compareAtPrice = None, cg_taxRate = 0, cg_freeShipping = False,
       cg_status = ACTIVE, cg_deals = []\<rparr>],
     fr_bundles = [], fr_rules = [], fr_carts = []\<rparr>"

definition two_copies :: place_dto where
  "two_copies = \<lparr>pd_phone = js ''01712345678'', pd_name = ''A'', pd_email = None, pd_district = \<lparr>dr_id = Some 1, dr_name = None\<rparr>,
     pd_upazila = None, pd_union = None,
     pd_lines = [\<lparr>lr_kind = PRODUCT, lr_productId = Some ''p'', lr_bundleId = None, lr_quantity = 2\<rparr>],
     pd_couponCode = None, pd_paymentMethod = COD, pd_clearCart = None\<rparr>"

definition web_guest :: "string \<Rightarrow> placement_context" where
  "web_guest key = \<lparr>px_user = None, px_cart = None, px_idempotencyKey = Some key\<rparr>"

lemma open_front_books: "shop_books open_front" "keys_ok open_front"
proof -
  have "store_ok open_front"
    by (auto simp: store_ok_def shelf_ok_def lots_ok_def outstanding_def lots_left_def on_hand_def open_front_def sample_row_def sample_lot_def
      products_reserved_lte_hand_def products_stock_nonneg_def split: if_splits)
  moreover have "reserved open_front p = held open_front p" for p
    by (simp add: reserved_def held_def open_front_def sample_row_def)
  ultimately show "shop_books open_front"
    by (simp add: shop_books_def stock_books_def customer_books_def coupon_books_def) (simp add: open_front_def)
  have "inj (\<lambda>n. replicate n CHR ''u'')" by (rule injI) (metis length_replicate)
  then show "keys_ok open_front" by (simp add: keys_ok_def open_front_def)
qed

definition sample_key :: idem_ref where
  "sample_key = \<lparr>ir_scope = ''order.place'', ir_key = ''key-0001'', ir_hash = ''h''\<rparr>"

lemma sample_placed:
  "\<exists>body ev s'. place_in_tx exact_js two_copies (web_guest ''key-0001'') False (Some sample_key) open_front = Inr (body, ev, s') \<and>
     bd_orderNo body = ''CLO-0007'' \<and> bd_grandTotal body = 260 \<and> st_now s' = 10"
proof -
  have "case place_in_tx exact_js two_copies (web_guest ''key-0001'') False (Some sample_key) open_front of Inl e \<Rightarrow> False
    | Inr (body, ev, s') \<Rightarrow> bd_orderNo body = ''CLO-0007'' \<and> bd_grandTotal body = 260 \<and> st_now s' = 10"
    by code_simp
  then show ?thesis by (auto split: sum.splits)
qed

theorem placement_keeps_books_witness:
  "\<exists>body ev s'. place_in_tx exact_js two_copies (web_guest ''key-0001'') False (Some sample_key) open_front = Inr (body, ev, s') \<and>
     bd_orderNo body = ''CLO-0007'' \<and> bd_grandTotal body = 260 \<and> shop_books s' \<and> on_hand s' ''p'' = 5"
proof -
  obtain body ev s' where p: "place_in_tx exact_js two_copies (web_guest ''key-0001'') False (Some sample_key) open_front = Inr (body, ev, s')"
    and b: "bd_orderNo body = ''CLO-0007''" "bd_grandTotal body = 260" using sample_placed by blast
  have "on_hand open_front ''p'' = 5" by (simp add: on_hand_def open_front_def sample_row_def)
  then show ?thesis using placement_keeps_books [OF p open_front_books] p b by auto
qed

end
