(* ===== verification/Checkout_Properties.thy ===== *)
theory Checkout_Properties
  imports Placement_Properties
begin

text \<open>
  The services around a placement: document numbers are gapless and distinct, cart lines are merged
  without losing a copy, a repeated request gets the stored answer and writes nothing, and the check
  that keeps blocked customers from paying on delivery does not cover every placement.
\<close>

section \<open>Document numbers\<close>

text \<open>The prefix, the next number and the padding of a scope, as its row has them or will have them.\<close>

definition counter_of :: "counter_scope \<Rightarrow> counter_row list \<Rightarrow> string \<times> nat \<times> nat" where
  "counter_of c rows = (case find (\<lambda>r. cn_scope r = c) rows of
      None \<Rightarrow> counter_default c | Some r \<Rightarrow> (cn_prefix r, cn_next r, cn_padding r))"

lemma find_bump:
  "find (\<lambda>r. cn_scope r = d) (map (\<lambda>r. if cn_scope r = c then r\<lparr>cn_next := cn_next r + 1\<rparr> else r) rows) =
   map_option (\<lambda>r. if cn_scope r = c then r\<lparr>cn_next := cn_next r + 1\<rparr> else r) (find (\<lambda>r. cn_scope r = d) rows)"
  by (induction rows) auto

lemma next_number_counter:
  assumes "next_number c rows = (n, rows')" "counter_of c rows = (p, k, w)"
  shows "n = padNo p k w" "counter_of c rows' = (p, Suc k, w)" "d \<noteq> c \<Longrightarrow> counter_of d rows' = counter_of d rows"
proof -
  define new where "new = \<lparr>cn_scope = c, cn_prefix = fst (counter_default c), cn_next = fst (snd (counter_default c)),
    cn_padding = snd (snd (counter_default c))\<rparr>"
  define rs where "rs = (if list_ex (\<lambda>r. cn_scope r = c) rows then rows else rows @ [new])"
  have n: "n = (let r = the (find (\<lambda>r. cn_scope r = c) rs) in padNo (cn_prefix r) (cn_next r) (cn_padding r))"
    "rows' = map (\<lambda>r. if cn_scope r = c then r\<lparr>cn_next := cn_next r + 1\<rparr> else r) rs"
    using assms(1) by (auto simp: next_number_def rs_def new_def Let_def split: prod.splits)
  have app: "find Q (rows @ [new]) = find Q rows" if "\<not> Q new" for Q using that by (induction rows) auto
  have other: "find (\<lambda>r. cn_scope r = d) rs = find (\<lambda>r. cn_scope r = d) rows" if "d \<noteq> c" for d
  proof -
    have "\<not> cn_scope new = d" using that by (simp add: new_def)
    then show ?thesis unfolding rs_def by (simp add: app del: not_None_eq)
  qed
  have "\<exists>r. find (\<lambda>r. cn_scope r = c) rs = Some r \<and> (cn_prefix r, cn_next r, cn_padding r) = (p, k, w) \<and> cn_scope r = c"
  proof (cases "find (\<lambda>r. cn_scope r = c) rows")
    case None
    then have "\<not> list_ex (\<lambda>r. cn_scope r = c) rows" by (auto simp: find_None_iff list_ex_iff)
    then show ?thesis using assms(2) None by (simp add: rs_def new_def counter_of_def find_append_None)
  next
    case (Some r)
    from find_SomeD [OF Some] have "list_ex (\<lambda>r. cn_scope r = c) rows" "cn_scope r = c" by (auto simp: list_ex_iff)
    then show ?thesis using assms(2) Some by (simp add: rs_def counter_of_def)
  qed
  then obtain r where r: "find (\<lambda>r. cn_scope r = c) rs = Some r" "cn_prefix r = p" "cn_next r = k" "cn_padding r = w" "cn_scope r = c" by auto
  show "n = padNo p k w" "counter_of c rows' = (p, Suc k, w)" "d \<noteq> c \<Longrightarrow> counter_of d rows' = counter_of d rows"
    using r other [of d] by (auto simp: n counter_of_def find_bump split: option.split dest: find_SomeD)
qed

text \<open>Numbers drawn one after the other, each for its own scope.\<close>

fun draws :: "counter_scope list \<Rightarrow> 'a front_scheme \<Rightarrow> (counter_scope \<times> string) list \<times> 'a front_scheme" where
  "draws [] s = ([], s)"
| "draws (c # cs) s = (let (n, s) = counter_next c s; (ns, s) = draws cs s in ((c, n) # ns, s))"

definition drawn :: "counter_scope \<Rightarrow> (counter_scope \<times> string) list \<Rightarrow> string list" where
  "drawn c ns = map snd (filter (\<lambda>x. fst x = c) ns)"

text \<open>
  C32. The numbers of a kind of document are consecutive and never repeat, whatever is drawn for other
  kinds in between: the n-th one drawn carries the counter's start plus n.
\<close>

theorem numbers_gapless:
  "counter_of c (fr_counters s) = (p, k, w) \<Longrightarrow>
   drawn c (fst (draws cs s)) = map (\<lambda>i. padNo p i w) [k..<k + count_list cs c] \<and> distinct (drawn c (fst (draws cs s)))"
proof (induction cs arbitrary: s k)
  case Nil
  then show ?case by (simp add: drawn_def)
next
  case (Cons d cs)
  obtain n rows where n: "next_number d (fr_counters s) = (n, rows)" by fastforce
  then have s1: "counter_next d s = (n, s\<lparr>fr_counters := rows\<rparr>)" by (simp add: counter_next_def)
  obtain ns s' where ds: "draws cs (s\<lparr>fr_counters := rows\<rparr>) = (ns, s')" by fastforce
  have all: "distinct (map (\<lambda>i. padNo p i w) is)" if "distinct is" for "is"
    using that by (auto simp: distinct_map intro: inj_onI dest: padNo_number)
  show ?case
  proof (cases "d = c")
    case True
    note c = next_number_counter [OF n [unfolded True] Cons.prems]
    have "drawn c ns = map (\<lambda>i. padNo p i w) [Suc k..<Suc k + count_list cs c]"
      using Cons.IH [of "s\<lparr>fr_counters := rows\<rparr>" "Suc k"] c(2) ds by simp
    then have "drawn c (fst (draws (d # cs) s)) = map (\<lambda>i. padNo p i w) (k # [Suc k..<Suc k + count_list cs c])"
      using c(1) by (simp add: s1 [unfolded True] ds True drawn_def Let_def)
    also have "k # [Suc k..<Suc k + count_list cs c] = [k..<k + count_list (d # cs) c]" by (simp add: True upt_conv_Cons)
    finally show ?thesis using all by simp
  next
    case False
    obtain p' k' w' where "counter_of d (fr_counters s) = (p', k', w')" by (metis prod_cases3)
    from next_number_counter(3) [OF n this] False Cons.prems have "counter_of c rows = (p, k, w)" by simp
    then show ?thesis using Cons.IH [of "s\<lparr>fr_counters := rows\<rparr>" k] ds False all by (simp add: s1 drawn_def Let_def)
  qed
qed

section \<open>Merged lines\<close>

definition target :: "line_ref \<Rightarrow> item_kind \<times> id" where
  "target l = (lr_kind l, str_of (if lr_kind l = PRODUCT then lr_productId l else lr_bundleId l))"

lemma line_target_Some: "line_target l = Some i \<Longrightarrow> target l = (lr_kind l, i) \<and> i \<noteq> ''''"
  by (auto simp: line_target_def target_def str_of_def split: option.splits if_splits)

lemma merge_refs:
  "efold merge_ref ls m = (if list_all (\<lambda>l. line_target l \<noteq> None) ls
     then Inr (tally m (map (\<lambda>l. (target l, lr_quantity l)) ls)) else Inl (BusinessRuleError ''cart.line_invalid''))"
proof (induction ls arbitrary: m)
  case (Cons l ls)
  then show ?case by (cases "line_target l") (auto simp: merge_ref_def dest: line_target_Some)
qed simp

lemma line_of_sel: "target (line_of x) = fst x" "lr_quantity (line_of x) = snd x"
  by (cases x; cases "fst x"; cases "fst (fst x)"; simp add: line_of_def target_def str_of_def)+

text \<open>
  Merging loses nothing and repeats nothing: the lines that come out name each product or bundle
  once, with the sum of what was asked for it, at most 99; merging is refused exactly when a line
  names nothing or such a sum exceeds 99.
\<close>

theorem merged_lines:
  defines "asked i ls \<equiv> sum_list (map lr_quantity (filter (\<lambda>l. target l = i) ls))"
  shows "case mergeLines ls of
      Inr ms \<Rightarrow> distinct (map target ms) \<and> target ` set ms = target ` set ls \<and>
        (\<forall>m \<in> set ms. lr_quantity m = asked (target m) ls \<and> lr_quantity m \<le> 99)
    | Inl e \<Rightarrow> (\<exists>l \<in> set ls. line_target l = None) \<or> (\<exists>l \<in> set ls. asked (target l) ls > 99)"
proof (cases "list_all (\<lambda>l. line_target l \<noteq> None) ls")
  case False
  then show ?thesis by (auto simp: mergeLines_def merge_refs list_all_iff split: if_splits)
next
  case True
  define m where "m = tally [] (map (\<lambda>l. (target l, lr_quantity l)) ls)"
  have d: "distinct (map fst m)" by (simp add: m_def distinct_tally)
  have k: "fst ` set m = target ` set ls" by (simp add: m_def keys_tally image_image)
  have q: "snd x = asked (fst x) ls" if "x \<in> set m" for x
  proof -
    have "snd x = count_of m (fst x)" using count_of_mem [OF d, of "fst x" "snd x"] that by simp
    then show ?thesis by (simp add: m_def count_of_tally asked_def filter_map comp_def)
  qed
  have e: "mergeLines ls = (if list_ex (\<lambda>x. snd x > 99) m then Inl (BusinessRuleError ''cart.qty_limit'') else Inr (map line_of m))"
    using True by (simp add: mergeLines_def merge_refs m_def)
  show ?thesis
  proof (cases "list_ex (\<lambda>x. snd x > 99) m")
    case True
    then obtain x where x: "x \<in> set m" "snd x > 99" by (auto simp: list_ex_iff)
    moreover obtain l where "l \<in> set ls" "fst x = target l" using k x(1) by (metis image_iff)
    ultimately show ?thesis using True q by (auto simp: e)
  next
    case False
    then show ?thesis using d k q by (auto simp: e line_of_sel list_ex_iff comp_def image_image not_less)
  qed
qed

section \<open>Repeated requests\<close>

lemma reserve_rest:
  assumes "reserve ls c s = Inr s'"
  shows "rest_of s' = rest_of s"
proof -
  obtain ms where "efold (reserve_one c) ms s = Inr s'" using assms by (auto simp: reserve_def ebind_Inr_iff)
  then show ?thesis
    by (rule efold_frame) (auto simp: ebind_Inr_iff reserve_one_def put_product_def log_movement_def rest_of_def Let_def
      split: option.splits if_splits)
qed

lemma write_order_keys:
  fixes s :: "'a front_scheme"
  assumes "write_order dto ctx staff phone cid priced s = Inr (r, s')"
  shows "fr_keys s' = fr_keys s"
proof -
  let ?q = "pq_quote priced"
  obtain no s1 i s2 s3 s5 s6 s7 h where c: "counter_next C_order s = (no, s1)" and f: "fresh_id s1 = (i, s2)"
    and o: "create_order r (map (item_of i) (q_lines ?q)) s2 = Inr s3"
    and v: "reserve (q_stockUnits ?q) \<lparr>sc_orderId = Some i, sc_purchaseId = None\<rparr> (add_history h s3) = Inr s5"
    and k: "(case (q_coupon ?q, pq_coupon priced) of (Some k, Some c) \<Rightarrow> redeem (cr_id c) i cid (qk_discount k) s5 | _ \<Rightarrow> Inr s5) = Inr s6"
    and u: "update_customer cid (placed_counters (q_grandTotal ?q) (st_now s)) s6 = Inr s7" and t: "fr_keys s' = fr_keys s7"
    using write_order_Inr [OF assms] by metis
  have "fr_keys s1 = fr_keys s" using c by (auto simp: counter_next_def split: prod.splits)
  moreover have "fr_keys s2 = fr_keys s1" using f by (auto simp: fresh_id_def)
  moreover have "fr_keys (add_history h s3) = fr_keys s2" using create_orderD(1) [OF o] by (simp add: add_history_def)
  moreover have "fr_keys y = fr_keys x" if "rest_of y = rest_of x" for x y :: "'a front_scheme"
    using that by (cases x; cases y; simp add: rest_of_def)
  then have "fr_keys s5 = fr_keys (add_history h s3)" using reserve_rest [OF v] by blast
  moreover have "fr_keys s6 = fr_keys s5" using k by (auto simp: redeem_def update_coupon_def split: option.splits if_splits)
  moreover have "fr_keys s7 = fr_keys s6" using u by (auto simp: update_customer_def split: if_splits)
  ultimately show ?thesis using t by simp
qed

text \<open>What a placement leaves behind for its key.\<close>

lemma placed_key:
  fixes s :: "'a front_scheme"
  assumes "place_in_tx J dto ctx staff (Some p) s = Inr (body, ev, s')"
  shows "find (\<lambda>r. ik_key r = ir_key p) (fr_keys s') = Some \<lparr>ik_key = ir_key p, ik_scope = ir_scope p, ik_requestHash = ir_hash p,
    ik_response = Some (201, body), ik_expiresAt = st_now s + IDEM_TTL\<rparr>"
proof -
  let ?row = "\<lparr>ik_key = ir_key p, ik_scope = ir_scope p, ik_requestHash = ir_hash p, ik_response = None, ik_expiresAt = st_now s + IDEM_TTL\<rparr>"
  obtain s1 phone customer s2 priced r s3 where k: "idem_claim p s = Inr s1"
    and u: "upsertCustomer phone (pd_name dto) (map_option lower_s (pd_email dto)) (if staff then None else px_user ctx) s1 = Inr (customer, s2)"
    and w: "write_order dto ctx staff phone (cs_id customer) priced s2 = Inr (r, s3)" and s': "s' = idem_complete (ir_key p) 201 body s3"
    using place_in_tx_Inr [OF assms] unfolding option.case by metis
  obtain ks where ks: "fr_keys s1 = ks @ [?row]" "\<not> list_ex (\<lambda>r. ik_key r = ir_key p) ks"
    using k by (auto simp: idem_claim_def Let_def split: if_splits)
  have "fr_keys s2 = fr_keys s1" using upsertCustomer_Inr [OF u] by (auto simp: fresh_id_def)
  then have "fr_keys s3 = ks @ [?row]" using write_order_keys [OF w] ks(1) by simp
  then have f: "fr_keys s' = map (\<lambda>r. if ik_key r = ir_key p then r\<lparr>ik_response := Some (201, body)\<rparr> else r) ks @ [?row\<lparr>ik_response := Some (201, body)\<rparr>]"
    by (simp add: s' idem_complete_def)
  have "find (\<lambda>r. ik_key r = ir_key p) (map (\<lambda>r. if ik_key r = ir_key p then r\<lparr>ik_response := Some (201, body)\<rparr> else r) ks) = None"
    using ks(2) by (auto simp: find_None_iff list_ex_iff)
  then show ?thesis by (simp add: f find_append_None)
qed

text \<open>
  C21. A request that is repeated with its idempotency key within a day, whatever happened in between,
  gets the answer the first one got, places nothing and announces nothing; the same key with another
  body is refused.
\<close>

theorem placement_replayed:
  fixes s :: "'a front_scheme"
  assumes "place J hash dto ctx staff s = Inr (rep, evs, s1)" "\<not> rp_replayed rep" "place_key ctx staff hash = Inr (Some p)"
    and "find (\<lambda>r. ik_key r = ir_key p) (fr_keys t) = find (\<lambda>r. ik_key r = ir_key p) (fr_keys s1)" "st_now t \<le> st_now s + IDEM_TTL"
    and "place_key ctx2 staff2 hash2 = Inr (Some p2)" "ir_key p2 = ir_key p"
  shows "place J hash2 dto2 ctx2 staff2 t = (if ir_scope p2 = ir_scope p \<and> hash2 = hash
    then Inr (\<lparr>rp_replayed = True, rp_code = 201, rp_body = rp_body rep\<rparr>, [], t) else Inl (BusinessRuleError ''idempotency.key_reused''))"
proof -
  have h: "ir_hash p = hash" "ir_hash p2 = hash2" using assms(3,6)
    by (auto simp: place_key_def idem_prepare_def ebind_Inr_iff split: if_splits)
  have no: "replay_of (Some p) x = Inr (Some r) \<Longrightarrow> rp_replayed r" for x :: "'a front_scheme" and r
    by (auto simp: replay_of_def ebind_Inr_iff)
  from assms(1-3) obtain body ev where tx: "place_in_tx J dto ctx staff (Some p) s = Inr (body, ev, s1)" and rep: "rp_body rep = body"
    by (auto simp: place_def ebind_Inr_iff dest: no split: option.splits sum.splits if_splits)
  have "find (\<lambda>r. ik_key r = ir_key p2) (fr_keys t) = Some \<lparr>ik_key = ir_key p, ik_scope = ir_scope p, ik_requestHash = hash,
      ik_response = Some (201, body), ik_expiresAt = st_now s + IDEM_TTL\<rparr>"
    using placed_key [OF tx] assms(4,7) h(1) by simp
  then have "idem_lookup p2 t = (if ir_scope p2 = ir_scope p \<and> hash2 = hash then Inr (Some (201, body)) else Inl (BusinessRuleError ''idempotency.key_reused''))"
    using assms(5) h(2) by (auto simp: idem_lookup_def)
  then show ?thesis using assms(6) rep by (simp add: place_def replay_of_def)
qed

section \<open>Blocked customers\<close>

text \<open>
  \<open>codCheck\<close> refuses cash on delivery to a blocked phone, but a logged-in customer with an unblocked
  row of their own places with that row, and \<open>place\<close> then only looks at that row.
\<close>

lemma blocked_phone_bypass:
  assumes "normalizeBdPhone phone = Some e164" "find (\<lambda>c. cs_phone c = e164) (sh_customers s) = Some b" "cs_isBlocked b"
    and "own_customer (Some u) s = Some mine" "\<not> cs_isBlocked mine" "distinct (map cs_id (sh_customers s))"
  shows "\<not> codCheck phone (Some u) s \<and> (\<exists>c s1. upsertCustomer e164 name email (Some u) s = Inr (c, s1) \<and> \<not> cs_isBlocked c)"
proof -
  have own: "find_customer (cs_id mine) s = Some mine" "au_customerId u = Some (cs_id mine)"
    using assms(4) by (auto simp: own_customer_def find_customer_def dest: find_SomeD split: option.splits if_splits)
  have "\<not> codCheck phone (Some u) s" using assms own by (simp add: codCheck_def)
  moreover have "find (\<lambda>c. cs_id c = i) (map (\<lambda>c. if cs_id c = i then f c else c) xs) = map_option f (find (\<lambda>c. cs_id c = i) xs)"
    if "\<And>c. cs_id (f c) = cs_id c" for i f and xs :: "customer_row list" using that by (induction xs) auto
  then have "\<exists>c s1. upsertCustomer e164 name email (Some u) s = Inr (c, s1) \<and> \<not> cs_isBlocked c"
    using own(1) assms(4,5) by (simp add: upsertCustomer_def put_customer_def find_customer_def Let_def)
  ultimately show ?thesis by blast
qed

section \<open>Witnesses\<close>

theorem numbers_gapless_witness:
  "drawn C_order (fst (draws [C_order, C_invoice, C_order] open_front)) = [''CLO-0007'', ''CLO-0008'']"
proof -
  have c: "counter_of C_order (fr_counters open_front) = (''CLO-'', 7, 4)" by (simp add: counter_of_def open_front_def)
  have n: "padNo ''CLO-'' 7 4 = ''CLO-0007''" "padNo ''CLO-'' 8 4 = ''CLO-0008''" by code_simp+
  have "[7..<7 + count_list [C_order, C_invoice, C_order] C_order] = [7, 8]" by (simp add: upt_conv_Cons)
  then show ?thesis using numbers_gapless [OF c, of "[C_order, C_invoice, C_order]"] by (simp add: n)
qed

definition two_times :: "int \<Rightarrow> line_ref" where
  "two_times q = \<lparr>lr_kind = PRODUCT, lr_productId = Some ''p'', lr_bundleId = None, lr_quantity = q\<rparr>"

theorem merged_lines_witness:
  "\<exists>ms. mergeLines [two_times 2, two_times 3] = Inr ms \<and> (\<forall>m \<in> set ms. lr_quantity m = 5)"
proof -
  have "case mergeLines [two_times 2, two_times 3] of Inl e \<Rightarrow> False | Inr _ \<Rightarrow> True" by code_simp
  then obtain ms where m: "mergeLines [two_times 2, two_times 3] = Inr ms" by (auto split: sum.splits)
  have t: "target (two_times q) = (PRODUCT, ''p'')" "lr_quantity (two_times q) = q" for q by (simp_all add: two_times_def target_def str_of_def)
  have "lr_quantity x = 5" if "x \<in> set ms" for x
  proof -
    have "target x \<in> {(PRODUCT, ''p'')}" "lr_quantity x = sum_list (map lr_quantity (filter (\<lambda>l. target l = target x) [two_times 2, two_times 3]))"
      using merged_lines [of "[two_times 2, two_times 3]"] m that by (auto simp: t)
    then show ?thesis by (simp add: t)
  qed
  then show ?thesis using m by blast
qed

theorem placement_replayed_witness:
  "\<exists>rep evs s1. place exact_js ''h'' two_copies (web_guest ''key-0001'') False open_front = Inr (rep, evs, s1) \<and>
     place exact_js ''h'' two_copies (web_guest ''key-0001'') False s1 = Inr (\<lparr>rp_replayed = True, rp_code = 201, rp_body = rp_body rep\<rparr>, [], s1)"
proof -
  obtain body ev s1 where p: "place_in_tx exact_js two_copies (web_guest ''key-0001'') False (Some sample_key) open_front = Inr (body, ev, s1)"
    and now: "st_now s1 = 10" using sample_placed by blast
  have k: "place_key (web_guest ''key-0001'') False ''h'' = Inr (Some sample_key)" by code_simp
  have "find (\<lambda>r. ik_key r = ir_key sample_key) (fr_keys open_front) = None" by (simp add: open_front_def)
  then have first: "place exact_js ''h'' two_copies (web_guest ''key-0001'') False open_front = Inr (\<lparr>rp_replayed = False, rp_code = 201, rp_body = body\<rparr>, [ev], s1)"
    by (simp add: place_def k replay_of_def idem_lookup_def p)
  have "st_now s1 \<le> st_now open_front + IDEM_TTL" by (simp add: now IDEM_TTL_def open_front_def)
  from placement_replayed [OF first _ k refl this k refl, of two_copies] show ?thesis using first by simp
qed

end
