(* ===== verification/Delivery.thy ===== *)
theory Delivery
  imports Text Money
begin

text \<open>
  Delivery of the outbox (\<open>notifications/application/outbox-worker.service.ts\<close>,
  \<open>outbox-admin.service.ts\<close>), its retry policy (\<open>notifications/domain/backoff.ts\<close>), what the
  templates need (\<open>notifications/domain/templates.ts\<close>) and how the SMS gateway's answers are read
  (\<open>notifications/providers/providers.ts\<close>). The Bangla wording of the messages is an argument, and so
  is the transport below \<open>fetch\<close>.
\<close>

section \<open>Retry policy\<close>

record outbox_policy =
  op_maxAttempts :: int
  op_baseDelayMs :: int
  op_maxDelayMs :: int
  op_jitter :: rat
  op_stuckAfterMs :: int

definition OUTBOX_POLICY :: outbox_policy where
  "OUTBOX_POLICY = \<lparr>op_maxAttempts = 8, op_baseDelayMs = 30000, op_maxDelayMs = 6 * 3600000, op_jitter = 1 / 5,
     op_stuckAfterMs = 10 * 60000\<rparr>"

definition js_round :: "rat \<Rightarrow> int" where "js_round x = \<lfloor>x + 1 / 2\<rfloor>"

text \<open>The numbers are doubles: the sums and products that need not be whole are rounded by \<open>dbl\<close>.\<close>

definition backoffDelayMs :: "decimal_js \<Rightarrow> int \<Rightarrow> rat \<Rightarrow> int" where
  "backoffDelayMs J attempt random =
     (let exp = of_int (op_baseDelayMs OUTBOX_POLICY * 2 ^ nat (max 0 (attempt - 1)));
          capped = min exp (of_int (op_maxDelayMs OUTBOX_POLICY));
          factor = dbl J (1 + dbl J (dbl J (op_jitter OUTBOX_POLICY) * dbl J (random * 2 - 1)))
      in js_round (min (dbl J (capped * factor)) (of_int (op_maxDelayMs OUTBOX_POLICY))))"

datatype msg_status = Msg_PENDING | Msg_SENDING | Msg_SENT | Msg_FAILED | Msg_CANCELLED

datatype failure_decision = Give_up | Retry_at time

definition afterFailure :: "decimal_js \<Rightarrow> int \<Rightarrow> bool \<Rightarrow> time \<Rightarrow> rat option \<Rightarrow> failure_decision" where
  "afterFailure J attempts retryable now random =
     (if \<not> retryable \<or> attempts \<ge> op_maxAttempts OUTBOX_POLICY then Give_up
      else Retry_at (now + backoffDelayMs J attempts (case random of Some r \<Rightarrow> r | None \<Rightarrow> 1 / 2)))"

section \<open>Templates\<close>

text \<open>A payload is an object from keys to texts or \<open>null\<close>; anything else counts as empty.\<close>

type_synonym payload = "(string \<times> string option) list"

definition field :: "payload \<Rightarrow> string \<Rightarrow> string option" where
  "field p key = (case map_of p key of Some (Some v) \<Rightarrow> if v = '''' then None else Some v | _ \<Rightarrow> None)"

text \<open>The keys a template insists on, in the order it looks at them; \<open>None\<close> for an unknown template.\<close>

definition required_keys :: "string \<Rightarrow> string list option" where
  "required_keys template =
     (if template = ''order.placed'' then Some [''orderNo'', ''total'']
      else if template \<in> {''order.confirmed'', ''order.shipped'', ''order.delivered'', ''order.cancelled''} then Some [''orderNo'']
      else if template = ''auth.password_reset'' then Some [''code'']
      else if template = ''wishlist.restocked'' then Some [''title'', ''slug'']
      else if template = ''staff.invite'' then Some [''role'', ''email'', ''tempPassword'']
      else if template = ''staff.password_reset'' then Some [''tempPassword'']
      else None)"

datatype send_error = Template_error string | Provider_error bool | Other_error

definition render :: "(string \<Rightarrow> payload \<Rightarrow> string) \<Rightarrow> string \<Rightarrow> payload \<Rightarrow> send_error + string" where
  "render wording template p =
     (case required_keys template of
        None \<Rightarrow> Inl (Template_error template)
      | Some keys \<Rightarrow>
          (case find (\<lambda>k. field p k = None) keys of
             Some k \<Rightarrow> Inl (Template_error k)
           | None \<Rightarrow> Inr (wording template p)))"

definition SENSITIVE_KEYS :: "string list" where
  "SENSITIVE_KEYS = [''code'', ''tempPassword'', ''otp'']"

definition scrub :: "payload \<Rightarrow> payload" where
  "scrub p = map (\<lambda>(k, v). (k, if k \<in> set SENSITIVE_KEYS then Some ''[redacted]'' else v)) p"

section \<open>The SMS gateway's answer\<close>

definition toBdSmsNumber :: "jstr \<Rightarrow> string option" where
  "toBdSmsNumber input = map_option tl (normalizeBdPhone (Some input))"

definition classifyHttp :: "int \<Rightarrow> bool" where
  "classifyHttp status \<longleftrightarrow> status = 408 \<or> status = 429 \<or> status \<ge> 500"

text \<open>An answer: its status, and the code and message id in its JSON, if any.\<close>

record sms_answer =
  sa_status :: int
  sa_response_code :: "int option"
  sa_message_id :: "string option"

definition sms_send :: "(string \<Rightarrow> string \<Rightarrow> sms_answer option) \<Rightarrow> jstr \<Rightarrow> string \<Rightarrow> send_error + string option" where
  "sms_send fetch to_no text_s =
     (case toBdSmsNumber to_no of
        None \<Rightarrow> Inl (Provider_error False)
      | Some number \<Rightarrow>
          (case fetch number text_s of
             None \<Rightarrow> Inl (Provider_error True)
           | Some a \<Rightarrow>
               if \<not> (200 \<le> sa_status a \<and> sa_status a \<le> 299) then Inl (Provider_error (classifyHttp (sa_status a)))
               else
                 let code = (case sa_response_code a of Some c \<Rightarrow> c | None \<Rightarrow> 202)
                 in if code \<noteq> 202 then Inl (Provider_error (\<not> (1001 \<le> code \<and> code \<le> 1007)))
                    else Inr (sa_message_id a)))"

section \<open>The worker\<close>

datatype channel = SMS | EMAIL | OTHER_CHANNEL

record message =
  ms_id :: string
  ms_channel :: channel
  ms_recipient :: jstr
  ms_template :: string
  ms_payload :: payload
  ms_status :: msg_status
  ms_attempts :: int
  ms_nextAttemptAt :: time
  ms_providerRef :: "string option"
  ms_hasError :: bool

record mailroom =
  ml_now :: time
  ml_rows :: "message list"
  ml_log :: "(string \<times> bool) list"  \<comment> \<open>every attempt handed to a provider, and whether it was accepted\<close>

record transport =
  tr_sms :: "jstr \<Rightarrow> string \<Rightarrow> send_error + string option"
  tr_email :: "jstr \<Rightarrow> string \<Rightarrow> send_error + string option"

definition BATCH :: nat where "BATCH = 50"

definition send :: "transport \<Rightarrow> channel \<Rightarrow> jstr \<Rightarrow> string \<Rightarrow> send_error + string option" where
  "send T c to_no text_s = (case c of SMS \<Rightarrow> tr_sms T to_no text_s | EMAIL \<Rightarrow> tr_email T to_no text_s | OTHER_CHANNEL \<Rightarrow> Inl (Provider_error False))"

definition due_rows :: "mailroom \<Rightarrow> message list" where
  "due_rows s = sort_key ms_nextAttemptAt (filter (\<lambda>m. ms_status m \<in> {Msg_PENDING, Msg_SENDING} \<and> ms_nextAttemptAt m \<le> ml_now s) (ml_rows s))"

definition lease :: "time \<Rightarrow> message \<Rightarrow> message" where
  "lease now m = m\<lparr>ms_status := Msg_SENDING, ms_attempts := ms_attempts m + 1, ms_nextAttemptAt := now + op_stuckAfterMs OUTBOX_POLICY\<rparr>"

text \<open>The claiming statement: the rows as it returns them, and the table.\<close>

definition claim :: "nat \<Rightarrow> mailroom \<Rightarrow> message list \<times> mailroom" where
  "claim limit s =
     (let picked = take limit (due_rows s); ids = map ms_id picked
      in (map (lease (ml_now s)) picked,
          s\<lparr>ml_rows := map (\<lambda>m. if ms_id m \<in> set ids then lease (ml_now s) m else m) (ml_rows s)\<rparr>))"

definition update_sending :: "string \<Rightarrow> (message \<Rightarrow> message) \<Rightarrow> mailroom \<Rightarrow> mailroom" where
  "update_sending i f s = s\<lparr>ml_rows := map (\<lambda>m. if ms_id m = i \<and> ms_status m = Msg_SENDING then f m else m) (ml_rows s)\<rparr>"

definition write_failure :: "failure_decision \<Rightarrow> message \<Rightarrow> message" where
  "write_failure d m = (case d of
      Give_up \<Rightarrow> m\<lparr>ms_status := Msg_FAILED, ms_hasError := True\<rparr>
    | Retry_at t \<Rightarrow> m\<lparr>ms_status := Msg_PENDING, ms_nextAttemptAt := t, ms_hasError := True\<rparr>)"

definition retryable_error :: "send_error \<Rightarrow> bool" where
  "retryable_error e = (case e of Provider_error r \<Rightarrow> r | Template_error k \<Rightarrow> False | Other_error \<Rightarrow> True)"

definition deliver :: "decimal_js \<Rightarrow> (string \<Rightarrow> payload \<Rightarrow> string) \<Rightarrow> transport \<Rightarrow> message \<Rightarrow> mailroom \<Rightarrow> mailroom" where
  "deliver J wording T row s =
     (case render wording (ms_template row) (ms_payload row) of
        Inl e \<Rightarrow> update_sending (ms_id row) (write_failure (afterFailure J (ms_attempts row) (retryable_error e) (ml_now s) None)) s
      | Inr text_s \<Rightarrow>
          (case send T (ms_channel row) (ms_recipient row) text_s of
             Inr ref \<Rightarrow> update_sending (ms_id row) (\<lambda>m. m\<lparr>ms_status := Msg_SENT, ms_providerRef := ref, ms_hasError := False,
                            ms_payload := scrub (ms_payload row)\<rparr>) (s\<lparr>ml_log := ml_log s @ [(ms_id row, True)]\<rparr>)
           | Inl e \<Rightarrow> update_sending (ms_id row) (write_failure (afterFailure J (ms_attempts row) (retryable_error e) (ml_now s) None))
                        (s\<lparr>ml_log := ml_log s @ [(ms_id row, False)]\<rparr>)))"

definition runOnce :: "decimal_js \<Rightarrow> (string \<Rightarrow> payload \<Rightarrow> string) \<Rightarrow> transport \<Rightarrow> nat \<Rightarrow> mailroom \<Rightarrow> nat \<times> mailroom" where
  "runOnce J wording T limit s =
     (let (rows, s) = claim limit s in (length rows, fold (deliver J wording T) rows s))"

text \<open>The rounds of one tick that are left after \<open>rounds\<close>.\<close>

function rounds_from :: "decimal_js \<Rightarrow> (string \<Rightarrow> payload \<Rightarrow> string) \<Rightarrow> transport \<Rightarrow> nat \<Rightarrow> mailroom \<Rightarrow> mailroom" where
  "rounds_from J wording T rounds s =
     (let (n, s) = runOnce J wording T BATCH s; rounds = rounds + 1
      in if n = BATCH \<and> rounds < 10 then rounds_from J wording T rounds s else s)"
  by pat_completeness auto
termination by (relation "measure (\<lambda>(J, w, T, rounds, s). 10 - rounds)") auto

declare rounds_from.simps [simp del]

text \<open>One tick of the schedule; \<open>enabled\<close> and \<open>running\<close> are the flags of the process.\<close>

definition tick :: "decimal_js \<Rightarrow> (string \<Rightarrow> payload \<Rightarrow> string) \<Rightarrow> transport \<Rightarrow> bool \<Rightarrow> bool \<Rightarrow> mailroom \<Rightarrow> mailroom" where
  "tick J wording T enabled running s = (if \<not> enabled \<or> running then s else rounds_from J wording T 0 s)"

section \<open>Staff\<close>

definition retry_message :: "string \<Rightarrow> mailroom \<Rightarrow> mailroom result" where
  "retry_message i s =
     (case find (\<lambda>m. ms_id m = i) (ml_rows s) of
        None \<Rightarrow> Inl (NotFoundError ''OutboxMessage'' i)
      | Some r \<Rightarrow>
          if ms_status r \<noteq> Msg_FAILED \<and> ms_status r \<noteq> Msg_CANCELLED then Inl (BusinessRuleError ''outbox.not_retryable'')
          else Inr (s\<lparr>ml_rows := map (\<lambda>m. if ms_id m = i then m\<lparr>ms_status := Msg_PENDING, ms_attempts := 0, ms_nextAttemptAt := ml_now s,
                     ms_hasError := False\<rparr> else m) (ml_rows s)\<rparr>))"

definition cancel_message :: "string \<Rightarrow> mailroom \<Rightarrow> mailroom result" where
  "cancel_message i s =
     (if list_ex (\<lambda>m. ms_id m = i \<and> ms_status m = Msg_PENDING) (ml_rows s)
      then Inr (s\<lparr>ml_rows := map (\<lambda>m. if ms_id m = i \<and> ms_status m = Msg_PENDING then m\<lparr>ms_status := Msg_CANCELLED\<rparr> else m) (ml_rows s)\<rparr>)
      else Inl (BusinessRuleError ''outbox.not_cancellable''))"

end
