(* ===== verification/Delivery_Properties.thy ===== *)
theory Delivery_Properties
  imports Delivery
begin

text \<open>
  What the outbox worker promises: a message is accepted by a provider at most once and handed to
  one at most eight times between two commands of the staff, however ticks, crashes of the process
  and commands follow each other; and one tick empties the queue of what is due, up to ten batches.
\<close>

section \<open>The retry schedule\<close>

context decimal_laws
begin

lemma plain_backoff:
  "backoffDelayMs J n (1 / 2) = min (30000 * 2 ^ nat (max 0 (n - 1))) 21600000"
proof -
  let ?c = "min (30000 * 2 ^ nat (max 0 (n - 1))) 21600000 :: int"
  have zero: "dbl J (0 :: rat) = 0" and one: "dbl J (1 :: rat) = 1"
    using dbl_int [of 0] dbl_int [of 1] by simp_all
  have c: "dbl J (of_int ?c) = of_int ?c"
    by (rule dbl_int) (simp add: abs_if min_def)
  have "min (of_int (30000 * 2 ^ nat (max 0 (n - 1)))) (of_int 21600000) = (of_int ?c :: rat)"
    by (simp only: of_int_min)
  then show ?thesis
    using zero one c by (simp add: backoffDelayMs_def OUTBOX_POLICY_def js_round_def min.absorb1 flip: of_int_min)
qed

lemma retry_in_future: "afterFailure J n r now None = Retry_at t \<Longrightarrow> now < t \<and> n < 8"
  by (auto simp: afterFailure_def plain_backoff OUTBOX_POLICY_def split: if_splits)

end

section \<open>One delivery\<close>

text \<open>The row and the attempts that delivering a claimed row leaves.\<close>

definition outcome :: "decimal_js \<Rightarrow> (string \<Rightarrow> payload \<Rightarrow> string) \<Rightarrow> transport \<Rightarrow> time \<Rightarrow> message \<Rightarrow> message \<times> (string \<times> bool) list" where
  "outcome J wording T now r =
     (let lost = (\<lambda>e. write_failure (afterFailure J (ms_attempts r) (retryable_error e) now None) r)
      in case render wording (ms_template r) (ms_payload r) of
           Inl e \<Rightarrow> (lost e, [])
         | Inr t \<Rightarrow> (case send T (ms_channel r) (ms_recipient r) t of
             Inr ref \<Rightarrow> (r\<lparr>ms_status := Msg_SENT, ms_providerRef := ref, ms_hasError := False, ms_payload := scrub (ms_payload r)\<rparr>, [(ms_id r, True)])
           | Inl e \<Rightarrow> (lost e, [(ms_id r, False)])))"

lemma update_sending_row:
  assumes "distinct (map ms_id (ml_rows s))" "r \<in> set (ml_rows s)" "ms_status r = Msg_SENDING"
  shows "update_sending (ms_id r) f s = s\<lparr>ml_rows := map (\<lambda>m. if ms_id m = ms_id r then f r else m) (ml_rows s)\<rparr>"
proof -
  have "\<And>m. m \<in> set (ml_rows s) \<Longrightarrow> ms_id m = ms_id r \<Longrightarrow> m = r"
    using assms(1,2) by (auto simp: distinct_map inj_on_def)
  then have "map (\<lambda>m. if ms_id m = ms_id r \<and> ms_status m = Msg_SENDING then f m else m) (ml_rows s)
      = map (\<lambda>m. if ms_id m = ms_id r then f r else m) (ml_rows s)"
    using assms(3) by (intro map_cong refl if_cong) auto
  then show ?thesis unfolding update_sending_def by (rule arg_cong [where f = "\<lambda>l. s\<lparr>ml_rows := l\<rparr>"])
qed

lemma deliver_outcome:
  assumes "distinct (map ms_id (ml_rows s))" "r \<in> set (ml_rows s)" "ms_status r = Msg_SENDING"
  shows "deliver J w T r s =
    s\<lparr>ml_rows := map (\<lambda>m. if ms_id m = ms_id r then fst (outcome J w T (ml_now s) r) else m) (ml_rows s),
      ml_log := ml_log s @ snd (outcome J w T (ml_now s) r)\<rparr>"
  using assms by (simp add: deliver_def outcome_def update_sending_row Let_def split: sum.split)

lemma outcome_cases:
  obtains (accepted) "snd (outcome J w T now r) = [(ms_id r, True)]" "ms_status (fst (outcome J w T now r)) = Msg_SENT"
  | (given_up) hs where "snd (outcome J w T now r) = hs" "hs \<in> {[], [(ms_id r, False)]}" "ms_status (fst (outcome J w T now r)) = Msg_FAILED"
  | (later) hs t e where "snd (outcome J w T now r) = hs" "hs \<in> {[], [(ms_id r, False)]}" "ms_status (fst (outcome J w T now r)) = Msg_PENDING"
      "ms_nextAttemptAt (fst (outcome J w T now r)) = t" "afterFailure J (ms_attempts r) (retryable_error e) now None = Retry_at t"
proof (cases "render w (ms_template r) (ms_payload r)")
  case (Inl e)
  show thesis
    by (cases "afterFailure J (ms_attempts r) (retryable_error e) now None")
      (use given_up [of "[]"] later [of "[]" _ e] Inl in \<open>simp_all add: outcome_def write_failure_def\<close>)
next
  case t: (Inr t)
  show thesis
  proof (cases "send T (ms_channel r) (ms_recipient r) t")
    case (Inl e)
    show thesis
      by (cases "afterFailure J (ms_attempts r) (retryable_error e) now None")
        (use given_up [of "[(ms_id r, False)]"] later [of "[(ms_id r, False)]" _ e] Inl t in \<open>simp_all add: outcome_def write_failure_def\<close>)
  next
    case (Inr ref)
    with t accepted show thesis by (simp add: outcome_def)
  qed
qed

lemma outcome_same_row [simp]:
  "ms_id (fst (outcome J w T now r)) = ms_id r" "ms_attempts (fst (outcome J w T now r)) = ms_attempts r"
  by (auto simp: outcome_def write_failure_def Let_def split: failure_decision.split sum.split)

section \<open>One batch\<close>

lemma due_rows_set: "m \<in> set (due_rows s) \<longleftrightarrow> m \<in> set (ml_rows s) \<and> ms_status m \<in> {Msg_PENDING, Msg_SENDING} \<and> ms_nextAttemptAt m \<le> ml_now s"
  by (auto simp: due_rows_def)

lemma due_rows_ids: "distinct (map ms_id (ml_rows s)) \<Longrightarrow> distinct (map ms_id (due_rows s))"
  by (simp add: due_rows_def distinct_map inj_on_def)

text \<open>Claimed rows are delivered one after the other, each in its own place of the table.\<close>

lemma deliver_rows:
  assumes "distinct (map ms_id (ml_rows s))" "distinct (map ms_id rows)"
    and "\<forall>r \<in> set rows. r \<in> set (ml_rows s) \<and> ms_status r = Msg_SENDING"
  shows "fold (deliver J w T) rows s =
    s\<lparr>ml_rows := map (\<lambda>m. if m \<in> set rows then fst (outcome J w T (ml_now s) m) else m) (ml_rows s),
      ml_log := ml_log s @ concat (map (\<lambda>r. snd (outcome J w T (ml_now s) r)) rows)\<rparr>"
  using assms
proof (induction rows arbitrary: s)
  case Nil
  then show ?case by simp
next
  case (Cons r rows)
  let ?o = "outcome J w T (ml_now s)"
  let ?g = "\<lambda>m. if ms_id m = ms_id r then fst (?o r) else m"
  let ?s = "s\<lparr>ml_rows := map ?g (ml_rows s), ml_log := ml_log s @ snd (?o r)\<rparr>"
  have r: "deliver J w T r s = ?s" using Cons.prems by (simp add: deliver_outcome)
  have ids: "map ms_id (ml_rows ?s) = map ms_id (ml_rows s)" by simp
  have same: "\<And>m. m \<in> set (ml_rows s) \<Longrightarrow> ms_id m = ms_id r \<Longrightarrow> m = r"
    using Cons.prems by (auto simp: distinct_map inj_on_def)
  have others: "\<And>q. q \<in> set rows \<Longrightarrow> ms_id q \<noteq> ms_id r" using Cons.prems(2) by (auto simp: image_iff)
  have kept: "\<forall>q \<in> set rows. q \<in> set (ml_rows ?s) \<and> ms_status q = Msg_SENDING"
    using Cons.prems(3) others by force
  have d: "distinct (map ms_id (ml_rows ?s))" unfolding ids using Cons.prems(1) .
  have rest: "fold (deliver J w T) rows ?s =
    ?s\<lparr>ml_rows := map (\<lambda>m. if m \<in> set rows then fst (?o m) else m) (ml_rows ?s),
       ml_log := ml_log ?s @ concat (map (\<lambda>r. snd (?o r)) rows)\<rparr>"
    using Cons.IH [OF d _ kept] Cons.prems(2) by simp
  have notin: "fst (?o r) \<notin> set rows" using others [of "fst (?o r)"] by auto
  have "r \<in> set (ml_rows s)" using Cons.prems(3) by simp
  have "map (\<lambda>m. if m \<in> set rows then fst (?o m) else m) (map ?g (ml_rows s)) =
        map (\<lambda>m. if m \<in> set (r # rows) then fst (?o m) else m) (ml_rows s)"
    using notin others same by (auto split: if_splits)
  with r rest show ?case by simp
qed

text \<open>What one batch does to the rows: the first due rows are claimed and delivered.\<close>

definition handled :: "time \<Rightarrow> message \<Rightarrow> message \<Rightarrow> bool" where
  "handled now m m' \<longleftrightarrow> ms_id m' = ms_id m \<and> ms_attempts m' = ms_attempts m + 1 \<and>
     (ms_status m' \<in> {Msg_SENT, Msg_FAILED} \<or> ms_status m' = Msg_PENDING \<and> now < ms_nextAttemptAt m')"

lemma leased [simp]:
  "ms_id (lease now m) = ms_id m" "ms_status (lease now m) = Msg_SENDING" "ms_attempts (lease now m) = ms_attempts m + 1"
  by (simp_all add: lease_def)

lemma claim_sel:
  "fst (claim n s) = map (lease (ml_now s)) (take n (due_rows s))"
  "ml_now (snd (claim n s)) = ml_now s" "ml_log (snd (claim n s)) = ml_log s"
  by (simp_all add: claim_def Let_def)

lemma same_row: "distinct (map ms_id rows) \<Longrightarrow> a \<in> set rows \<Longrightarrow> b \<in> set rows \<Longrightarrow> ms_id a = ms_id b \<Longrightarrow> a = b"
  by (auto simp: distinct_map dest: inj_onD)

lemma picked_row: "m \<in> set (take n (due_rows s)) \<Longrightarrow> m \<in> set (ml_rows s)"
  using set_take_subset [of n "due_rows s"] by (auto simp: due_rows_set)

lemma claim_rows:
  assumes "distinct (map ms_id (ml_rows s))"
  shows "ml_rows (snd (claim n s)) = map (\<lambda>m. if m \<in> set (take n (due_rows s)) then lease (ml_now s) m else m) (ml_rows s)"
proof -
  have "ms_id m \<in> set (map ms_id (take n (due_rows s))) \<longleftrightarrow> m \<in> set (take n (due_rows s))" if "m \<in> set (ml_rows s)" for m
    using same_row [OF assms that] picked_row [of _ n s] by (metis (no_types, lifting) image_iff list.set_map)
  then show ?thesis unfolding claim_def Let_def by (simp cong: map_cong)
qed

lemma claimed_rows:
  assumes "distinct (map ms_id (ml_rows s))"
  shows "distinct (map ms_id (ml_rows (snd (claim n s))))" "distinct (map ms_id (fst (claim n s)))"
    "\<forall>r \<in> set (fst (claim n s)). r \<in> set (ml_rows (snd (claim n s))) \<and> ms_status r = Msg_SENDING"
proof -
  have "map ms_id (ml_rows (snd (claim n s))) = map ms_id (ml_rows s)"
    by (simp add: claim_rows [OF assms])
  then show "distinct (map ms_id (ml_rows (snd (claim n s))))" using assms by (simp only:)
  have "map ms_id (fst (claim n s)) = take n (map ms_id (due_rows s))"
    by (simp add: claim_sel take_map comp_def)
  then show "distinct (map ms_id (fst (claim n s)))" using due_rows_ids [OF assms] by simp
  show "\<forall>r \<in> set (fst (claim n s)). r \<in> set (ml_rows (snd (claim n s))) \<and> ms_status r = Msg_SENDING"
    using picked_row [of _ n s] by (auto simp: claim_rows [OF assms] claim_sel)
qed

lemma outcome_handled:
  assumes "decimal_laws J"
  shows "handled now m (fst (outcome J w T now (lease now m)))"
  by (rule outcome_cases [of J w T now "lease now m"])
    (use decimal_laws.retry_in_future [OF assms] in \<open>auto simp: handled_def\<close>)

lemma outcome_log: "length (snd (outcome J w T now r)) \<le> 1"
  by (rule outcome_cases [of J w T now r]) auto

definition drained :: "message list \<Rightarrow> mailroom \<Rightarrow> mailroom \<Rightarrow> bool" where
  "drained ds s s' \<longleftrightarrow> ml_now s' = ml_now s \<and> length (ml_log s') \<le> length (ml_log s) + length ds \<and>
     (\<exists>g. ml_rows s' = map g (ml_rows s) \<and> (\<forall>m \<in> set (ml_rows s). if m \<in> set ds then handled (ml_now s) m (g m) else g m = m))"

lemma runOnce_drained:
  assumes J: "decimal_laws J" and d: "distinct (map ms_id (ml_rows s))"
  shows "fst (runOnce J w T n s) = min n (length (due_rows s))" "drained (take n (due_rows s)) s (snd (runOnce J w T n s))"
proof -
  let ?c = "claim n s" and ?D = "take n (due_rows s)"
  let ?o = "outcome J w T (ml_now s)"
  show "fst (runOnce J w T n s) = min n (length (due_rows s))"
    by (simp add: runOnce_def split_beta claim_sel)
  have r: "snd (runOnce J w T n s) = fold (deliver J w T) (fst ?c) (snd ?c)"
    by (simp add: runOnce_def split_beta)
  note f = deliver_rows [OF claimed_rows [OF d], of J w T n]
  let ?l = "\<lambda>m. if m \<in> set ?D then lease (ml_now s) m else m"
  let ?g = "\<lambda>m. if ?l m \<in> set (fst ?c) then fst (?o (?l m)) else ?l m"
  have rows: "ml_rows (snd (runOnce J w T n s)) = map ?g (ml_rows s)"
    unfolding r f by (simp add: claim_rows [OF d] claim_sel)
  have g: "if m \<in> set ?D then handled (ml_now s) m (?g m) else ?g m = m" if m: "m \<in> set (ml_rows s)" for m
  proof (cases "m \<in> set ?D")
    case True
    then have "?l m \<in> set (fst ?c)" by (simp add: claim_sel)
    with True outcome_handled [OF J, of "ml_now s" m w T] show ?thesis by simp
  next
    case False
    have "m \<notin> set (fst ?c)"
    proof
      assume "m \<in> set (fst ?c)"
      then obtain q where q: "q \<in> set ?D" "m = lease (ml_now s) q" by (auto simp: claim_sel)
      have "ms_id q = ms_id m" using q(2) by simp
      then have "q = m" by (rule same_row [OF d picked_row [OF q(1)] m])
      with q(1) False show False by (simp only:)
    qed
    with False show ?thesis by simp
  qed
  have "length (concat (map (\<lambda>r. snd (?o r)) rs)) \<le> length rs" for rs
  proof (induction rs)
    case Nil
    then show ?case by simp
  next
    case (Cons r rs)
    with outcome_log [of J w T "ml_now s" r] show ?case by simp
  qed
  from this [of "fst ?c"] have "length (ml_log (snd (runOnce J w T n s))) \<le> length (ml_log s) + length ?D"
    unfolding r f by (simp add: claim_sel)
  moreover have "ml_now (snd (runOnce J w T n s)) = ml_now s" unfolding r f by (simp add: claim_sel)
  ultimately show "drained ?D s (snd (runOnce J w T n s))"
    unfolding drained_def using rows g by blast
qed

section \<open>One tick\<close>

lemma handled_not_due: "handled (ml_now s) m m' \<Longrightarrow> ml_now s' = ml_now s \<Longrightarrow> m' \<notin> set (due_rows s')"
  by (auto simp: handled_def due_rows_set)

lemma drained_ids: "drained ds s s' \<Longrightarrow> map ms_id (ml_rows s') = map ms_id (ml_rows s)"
  unfolding drained_def by (auto simp: handled_def split: if_splits)

lemma filter_drop: "distinct xs \<Longrightarrow> filter (\<lambda>x. x \<notin> set (take n xs)) xs = drop n xs"
proof -
  assume "distinct xs"
  then have d: "distinct (take n xs @ drop n xs)" by simp
  let ?P = "\<lambda>x. x \<notin> set (take n xs)"
  have "filter ?P xs = filter ?P (take n xs) @ filter ?P (drop n xs)"
    by (metis append_take_drop_id filter_append)
  moreover have "filter ?P (take n xs) = []" by (simp add: filter_empty_conv)
  moreover have "set (take n xs) \<inter> set (drop n xs) = {}" using d by (simp only: distinct_append)
  then have "filter ?P (drop n xs) = drop n xs" by (auto simp: filter_id_conv)
  ultimately show ?thesis by simp
qed

lemma drained_due:
  assumes "distinct (map ms_id (ml_rows s))" "drained (take n (due_rows s)) s s'"
  shows "due_rows s' = drop n (due_rows s)"
proof -
  let ?D = "set (take n (due_rows s))"
  let ?due = "\<lambda>m. ms_status m \<in> {Msg_PENDING, Msg_SENDING} \<and> ms_nextAttemptAt m \<le> ml_now s"
  obtain g where now: "ml_now s' = ml_now s" and g: "ml_rows s' = map g (ml_rows s)"
    "\<And>m. m \<in> set (ml_rows s) \<Longrightarrow> m \<in> ?D \<Longrightarrow> handled (ml_now s) m (g m)"
    "\<And>m. m \<in> set (ml_rows s) \<Longrightarrow> m \<notin> ?D \<Longrightarrow> g m = m"
    using assms(2) unfolding drained_def by (metis (no_types, lifting))
  have "?due (g m) \<longleftrightarrow> ?due m \<and> m \<notin> ?D" if "m \<in> set (ml_rows s)" for m
    using g(2,3) [OF that] by (cases "m \<in> ?D") (auto simp: handled_def)
  then have "filter (\<lambda>m. ?due (g m)) (ml_rows s) = filter (\<lambda>m. m \<notin> ?D) (filter ?due (ml_rows s))"
    by (simp cong: filter_cong add: conj_commute)
  moreover have "map g (filter (\<lambda>m. m \<notin> ?D) (filter ?due (ml_rows s))) = filter (\<lambda>m. m \<notin> ?D) (filter ?due (ml_rows s))"
    by (rule map_idI) (use g(3) in auto)
  ultimately have "filter ?due (ml_rows s') = filter (\<lambda>m. m \<notin> ?D) (filter ?due (ml_rows s))"
    by (simp add: g(1) filter_map comp_def)
  then have "due_rows s' = filter (\<lambda>m. m \<notin> ?D) (due_rows s)"
    by (simp add: due_rows_def now flip: filter_sort)
  also have "\<dots> = drop n (due_rows s)"
    by (rule filter_drop) (use due_rows_ids [OF assms(1)] in \<open>simp add: distinct_map\<close>)
  finally show ?thesis .
qed

lemma drained_trans:
  assumes a: "drained d1 s s1" and b: "drained d2 s1 s2" and due: "set d2 \<subseteq> set (due_rows s1)"
    and apart: "set d1 \<inter> set d2 = {}"
  shows "drained (d1 @ d2) s s2"
proof -
  obtain g1 g2 where g: "ml_rows s1 = map g1 (ml_rows s)" "ml_rows s2 = map g2 (ml_rows s1)"
    and g1: "\<And>m. m \<in> set (ml_rows s) \<Longrightarrow> if m \<in> set d1 then handled (ml_now s) m (g1 m) else g1 m = m"
    and g2: "\<And>m. m \<in> set (ml_rows s1) \<Longrightarrow> if m \<in> set d2 then handled (ml_now s1) m (g2 m) else g2 m = m"
    using a b unfolding drained_def by (metis (no_types, lifting))
  have now: "ml_now s1 = ml_now s" "ml_now s2 = ml_now s1" using a b by (simp_all add: drained_def)
  have "if m \<in> set (d1 @ d2) then handled (ml_now s) m (g2 (g1 m)) else g2 (g1 m) = m" if m: "m \<in> set (ml_rows s)" for m
  proof (cases "m \<in> set d1")
    case True
    then have h: "handled (ml_now s) m (g1 m)" using g1 [OF m] by simp
    then have "g1 m \<notin> set d2" using due handled_not_due [OF h now(1)] by blast
    with g2 [of "g1 m"] m h True show ?thesis by (simp add: g(1))
  next
    case False
    then have "g1 m = m" using g1 [OF m] by simp
    moreover have "m \<in> set (ml_rows s1)" using \<open>g1 m = m\<close> m by (simp add: g(1) rev_image_eqI)
    ultimately show ?thesis using g2 [of m] False now(1) by (auto split: if_splits)
  qed
  moreover have "ml_rows s2 = map (g2 \<circ> g1) (ml_rows s)" by (simp add: g)
  moreover have "length (ml_log s2) \<le> length (ml_log s) + length (d1 @ d2)"
    using a b by (simp add: drained_def)
  ultimately show ?thesis using now unfolding drained_def comp_def by (metis (no_types, lifting))
qed

lemma rounds_drained:
  assumes J: "decimal_laws J"
  shows "distinct (map ms_id (ml_rows s)) \<Longrightarrow> r < 10 \<Longrightarrow> drained (take (50 * (10 - r)) (due_rows s)) s (rounds_from J w T r s)"
proof (induction "9 - r" arbitrary: r s)
  case 0
  then have "r = 9" by simp
  with runOnce_drained(2) [OF J 0(2), where w = w and T = T and n = BATCH] show ?case
    by (simp add: rounds_from.simps [of J w T 9 s] split_beta BATCH_def)
next
  case (Suc k)
  let ?L = "due_rows s" and ?s1 = "snd (runOnce J w T BATCH s)"
  note one = runOnce_drained [OF J Suc.prems(1), where w = w and T = T and n = BATCH]
  have b: "BATCH = 50" by (simp add: BATCH_def)
  have due1: "due_rows ?s1 = drop 50 ?L" using drained_due [OF Suc.prems(1) one(2)] b by simp
  show ?case
  proof (cases "50 \<le> length ?L")
    case True
    then have go: "rounds_from J w T r s = rounds_from J w T (r + 1) ?s1"
      using Suc(2) one(1) b by (subst rounds_from.simps) (simp add: split_beta)
    have d1: "distinct (map ms_id (ml_rows ?s1))" using Suc.prems(1) drained_ids [OF one(2)] by simp
    let ?k = "50 * (10 - (r + 1))"
    have rest: "drained (take ?k (due_rows ?s1)) ?s1 (rounds_from J w T (r + 1) ?s1)"
      using Suc(1) [of "r + 1", OF _ d1] Suc(2) by simp
    have "distinct ?L" using due_rows_ids [OF Suc.prems(1)] by (simp add: distinct_map)
    then have apart: "set (take 50 ?L) \<inter> set (take ?k (drop 50 ?L)) = {}"
      using set_take_subset [of ?k "drop 50 ?L"] set_take_disj_set_drop_if_distinct [of ?L 50 50] by blast
    have "drained (take 50 ?L @ take ?k (drop 50 ?L)) s (rounds_from J w T (r + 1) ?s1)"
    proof (rule drained_trans)
      show "drained (take 50 ?L) s ?s1" using one(2) unfolding b .
      show "drained (take ?k (drop 50 ?L)) ?s1 (rounds_from J w T (r + 1) ?s1)" using rest unfolding due1 .
      show "set (take ?k (drop 50 ?L)) \<subseteq> set (due_rows ?s1)" unfolding due1 by (rule set_take_subset)
    qed (rule apart)
    moreover have "50 * (10 - r) = 50 + ?k" using Suc(2) by simp
    ultimately show ?thesis by (simp only: go take_add)
  next
    case False
    then have stop: "rounds_from J w T r s = ?s1"
      using one(1) b by (subst rounds_from.simps) (simp add: split_beta)
    have "50 * (10 - r) = 50 + 50 * (9 - r)" using Suc(2) by simp
    then have "take (50 * (10 - r)) ?L = take BATCH ?L" using False unfolding b by simp
    with stop one(2) show ?thesis by simp
  qed
qed

text \<open>
  C22. A tick of the worker always ends, after at most ten batches: it claims the first five hundred
  due messages, oldest first, hands each to a provider at most once, and leaves each of them sent,
  failed, or pending for a later instant, with one more attempt on its count; no other message is
  touched, and what is due afterwards is exactly what the limit left over.
\<close>

theorem tick_drains:
  assumes "decimal_laws J" "distinct (map ms_id (ml_rows s))"
  shows "due_rows (tick J wording T True False s) = drop 500 (due_rows s) \<and>
    drained (take 500 (due_rows s)) s (tick J wording T True False s)"
proof -
  have "50 * (10 - 0) = (500 :: nat)" by simp
  with rounds_drained [OF assms, of 0 wording T] have "drained (take 500 (due_rows s)) s (rounds_from J wording T 0 s)"
    by (simp only:)
  with drained_due [OF assms(2) this] show ?thesis by (simp only: tick_def simp_thms if_False)
qed

section \<open>Runs of the worker\<close>

definition handed :: "mailroom \<Rightarrow> string \<Rightarrow> nat" where
  "handed s i = length (filter (\<lambda>h. fst h = i) (ml_log s))"

definition accepted :: "mailroom \<Rightarrow> string \<Rightarrow> nat" where
  "accepted s i = length (filter (\<lambda>h. h = (i, True)) (ml_log s))"

text \<open>
  What can happen to the table: a process claims a batch and delivers the first \<open>k\<close> of its rows (all
  of them, or it dies in between), time passes, a message is queued, the staff retries or cancels one.
  The second component remembers the messages the staff put back.
\<close>

inductive mail_step ::
  "decimal_js \<Rightarrow> (string \<Rightarrow> payload \<Rightarrow> string) \<Rightarrow> transport \<Rightarrow> mailroom \<times> string list \<Rightarrow> mailroom \<times> string list \<Rightarrow> bool"
  for J w T where
  batch: "mail_step J w T (s, rs) (fold (deliver J w T) (take k (fst (claim n s))) (snd (claim n s)), rs)"
| wait: "ml_now s \<le> t \<Longrightarrow> mail_step J w T (s, rs) (s\<lparr>ml_now := t\<rparr>, rs)"
| queue: "ms_id m \<notin> ms_id ` set (ml_rows s) \<Longrightarrow> ms_status m = Msg_PENDING \<Longrightarrow> ms_attempts m = 0 \<Longrightarrow>
    mail_step J w T (s, rs) (s\<lparr>ml_rows := ml_rows s @ [m]\<rparr>, rs)"
| retry: "retry_message i s = Inr s' \<Longrightarrow> mail_step J w T (s, rs) (s', i # rs)"
| cancel: "cancel_message i s = Inr s' \<Longrightarrow> mail_step J w T (s, rs) (s', rs)"

inductive mail_run ::
  "decimal_js \<Rightarrow> (string \<Rightarrow> payload \<Rightarrow> string) \<Rightarrow> transport \<Rightarrow> mailroom \<times> string list \<Rightarrow> mailroom \<times> string list \<Rightarrow> bool"
  for J w T where
  stop: "mail_run J w T x x"
| step: "mail_run J w T x y \<Longrightarrow> mail_step J w T y z \<Longrightarrow> mail_run J w T x z"

text \<open>The attempts a status leaves room for.\<close>

definition spent :: "message \<Rightarrow> nat" where
  "spent m = (case ms_status m of Msg_PENDING \<Rightarrow> nat (ms_attempts m) | Msg_SENDING \<Rightarrow> nat (min (ms_attempts m - 1) 7) | _ \<Rightarrow> 8)"

definition row_ok :: "mailroom \<Rightarrow> string list \<Rightarrow> message \<Rightarrow> bool" where
  "row_ok s rs m \<longleftrightarrow> accepted s (ms_id m) = (if ms_status m = Msg_SENT then 1 else 0) \<and>
     handed s (ms_id m) \<le> 8 * count_list rs (ms_id m) + spent m \<and>
     (ms_status m = Msg_PENDING \<longrightarrow> 0 \<le> ms_attempts m \<and> ms_attempts m < 8) \<and> (ms_status m = Msg_SENDING \<longrightarrow> 1 \<le> ms_attempts m)"

definition box_ok :: "mailroom \<Rightarrow> string list \<Rightarrow> bool" where
  "box_ok s rs \<longleftrightarrow> distinct (map ms_id (ml_rows s)) \<and> fst ` set (ml_log s) \<subseteq> ms_id ` set (ml_rows s) \<and> (\<forall>m \<in> set (ml_rows s). row_ok s rs m)"

lemma row_ok_log: "row_ok s rs m \<Longrightarrow> ml_log s' = ml_log s \<Longrightarrow> row_ok s' rs m"
  by (simp add: row_ok_def handed_def accepted_def)

lemma box_okI:
  assumes "box_ok s rs" "ml_log s' = ml_log s" "ml_rows s' = map g (ml_rows s)"
    and "\<And>m. m \<in> set (ml_rows s) \<Longrightarrow> row_ok s rs m \<Longrightarrow> ms_id (g m) = ms_id m \<and> row_ok s rs' (g m)"
  shows "box_ok s' rs'"
proof -
  have "map ms_id (ml_rows s') = map ms_id (ml_rows s)" using assms by (simp add: box_ok_def)
  then have "distinct (map ms_id (ml_rows s'))" "ms_id ` set (ml_rows s') = ms_id ` set (ml_rows s)"
    using assms(1) by (simp add: box_ok_def, metis set_map)
  moreover have "row_ok s' rs' m" if "m \<in> set (ml_rows s')" for m
    using that assms row_ok_log [of s rs' m s'] by (auto simp: box_ok_def)
  ultimately show ?thesis using assms(1,2) by (simp add: box_ok_def)
qed

lemma deliver_box:
  assumes ok: "box_ok s rs" and r: "r \<in> set (ml_rows s)" "ms_status r = Msg_SENDING"
  shows "box_ok (deliver J w T r s) rs"
proof -
  let ?o = "outcome J w T (ml_now s) r"
  let ?s = "deliver J w T r s"
  have d: "distinct (map ms_id (ml_rows s))" using ok by (simp add: box_ok_def)
  note s = deliver_outcome [OF d r, of J w T]
  have ids: "map ms_id (ml_rows ?s) = map ms_id (ml_rows s)" by (simp add: s)
  have log: "ml_log ?s = ml_log s @ snd ?o" by (simp add: s)
  have hd: "fst ` set (snd ?o) \<subseteq> {ms_id r}" by (rule outcome_cases [of J w T "ml_now s" r]) auto
  have "row_ok s rs r" using ok r by (simp add: box_ok_def)
  then have r_ok: "accepted s (ms_id r) = 0" "handed s (ms_id r) \<le> 8 * count_list rs (ms_id r) + nat (min (ms_attempts r - 1) 7)" "1 \<le> ms_attempts r"
    using r(2) by (simp_all add: row_ok_def spent_def)
  have new: "row_ok ?s rs (fst ?o)"
  proof (rule outcome_cases [of J w T "ml_now s" r])
    assume o: "snd ?o = [(ms_id r, True)]" "ms_status (fst ?o) = Msg_SENT"
    show ?thesis using r_ok by (simp add: row_ok_def o accepted_def handed_def log spent_def)
  next
    fix hs assume o: "snd ?o = hs" "hs \<in> {[], [(ms_id r, False)]}" "ms_status (fst ?o) = Msg_FAILED"
    then show ?thesis using r_ok by (auto simp: row_ok_def o accepted_def handed_def log spent_def)
  next
    fix hs t e
    assume o: "snd ?o = hs" "hs \<in> {[], [(ms_id r, False)]}" "ms_status (fst ?o) = Msg_PENDING"
      "afterFailure J (ms_attempts r) (retryable_error e) (ml_now s) None = Retry_at t"
    then have "ms_attempts r < 8" by (auto simp: afterFailure_def OUTBOX_POLICY_def split: if_splits)
    with o show ?thesis using r_ok by (auto simp: row_ok_def accepted_def handed_def log spent_def)
  qed
  have old: "row_ok ?s rs m" if "m \<in> set (ml_rows s)" "ms_id m \<noteq> ms_id r" for m
  proof -
    have "filter (\<lambda>h. fst h = ms_id m) (snd ?o) = []" "filter (\<lambda>h. h = (ms_id m, True)) (snd ?o) = []"
      using hd that(2) by (auto simp: filter_empty_conv)
    with that(1) ok show ?thesis by (auto simp: box_ok_def row_ok_def accepted_def handed_def log)
  qed
  have "row_ok ?s rs m" if "m \<in> set (ml_rows ?s)" for m
    using that new old by (auto simp: s split: if_splits)
  moreover have "fst ` set (ml_log ?s) \<subseteq> ms_id ` set (ml_rows ?s)"
  proof -
    have "ms_id ` set (ml_rows ?s) = ms_id ` set (ml_rows s)" using arg_cong [OF ids, of set] by simp
    with ok hd r(1) show ?thesis by (auto simp: box_ok_def log)
  qed
  ultimately show ?thesis using d ids by (simp add: box_ok_def)
qed

lemma mail_step_box: "mail_step J w T x y \<Longrightarrow> box_ok (fst x) (snd x) \<Longrightarrow> box_ok (fst y) (snd y)"
proof (induction rule: mail_step.induct)
  case (batch s rs k n)
  then have ok: "box_ok s rs" by simp
  then have d: "distinct (map ms_id (ml_rows s))" by (simp add: box_ok_def)
  have claimed: "box_ok (snd (claim n s)) rs"
  proof (rule box_okI [OF ok claim_sel(3) claim_rows [OF d]])
    fix m assume m: "m \<in> set (ml_rows s)" "row_ok s rs m"
    have "m \<in> set (take n (due_rows s)) \<Longrightarrow> ms_status m \<in> {Msg_PENDING, Msg_SENDING}"
      using set_take_subset [of n "due_rows s"] by (auto simp: due_rows_set)
    with m(2) show "ms_id (if m \<in> set (take n (due_rows s)) then lease (ml_now s) m else m) = ms_id m \<and>
        row_ok s rs (if m \<in> set (take n (due_rows s)) then lease (ml_now s) m else m)"
      by (auto simp: row_ok_def spent_def)
  qed
  have "box_ok (fold (deliver J w T) qs t) rs"
    if "box_ok t rs" "distinct (map ms_id qs)" "\<forall>r \<in> set qs. r \<in> set (ml_rows t) \<and> ms_status r = Msg_SENDING" for qs t
    using that
  proof (induction qs arbitrary: t)
    case (Cons r qs)
    let ?t = "deliver J w T r t"
    have "distinct (map ms_id (ml_rows t))" using Cons.prems(1) by (simp add: box_ok_def)
    then have "ml_rows ?t = map (\<lambda>m. if ms_id m = ms_id r then fst (outcome J w T (ml_now t) r) else m) (ml_rows t)"
      using Cons.prems(3) by (simp add: deliver_outcome)
    moreover have "\<And>q. q \<in> set qs \<Longrightarrow> ms_id q \<noteq> ms_id r" using Cons.prems(2) by (auto simp: image_iff)
    ultimately have "\<forall>q \<in> set qs. q \<in> set (ml_rows ?t) \<and> ms_status q = Msg_SENDING" using Cons.prems(3) by force
    with Cons.IH [of ?t] Cons.prems deliver_box [of t rs r J w T] show ?case by simp
  qed simp
  from this [OF claimed, of "take k (fst (claim n s))"] claimed_rows [OF d, of n] show ?case
    by (auto simp: distinct_take simp flip: take_map dest: in_set_takeD)
next
  case (wait s t rs)
  then show ?case using box_okI [of s rs "s\<lparr>ml_now := t\<rparr>" id rs] by simp
next
  case (queue m s rs)
  then have ok: "box_ok s rs" by simp
  let ?s = "s\<lparr>ml_rows := ml_rows s @ [m]\<rparr>"
  have "\<And>h. h \<in> set (ml_log s) \<Longrightarrow> fst h \<noteq> ms_id m" using queue(1) ok by (auto simp: box_ok_def)
  then have "filter (\<lambda>h. fst h = ms_id m) (ml_log s) = []" "filter (\<lambda>h. h = (ms_id m, True)) (ml_log s) = []"
    unfolding filter_empty_conv by force+
  then have "row_ok ?s rs m" using queue(2,3) by (simp add: row_ok_def accepted_def handed_def)
  moreover have "\<And>q. row_ok s rs q \<Longrightarrow> row_ok ?s rs q" by (rule row_ok_log) simp_all
  moreover have "distinct (map ms_id (ml_rows ?s))" using ok queue(1) by (simp add: box_ok_def)
  ultimately have "box_ok ?s rs" using ok unfolding box_ok_def by auto
  then show ?case by simp
next
  case (retry i s s' rs)
  then have ok: "box_ok s rs" by simp
  obtain r where r: "r \<in> set (ml_rows s)" "ms_id r = i" "ms_status r = Msg_FAILED \<or> ms_status r = Msg_CANCELLED"
    and s': "s' = s\<lparr>ml_rows := map (\<lambda>m. if ms_id m = i then m\<lparr>ms_status := Msg_PENDING, ms_attempts := 0, ms_nextAttemptAt := ml_now s,
                     ms_hasError := False\<rparr> else m) (ml_rows s)\<rparr>"
    using retry(1) by (auto simp: retry_message_def split: option.splits if_splits dest!: find_SomeD)
  have "box_ok s' (i # rs)"
  proof (rule box_okI [OF ok])
    show "ml_log s' = ml_log s" by (simp add: s')
    show "ml_rows s' = map (\<lambda>m. if ms_id m = i then m\<lparr>ms_status := Msg_PENDING, ms_attempts := 0, ms_nextAttemptAt := ml_now s,
                     ms_hasError := False\<rparr> else m) (ml_rows s)" by (simp add: s')
  next
    fix m assume m: "m \<in> set (ml_rows s)" "row_ok s rs m"
    have "ms_id m = i \<Longrightarrow> m = r" using same_row [of "ml_rows s" m r] ok m(1) r by (simp add: box_ok_def)
    with m(2) r(2,3) show "ms_id (if ms_id m = i then m\<lparr>ms_status := Msg_PENDING, ms_attempts := 0, ms_nextAttemptAt := ml_now s, ms_hasError := False\<rparr> else m) = ms_id m \<and>
      row_ok s (i # rs) (if ms_id m = i then m\<lparr>ms_status := Msg_PENDING, ms_attempts := 0, ms_nextAttemptAt := ml_now s, ms_hasError := False\<rparr> else m)"
      by (auto simp: row_ok_def accepted_def handed_def spent_def)
  qed
  then show ?case by simp
next
  case (cancel i s s' rs)
  then have ok: "box_ok s rs" by simp
  let ?g = "\<lambda>m. if ms_id m = i \<and> ms_status m = Msg_PENDING then m\<lparr>ms_status := Msg_CANCELLED\<rparr> else m"
  have s': "s' = s\<lparr>ml_rows := map ?g (ml_rows s)\<rparr>"
    using cancel(1) by (simp add: cancel_message_def split: if_splits)
  have "box_ok s' rs"
  proof (rule box_okI [OF ok, of _ ?g])
    fix m assume "m \<in> set (ml_rows s)" "row_ok s rs m"
    then show "ms_id (?g m) = ms_id m \<and> row_ok s rs (?g m)"
      by (cases "ms_id m = i \<and> ms_status m = Msg_PENDING") (auto simp: row_ok_def accepted_def handed_def spent_def)
  qed (simp_all add: s')
  then show ?case by simp
qed

lemma mail_run_box: "mail_run J w T x y \<Longrightarrow> box_ok (fst x) (snd x) \<Longrightarrow> box_ok (fst y) (snd y)"
  by (induction rule: mail_run.induct) (auto dest: mail_step_box)

lemma mail_run_trans: "mail_run J w T y z \<Longrightarrow> mail_run J w T x y \<Longrightarrow> mail_run J w T x z"
  by (induction rule: mail_run.induct) (auto intro: mail_run.step)

text \<open>A tick of the schedule is such a run.\<close>

lemma runOnce_step: "mail_step J w T (s, rs) (snd (runOnce J w T n s), rs)"
  using mail_step.batch [of J w T s rs "length (fst (claim n s))" n] by (simp add: runOnce_def split_beta)

lemma rounds_run: "mail_run J w T (s, rs) (rounds_from J w T r s, rs)"
proof (induction "10 - r" arbitrary: r s rule: less_induct)
  case less
  let ?s1 = "snd (runOnce J w T BATCH s)"
  note rounds = rounds_from.simps [of J w T r s]
  have one: "mail_run J w T (s, rs) (?s1, rs)" by (rule mail_run.step [OF mail_run.stop runOnce_step])
  show ?case
  proof (cases "fst (runOnce J w T BATCH s) = BATCH \<and> r + 1 < 10")
    case True
    then have "mail_run J w T (?s1, rs) (rounds_from J w T (r + 1) ?s1, rs)" by (intro less) auto
    with True mail_run_trans [OF this one] show ?thesis by (simp add: rounds split_beta)
  next
    case False
    with one show ?thesis by (auto simp: rounds split_beta)
  qed
qed

lemma tick_run: "mail_run J w T (s, rs) (tick J w T en run s, rs)"
  by (simp add: tick_def rounds_run mail_run.stop)


section \<open>Witnesses\<close>

text \<open>Two messages for a gateway that takes texts to one of the two numbers only.\<close>

definition sample_wording :: "string \<Rightarrow> payload \<Rightarrow> string" where
  "sample_wording template p = template"

definition sample_gateway :: "string \<Rightarrow> string \<Rightarrow> sms_answer option" where
  "sample_gateway to_no text_s = (if to_no = ''8801711111111'' then Some \<lparr>sa_status = 200, sa_response_code = Some 202, sa_message_id = Some ''m1''\<rparr>
     else None)"

definition sample_transport :: transport where
  "sample_transport = \<lparr>tr_sms = sms_send sample_gateway, tr_email = (\<lambda>_ _. Inl Other_error)\<rparr>"

definition sample_message :: "string \<Rightarrow> string \<Rightarrow> message" where
  "sample_message i phone = \<lparr>ms_id = i, ms_channel = SMS, ms_recipient = map of_char phone, ms_template = ''auth.password_reset'',
     ms_payload = [(''code'', Some ''123456'')], ms_status = Msg_PENDING, ms_attempts = 0, ms_nextAttemptAt = 0, ms_providerRef = None, ms_hasError = False\<rparr>"

definition sample_room :: mailroom where
  "sample_room = \<lparr>ml_now = 5, ml_rows = [sample_message ''a'' ''01711111111'', sample_message ''b'' ''01722222222''], ml_log = []\<rparr>"

definition plain_js :: decimal_js where
  "plain_js = \<lparr>prec = (\<lambda>x. x), dbl = (\<lambda>x. x)\<rparr>"

definition sample_ticked :: mailroom where
  "sample_ticked = tick plain_js sample_wording sample_transport True False sample_room"

lemma sample_ticked_rows:
  "map (\<lambda>m. (ms_id m, ms_status m, ms_attempts m, ms_nextAttemptAt m)) (ml_rows sample_ticked)
     = [(''a'', Msg_SENT, 1, 600005), (''b'', Msg_PENDING, 1, 30005)] \<and> ml_log sample_ticked = [(''a'', True), (''b'', False)]"
  by code_simp

theorem tick_drains_witness:
  "due_rows (tick decimal20 sample_wording sample_transport True False sample_room) = [] \<and>
   drained [sample_message ''a'' ''01711111111'', sample_message ''b'' ''01722222222''] sample_room
     (tick decimal20 sample_wording sample_transport True False sample_room)"
proof -
  have "distinct (map ms_id (ml_rows sample_room))" by code_simp
  moreover have "drop 500 (due_rows sample_room) = []"
    "take 500 (due_rows sample_room) = [sample_message ''a'' ''01711111111'', sample_message ''b'' ''01722222222'']"
    by (simp_all add: due_rows_def sample_room_def sample_message_def)
  ultimately show ?thesis
    using tick_drains [OF decimal20.decimal_laws_axioms, of sample_room sample_wording sample_transport] by (simp only:)
qed

text \<open>The two messages are queued, and the tick above delivers one of them.\<close>

lemma sample_run:
  "mail_run plain_js sample_wording sample_transport (\<lparr>ml_now = 5, ml_rows = [], ml_log = []\<rparr>, []) (sample_ticked, [])"
proof -
  let ?run = "mail_run plain_js sample_wording sample_transport"
  let ?empty = "\<lparr>ml_now = 5, ml_rows = [], ml_log = []\<rparr> :: mailroom"
  let ?a = "sample_message ''a'' ''01711111111''" and ?b = "sample_message ''b'' ''01722222222''"
  have "?run (?empty, []) (?empty\<lparr>ml_rows := ml_rows ?empty @ [?a]\<rparr>, [])"
    by (rule mail_run.step [OF mail_run.stop mail_step.queue]) (simp_all add: sample_message_def)
  then have "?run (?empty, []) (sample_room, [])"
    using mail_run.step [OF _ mail_step.queue [where m = ?b]] by (force simp: sample_message_def sample_room_def)
  then show ?thesis unfolding sample_ticked_def by (rule mail_run_trans [OF tick_run])
qed


end
