(* ===== verification/Documents.thy ===== *)
theory Documents
  imports Placement
begin

text \<open>
  The papers of an order: which are due (\<open>finance/documents/domain/document-policy.ts\<close>), what they
  say (\<open>document-snapshot.ts\<close>), how they are issued (\<open>application/document-issuer.service.ts\<close>) and when
  (\<open>listeners/order-books.listener.ts\<close>). The columns that are only printed (names, address, titles) are
  left out, and so are audit entries.
\<close>

section \<open>Which papers are due\<close>

definition LIVE_STATUSES :: "order_status list" where
  "LIVE_STATUSES = [CONFIRMED, PROCESSING, HANDED_TO_COURIER, OUT_FOR_DELIVERY, DELIVERED]"

definition DEAD_STATUSES :: "order_status list" where
  "DEAD_STATUSES = [CANCELLED, RETURNED]"

definition SHIPPED_STATUSES :: "order_status list" where
  "SHIPPED_STATUSES = [HANDED_TO_COURIER, OUT_FOR_DELIVERY, DELIVERED]"

definition isLive :: "order_status \<Rightarrow> bool" where
  "isLive s \<longleftrightarrow> s \<in> set LIVE_STATUSES"

definition isPrepaid :: "payment_method \<Rightarrow> bool" where
  "isPrepaid m \<longleftrightarrow> m \<in> {SSLCOMMERZ, BKASH, NAGAD, BANK_TRANSFER}"

record books_state =
  bs_method :: payment_method
  bs_status :: order_status
  bs_cancelledFrom :: "order_status option"
  bs_paid :: bool
  bs_liveInvoice :: bool
  bs_receipt :: bool
  bs_codCashBooked :: bool

text \<open>\<open>credit\<close> carries \<open>reverseCourier\<close>.\<close>

record books_plan =
  bp_invoice :: bool
  bp_receipt :: bool
  bp_credit :: "bool option"
  bp_codCashIn :: bool

definition reverseCourier :: "order_status \<Rightarrow> order_status option \<Rightarrow> bool" where
  "reverseCourier status from_s =
     (if status = RETURNED then False
      else case from_s of None \<Rightarrow> True | Some f \<Rightarrow> f \<notin> set SHIPPED_STATUSES)"

definition planBooks :: "books_state \<Rightarrow> order_status option \<Rightarrow> books_plan" where
  "planBooks s hint_from =
     (let live = isLive (bs_status s);
          prepaid = isPrepaid (bs_method s);
          invoice = (live \<and> \<not> bs_liveInvoice s);
          invoiced = (bs_liveInvoice s \<or> invoice);
          moneyIn = (if prepaid then bs_paid s else bs_paid s \<or> bs_status s = DELIVERED);
          receipt = (live \<and> invoiced \<and> \<not> bs_receipt s \<and> moneyIn);
          credit = (if bs_status s \<in> set DEAD_STATUSES \<and> bs_liveInvoice s
                    then Some (reverseCourier (bs_status s) (case bs_cancelledFrom s of Some f \<Rightarrow> Some f | None \<Rightarrow> hint_from))
                    else None);
          codCashIn = (\<not> prepaid \<and> live \<and> (receipt \<or> bs_receipt s) \<and> \<not> bs_codCashBooked s)
      in \<lparr>bp_invoice = invoice, bp_receipt = receipt, bp_credit = credit, bp_codCashIn = codCashIn\<rparr>)"

definition isEmptyPlan :: "books_plan \<Rightarrow> bool" where
  "isEmptyPlan p \<longleftrightarrow> \<not> bp_invoice p \<and> \<not> bp_receipt p \<and> bp_credit p = None \<and> \<not> bp_codCashIn p"

section \<open>What a paper says\<close>

record doc_component =
  dc_productId :: id
  dc_qty :: int
  dc_unitCost :: "money option"
  dc_allocatedRevenue :: money

record doc_line =
  dl_kind :: item_kind
  dl_id :: id
  dl_qty :: int
  dl_unitPrice :: money
  dl_unitCost :: "money option"
  dl_discount :: money
  dl_lineTotal :: money
  dl_components :: "doc_component list option"

definition s2 :: "money \<Rightarrow> money" where "s2 v = round2 v"

definition lineUnitCost :: "decimal_js \<Rightarrow> order_item \<Rightarrow> money option" where
  "lineUnitCost J item =
     (case oi_unitCost item of
        Some c \<Rightarrow> Some (s2 c)
      | None \<Rightarrow>
          if oi_kind item \<noteq> BUNDLE \<or> oi_components item = [] then None
          else if list_ex (\<lambda>c. oc_unitCost c = None) (oi_components item) then None
          else let cost = dec_sum (map (\<lambda>c. d_times J (the (oc_unitCost c)) (of_int (oc_quantity c))) (oi_components item))
               in Some (s2 (d_div J cost (of_int (max 1 (oi_quantity item))))))"

definition doc_component_of :: "item_component \<Rightarrow> doc_component" where
  "doc_component_of c = \<lparr>dc_productId = oc_productId c, dc_qty = oc_quantity c, dc_unitCost = map_option s2 (oc_unitCost c),
     dc_allocatedRevenue = s2 (oc_allocatedRevenue c)\<rparr>"

definition buildLines :: "decimal_js \<Rightarrow> order_item list \<Rightarrow> doc_line list" where
  "buildLines J items = map (\<lambda>it.
     \<lparr>dl_kind = oi_kind it,
      dl_id = (case (if oi_kind it = BUNDLE then oi_bundleId it else oi_productId it) of Some i \<Rightarrow> i | None \<Rightarrow> ''''),
      dl_qty = oi_quantity it,
      dl_unitPrice = s2 (oi_unitPrice it),
      dl_unitCost = lineUnitCost J it,
      dl_discount = s2 (oi_discount it),
      dl_lineTotal = s2 (oi_lineTotal it),
      dl_components = (if oi_kind it = BUNDLE \<and> oi_components it \<noteq> [] then Some (map doc_component_of (oi_components it)) else None)\<rparr>) items"

definition gatewayFeeFor :: "decimal_js \<Rightarrow> payment_method \<Rightarrow> money \<Rightarrow> money list \<Rightarrow> rat \<Rightarrow> money" where
  "gatewayFeeFor J method amount paidFees feePct =
     (if method \<noteq> SSLCOMMERZ then 0
      else if paidFees \<noteq> [] then s2 (dec_sum paidFees)
      else s2 (percentOf J amount feePct))"

section \<open>The tables\<close>

datatype document_kind = INVOICE | RECEIPT | CREDIT_NOTE

record document =
  fd_id :: id
  fd_docNo :: string
  fd_kind :: document_kind
  fd_orderId :: id
  fd_lines :: "doc_line list"
  fd_subtotal :: money
  fd_couponCode :: "string option"
  fd_discount :: money
  fd_shippingFee :: money
  fd_shippingCost :: money
  fd_gatewayFee :: money
  fd_taxTotal :: money
  fd_total :: money
  fd_reason :: "jstr option"
  fd_courierLoss :: "money option"
  fd_reverseCourier :: bool
  fd_creditsDocId :: "id option"
  fd_issuedAt :: time

text \<open>
  \<open>bk_feePct\<close> is the number the store setting \<open>gateway_fee_pct\<close> converts to: \<open>None\<close> when it is not a
  finite number, zero when it is absent.
\<close>

record books = front +
  bk_documents :: "document list"
  bk_feePct :: "rat option"

definition gatewayFeePct :: "'a books_scheme \<Rightarrow> rat" where
  "gatewayFeePct s = (case bk_feePct s of Some n \<Rightarrow> if 0 \<le> n \<and> n \<le> 100 then n else 0 | None \<Rightarrow> 0)"

section \<open>Issuing\<close>

record sync_hint =
  sy_from :: "order_status option"
  sy_credit :: "credit_input option"

definition no_hint :: sync_hint where
  "no_hint = \<lparr>sy_from = None, sy_credit = None\<rparr>"

definition scope_of :: "document_kind \<Rightarrow> counter_scope" where
  "scope_of kind = (if kind = INVOICE then C_invoice else if kind = RECEIPT then C_receipt else C_credit_note)"

text \<open>The number, the id and the row; the document number is unique and a credit note has a reason.\<close>

definition issue :: "document_kind \<Rightarrow> document \<Rightarrow> 'a books_scheme \<Rightarrow> (document \<times> 'a books_scheme) result" where
  "issue kind data s =
     (let (docNo, s) = counter_next (scope_of kind) s;
          (i, s) = fresh_id s;
          d = data\<lparr>fd_id := i, fd_docNo := docNo, fd_kind := kind, fd_issuedAt := st_now s\<rparr>
      in if list_ex (\<lambda>x. fd_docNo x = docNo) (bk_documents s) then Inl (DomainError ''P2002'' 500)
         else if kind = CREDIT_NOTE \<and> fd_reason d = None then Inl (CheckViolation ''financial_documents_credit_link'')
         else Inr (d, s\<lparr>bk_documents := bk_documents s @ [d]\<rparr>))"

definition snapshotBase :: "decimal_js \<Rightarrow> order_row \<Rightarrow> 'a books_scheme \<Rightarrow> document" where
  "snapshotBase J order s =
     (let ssl = (os_paymentMethod order = SSLCOMMERZ);
          fees = (if ssl then map py_fee (filter (\<lambda>p. py_orderId p = or_id order \<and> py_status p \<in> {Pay_SUCCESS, Pay_REFUNDED}) (tl_payments s))
                  else []);
          feePct = (if ssl \<and> fees = [] then gatewayFeePct s else 0)
      in \<lparr>fd_id = '''', fd_docNo = '''', fd_kind = INVOICE, fd_orderId = or_id order,
          fd_lines = buildLines J (filter (\<lambda>i. oi_orderId i = or_id order) (st_items s)),
          fd_subtotal = or_itemsSubtotal order, fd_couponCode = or_couponCode order, fd_discount = or_discountTotal order,
          fd_shippingFee = or_shippingFee order, fd_shippingCost = or_courierCost order,
          fd_gatewayFee = gatewayFeeFor J (os_paymentMethod order) (or_grandTotal order) fees feePct,
          fd_taxTotal = or_taxTotal order, fd_total = or_grandTotal order, fd_reason = None, fd_courierLoss = None,
          fd_reverseCourier = False, fd_creditsDocId = None, fd_issuedAt = 0\<rparr>)"

definition order_docs :: "id \<Rightarrow> 'a books_scheme \<Rightarrow> document list" where
  "order_docs orderId s = sort_key fd_issuedAt (filter (\<lambda>d. fd_orderId d = orderId) (bk_documents s))"

definition credited :: "document list \<Rightarrow> id list" where
  "credited docs = map (\<lambda>d. the (fd_creditsDocId d)) (filter (\<lambda>d. fd_kind d = CREDIT_NOTE \<and> truthy (fd_creditsDocId d)) docs)"

definition live_invoice :: "document list \<Rightarrow> document option" where
  "live_invoice docs = find (\<lambda>d. fd_kind d = INVOICE \<and> fd_id d \<notin> set (credited docs)) (rev docs)"

text \<open>The reason of a credit note: the words for returned and cancelled when none was given.\<close>

definition credit_reason :: "sync_hint \<Rightarrow> order_row \<Rightarrow> jstr" where
  "credit_reason hint order =
     (case map_option (\<lambda>c. js_trim (ci_reason c)) (sy_credit hint) of
        Some (x # xs) \<Rightarrow> js (x # xs)
      | _ \<Rightarrow> (case map_option js_trim (or_cancelReason order) of
          Some (x # xs) \<Rightarrow> js (x # xs)
        | _ \<Rightarrow> if os_status order = RETURNED then [2475, 2503, 2480, 2468] else [2476, 2494, 2468, 2495, 2482]))"

definition credit_data :: "sync_hint \<Rightarrow> order_row \<Rightarrow> bool \<Rightarrow> bool \<Rightarrow> document \<Rightarrow> document" where
  "credit_data hint order hasReceipt reverse bill =
     (let loss = (case sy_credit hint of Some c \<Rightarrow> ci_courierLoss c | None \<Rightarrow> or_courierLoss order)
      in bill\<lparr>fd_orderId := or_id order, fd_gatewayFee := (if hasReceipt then fd_gatewayFee bill else 0),
             fd_reason := Some (credit_reason hint order), fd_courierLoss := Some (if loss < 0 then 0 else loss),
             fd_reverseCourier := reverse, fd_creditsDocId := Some (fd_id bill)\<rparr>)"

definition cod_memo :: "string \<Rightarrow> jstr" where
  "cod_memo orderNo = [2453, 2509, 2479, 2494, 2486, 32, 2437, 2472, 32] @ js orderNo"

abbreviation cod_cash :: "id \<Rightarrow> txn_filter" where
  "cod_cash orderId \<equiv> \<lparr>tf_orderId = Some orderId, tf_purchaseId = None, tf_kind = COD_REMITTANCE, tf_direction = Some IN, tf_memo = None\<rparr>"

definition issue_if :: "bool \<Rightarrow> document_kind \<Rightarrow> document \<Rightarrow> document list \<times> 'a books_scheme \<Rightarrow> (document list \<times> 'a books_scheme) result" where
  "issue_if b kind data x =
     (case x of (done_docs, s) \<Rightarrow>
        if b then ebind (issue kind data s) (\<lambda>(d, s). Inr (done_docs @ [d], s)) else Inr (done_docs, s))"

definition books_state_of :: "order_row \<Rightarrow> 'a books_scheme \<Rightarrow> books_state" where
  "books_state_of order s =
     (let docs = order_docs (or_id order) s
      in \<lparr>bs_method = os_paymentMethod order, bs_status = os_status order, bs_cancelledFrom = or_cancelledFrom order,
          bs_paid = (os_paymentStatus order \<noteq> UNPAID), bs_liveInvoice = (live_invoice docs \<noteq> None),
          bs_receipt = list_ex (\<lambda>d. fd_kind d = RECEIPT) docs, bs_codCashBooked = has (cod_cash (or_id order)) s\<rparr>)"

definition syncIn :: "decimal_js \<Rightarrow> id \<Rightarrow> sync_hint \<Rightarrow> 'a books_scheme \<Rightarrow> ((document list \<times> bool) \<times> 'a books_scheme) result" where
  "syncIn J orderId hint s =
     (case find_order orderId s of
        None \<Rightarrow> Inr (([], False), s)
      | Some order \<Rightarrow>
          let docs = order_docs orderId s;
              liveInvoice = live_invoice docs;
              hasReceipt = list_ex (\<lambda>d. fd_kind d = RECEIPT) docs;
              plan = planBooks (books_state_of order s) (sy_from hint)
          in if isEmptyPlan plan then Inr (([], False), s)
             else let base = snapshotBase J order s
             in ebind (issue_if (bp_invoice plan) INVOICE base ([], s)) (\<lambda>x.
                ebind (issue_if (bp_receipt plan) RECEIPT base x) (\<lambda>x.
                ebind (case (bp_credit plan, liveInvoice) of
                         (Some reverse, Some bill) \<Rightarrow> issue_if True CREDIT_NOTE (credit_data hint order hasReceipt reverse bill) x
                       | _ \<Rightarrow> Inr x) (\<lambda>(issued, s).
                ebind (if bp_codCashIn plan
                       then ebind (post (no_entry\<lparr>pe_ref := AccountCode ''cash'', pe_direction := IN, pe_kind := COD_REMITTANCE,
                              pe_amount := or_grandTotal order, pe_memo := cod_memo (or_orderNo order), pe_orderId := Some orderId\<rparr>) s)
                              (\<lambda>(t, s). Inr s)
                       else Inr s) (\<lambda>s. Inr ((issued, bp_codCashIn plan), s))))))"

text \<open>The transaction with its retries; a retried transaction starts from what is committed.\<close>

definition sync :: "decimal_js \<Rightarrow> (domain_error \<Rightarrow> bool) \<Rightarrow> id \<Rightarrow> sync_hint \<Rightarrow> 'a books_scheme \<Rightarrow> ((document list \<times> bool) \<times> 'a books_scheme) result" where
  "sync J retryable orderId hint s = withRetry (\<lambda>i. syncIn J orderId hint s) retryable (DomainError ''undefined'' 500) 3"

section \<open>The listener\<close>

definition books_run :: "decimal_js \<Rightarrow> (domain_error \<Rightarrow> bool) \<Rightarrow> id \<Rightarrow> sync_hint \<Rightarrow> 'a books_scheme \<Rightarrow> 'a books_scheme" where
  "books_run J retryable orderId hint s = (case sync J retryable orderId hint s of Inr (r, s') \<Rightarrow> s' | Inl e \<Rightarrow> s)"

definition onStatusChanged :: "decimal_js \<Rightarrow> (domain_error \<Rightarrow> bool) \<Rightarrow> status_event \<Rightarrow> 'a books_scheme \<Rightarrow> 'a books_scheme" where
  "onStatusChanged J retryable e = books_run J retryable (se_orderId e) \<lparr>sy_from = Some (se_from e), sy_credit = se_credit e\<rparr>"

definition onPaid :: "decimal_js \<Rightarrow> (domain_error \<Rightarrow> bool) \<Rightarrow> id \<Rightarrow> 'a books_scheme \<Rightarrow> 'a books_scheme" where
  "onPaid J retryable orderId = books_run J retryable orderId no_hint"

definition onPayment :: "decimal_js \<Rightarrow> (domain_error \<Rightarrow> bool) \<Rightarrow> id \<Rightarrow> 'a books_scheme \<Rightarrow> 'a books_scheme" where
  "onPayment J retryable orderId = books_run J retryable orderId no_hint"

end
