(* ===== verification/Documents_Properties.thy ===== *)
theory Documents_Properties
  imports Documents Cash_Properties
begin

text \<open>
  The books of an order follow its state: whatever happened before, one run of the issuer leaves the
  papers the state asks for, and a second run has nothing to add. What was billed and not credited is
  the one open invoice.
\<close>

section \<open>The policy\<close>

text \<open>What the state of the books is once a plan was carried out.\<close>

definition settled :: "books_plan \<Rightarrow> books_state \<Rightarrow> books_state" where
  "settled p s = s\<lparr>bs_liveInvoice := (if bp_credit p = None then bs_liveInvoice s \<or> bp_invoice p else False),
     bs_receipt := bs_receipt s \<or> bp_receipt p, bs_codCashBooked := bs_codCashBooked s \<or> bp_codCashIn p\<rparr>"

lemma plan_settles: "isEmptyPlan (planBooks (settled (planBooks s h) s) h')"
  by (auto simp: planBooks_def settled_def isEmptyPlan_def Let_def isLive_def LIVE_STATUSES_def DEAD_STATUSES_def)

lemma empty_plan_settled: "isEmptyPlan p \<Longrightarrow> settled p s = s"
  by (simp add: isEmptyPlan_def settled_def)

lemma plan_facts:
  "bp_invoice (planBooks s h) \<Longrightarrow> isLive (bs_status s) \<and> \<not> bs_liveInvoice s"
  "bp_credit (planBooks s h) \<noteq> None \<Longrightarrow> bs_status s \<in> set DEAD_STATUSES \<and> bs_liveInvoice s \<and> \<not> bp_invoice (planBooks s h) \<and>
     \<not> bp_receipt (planBooks s h) \<and> \<not> bp_codCashIn (planBooks s h)"
  by (auto simp: planBooks_def Let_def isLive_def LIVE_STATUSES_def DEAD_STATUSES_def split: if_splits)

section \<open>Open invoices\<close>

definition docs_of :: "id \<Rightarrow> 'a books_scheme \<Rightarrow> document list" where
  "docs_of o' s = filter (\<lambda>d. fd_orderId d = o') (bk_documents s)"

definition open_invoices :: "id \<Rightarrow> 'a books_scheme \<Rightarrow> document list" where
  "open_invoices o' s = filter (\<lambda>d. fd_kind d = INVOICE \<and> fd_id d \<notin> set (credited (docs_of o' s))) (docs_of o' s)"

definition billed :: "document \<Rightarrow> money" where
  "billed d = (case fd_kind d of INVOICE \<Rightarrow> fd_total d | CREDIT_NOTE \<Rightarrow> - fd_total d | RECEIPT \<Rightarrow> 0)"

definition net_billed :: "id \<Rightarrow> 'a books_scheme \<Rightarrow> money" where
  "net_billed o' s = sum_list (map billed (docs_of o' s))"

definition papers_ok :: "'a books_scheme \<Rightarrow> bool" where
  "papers_ok s \<longleftrightarrow> till_ok s \<and> '''' \<notin> range (tl_uuid s) \<and> distinct (map fd_id (bk_documents s)) \<and>
     (\<forall>d \<in> set (bk_documents s). issued s (fd_id d) \<and> (\<forall>i. fd_creditsDocId d = Some i \<longrightarrow> issued s i)) \<and>
     (\<forall>o'. length (open_invoices o' s) \<le> 1 \<and> net_billed o' s = sum_list (map fd_total (open_invoices o' s)))"

lemma credited_set: "set (credited (sort_key f ds)) = set (credited ds)"
  by (auto simp: credited_def)

lemma live_invoice_open: "live_invoice (order_docs o' s) = None \<longleftrightarrow> open_invoices o' s = []"
  "live_invoice (order_docs o' s) = Some d \<Longrightarrow> d \<in> set (open_invoices o' s)"
  by (auto simp: live_invoice_def order_docs_def open_invoices_def docs_of_def find_None_iff filter_empty_conv credited_set dest!: find_SomeD)

lemma credited_snoc: "credited (ds @ [d]) = credited ds @ (if fd_kind d = CREDIT_NOTE \<and> truthy (fd_creditsDocId d) then [the (fd_creditsDocId d)] else [])"
  by (simp add: credited_def)

section \<open>One paper\<close>

lemma issueD:
  assumes "issue kind data s = Inr (d, s')"
  obtains n rows where "d = data\<lparr>fd_id := tl_uuid s (tl_issued s), fd_docNo := n, fd_kind := kind, fd_issuedAt := st_now s\<rparr>"
    "s' = s\<lparr>fr_counters := rows, tl_issued := Suc (tl_issued s), bk_documents := bk_documents s @ [d]\<rparr>"
  using assms by (auto simp: issue_def counter_next_def fresh_id_def Let_def split: prod.splits if_splits)

definition others :: "'a books_scheme \<Rightarrow> 'a books_scheme" where
  "others s = s\<lparr>tl_issued := 0, tl_accounts := [], tl_txns := [], fr_counters := [], bk_documents := []\<rparr>"

lemma othersD:
  assumes "others s' = others s"
  shows "sh_orders s' = sh_orders s" "tl_uuid s' = tl_uuid s" "tl_payments s' = tl_payments s" "st_items s' = st_items s" "st_now s' = st_now s"
  using assms by (cases s; cases s'; simp add: others_def)+

lemma issue_sel:
  assumes "issue kind data s = Inr (d, s')"
  shows "bk_documents s' = bk_documents s @ [d]" "fd_id d = tl_uuid s (tl_issued s)" "fd_kind d = kind" "fd_orderId d = fd_orderId data"
    "fd_creditsDocId d = fd_creditsDocId data" "fd_total d = fd_total data" "others s' = others s" "tl_txns s' = tl_txns s"
    "tl_uuid s' = tl_uuid s" "tl_issued s' = Suc (tl_issued s)" "tl_accounts s' = tl_accounts s"
  by (rule issueD [OF assms], simp add: others_def)+

lemma issue_docs_of:
  assumes "issue kind data s = Inr (d, s')"
  shows "docs_of o' s' = docs_of o' s @ (if fd_orderId data = o' then [d] else [])"
  by (simp add: docs_of_def issue_sel [OF assms])

text \<open>A paper that fits the open invoices of its order keeps the books.\<close>

definition fits :: "document_kind \<Rightarrow> document \<Rightarrow> 'a books_scheme \<Rightarrow> bool" where
  "fits kind data s \<longleftrightarrow> (case kind of
      INVOICE \<Rightarrow> open_invoices (fd_orderId data) s = [] \<and> fd_creditsDocId data = None
    | RECEIPT \<Rightarrow> fd_creditsDocId data = None
    | CREDIT_NOTE \<Rightarrow> (\<exists>b \<in> set (open_invoices (fd_orderId data) s). fd_creditsDocId data = Some (fd_id b) \<and> fd_total data = fd_total b))"

lemma issue_ok:
  assumes i: "issue kind data s = Inr (d, s')" and ok: "papers_ok s" and fit: "fits kind data s"
  shows "papers_ok s'"
    and "open_invoices o' s' = (if fd_orderId data \<noteq> o' then open_invoices o' s
      else case kind of INVOICE \<Rightarrow> [d] | RECEIPT \<Rightarrow> open_invoices o' s | CREDIT_NOTE \<Rightarrow> [])"
proof -
  note sel = issue_sel [OF i]
  have inj: "inj (tl_uuid s)" using ok by (simp add: papers_ok_def till_ok_def accounts_ok_def)
  have iss: "issued s j \<Longrightarrow> issued s' j" for j by (rule issued_mono) (simp_all add: sel)
  have fresh: "\<not> issued s (fd_id d)" using fresh_not_issued [OF inj] by (simp add: sel)
  have new_id: "fd_id d \<notin> fd_id ` set (bk_documents s)" using ok fresh by (auto simp: papers_ok_def)
  have old_credit: "issued s j" if "j \<in> set (credited (docs_of q s))" for j q
    using that ok by (force simp: credited_def docs_of_def papers_ok_def truthy_def)
  have not_credited: "fd_id d \<notin> set (credited (docs_of q s))" for q using old_credit fresh by blast
  have one: "length (open_invoices q s) \<le> 1" "net_billed q s = sum_list (map fd_total (open_invoices q s))" for q
    using ok by (simp_all add: papers_ok_def)
  have dist: "distinct (map fd_id (docs_of q s))" for q using ok by (simp add: papers_ok_def docs_of_def distinct_map_filter)
  show opened: "open_invoices o' s' = (if fd_orderId data \<noteq> o' then open_invoices o' s
      else case kind of INVOICE \<Rightarrow> [d] | RECEIPT \<Rightarrow> open_invoices o' s | CREDIT_NOTE \<Rightarrow> [])" for o'
  proof (cases "fd_orderId data = o'")
    case False
    then show ?thesis by (simp add: open_invoices_def issue_docs_of [OF i])
  next
    case True
    then have docs: "docs_of o' s' = docs_of o' s @ [d]" by (simp add: issue_docs_of [OF i])
    show ?thesis
    proof (cases kind)
      case INVOICE
      then have "open_invoices o' s = []" using fit True by (simp add: fits_def)
      then show ?thesis using INVOICE True not_credited [of o'] by (simp add: open_invoices_def docs credited_snoc sel)
    next
      case RECEIPT
      then show ?thesis using True by (simp add: open_invoices_def docs credited_snoc sel)
    next
      case CREDIT_NOTE
      then obtain b where b: "b \<in> set (open_invoices o' s)" "fd_creditsDocId d = Some (fd_id b)" using fit True by (auto simp: fits_def sel)
      with one(1) [of o'] have "open_invoices o' s = [b]" by (cases "open_invoices o' s") auto
      then have "x = b" if "x \<in> set (docs_of o' s)" "fd_kind x = INVOICE" "fd_id x \<notin> set (credited (docs_of o' s))" for x
      proof -
        have "x \<in> set (open_invoices o' s)" using that by (simp add: open_invoices_def)
        with \<open>open_invoices o' s = [b]\<close> show ?thesis by simp
      qed
      moreover have "fd_id b \<noteq> ''''"
      proof -
        have "issued s (fd_id b)" using b(1) ok by (auto simp: open_invoices_def docs_of_def papers_ok_def)
        then show ?thesis using ok by (auto simp: issued_def papers_ok_def)
      qed
      ultimately show ?thesis using CREDIT_NOTE True b(2) by (auto simp: open_invoices_def docs credited_snoc sel truthy_def filter_empty_conv)
    qed
  qed
  have "till_ok (s\<lparr>tl_issued := Suc (tl_issued s)\<rparr>)"
    using fresh_id_ok(1) [of s "tl_uuid s (tl_issued s)" "s\<lparr>tl_issued := Suc (tl_issued s)\<rparr>"] ok
    by (simp add: papers_ok_def fresh_id_def appends_def)
  then have "till_ok s'" using same_book_ok(1) [of "s\<lparr>tl_issued := Suc (tl_issued s)\<rparr>" s'] by (simp add: same_book_def sel)
  moreover have "'''' \<notin> range (tl_uuid s')" using ok by (simp add: papers_ok_def sel)
  moreover have "distinct (map fd_id (bk_documents s'))" using ok new_id by (simp add: papers_ok_def sel)
  moreover have "issued s' (fd_id x) \<and> (\<forall>j. fd_creditsDocId x = Some j \<longrightarrow> issued s' j)" if x: "x \<in> set (bk_documents s')" for x
  proof (cases "x = d")
    case True
    have "issued s' (fd_id d)" by (auto simp: issued_def sel)
    moreover have "issued s j" if "fd_creditsDocId d = Some j" for j
      using that fit ok by (cases kind) (auto simp: fits_def sel open_invoices_def docs_of_def papers_ok_def)
    ultimately show ?thesis using True iss by auto
  next
    case False
    then show ?thesis using x ok iss by (auto simp: papers_ok_def sel)
  qed
  moreover have "length (open_invoices q s') \<le> 1 \<and> net_billed q s' = sum_list (map fd_total (open_invoices q s'))" for q
  proof -
    have net: "net_billed q s' = net_billed q s + (if fd_orderId data = q then billed d else 0)"
      by (simp add: net_billed_def issue_docs_of [OF i])
    show ?thesis
    proof (cases "fd_orderId data = q \<and> kind = CREDIT_NOTE")
      case True
      then obtain b where b: "b \<in> set (open_invoices q s)" "fd_total data = fd_total b" using fit by (auto simp: fits_def)
      with one(1) [of q] have "open_invoices q s = [b]" by (cases "open_invoices q s") auto
      then show ?thesis using True b one(2) [of q] by (simp add: net opened billed_def sel)
    next
      case False
      then show ?thesis using one [of q] fit by (cases kind) (auto simp: net opened billed_def sel fits_def)
    qed
  qed
  ultimately show "papers_ok s'" by (simp add: papers_ok_def)
qed

lemma issue_if_ok:
  assumes i: "issue_if b kind data (ds, s) = Inr (ds', s')" and ok: "papers_ok s" and fit: "b \<Longrightarrow> fits kind data s"
    and o: "fd_orderId data = o'"
  shows "papers_ok s'" "others s' = others s" "tl_txns s' = tl_txns s"
    and "list_ex (\<lambda>d. fd_kind d = RECEIPT) (docs_of o' s') \<longleftrightarrow> list_ex (\<lambda>d. fd_kind d = RECEIPT) (docs_of o' s) \<or> b \<and> kind = RECEIPT"
    and "open_invoices o' s' = [] \<longleftrightarrow> (if b \<and> kind = INVOICE then False else if b \<and> kind = CREDIT_NOTE then True else open_invoices o' s = [])"
    and "\<not> b \<or> kind = RECEIPT \<Longrightarrow> open_invoices o' s' = open_invoices o' s"
proof -
  have all: "papers_ok s' \<and> others s' = others s \<and> tl_txns s' = tl_txns s \<and>
    (list_ex (\<lambda>d. fd_kind d = RECEIPT) (docs_of o' s') \<longleftrightarrow> list_ex (\<lambda>d. fd_kind d = RECEIPT) (docs_of o' s) \<or> b \<and> kind = RECEIPT) \<and>
    (open_invoices o' s' = [] \<longleftrightarrow> (if b \<and> kind = INVOICE then False else if b \<and> kind = CREDIT_NOTE then True else open_invoices o' s = [])) \<and>
    (\<not> b \<or> kind = RECEIPT \<longrightarrow> open_invoices o' s' = open_invoices o' s)"
  proof (cases b)
    case False
    then show ?thesis using i ok by (simp add: issue_if_def)
  next
    case True
    then obtain d where d: "issue kind data s = Inr (d, s')" using i by (auto simp: issue_if_def err_simps)
    note k = issue_ok [OF d ok fit [OF True]]
    show ?thesis using True o k issue_sel [OF d]
      by (cases kind) (simp_all add: issue_docs_of [OF d])
  qed
  then show "papers_ok s'" "others s' = others s" "tl_txns s' = tl_txns s"
    and "list_ex (\<lambda>d. fd_kind d = RECEIPT) (docs_of o' s') \<longleftrightarrow> list_ex (\<lambda>d. fd_kind d = RECEIPT) (docs_of o' s) \<or> b \<and> kind = RECEIPT"
    and "open_invoices o' s' = [] \<longleftrightarrow> (if b \<and> kind = INVOICE then False else if b \<and> kind = CREDIT_NOTE then True else open_invoices o' s = [])"
    and "\<not> b \<or> kind = RECEIPT \<Longrightarrow> open_invoices o' s' = open_invoices o' s" by blast+
qed

section \<open>The cash of a delivery\<close>

lemma has_txns: "tl_txns s' = tl_txns s \<Longrightarrow> has w s' = has w s"
  by (simp add: has_def live_txn_def)

lemma papers_beside:
  fixes s s' :: "'a books_scheme"
  assumes a: "appends s new s'" and ok: "papers_ok s"
  shows "papers_ok s'" "others s' = others s" "docs_of o' s' = docs_of o' s" "open_invoices o' s' = open_invoices o' s"
proof -
  have b: "beside s' = beside s" "till_ok s'" "accounts_grow s s'" using a by (simp_all add: appends_def)
  have d: "bk_documents s' = bk_documents s" "fr_counters s' = fr_counters s" using b(1) by (cases s; cases s'; simp add: beside_def)+
  note u = besideD(1) [OF b(1)]
  have iss: "issued s j \<Longrightarrow> issued s' j" for j
    by (rule issued_mono [OF u]) (use b(3) in \<open>simp_all add: accounts_grow_def\<close>)
  show "others s' = others s" using b(1) d by (cases s; cases s'; simp add: beside_def others_def)
  have docs: "docs_of q s' = docs_of q s" for q by (simp add: docs_of_def d)
  have op: "open_invoices q s' = open_invoices q s" for q by (simp add: open_invoices_def docs)
  show "docs_of o' s' = docs_of o' s" "open_invoices o' s' = open_invoices o' s" by (rule docs op)+
  show "papers_ok s'" using ok b(2) iss by (auto simp: papers_ok_def d u op net_billed_def docs)
qed

lemma cod_posted:
  assumes p: "post (no_entry\<lparr>pe_ref := AccountCode ''cash'', pe_direction := IN, pe_kind := COD_REMITTANCE,
      pe_amount := amount, pe_memo := memo, pe_orderId := Some o'\<rparr>) s = Inr (t, s')" and ok: "papers_ok s"
  shows "appends s [t] s'" "has (cod_cash o') s'" "ct_amount t = round2 amount"
proof -
  have till: "till_ok s" using ok by (simp add: papers_ok_def)
  note q = post_plain [OF p till]
  show "appends s [t] s'" "ct_amount t = round2 amount" using q(1,4) by simp_all
  show "has (cod_cash o') s'"
    by (rule recorded_has [OF q(1) till, of t]) (use q(2-9) in \<open>simp_all add: txn_match_def\<close>)
qed

section \<open>One run of the issuer\<close>

lemma books_state_settled:
  fixes s s' :: "'a books_scheme"
  assumes "(open_invoices (or_id order) s' = []) \<longleftrightarrow> (if bp_credit p = None then open_invoices (or_id order) s = [] \<and> \<not> bp_invoice p else True)"
    "list_ex (\<lambda>d. fd_kind d = RECEIPT) (docs_of (or_id order) s') \<longleftrightarrow> list_ex (\<lambda>d. fd_kind d = RECEIPT) (docs_of (or_id order) s) \<or> bp_receipt p"
    "has (cod_cash (or_id order)) s' \<longleftrightarrow> has (cod_cash (or_id order)) s \<or> bp_codCashIn p"
  shows "books_state_of order s' = settled p (books_state_of order s)"
proof -
  have "list_ex P (order_docs (or_id order) x) = list_ex P (docs_of (or_id order) x)" for P and x :: "'a books_scheme"
    by (simp add: order_docs_def docs_of_def list_ex_iff)
  then have r: "list_ex (\<lambda>d. fd_kind d = RECEIPT) (order_docs (or_id order) x) = list_ex (\<lambda>d. fd_kind d = RECEIPT) (docs_of (or_id order) x)"
    for x :: "'a books_scheme" .
  have l: "(live_invoice (order_docs (or_id order) s') \<noteq> None) = (if bp_credit p = None then live_invoice (order_docs (or_id order) s) \<noteq> None \<or> bp_invoice p else False)"
    unfolding live_invoice_open(1) assms(1) by simp
  show ?thesis
    unfolding books_state_of_def Let_def settled_def r l assms(2,3) by simp
qed

lemma syncIn_ok:
  fixes s s' :: "'a books_scheme"
  assumes s: "syncIn J o' hint s = Inr ((new, cash), s')" and ok: "papers_ok s" and f: "find_order o' s = Some order"
  defines "p \<equiv> planBooks (books_state_of order s) (sy_from hint)"
  shows "papers_ok s'" "others s' = others s" "books_state_of order s' = settled p (books_state_of order s)"
proof -
  have o: "or_id order = o'" using f by (auto simp: find_order_def dest: find_SomeD)
  have "papers_ok s' \<and> others s' = others s \<and> books_state_of order s' = settled p (books_state_of order s)"
  proof (cases "isEmptyPlan p")
    case True
    then show ?thesis using s f ok by (simp add: syncIn_def p_def Let_def empty_plan_settled)
  next
    case False
    define base where "base = snapshotBase J order s"
    have base: "fd_orderId base = o'" "fd_creditsDocId base = None" by (simp_all add: base_def snapshotBase_def Let_def o)
    let ?hasReceipt = "list_ex (\<lambda>d. fd_kind d = RECEIPT) (order_docs o' s)"
    let ?li = "live_invoice (order_docs o' s)"
    define credit where "credit = (\<lambda>x :: document list \<times> 'a books_scheme. case (bp_credit p, ?li) of
         (Some reverse, Some bill) \<Rightarrow> issue_if True CREDIT_NOTE (credit_data hint order ?hasReceipt reverse bill) x
       | _ \<Rightarrow> Inr x)"
    define cod where "cod = (\<lambda>s :: 'a books_scheme. if bp_codCashIn p
           then ebind (post (no_entry\<lparr>pe_ref := AccountCode ''cash'', pe_direction := IN, pe_kind := COD_REMITTANCE,
                  pe_amount := or_grandTotal order, pe_memo := cod_memo (or_orderNo order), pe_orderId := Some o'\<rparr>) s)
                  (\<lambda>(t, s). Inr s)
           else Inr s)"
    have "syncIn J o' hint s =
      ebind (issue_if (bp_invoice p) INVOICE base ([], s)) (\<lambda>x.
      ebind (issue_if (bp_receipt p) RECEIPT base x) (\<lambda>x.
      ebind (credit x) (\<lambda>(issued, s). ebind (cod s) (\<lambda>s. Inr ((issued, bp_codCashIn p), s)))))"
      using f False unfolding syncIn_def p_def [symmetric] credit_def cod_def base_def by (simp add: Let_def p_def)
    with s obtain d1 s1 d2 s2 d3 s3 where
      1: "issue_if (bp_invoice p) INVOICE base ([], s) = Inr (d1, s1)" and
      2: "issue_if (bp_receipt p) RECEIPT base (d1, s1) = Inr (d2, s2)" and
      3: "credit (d2, s2) = Inr (d3, s3)" and
      4: "cod s3 = Inr s'"
      by (auto simp: err_simps split: prod.splits)
    note 3 = 3 [unfolded credit_def] and 4 = 4 [unfolded cod_def]

    have live: "bs_liveInvoice (books_state_of order s) \<longleftrightarrow> open_invoices o' s \<noteq> []"
      by (simp add: books_state_of_def Let_def o flip: live_invoice_open(1))
    note inv = plan_facts(1) [of "books_state_of order s" "sy_from hint", folded p_def]
      and crd = plan_facts(2) [of "books_state_of order s" "sy_from hint", folded p_def]
    note k1 = issue_if_ok [OF 1 ok _ base(1)]
    have fit1: "bp_invoice p \<Longrightarrow> fits INVOICE base s" using inv live by (simp add: fits_def base)
    note k1 = k1 [OF fit1]
    have fit2: "bp_receipt p \<Longrightarrow> fits RECEIPT base s1" by (simp add: fits_def base)
    note k2 = issue_if_ok [OF 2 k1(1) fit2 base(1)]
    have k3: "papers_ok s3 \<and> others s3 = others s2 \<and> tl_txns s3 = tl_txns s2 \<and>
      (list_ex (\<lambda>d. fd_kind d = RECEIPT) (docs_of o' s3) \<longleftrightarrow> list_ex (\<lambda>d. fd_kind d = RECEIPT) (docs_of o' s2)) \<and>
      (open_invoices o' s3 = [] \<longleftrightarrow> (if bp_credit p = None then open_invoices o' s2 = [] else True))"
    proof (cases "bp_credit p")
      case None
      then show ?thesis using 3 k2(1) by simp
    next
      case (Some reverse)
      then have c: "bs_liveInvoice (books_state_of order s)" "\<not> bp_invoice p" "\<not> bp_receipt p" using crd by simp_all
      then have same: "s2 = s" using 1 2 by (simp add: issue_if_def)
      obtain bill where bill: "?li = Some bill" using c(1) by (auto simp: books_state_of_def Let_def o)
      then have mem: "bill \<in> set (open_invoices o' s2)" using live_invoice_open(2) same by simp
      have data: "fd_orderId (credit_data hint order ?hasReceipt reverse bill) = o'"
        "fd_creditsDocId (credit_data hint order ?hasReceipt reverse bill) = Some (fd_id bill)"
        "fd_total (credit_data hint order ?hasReceipt reverse bill) = fd_total bill"
        by (simp_all add: credit_data_def Let_def o)
      have fit: "fits CREDIT_NOTE (credit_data hint order ?hasReceipt reverse bill) s2" using mem by (auto simp: fits_def data)
      have i3: "issue_if True CREDIT_NOTE (credit_data hint order ?hasReceipt reverse bill) (d2, s2) = Inr (d3, s3)"
        using 3 Some bill by simp
      show ?thesis using issue_if_ok [OF i3 k2(1) fit data(1)] Some by simp
    qed
    have k4: "papers_ok s' \<and> others s' = others s3 \<and> docs_of o' s' = docs_of o' s3 \<and> open_invoices o' s' = open_invoices o' s3 \<and>
      (has (cod_cash o') s' \<longleftrightarrow> has (cod_cash o') s3 \<or> bp_codCashIn p)"
    proof (cases "bp_codCashIn p")
      case False
      then show ?thesis using 4 k3 by simp
    next
      case True
      then obtain t where t: "post (no_entry\<lparr>pe_ref := AccountCode ''cash'', pe_direction := IN, pe_kind := COD_REMITTANCE,
                  pe_amount := or_grandTotal order, pe_memo := cod_memo (or_orderNo order), pe_orderId := Some o'\<rparr>) s3 = Inr (t, s')"
        using 4 by (auto simp: err_simps split: prod.splits)
      have ok3: "papers_ok s3" using k3 by simp
      show ?thesis using papers_beside [OF cod_posted(1) [OF t ok3] ok3] cod_posted(2) [OF t ok3] True by simp
    qed
    have txns: "has (cod_cash o') s3 = has (cod_cash o') s" by (rule has_txns) (use k1(3) k2(3) k3 in simp)
    have "open_invoices o' s' = [] \<longleftrightarrow> (if bp_credit p = None then open_invoices o' s = [] \<and> \<not> bp_invoice p else True)"
      using k1(5) k2(6) k3 k4 by auto
    moreover have "list_ex (\<lambda>d. fd_kind d = RECEIPT) (docs_of o' s') \<longleftrightarrow> list_ex (\<lambda>d. fd_kind d = RECEIPT) (docs_of o' s) \<or> bp_receipt p"
      using k1(4) k2(4) k3 k4 by simp
    moreover have "has (cod_cash o') s' \<longleftrightarrow> has (cod_cash o') s \<or> bp_codCashIn p" using k4 txns by simp
    ultimately have "books_state_of order s' = settled p (books_state_of order s)"
      using books_state_settled [of order s' p s] by (simp add: o)
    then show ?thesis using k1(2) k2(2) k3 k4 by simp
  qed
  then show "papers_ok s'" "others s' = others s" "books_state_of order s' = settled p (books_state_of order s)" by blast+
qed

section \<open>The property\<close>

lemma retry_constant: "retry_from (\<lambda>i. r) retryable prev attempts i = (if i < attempts then r else Inl prev)"
proof (induction "attempts - i" arbitrary: i prev)
  case 0
  then show ?case by (simp add: retry_from.simps)
next
  case (Suc k)
  then have "retry_from (\<lambda>i. r) retryable e attempts (Suc i) = (if Suc i < attempts then r else Inl e)" for e by simp
  with Suc(2) show ?case by (cases r) (auto simp: retry_from.simps [of _ _ _ _ i])
qed

lemma sync_syncIn: "sync J retryable o' hint s = syncIn J o' hint s"
  by (simp add: sync_def withRetry_def retry_constant)

text \<open>
  C5. Whatever papers an order has and whichever event asks, one successful run of the issuer brings
  them in line with the order: a live order has exactly one invoice that is not credited, a cancelled or
  returned one has none and nothing is billed on balance, money that came in for a live order has a
  receipt and, for cash on delivery, an entry in the cash book; and any later run for the same state
  of the order issues and books nothing.
\<close>

theorem papers_follow_order:
  assumes "papers_ok s" "find_order o' s = Some order" "sync J retryable o' hint s = Inr ((new, cash), s')"
  shows "papers_ok s' \<and> sh_orders s' = sh_orders s \<and>
    (isLive (os_status order) \<longrightarrow> length (open_invoices o' s') = 1) \<and>
    (os_status order \<in> {CANCELLED, RETURNED} \<longrightarrow> open_invoices o' s' = [] \<and> net_billed o' s' = 0) \<and>
    (isLive (os_status order) \<and> (os_paymentStatus order \<noteq> UNPAID \<or> \<not> isPrepaid (os_paymentMethod order) \<and> os_status order = DELIVERED) \<longrightarrow>
       (\<exists>d \<in> set (docs_of o' s'). fd_kind d = RECEIPT) \<and> (\<not> isPrepaid (os_paymentMethod order) \<longrightarrow> has (cod_cash o') s')) \<and>
    (\<forall>hint'. sync J retryable o' hint' s' = Inr (([], False), s'))"
proof -
  let ?b = "books_state_of order s" and ?b' = "books_state_of order s'"
  let ?p = "planBooks ?b (sy_from hint)"
  note r = syncIn_ok [OF assms(3) [unfolded sync_syncIn] assms(1,2)]
  have o: "or_id order = o'" using assms(2) by (auto simp: find_order_def dest: find_SomeD)
  have ord: "sh_orders s' = sh_orders s" by (rule othersD(1) [OF r(2)])
  have open_iff: "bs_liveInvoice ?b' \<longleftrightarrow> open_invoices o' s' \<noteq> []"
    by (simp add: books_state_of_def Let_def o flip: live_invoice_open(1))
  have receipt: "bs_receipt ?b' \<Longrightarrow> \<exists>d \<in> set (docs_of o' s'). fd_kind d = RECEIPT"
    by (auto simp: books_state_of_def Let_def o list_ex_iff order_docs_def docs_of_def)
  have cod: "bs_codCashBooked ?b' \<Longrightarrow> has (cod_cash o') s'" by (simp add: books_state_of_def Let_def o)
  have cols: "bs_status ?b = os_status order" "bs_method ?b = os_paymentMethod order" "bs_paid ?b \<longleftrightarrow> os_paymentStatus order \<noteq> UNPAID"
    by (simp_all add: books_state_of_def Let_def)
  have one: "length (open_invoices o' s') \<le> 1" "net_billed o' s' = sum_list (map fd_total (open_invoices o' s'))"
    using r(1) by (simp_all add: papers_ok_def)
  have "bs_liveInvoice (settled ?p ?b)" if "isLive (os_status order)"
    using that by (auto simp: settled_def planBooks_def Let_def cols isLive_def LIVE_STATUSES_def DEAD_STATUSES_def)
  then have live: "length (open_invoices o' s') = 1" if "isLive (os_status order)"
    using that one(1) open_iff r(3) by (cases "open_invoices o' s'") auto
  have "\<not> bs_liveInvoice (settled ?p ?b)" if "os_status order \<in> {CANCELLED, RETURNED}"
    using that by (auto simp: settled_def planBooks_def Let_def cols isLive_def LIVE_STATUSES_def DEAD_STATUSES_def)
  then have dead: "open_invoices o' s' = []" if "os_status order \<in> {CANCELLED, RETURNED}"
    using that open_iff r(3) by simp
  have "bs_receipt (settled ?p ?b) \<and> (\<not> isPrepaid (os_paymentMethod order) \<longrightarrow> bs_codCashBooked (settled ?p ?b))"
    if "isLive (os_status order)" "os_paymentStatus order \<noteq> UNPAID \<or> \<not> isPrepaid (os_paymentMethod order) \<and> os_status order = DELIVERED"
    using that by (auto simp: settled_def planBooks_def Let_def cols)
  then have money: "(\<exists>d \<in> set (docs_of o' s'). fd_kind d = RECEIPT) \<and> (\<not> isPrepaid (os_paymentMethod order) \<longrightarrow> has (cod_cash o') s')"
    if "isLive (os_status order)" "os_paymentStatus order \<noteq> UNPAID \<or> \<not> isPrepaid (os_paymentMethod order) \<and> os_status order = DELIVERED"
    using that receipt cod r(3) by simp
  have "find_order o' s' = Some order" using assms(2) ord by (simp add: find_order_def)
  then have again: "sync J retryable o' hint' s' = Inr (([], False), s')" for hint'
    using plan_settles [of ?b "sy_from hint" "sy_from hint'"] unfolding sync_syncIn syncIn_def r(3) [symmetric] by (simp add: Let_def)
  show ?thesis using r(1) ord live dead one(2) money again by (intro conjI allI impI) auto
qed

section \<open>Witness\<close>

text \<open>A delivered order to be paid in cash, with no papers yet.\<close>

definition delivered_order :: order_row where
  "delivered_order = \<lparr>os_status = DELIVERED, os_paymentMethod = COD, os_paymentStatus = PAID, os_stockReserved = False,
     os_confirmedAt = Some 1, os_shippedAt = Some 2, or_id = ''o1'', or_orderNo = ''CLO-2042'', or_customerId = ''c1'',
     or_itemsSubtotal = 100, or_discountTotal = 0, or_couponCode = None, or_shippingFee = 20, or_taxTotal = 0, or_grandTotal = 120,
     or_amountPaid = 120, or_amountRefunded = 0, or_itemsCost = None, or_courierCost = 60, or_gatewayFee = 0, or_courierLoss = 0,
     or_cancelReason = None, or_cancelledFrom = None, or_placedAt = 0, or_deliveredAt = Some 3, or_cancelledAt = None,
     or_paidAt = Some 3, or_version = 4\<rparr>"

definition blank_books :: books where
  "blank_books = \<lparr>st_now = 10, st_nextId = 2, st_products = Map.empty, st_lots = [], st_uses = [], st_moves = [],
     st_items = [\<lparr>oi_orderId = ''o1'', oi_kind = PRODUCT, oi_productId = Some ''p'', oi_bundleId = None, oi_quantity = 1,
       oi_unitPrice = 100, oi_listPrice = 100, oi_unitCost = Some 70, oi_discount = 0, oi_taxAmount = 0, oi_lineTotal = 100, oi_components = []\<rparr>],
     sh_orders = [delivered_order], sh_customers = [], sh_coupons = [], sh_redemptions = [], sh_history = [],
     tl_uuid = (\<lambda>n. replicate (Suc n) CHR ''u''), tl_issued = 0, tl_accounts = [], tl_txns = [], tl_payments = [],
     tl_refunds = [], tl_purchases = [], tl_shipments = [],
     fr_counters = [], fr_keys = [], fr_outbox = [], fr_districts = [], fr_upazilas = [], fr_unions = [], fr_catalog = [], fr_bundles = [],
     fr_rules = [], fr_carts = [], bk_documents = [], bk_feePct = Some 2\<rparr>"

lemma blank_papers: "papers_ok blank_books"
proof -
  have "inj (\<lambda>n. replicate (Suc n) CHR ''u'')"
    by (rule injI) (metis length_replicate nat.inject)
  then have "till_ok blank_books"
    by (simp add: till_ok_def accounts_ok_def blank_books_def)
  moreover have "docs_of o' blank_books = []" for o' by (simp add: docs_of_def blank_books_def)
  ultimately show ?thesis
    by (auto simp: papers_ok_def open_invoices_def net_billed_def blank_books_def)
qed

lemma blank_order: "find_order ''o1'' blank_books = Some delivered_order"
  by (simp add: find_order_def blank_books_def delivered_order_def)

lemma blank_synced:
  "case sync \<lparr>prec = (\<lambda>x. x), dbl = (\<lambda>x. x)\<rparr> (\<lambda>e. False) ''o1'' no_hint blank_books of
     Inr ((new, cash), s') \<Rightarrow> map (\<lambda>d. (fd_docNo d, fd_kind d, fd_total d)) new = [(''INV-000001'', INVOICE, 120), (''RCT-000001'', RECEIPT, 120)] \<and> cash
   | Inl e \<Rightarrow> False"
  by code_simp

theorem papers_follow_order_witness:
  "\<exists>new s'. sync \<lparr>prec = (\<lambda>x. x), dbl = (\<lambda>x. x)\<rparr> (\<lambda>e. False) ''o1'' no_hint blank_books = Inr ((new, True), s') \<and>
     length (open_invoices ''o1'' s') = 1 \<and> has (cod_cash ''o1'') s'"
proof -
  let ?J = "\<lparr>prec = (\<lambda>x. x), dbl = (\<lambda>x. x)\<rparr> :: decimal_js"
  obtain new s' where r: "sync ?J (\<lambda>e. False) ''o1'' no_hint blank_books = Inr ((new, True), s')"
    using blank_synced by (auto split: sum.splits prod.splits)
  have "isLive (os_status delivered_order)" "\<not> isPrepaid (os_paymentMethod delivered_order)" "os_paymentStatus delivered_order \<noteq> UNPAID"
    by (simp_all add: delivered_order_def isLive_def LIVE_STATUSES_def isPrepaid_def)
  with papers_follow_order [OF blank_papers blank_order r] r show ?thesis by auto
qed

end
