(* ===== verification/Dhaka_Time.thy ===== *)
theory Dhaka_Time
  imports Text
begin

text \<open>
  Calendar days in Dhaka (\<open>finance/shared/domain/dhaka-time.ts\<close>) over the calendar of \<open>Date\<close>, which is
  the proleptic Gregorian one: a day is the number of days since 1 January 1970, a year the last one
  that starts on or before it. \<open>None\<close> is a \<open>RangeError\<close> thrown.
\<close>

section \<open>The calendar of \<open>Date\<close>\<close>

definition ms_per_day :: int where "ms_per_day = 86400000"

definition leap_year :: "int \<Rightarrow> bool" where
  "leap_year y \<longleftrightarrow> y mod 4 = 0 \<and> (y mod 100 \<noteq> 0 \<or> y mod 400 = 0)"

definition day_from_year :: "int \<Rightarrow> int" where
  "day_from_year y = 365 * (y - 1970) + (y - 1969) div 4 - (y - 1901) div 100 + (y - 1601) div 400"

definition month_starts :: "bool \<Rightarrow> int list" where
  "month_starts leap = (if leap then [0, 31, 60, 91, 121, 152, 182, 213, 244, 274, 305, 335]
     else [0, 31, 59, 90, 120, 151, 181, 212, 243, 273, 304, 334])"

definition make_day :: "int \<Rightarrow> int \<Rightarrow> int \<Rightarrow> int" where
  "make_day year month date_n =
     (let y = year + month div 12; m = month mod 12
      in day_from_year y + month_starts (leap_year y) ! nat m + date_n - 1)"

text \<open>\<open>Date.UTC\<close>, which reads years below a hundred as years of the twentieth century.\<close>

definition Date_UTC :: "int \<Rightarrow> int \<Rightarrow> int \<Rightarrow> time" where
  "Date_UTC year month date_n = make_day (if 0 \<le> year \<and> year \<le> 99 then 1900 + year else year) month date_n * ms_per_day"

lemma div_succ: "0 < n \<Longrightarrow> (a + 1) div n = a div n + (if (a + 1) mod n = 0 then 1 else 0)" for a n :: int
proof -
  assume n: "0 < n"
  show ?thesis
  proof (cases "(a + 1) mod n = 0")
    case True
    then obtain k where "a + 1 = n * k" by auto
    then have a: "a = n * (k - 1) + (n - 1)" by (simp add: algebra_simps)
    have "a div n = k - 1" by (rule int_div_pos_eq [OF a]) (use n in simp_all)
    with \<open>a + 1 = n * k\<close> n True show ?thesis by simp
  next
    case False
    define q where "q = (a + 1) div n"
    have r: "0 \<le> (a + 1) mod n - 1" "(a + 1) mod n - 1 < n" using False n pos_mod_bound [OF n, of "a + 1"] pos_mod_sign [OF n, of "a + 1"] by linarith+
    have "a = n * q + ((a + 1) mod n - 1)" using mult_div_mod_eq [of n "a + 1"] unfolding q_def by linarith
    then have "a div n = q" by (rule int_div_pos_eq) (use r in simp_all)
    with False show ?thesis by (simp add: q_def)
  qed
qed

lemma day_from_year_Suc: "day_from_year (y + 1) = day_from_year y + (if leap_year y then 366 else 365)"
proof -
  have next_y: "y - 1969 + 1 = y - 1968" "y - 1901 + 1 = y - 1900" "y - 1601 + 1 = y - 1600" by simp_all
  have shift: "(y - 1968) mod 4 = y mod 4" "(y - 1900) mod 100 = y mod 100" "(y - 1600) mod 400 = y mod 400"
    using mod_mult_self1 [of y "-492" 4] mod_mult_self1 [of y "-19" 100] mod_mult_self1 [of y "-4" 400] by simp_all
  have "(y - 1968) div 4 = (y - 1969) div 4 + (if y mod 4 = 0 then 1 else 0)"
    "(y - 1900) div 100 = (y - 1901) div 100 + (if y mod 100 = 0 then 1 else 0)"
    "(y - 1600) div 400 = (y - 1601) div 400 + (if y mod 400 = 0 then 1 else 0)"
    using div_succ [of 4 "y - 1969", unfolded next_y shift, OF zero_less_numeral] div_succ [of 100 "y - 1901", unfolded next_y shift, OF zero_less_numeral]
      div_succ [of 400 "y - 1601", unfolded next_y shift, OF zero_less_numeral] .
  moreover have "y mod 400 = 0 \<Longrightarrow> y mod 100 = 0" "y mod 100 = 0 \<Longrightarrow> y mod 4 = 0"
    using dvd_trans [of 100 400 y] dvd_trans [of 4 100 y] by (simp_all add: mod_eq_0_iff_dvd)
  moreover have "day_from_year (y + 1) - day_from_year y = 365 + ((y - 1968) div 4 - (y - 1969) div 4)
      - ((y - 1900) div 100 - (y - 1901) div 100) + ((y - 1600) div 400 - (y - 1601) div 400)"
    unfolding day_from_year_def by (simp add: algebra_simps)
  ultimately show ?thesis by (auto simp only: leap_year_def split: if_splits)
qed

lemma day_from_year_mono: "a \<le> b \<Longrightarrow> day_from_year a + 365 * (b - a) \<le> day_from_year b"
proof (induction "nat (b - a)" arbitrary: b)
  case 0
  then show ?case by simp
next
  case (Suc n)
  then have "n = nat (b - 1 - a)" "a \<le> b - 1" by simp_all
  then have "day_from_year a + 365 * (b - 1 - a) \<le> day_from_year (b - 1)" by (rule Suc(1))
  with day_from_year_Suc [of "b - 1"] show ?case by (auto split: if_splits)
qed

text \<open>The year of a day: down from a year that is late enough.\<close>

function year_down :: "int \<Rightarrow> int \<Rightarrow> int" where
  "year_down y d = (if day_from_year y \<le> d then y else year_down (y - 1) d)"
  by pat_completeness auto
termination
proof (relation "measure (\<lambda>(y, d). nat (day_from_year y - d))")
  fix y d :: int
  assume "\<not> day_from_year y \<le> d"
  with day_from_year_mono [of "y - 1" y] show "((y - 1, d), y, d) \<in> measure (\<lambda>(y, d). nat (day_from_year y - d))" by simp
qed simp

declare year_down.simps [simp del]

definition year_of :: "int \<Rightarrow> int" where
  "year_of d = year_down (1971 + max (d div 365) (d div 366)) d"

definition month_of :: "int \<Rightarrow> int" where
  "month_of d = (let y = year_of d; k = d - day_from_year y
     in int (length (filter (\<lambda>b. b \<le> k) (month_starts (leap_year y)))) - 1)"

definition date_of :: "int \<Rightarrow> int" where
  "date_of d = (let y = year_of d in d - day_from_year y - month_starts (leap_year y) ! nat (month_of d) + 1)"

section \<open>Days as texts\<close>

definition DHAKA_OFFSET_MS :: int where "DHAKA_OFFSET_MS = 6 * 60 * 60 * 1000"

record day_range =
  rg_start :: time
  rg_end :: time

datatype tenure = Tenure_day | Tenure_month | Tenure_year

text \<open>The three numbers of a text that \<open>ISO_DAY\<close> matches.\<close>

definition iso_match :: "string \<Rightarrow> (int \<times> int \<times> int) option" where
  "iso_match s =
     (if length s = 10 \<and> s ! 4 = CHR ''-'' \<and> s ! 7 = CHR ''-'' \<and> list_all ascii_digit (take 4 s @ take 2 (drop 5 s) @ drop 8 s)
      then Some (int (digits_value (take 4 s)), int (digits_value (take 2 (drop 5 s))), int (digits_value (drop 8 s)))
      else None)"

definition isIsoDay :: "string \<Rightarrow> bool" where
  "isIsoDay s = (case iso_match s of
      None \<Rightarrow> False
    | Some (y, mo, d) \<Rightarrow> let probe = Date_UTC y (mo - 1) d div ms_per_day
                       in year_of probe = y \<and> month_of probe = mo - 1 \<and> date_of probe = d)"

definition parts :: "string \<Rightarrow> (int \<times> int \<times> int) option" where
  "parts day = (if isIsoDay day then iso_match day else None)"

definition dhakaMidnight :: "int \<Rightarrow> int \<Rightarrow> int \<Rightarrow> time" where
  "dhakaMidnight y m d = Date_UTC y (m - 1) d - DHAKA_OFFSET_MS"

definition int_string :: "int \<Rightarrow> string" where
  "int_string n = (if n < 0 then ''-'' @ nat_string (nat (- n)) else nat_string (nat n))"

definition dhakaDay :: "time \<Rightarrow> string" where
  "dhakaDay at_t =
     (let local = (at_t + DHAKA_OFFSET_MS) div ms_per_day
      in int_string (year_of local) @ ''-'' @ padStart (int_string (month_of local + 1)) 2 CHR ''0'' @ ''-''
         @ padStart (int_string (date_of local)) 2 CHR ''0'')"

definition dayRange :: "string \<Rightarrow> day_range option" where
  "dayRange day = map_option (\<lambda>(y, m, d). \<lparr>rg_start = dhakaMidnight y m d, rg_end = dhakaMidnight y m (d + 1)\<rparr>) (parts day)"

definition daySpan :: "string \<Rightarrow> string \<Rightarrow> day_range option" where
  "daySpan fromIso toIso = (case dayRange fromIso of None \<Rightarrow> None | Some a \<Rightarrow>
     (case dayRange toIso of None \<Rightarrow> None | Some b \<Rightarrow> Some \<lparr>rg_start = rg_start a, rg_end = rg_end b\<rparr>))"

definition tenureRange :: "tenure \<Rightarrow> string \<Rightarrow> day_range option" where
  "tenureRange kind anchorIso =
     (case parts anchorIso of
        None \<Rightarrow> None
      | Some (y, m, d) \<Rightarrow>
          (case kind of
             Tenure_day \<Rightarrow> dayRange anchorIso
           | Tenure_month \<Rightarrow> Some \<lparr>rg_start = dhakaMidnight y m 1, rg_end = dhakaMidnight y (m + 1) 1\<rparr>
           | Tenure_year \<Rightarrow> Some \<lparr>rg_start = dhakaMidnight y 1 1, rg_end = dhakaMidnight (y + 1) 1 1\<rparr>))"

function days_from :: "time \<Rightarrow> time \<Rightarrow> nat \<Rightarrow> string list \<Rightarrow> string list" where
  "days_from cur last_t max_n out =
     (if cur \<le> last_t \<and> length out < max_n then days_from (cur + 24 * 60 * 60 * 1000) last_t max_n (out @ [dhakaDay cur]) else out)"
  by pat_completeness auto
termination by (relation "measure (\<lambda>(cur, last_t, max_n, out). max_n - length out)") auto

declare days_from.simps [simp del]

definition eachDay :: "string \<Rightarrow> string \<Rightarrow> nat \<Rightarrow> string list option" where
  "eachDay fromIso toIso max_n = (case dayRange fromIso of None \<Rightarrow> None | Some a \<Rightarrow>
     (case dayRange toIso of None \<Rightarrow> None | Some b \<Rightarrow> Some (days_from (rg_start a) (rg_start b) max_n [])))"

definition noonOf :: "string \<Rightarrow> time option" where
  "noonOf day = map_option (\<lambda>r. rg_start r + 12 * 60 * 60 * 1000) (dayRange day)"

text \<open>\<open>date_parse\<close> is what \<open>new Date(text)\<close> makes of an instant; \<open>None\<close> is an invalid date.\<close>

definition instant_shape :: "string \<Rightarrow> bool" where
  "instant_shape s \<longleftrightarrow> length s \<ge> 11 \<and> iso_match (take 10 s) \<noteq> None \<and> s ! 10 = CHR ''T''"

definition parseWhen :: "(string \<Rightarrow> time option) \<Rightarrow> string option \<Rightarrow> time \<Rightarrow> time option" where
  "parseWhen date_parse input now =
     (case input of
        None \<Rightarrow> Some now
      | Some s \<Rightarrow>
          if s = '''' then Some now
          else if isIsoDay s then noonOf s
          else if \<not> instant_shape s then None
          else date_parse s)"

section \<open>Days and dates correspond\<close>

lemma year_down_le: "day_from_year (year_down y d) \<le> d"
  by (induction y d rule: year_down.induct) (simp add: year_down.simps)

lemma year_down_upper: "d < day_from_year (y + 1) \<Longrightarrow> d < day_from_year (year_down y d + 1)"
  by (induction y d rule: year_down.induct) (simp add: year_down.simps [of y d for y d])

lemma day_from_1970: "day_from_year 1970 = 0" by (simp add: day_from_year_def)

lemma day_from_year_le_366: "y \<le> 1970 \<Longrightarrow> 366 * (y - 1970) \<le> day_from_year y"
proof (induction "nat (1970 - y)" arbitrary: y)
  case 0
  then show ?case by (simp add: day_from_1970)
next
  case (Suc n)
  then have "n = nat (1970 - (y + 1))" "y + 1 \<le> 1970" by simp_all
  then have "366 * (y + 1 - 1970) \<le> day_from_year (y + 1)" by (rule Suc(1))
  with day_from_year_Suc [of y] show ?case by (auto split: if_splits)
qed

lemma below_next: "0 < n \<Longrightarrow> d < n * (d div n + 1)" for n d :: int
proof -
  assume "0 < n"
  have "d = n * (d div n) + d mod n" by simp
  also have "\<dots> < n * (d div n) + n" using pos_mod_bound [OF \<open>0 < n\<close>, of d] by (rule add_strict_left_mono)
  also have "\<dots> = n * (d div n + 1)" by (simp only: distrib_left mult_1_right)
  finally show ?thesis .
qed

lemma late_enough: "d < day_from_year (1971 + max (d div 365) (d div 366) + 1)"
proof (cases "0 \<le> d")
  case True
  have "365 * (d div 365 + 1) > d" by (rule below_next) simp
  moreover have "0 \<le> d div 365" using True by simp
  ultimately show ?thesis
    using day_from_year_mono [of 1970 "1971 + max (d div 365) (d div 366) + 1"] by (simp add: day_from_1970)
next
  case False
  show ?thesis
  proof (cases "1971 + max (d div 365) (d div 366) + 1 \<le> 1970")
    case True
    have "366 * (d div 366 + 1) > d" by (rule below_next) simp
    then show ?thesis using day_from_year_le_366 [OF True] by (simp add: max_def split: if_splits)
  next
    case False
    then show ?thesis using day_from_year_mono [of 1970 "1971 + max (d div 365) (d div 366) + 1"] \<open>\<not> 0 \<le> d\<close> by (simp add: day_from_1970)
  qed
qed

lemma year_of_bounds: "day_from_year (year_of d) \<le> d" "d < day_from_year (year_of d + 1)"
  unfolding year_of_def using year_down_le year_down_upper [OF late_enough] by simp_all

lemma year_of_eq:
  assumes "day_from_year y \<le> d" "d < day_from_year (y + 1)"
  shows "year_of d = y"
proof (rule antisym)
  show "year_of d \<le> y"
  proof (rule ccontr)
    assume "\<not> year_of d \<le> y"
    then have "day_from_year (y + 1) \<le> day_from_year (year_of d)" using day_from_year_mono [of "y + 1" "year_of d"] by simp
    with assms(2) year_of_bounds(1) [of d] show False by linarith
  qed
  show "y \<le> year_of d"
  proof (rule ccontr)
    assume "\<not> y \<le> year_of d"
    then have "day_from_year (year_of d + 1) \<le> day_from_year y" using day_from_year_mono [of "year_of d + 1" y] by simp
    with assms(1) year_of_bounds(2) [of d] show False by linarith
  qed
qed

definition month_lengths :: "bool \<Rightarrow> int list" where
  "month_lengths leap = [31, if leap then 29 else 28, 31, 30, 31, 30, 31, 31, 30, 31, 30, 31]"

definition valid_date :: "int \<Rightarrow> int \<Rightarrow> int \<Rightarrow> bool" where
  "valid_date y m d \<longleftrightarrow> 1 \<le> m \<and> m \<le> 12 \<and> 1 \<le> d \<and> d \<le> month_lengths (leap_year y) ! nat (m - 1)"

text \<open>Where a day of a year falls: the number of months begun.\<close>

definition months_begun :: "bool \<Rightarrow> int \<Rightarrow> nat" where
  "months_begun leap k = length (filter (\<lambda>b. b \<le> k) (month_starts leap))"

lemma less_12: "n < 12 \<longleftrightarrow> n \<in> {0, 1, 2, 3, 4, 5, 6, 7, 8, 9, 10, 11 :: nat}"
  by (simp, presburger)

lemma months_begun_in:
  assumes "n < 12" "month_starts leap ! n \<le> k" "k < month_starts leap ! n + month_lengths leap ! n"
  shows "months_begun leap k = Suc n"
  using assms by (cases leap) (auto simp: less_12 months_begun_def month_starts_def month_lengths_def)

lemma month_exists:
  assumes "0 \<le> k" "k < (if leap then 366 else 365)"
  shows "\<exists>n < 12. month_starts leap ! n \<le> k \<and> k < month_starts leap ! n + month_lengths leap ! n"
proof -
  have "\<exists>n \<in> {0, 1, 2, 3, 4, 5, 6, 7, 8, 9, 10, 11}. month_starts leap ! n \<le> k \<and> k < month_starts leap ! n + month_lengths leap ! n"
    using assms by (cases leap) (simp_all add: month_starts_def month_lengths_def, linarith+)
  then show ?thesis by (metis less_12)
qed

lemma month_in_year: "n < 12 \<Longrightarrow> 0 \<le> month_starts leap ! n \<and> month_starts leap ! n + month_lengths leap ! n \<le> (if leap then 366 else 365)"
  by (cases leap) (auto simp: less_12 month_starts_def month_lengths_def)

lemma fields_of_day:
  assumes "n < 12" "1 \<le> dd" "dd \<le> month_lengths (leap_year y) ! n"
  defines "d \<equiv> make_day y (int n) dd"
  shows "year_of d = y" "month_of d = int n" "date_of d = dd"
proof -
  have "int n div 12 = 0" "int n mod 12 = int n" using assms(1) by simp_all
  then have d: "d = day_from_year y + month_starts (leap_year y) ! n + dd - 1" by (simp add: d_def make_day_def)
  have "day_from_year y \<le> d" "d < day_from_year (y + 1)"
    using month_in_year [OF assms(1), of "leap_year y"] assms(2,3) day_from_year_Suc [of y] by (auto simp: d)
  then show y: "year_of d = y" by (rule year_of_eq)
  have "months_begun (leap_year y) (d - day_from_year y) = Suc n"
    by (rule months_begun_in [OF assms(1)]) (use assms(2,3) in \<open>simp_all add: d\<close>)
  then show m: "month_of d = int n" by (simp add: month_of_def y months_begun_def)
  show "date_of d = dd" by (simp add: date_of_def y m) (simp add: d)
qed

lemma day_of_fields:
  "make_day (year_of d) (month_of d) (date_of d) = d \<and> 0 \<le> month_of d \<and> month_of d < 12 \<and>
    valid_date (year_of d) (month_of d + 1) (date_of d)"
proof -
  let ?y = "year_of d" and ?k = "d - day_from_year (year_of d)"
  have k: "0 \<le> ?k" "?k < (if leap_year ?y then 366 else 365)"
    using year_of_bounds [of d] day_from_year_Suc [of ?y] by auto
  obtain n where n: "n < 12" "month_starts (leap_year ?y) ! n \<le> ?k"
    "?k < month_starts (leap_year ?y) ! n + month_lengths (leap_year ?y) ! n" using month_exists [OF k] by blast
  have "months_begun (leap_year ?y) ?k = Suc n" by (rule months_begun_in [OF n])
  then have m: "month_of d = int n" by (simp add: month_of_def Let_def months_begun_def)
  have dd: "date_of d = ?k - month_starts (leap_year ?y) ! n + 1" by (simp add: date_of_def Let_def m)
  have "int n div 12 = 0" "int n mod 12 = int n" using n(1) by simp_all
  then have "make_day ?y (month_of d) (date_of d) = d" by (simp add: make_day_def m dd)
  then show ?thesis using n by (simp add: m dd valid_date_def)
qed

section \<open>Texts and dates correspond\<close>

lemma pad_digits:
  assumes "list_all ascii_digit x" "x \<noteq> []"
  shows "padStart (nat_string (digits_value x)) (length x) CHR ''0'' = x"
  using assms
proof (induction x rule: rev_induct)
  case Nil
  then show ?case by simp
next
  case (snoc c x)
  define v where "v = digits_value x"
  have c: "48 \<le> (of_char c :: nat)" "(of_char c :: nat) \<le> 57" using snoc.prems by (auto simp: ascii_digit_code)
  define k where "k = (of_char c :: nat) - 48"
  have k: "k < 10" "char_of (48 + k) = c" using c by (auto simp: k_def)
  have val: "digits_value (x @ [c]) = 10 * v + k" by (simp add: digits_value_def v_def k_def)
  show ?case
  proof (cases "v = 0")
    case True
    have "x = replicate (length x) CHR ''0''"
    proof (cases "x = []")
      case False
      then have "padStart (nat_string 0) (length x) CHR ''0'' = x" using snoc v_def True by simp
      moreover have "nat_string 0 = ''0''" by code_simp
      ultimately have "x = replicate (length x - 1) CHR ''0'' @ [CHR ''0'']" by (simp add: padStart_def)
      then show ?thesis using False by (metis Suc_pred' length_greater_0_conv replicate_Suc replicate_append_same)
    qed simp
    then show ?thesis using k True by (simp add: val padStart_def nat_string.simps [of k])
  next
    case False
    then have ne: "x \<noteq> []" by (auto simp: v_def digits_value_def)
    have "nat_string (10 * v + k) = nat_string v @ [c]" using False k by (subst nat_string.simps) simp
    then show ?thesis using snoc.IH snoc.prems ne by (simp add: val padStart_def v_def)
  qed
qed

lemma iso_match_Some:
  assumes "iso_match s = Some (y, m, d)"
  obtains yy mm dd where "s = yy @ CHR ''-'' # mm @ CHR ''-'' # dd" "length yy = 4" "length mm = 2" "length dd = 2"
    "list_all ascii_digit yy" "list_all ascii_digit mm" "list_all ascii_digit dd"
    "y = int (digits_value yy)" "m = int (digits_value mm)" "d = int (digits_value dd)"
proof -
  from assms have s: "length s = 10" "s ! 4 = CHR ''-''" "s ! 7 = CHR ''-''"
    "list_all ascii_digit (take 4 s @ take 2 (drop 5 s) @ drop 8 s)"
    "y = int (digits_value (take 4 s))" "m = int (digits_value (take 2 (drop 5 s)))" "d = int (digits_value (drop 8 s))"
    by (auto simp: iso_match_def split: if_splits)
  have "s = take 4 s @ s ! 4 # drop 5 s" using id_take_nth_drop [of 4 s] s(1) by simp
  also have "drop 5 s = take 2 (drop 5 s) @ s ! 7 # drop 8 s"
    using id_take_nth_drop [of 2 "drop 5 s"] s(1) by simp
  finally show thesis using that [of "take 4 s" "take 2 (drop 5 s)" "drop 8 s"] s by simp
qed

lemma isIsoDay_iff: "isIsoDay s \<longleftrightarrow> (\<exists>y m d. iso_match s = Some (y, m, d) \<and> 100 \<le> y \<and> valid_date y m d)"
proof (cases "iso_match s")
  case None
  then show ?thesis by (simp add: isIsoDay_def)
next
  case (Some p)
  obtain y m d where p: "p = (y, m, d)" by (cases p)
  have nn: "0 \<le> y" "0 \<le> m" "0 \<le> d" by (rule iso_match_Some [OF Some [unfolded p]], simp)+
  let ?probe = "Date_UTC y (m - 1) d div ms_per_day"
  have probe: "?probe = make_day (if y \<le> 99 then 1900 + y else y) (m - 1) d"
    using nn by (simp add: Date_UTC_def ms_per_day_def)
  have iso: "isIsoDay s \<longleftrightarrow> year_of ?probe = y \<and> month_of ?probe = m - 1 \<and> date_of ?probe = d"
    by (simp add: isIsoDay_def Some p Let_def)
  have "100 \<le> y \<and> valid_date y m d" if "isIsoDay s"
  proof -
    have f: "year_of ?probe = y" "month_of ?probe = m - 1" "date_of ?probe = d" using that iso by auto
    then have v: "valid_date y m d" using day_of_fields [of ?probe] by simp
    moreover have "100 \<le> y"
    proof (rule ccontr)
      assume "\<not> 100 \<le> y"
      then have q: "?probe = make_day (1900 + y) (m - 1) d" by (simp add: probe)
      have m: "nat (m - 1) < 12" "m - 1 = int (nat (m - 1))" using v by (auto simp: valid_date_def)
      have "(m - 1) div 12 = 0" "(m - 1) mod 12 = m - 1" using v by (simp_all add: valid_date_def)
      then have "day_from_year (1900 + y) \<le> ?probe"
        using month_in_year [OF m(1), of "leap_year (1900 + y)"] v by (simp add: q make_day_def Let_def valid_date_def)
      moreover have "?probe < day_from_year (y + 1)" using year_of_bounds(2) [of ?probe] f(1) by simp
      moreover have "day_from_year (y + 1) \<le> day_from_year (1900 + y)" using day_from_year_mono [of "y + 1" "1900 + y"] by simp
      ultimately show False by simp
    qed
    ultimately show ?thesis by simp
  qed
  moreover have "isIsoDay s" if "100 \<le> y" "valid_date y m d"
  proof -
    have q: "?probe = make_day y (int (nat (m - 1))) d" using that by (simp add: probe valid_date_def)
    have "nat (m - 1) < 12" "1 \<le> d" "d \<le> month_lengths (leap_year y) ! nat (m - 1)" using that(2) by (auto simp: valid_date_def)
    from fields_of_day [OF this] have "year_of ?probe = y" "month_of ?probe = int (nat (m - 1))" "date_of ?probe = d"
      unfolding q by simp_all
    then show ?thesis using that(2) by (simp add: iso valid_date_def)
  qed
  ultimately show ?thesis using Some p by auto
qed

lemma between_div: "0 < n \<Longrightarrow> k * n \<le> x \<and> x < (k + 1) * n \<longleftrightarrow> x div n = k" for n x k :: int
proof
  assume n: "0 < n" and "k * n \<le> x \<and> x < (k + 1) * n"
  then have "x = n * k + (x - k * n)" "0 \<le> x - k * n" "x - k * n < n" by (simp_all add: algebra_simps)
  then show "x div n = k" by (rule int_div_pos_eq)
next
  assume n: "0 < n" and k: "x div n = k"
  have "x = n * k + x mod n" using k by (metis mult_div_mod_eq)
  with pos_mod_bound [OF n, of x] pos_mod_sign [OF n, of x] show "k * n \<le> x \<and> x < (k + 1) * n"
    by (simp only: distrib_right mult.commute [of n k]) simp
qed

lemma digits_no_dash: "list_all ascii_digit x \<Longrightarrow> CHR ''-'' \<notin> set x"
  by (auto simp: list_all_iff ascii_digit_def less_eq_char_def)

lemma nat_string_digits: "list_all ascii_digit (nat_string n)"
proof (induction n rule: nat_string.induct)
  case (1 n)
  have "ascii_digit (char_of (48 + n mod 10))" by (simp add: ascii_digit_code)
  then show ?case using 1 by (cases "n < 10") (auto simp: nat_string.simps [of n])
qed

lemma nat_string_ne: "nat_string n \<noteq> []"
  by (subst nat_string.simps) simp

lemma pad_int_digits: "0 \<le> n \<Longrightarrow> list_all ascii_digit (padStart (int_string n) w CHR ''0'')"
  using nat_string_digits [of "nat n"]
  by (auto simp: int_string_def padStart_def list_all_iff) (simp add: ascii_digit_def less_eq_char_def)

lemma split_dash: "CHR ''-'' \<notin> set a \<Longrightarrow> CHR ''-'' \<notin> set b \<Longrightarrow> a @ CHR ''-'' # x = b @ CHR ''-'' # y \<longleftrightarrow> a = b \<and> x = y"
proof (induction a arbitrary: b)
  case Nil
  then show ?case by (cases b) auto
next
  case (Cons c a)
  then show ?case by (cases b) auto
qed

lemma pad_value: "0 \<le> n \<Longrightarrow> int (digits_value (padStart (int_string n) w CHR ''0'')) = n"
  by (simp add: digits_value_padStart int_string_def digits_value_nat_string)



end
