(* ===== verification/Customers.thy ===== *)
theory Customers
  imports Shop_Properties Dhaka_Time Delivery
begin

text \<open>
  The numbers kept about a customer: the recomputation of the cached counters
  (\<open>customers/domain/customer-stats.ts\<close>, \<open>application/customer-aggregates.service.ts\<close>,
  \<open>listeners/order-aggregates.listener.ts\<close>) and the segments of the CRM, once in the program and once in SQL
  (\<open>customers/domain/segment.ts\<close>).
\<close>

section \<open>Counting\<close>

definition PURCHASE_STATUSES :: "order_status list" where
  "PURCHASE_STATUSES = [CONFIRMED, PROCESSING, HANDED_TO_COURIER, OUT_FOR_DELIVERY, DELIVERED]"

definition CANCELLED_STATUSES :: "order_status list" where
  "CANCELLED_STATUSES = [CANCELLED, RETURNED]"

definition isLiveStatus :: "order_status \<Rightarrow> bool" where "isLiveStatus s \<longleftrightarrow> s \<in> set PURCHASE_STATUSES"

definition isCancelledStatus :: "order_status \<Rightarrow> bool" where "isCancelledStatus s \<longleftrightarrow> s \<in> set CANCELLED_STATUSES"

record order_fact =
  of_status :: order_status
  of_grandTotal :: money
  of_placedAt :: time

record customer_aggregates =
  ag_ordersCount :: int
  ag_liveOrders :: int
  ag_cancelledOrders :: int
  ag_totalSpent :: money
  ag_firstOrderAt :: "time option"
  ag_lastOrderAt :: "time option"

definition count_order :: "customer_aggregates \<Rightarrow> order_fact \<Rightarrow> customer_aggregates" where
  "count_order a o' =
     (let a = (if isLiveStatus (of_status o')
               then a\<lparr>ag_liveOrders := ag_liveOrders a + 1, ag_totalSpent := ag_totalSpent a + of_grandTotal o'\<rparr>
               else if isCancelledStatus (of_status o') then a\<lparr>ag_cancelledOrders := ag_cancelledOrders a + 1\<rparr>
               else a);
          t = of_placedAt o'
      in a\<lparr>ag_firstOrderAt := (case ag_firstOrderAt a of None \<Rightarrow> Some t | Some f \<Rightarrow> if t < f then Some t else Some f),
           ag_lastOrderAt := (case ag_lastOrderAt a of None \<Rightarrow> Some t | Some l \<Rightarrow> if t > l then Some t else Some l)\<rparr>)"

definition no_orders :: customer_aggregates where
  "no_orders = \<lparr>ag_ordersCount = 0, ag_liveOrders = 0, ag_cancelledOrders = 0, ag_totalSpent = 0, ag_firstOrderAt = None, ag_lastOrderAt = None\<rparr>"

definition aggregateOrders :: "order_fact list \<Rightarrow> customer_aggregates" where
  "aggregateOrders orders =
     (let a = foldl count_order no_orders orders
      in a\<lparr>ag_ordersCount := int (length orders), ag_totalSpent := round2 (ag_totalSpent a)\<rparr>)"

definition orders_of :: "id \<Rightarrow> 'a shop_scheme \<Rightarrow> order_fact list" where
  "orders_of c s = map (\<lambda>r. \<lparr>of_status = os_status r, of_grandTotal = or_grandTotal r, of_placedAt = or_placedAt r\<rparr>)
     (filter (\<lambda>r. or_customerId r = c) (sh_orders s))"

definition write_aggregates :: "customer_aggregates \<Rightarrow> customer_row \<Rightarrow> customer_row" where
  "write_aggregates a r = r\<lparr>cs_ordersCount := ag_ordersCount a, cs_liveOrders := ag_liveOrders a, cs_cancelledOrders := ag_cancelledOrders a,
     cs_totalSpent := ag_totalSpent a, cs_firstOrderAt := ag_firstOrderAt a, cs_lastOrderAt := ag_lastOrderAt a\<rparr>"

definition recompute :: "id \<Rightarrow> 'a shop_scheme \<Rightarrow> customer_aggregates option \<times> 'a shop_scheme" where
  "recompute c s =
     (if \<not> list_ex (\<lambda>r. cs_id r = c) (sh_customers s) then (None, s)
      else let a = aggregateOrders (orders_of c s)
           in (Some a, s\<lparr>sh_customers := map (\<lambda>r. if cs_id r = c then write_aggregates a r else r) (sh_customers s)\<rparr>))"

definition onPlaced :: "id \<Rightarrow> 'a shop_scheme \<Rightarrow> 'a shop_scheme" where
  "onPlaced customerId s = snd (recompute customerId s)"

definition onStatus :: "id \<Rightarrow> 'a shop_scheme \<Rightarrow> 'a shop_scheme" where
  "onStatus customerId s = snd (recompute customerId s)"

section \<open>Statistics\<close>

definition share :: "decimal_js \<Rightarrow> rat \<Rightarrow> rat \<Rightarrow> int" where
  "share J part whole = (if whole > 0 then js_round (dbl J (dbl J (part / whole) * 100)) else 0)"

definition favourite :: "decimal_js \<Rightarrow> (string option \<times> rat) list \<Rightarrow> (string \<times> int) option" where
  "favourite J rows =
     (let valid = filter (\<lambda>r. truthy (fst r) \<and> snd r > 0) rows
      in case sort_key (\<lambda>r. - snd r) valid of
           [] \<Rightarrow> None
         | best # _ \<Rightarrow> Some (the (fst best), share J (snd best) (foldl (\<lambda>s r. dbl J (s + snd r)) 0 valid)))"

text \<open>The first seven characters of \<open>toISOString\<close>, for the years it prints with four digits.\<close>

definition month_key :: "int \<Rightarrow> string" where
  "month_key d = padStart (int_string (year_of d)) 4 CHR ''0'' @ ''-'' @ padStart (int_string (month_of d + 1)) 2 CHR ''0''"

definition dhakaMonthKey :: "time \<Rightarrow> string" where
  "dhakaMonthKey at_t = month_key ((at_t + DHAKA_OFFSET_MS) div ms_per_day)"

record month_value =
  mv_month :: string
  mv_amount :: rat
  mv_orders :: int

text \<open>\<open>new Map\<close> keeps the last row of a month.\<close>

definition monthlySeries :: "month_value list \<Rightarrow> nat \<Rightarrow> time \<Rightarrow> month_value list" where
  "monthlySeries rows n now =
     (let local = (now + DHAKA_OFFSET_MS) div ms_per_day
      in map (\<lambda>i. let key = month_key (Date_UTC (year_of local) (month_of local - int i) 1 div ms_per_day)
            in case find (\<lambda>r. mv_month r = key) (rev rows) of
                 Some hit \<Rightarrow> \<lparr>mv_month = key, mv_amount = mv_amount hit, mv_orders = mv_orders hit\<rparr>
               | None \<Rightarrow> \<lparr>mv_month = key, mv_amount = 0, mv_orders = 0\<rparr>)
          (rev [0..<n]))"

definition dhakaMonthStart :: "time \<Rightarrow> int \<Rightarrow> time" where
  "dhakaMonthStart now offset =
     (let local = (now + DHAKA_OFFSET_MS) div ms_per_day
      in Date_UTC (year_of local) (month_of local + offset) 1 - DHAKA_OFFSET_MS)"

section \<open>Segments\<close>

datatype segment = Seg_new | Seg_regular | Seg_vip | Seg_risk | Seg_sleep

definition riskMinOrders :: int where "riskMinOrders = 2"
definition riskCancelRate :: rat where "riskCancelRate = 1 / 2"
definition vipMinLive :: int where "vipMinLive = 5"
definition vipMinSpent :: rat where "vipMinSpent = 5000"
definition sleepDays :: int where "sleepDays = 60"
definition regularMinLive :: int where "regularMinLive = 2"

record segment_input =
  sg_ordersCount :: int
  sg_liveOrders :: int
  sg_cancelledOrders :: int
  sg_totalSpent :: rat
  sg_lastOrderAt :: "time option"
  sg_vipTagged :: bool

definition VIP_TAG :: jstr where "VIP_TAG = js ''VIP''"

definition upper_js :: "jstr \<Rightarrow> jstr" where
  "upper_js s = map (\<lambda>d. if 97 \<le> d \<and> d \<le> 122 then d - 32 else d) s"

definition hasVipTag :: "jstr list \<Rightarrow> bool" where
  "hasVipTag names = list_ex (\<lambda>n. upper_js (jtrim n) = VIP_TAG) names"

text \<open>The quotient is a double.\<close>

definition segmentOf :: "decimal_js \<Rightarrow> segment_input \<Rightarrow> time \<Rightarrow> segment" where
  "segmentOf J c now =
     (if sg_vipTagged c then Seg_vip
      else if sg_ordersCount c \<ge> riskMinOrders \<and> dbl J (of_int (sg_cancelledOrders c) / of_int (sg_ordersCount c)) \<ge> riskCancelRate then Seg_risk
      else if sg_liveOrders c \<ge> vipMinLive \<or> sg_totalSpent c \<ge> vipMinSpent then Seg_vip
      else if (case sg_lastOrderAt c of None \<Rightarrow> False | Some t \<Rightarrow> now - t > sleepDays * ms_per_day) then Seg_sleep
      else if sg_liveOrders c \<ge> regularMinLive then Seg_regular
      else Seg_new)"

text \<open>The \<open>CASE\<close> of the database; the tag is found by the query.\<close>

definition segmentCaseSql :: "segment_input \<Rightarrow> time \<Rightarrow> segment" where
  "segmentCaseSql c now =
     (if sg_vipTagged c then Seg_vip
      else if sg_ordersCount c \<ge> riskMinOrders \<and> of_int (sg_cancelledOrders c) * (1 / riskCancelRate) \<ge> of_int (sg_ordersCount c) then Seg_risk
      else if sg_liveOrders c \<ge> vipMinLive \<or> sg_totalSpent c \<ge> vipMinSpent then Seg_vip
      else if sg_lastOrderAt c \<noteq> None \<and> the (sg_lastOrderAt c) < now - sleepDays * ms_per_day then Seg_sleep
      else if sg_liveOrders c \<ge> regularMinLive then Seg_regular
      else Seg_new)"

definition cancelRate :: "decimal_js \<Rightarrow> int \<Rightarrow> int \<Rightarrow> rat" where
  "cancelRate J ordersCount cancelled =
     (if ordersCount > 0 then dbl J (of_int (js_round (dbl J (dbl J (of_int cancelled / of_int ordersCount) * 1000))) / 10) else 0)"

section \<open>The segments agree\<close>

text \<open>What a double promises: nearest values keep the order and one half, and err by at most one part in \<open>2 ^ 53\<close>.\<close>

definition rounds_like_double :: "(rat \<Rightarrow> rat) \<Rightarrow> bool" where
  "rounds_like_double f \<longleftrightarrow> (\<forall>x y. x \<le> y \<longrightarrow> f x \<le> f y) \<and> f (1 / 2) = 1 / 2 \<and> (\<forall>x. \<bar>f x - x\<bar> \<le> \<bar>x\<bar> / 2 ^ 53)"

lemma half_quotient:
  assumes f: "rounds_like_double f" and n: "0 < n" "n \<le> 2 ^ 31" and c: "0 \<le> c"
  shows "f (of_int c / of_int n) \<ge> 1 / 2 \<longleftrightarrow> n \<le> c * 2"
proof
  assume "n \<le> c * 2"
  then have "of_int n \<le> (of_int (c * 2) :: rat)" by (simp only: of_int_le_iff)
  then have "of_int n \<le> (of_int c * 2 :: rat)" by simp
  then have "1 / 2 \<le> (of_int c / of_int n :: rat)" using n(1) by (simp add: field_simps)
  with f show "1 / 2 \<le> f (of_int c / of_int n)" unfolding rounds_like_double_def by metis
next
  assume a: "1 / 2 \<le> f (of_int c / of_int n)"
  show "n \<le> c * 2"
  proof (rule ccontr)
    assume "\<not> n \<le> c * 2"
    then have "c * 2 + 1 \<le> n" by simp
    then have "of_int (c * 2 + 1) \<le> (of_int n :: rat)" by (simp only: of_int_le_iff)
    then have le: "of_int c * 2 + 1 \<le> (of_int n :: rat)" by simp
    define x where "x = (of_int c / of_int n :: rat)"
    have n': "0 < (of_int n :: rat)" "of_int n \<le> (2 ^ 31 :: rat)"
      using n of_int_le_iff [of n "2 ^ 31", where 'a = rat] by simp_all
    have x0: "0 \<le> x" using c n(1) by (simp add: x_def)
    have "x = (of_int c * 2) / (2 * of_int n)" using n'(1) by (simp add: x_def)
    also have "\<dots> \<le> (of_int n - 1) / (2 * of_int n)" using le n'(1) by (intro divide_right_mono) auto
    also have "\<dots> = 1 / 2 - 1 / (2 * of_int n)" using n'(1) by (simp add: field_simps)
    finally have x1: "x \<le> 1 / 2 - 1 / (2 * of_int n)" .
    have "1 / (2 * 2 ^ 31) \<le> (1 / (2 * of_int n) :: rat)" using n' by (intro divide_left_mono) auto
    then have x2: "x \<le> 1 / 2 - 1 / 2 ^ 32" using x1 by simp
    have "\<bar>f x - x\<bar> \<le> \<bar>x\<bar> / 2 ^ 53" using f unfolding rounds_like_double_def by blast
    then have "f x \<le> x + x / 2 ^ 53" using x0 abs_le_D1 [of "f x - x" "x / 2 ^ 53"] by simp
    also have "\<dots> = x * (1 + 1 / 2 ^ 53)" by (simp add: distrib_left)
    also have "\<dots> \<le> (1 / 2 - 1 / 2 ^ 32) * (1 + 1 / 2 ^ 53)" using x2 by (rule mult_right_mono) simp
    also have "\<dots> < 1 / 2" by simp
    finally show False using a by (simp add: x_def)
  qed
qed



section \<open>Recomputing\<close>

lemma count_order_fold:
  "ag_liveOrders (foldl count_order a os) = ag_liveOrders a + int (length (filter (\<lambda>o'. isLiveStatus (of_status o')) os)) \<and>
   ag_cancelledOrders (foldl count_order a os) = ag_cancelledOrders a + int (length (filter (\<lambda>o'. isCancelledStatus (of_status o')) os)) \<and>
   ag_totalSpent (foldl count_order a os) = ag_totalSpent a + sum_list (map of_grandTotal (filter (\<lambda>o'. isLiveStatus (of_status o')) os))"
proof (induction os arbitrary: a)
  case (Cons o' os)
  have "isLiveStatus st \<Longrightarrow> \<not> isCancelledStatus st" for st
    by (auto simp: isLiveStatus_def isCancelledStatus_def PURCHASE_STATUSES_def CANCELLED_STATUSES_def)
  with Cons [of "count_order a o'"] show ?case by (auto simp: count_order_def Let_def)
qed simp

lemma fold_first:
  "ag_firstOrderAt (foldl count_order a os) =
     (case ag_firstOrderAt a of None \<Rightarrow> (if os = [] then None else Some (Min (of_placedAt ` set os)))
      | Some f \<Rightarrow> Some (Min (insert f (of_placedAt ` set os))))"
proof (induction os arbitrary: a)
  case Nil
  then show ?case by (simp split: option.split)
next
  case (Cons o' os)
  have step: "ag_firstOrderAt (count_order a o') = (case ag_firstOrderAt a of None \<Rightarrow> Some (of_placedAt o') | Some f \<Rightarrow> Some (min (of_placedAt o') f))"
    by (auto simp: count_order_def Let_def min_def split: option.split)
  show ?case
  proof (cases "ag_firstOrderAt a")
    case None
    then show ?thesis using Cons [of "count_order a o'"] step by simp
  next
    case (Some f)
    have "Min (insert (min (of_placedAt o') f) (of_placedAt ` set os)) = Min (insert f (of_placedAt ` set (o' # os)))"
      by (cases "os = []") (simp_all add: min.assoc min.left_commute min.commute)
    then show ?thesis using Cons [of "count_order a o'"] step Some by simp
  qed
qed

lemma fold_last:
  "ag_lastOrderAt (foldl count_order a os) =
     (case ag_lastOrderAt a of None \<Rightarrow> (if os = [] then None else Some (Max (of_placedAt ` set os)))
      | Some f \<Rightarrow> Some (Max (insert f (of_placedAt ` set os))))"
proof (induction os arbitrary: a)
  case Nil
  then show ?case by (simp split: option.split)
next
  case (Cons o' os)
  have step: "ag_lastOrderAt (count_order a o') = (case ag_lastOrderAt a of None \<Rightarrow> Some (of_placedAt o') | Some f \<Rightarrow> Some (max (of_placedAt o') f))"
    by (auto simp: count_order_def Let_def max_def split: option.split)
  show ?case
  proof (cases "ag_lastOrderAt a")
    case None
    then show ?thesis using Cons [of "count_order a o'"] step by simp
  next
    case (Some f)
    have "Max (insert (max (of_placedAt o') f) (of_placedAt ` set os)) = Max (insert f (of_placedAt ` set (o' # os)))"
      by (cases "os = []") (simp_all add: max.assoc max.left_commute max.commute)
    then show ?thesis using Cons [of "count_order a o'"] step Some by simp
  qed
qed

text \<open>The order does not matter, and what is written are the plain counts.\<close>

lemma aggregateOrders_counts:
  "ag_ordersCount (aggregateOrders os) = int (length os)"
  "ag_liveOrders (aggregateOrders os) = int (length (filter (\<lambda>o'. isLiveStatus (of_status o')) os))"
  "ag_cancelledOrders (aggregateOrders os) = int (length (filter (\<lambda>o'. isCancelledStatus (of_status o')) os))"
  "ag_totalSpent (aggregateOrders os) = round2 (sum_list (map of_grandTotal (filter (\<lambda>o'. isLiveStatus (of_status o')) os)))"
  "ag_firstOrderAt (aggregateOrders os) = (if os = [] then None else Some (Min (of_placedAt ` set os)))"
  "ag_lastOrderAt (aggregateOrders os) = (if os = [] then None else Some (Max (of_placedAt ` set os)))"
  using count_order_fold [of no_orders os] fold_first [of no_orders os] fold_last [of no_orders os]
  by (simp_all add: aggregateOrders_def Let_def no_orders_def)

text \<open>
  A recomputation leaves the orders alone and depends on nothing else: the counters it writes are the
  number of orders, of confirmed and of lost ones, the money of the confirmed ones and the first and last
  instant; and the next recomputation, of whatever event, writes the same.
\<close>

theorem recompute_converges:
  assumes "recompute c s = (Some a, s')"
  shows "sh_orders s' = sh_orders s \<and> recompute c s' = (Some a, s') \<and>
    ag_ordersCount a = int (length (orders_of c s)) \<and>
    ag_liveOrders a = int (length (filter (\<lambda>o'. isLiveStatus (of_status o')) (orders_of c s))) \<and>
    ag_cancelledOrders a = int (length (filter (\<lambda>o'. isCancelledStatus (of_status o')) (orders_of c s))) \<and>
    ag_totalSpent a = round2 (sum_list (map of_grandTotal (filter (\<lambda>o'. isLiveStatus (of_status o')) (orders_of c s)))) \<and>
    ag_lastOrderAt a = (if orders_of c s = [] then None else Some (Max (of_placedAt ` set (orders_of c s)))) \<and>
    (\<exists>r \<in> set (sh_customers s'). cs_id r = c \<and> cs_liveOrders r = ag_liveOrders a \<and> cs_totalSpent r = ag_totalSpent a)"
proof -
  from assms obtain r where r: "r \<in> set (sh_customers s)" "cs_id r = c" and a: "a = aggregateOrders (orders_of c s)"
    and s': "s' = s\<lparr>sh_customers := map (\<lambda>r. if cs_id r = c then write_aggregates a r else r) (sh_customers s)\<rparr>"
    by (auto simp: recompute_def Let_def list_ex_iff split: if_splits)
  have o: "orders_of c s' = orders_of c s" by (simp add: orders_of_def s')
  have "write_aggregates a (write_aggregates a x) = write_aggregates a x" "cs_id (write_aggregates a x) = cs_id x" for x
    by (simp_all add: write_aggregates_def)
  then have "map (\<lambda>r. if cs_id r = c then write_aggregates a r else r) (sh_customers s') = sh_customers s'"
    by (auto simp: s' comp_def)
  moreover have w: "write_aggregates a r \<in> set (sh_customers s')" "cs_id (write_aggregates a r) = c"
    using r by (auto simp: s' write_aggregates_def)
  then have "list_ex (\<lambda>r. cs_id r = c) (sh_customers s')" by (auto simp: list_ex_iff)
  ultimately have "recompute c s' = (Some a, s')" by (simp add: recompute_def o a [symmetric])
  moreover have "\<exists>r \<in> set (sh_customers s'). cs_id r = c \<and> cs_liveOrders r = ag_liveOrders a \<and> cs_totalSpent r = ag_totalSpent a"
    by (intro bexI [of _ "write_aggregates a r"] conjI w) (simp_all add: write_aggregates_def)
  moreover have "sh_orders s' = sh_orders s" by (simp add: s')
  ultimately show ?thesis by (simp add: a aggregateOrders_counts)
qed

theorem recompute_converges_witness:
  "\<exists>a s'. recompute ''c1'' sample_shop = (Some a, s') \<and> recompute ''c1'' s' = (Some a, s') \<and> ag_ordersCount a = 1 \<and> ag_liveOrders a = 0"
proof -
  have f: "orders_of ''c1'' sample_shop = [\<lparr>of_status = PENDING, of_grandTotal = 120, of_placedAt = 0\<rparr>]"
    by (simp add: orders_of_def sample_shop_def pending_order_def)
  obtain a s' where r: "recompute ''c1'' sample_shop = (Some a, s')"
    by (simp add: recompute_def Let_def sample_shop_def)
  show ?thesis using recompute_converges [OF r] r
    by (intro exI [of _ a] exI [of _ s']) (simp add: f isLiveStatus_def PURCHASE_STATUSES_def)
qed

definition cancel_command :: transition_command where
  "cancel_command = \<lparr>tc_to = CANCELLED, tc_mode = Advance, tc_note = None, tc_credit = None, tc_expectedVersion = None\<rparr>"


end
