(* ===== verification/Purchases.thy ===== *)
theory Purchases
  imports Documents Dhaka_Time Cashbook
begin

text \<open>
  Supplier bills and the suppliers (\<open>finance/purchasing/application/purchases.service.ts\<close>,
  \<open>suppliers.service.ts\<close>). A bill takes its number, receives its lines into stock and may be paid at once
  or later out of a cash account. Audit entries and columns that are only shown are left out.
\<close>

section \<open>The tables\<close>

record supplier =
  su_id :: id
  su_name :: jstr
  su_phone :: "string option"
  su_email :: "string option"
  su_deletedAt :: "time option"

record purchase_item =
  pi_purchaseId :: id
  pi_productId :: id
  pi_quantity :: int
  pi_unitCost :: money
  pi_lineTotal :: money

record procurement = books +
  sp_suppliers :: "supplier list"
  sp_items :: "purchase_item list"

section \<open>Dates\<close>

definition bill_when :: "(string \<Rightarrow> time option) \<Rightarrow> string option \<Rightarrow> time \<Rightarrow> time result" where
  "bill_when date_parse input now =
     (case parseWhen date_parse input now of
        None \<Rightarrow> Inl (BusinessRuleError ''purchase.date_invalid'')
      | Some d \<Rightarrow> if d > now + 5 * 60000 then Inl (BusinessRuleError ''purchase.date_future'') else Inr d)"

section \<open>A new bill\<close>

record pay_now =
  pn_accountId :: id
  pn_amount :: "money option"

record create_purchase_dto =
  cp_supplierId :: id
  cp_purchasedAt :: "string option"
  cp_lines :: "purchase_line list"
  cp_otherCharges :: "money option"
  cp_payment :: "pay_now option"

definition live_supplier :: "id \<Rightarrow> 'a procurement_scheme \<Rightarrow> supplier option" where
  "live_supplier i s = find (\<lambda>x. su_id x = i \<and> su_deletedAt x = None) (sp_suppliers s)"

definition known_product :: "'a procurement_scheme \<Rightarrow> id \<Rightarrow> bool" where
  "known_product s p = (case st_products s p of None \<Rightarrow> False | Some r \<Rightarrow> pr_deletedAt r = None)"

text \<open>The insert of the bill and its lines, with the constraints of both tables.\<close>

definition check_purchase_item :: "priced_purchase_line \<Rightarrow> unit result" where
  "check_purchase_item l =
     (if \<not> 0 < pl_quantity l then Inl (CheckViolation ''purchase_items_qty'')
      else if \<not> (0 \<le> pl_unitCost l \<and> pl_lineTotal l = of_int (pl_quantity l) * pl_unitCost l) then Inl (CheckViolation ''purchase_items_cost'')
      else Inr ())"

definition insert_purchase :: "purchase \<Rightarrow> priced_purchase_line list \<Rightarrow> 'a procurement_scheme \<Rightarrow> ('a procurement_scheme) result" where
  "insert_purchase p lines s =
     (if list_ex (\<lambda>x. pu_purchaseNo x = pu_purchaseNo p) (tl_purchases s) then Inl (DomainError ''P2002'' 500)
      else if \<not> (0 \<le> pu_subtotal p \<and> 0 \<le> pu_otherCharges p \<and> pu_total p = pu_subtotal p + pu_otherCharges p)
      then Inl (CheckViolation ''purchases_amounts'')
      else if pu_amountPaid p < 0 \<or> pu_amountPaid p > pu_total p then Inl (CheckViolation ''purchases_paid'')
      else ebind (efold (\<lambda>l _. check_purchase_item l) lines ()) (\<lambda>_.
        Inr (s\<lparr>tl_purchases := tl_purchases s @ [p],
               sp_items := sp_items s @ map (\<lambda>l. \<lparr>pi_purchaseId = pu_id p, pi_productId = pl_productId l, pi_quantity = pl_quantity l,
                  pi_unitCost = pl_unitCost l, pi_lineTotal = pl_lineTotal l\<rparr>) lines\<rparr>)))"

definition bill_word :: jstr where "bill_word = [2453, 2509, 2480, 2479, 2492, 32]"

definition receive_line :: "id \<Rightarrow> priced_purchase_line \<Rightarrow> 'a procurement_scheme \<Rightarrow> ('a procurement_scheme) result" where
  "receive_line purchaseId l s =
     ebind (receive (pl_productId l) (pl_quantity l) (pl_unitCost l) \<lparr>sc_orderId = None, sc_purchaseId = Some purchaseId\<rparr> s) (\<lambda>(r, s). Inr s)"

text \<open>What is paid with the bill: the amount named, the whole bill when none is, nothing without a payment.\<close>

definition paid_now :: "pay_now option \<Rightarrow> money \<Rightarrow> money" where
  "paid_now payment tot = (case payment of None \<Rightarrow> 0 | Some p \<Rightarrow> (case pn_amount p of Some a \<Rightarrow> a | None \<Rightarrow> tot))"

definition create_tx :: "time \<Rightarrow> purchase_totals \<Rightarrow> create_purchase_dto \<Rightarrow> 'a procurement_scheme \<Rightarrow> (id \<times> 'a procurement_scheme) result" where
  "create_tx purchasedAt totals dto s =
     (case live_supplier (cp_supplierId dto) s of
        None \<Rightarrow> Inl (NotFoundError ''Supplier'' (cp_supplierId dto))
      | Some supplier \<Rightarrow>
          (case find (\<lambda>l. \<not> known_product s (pl_productId l)) (pt_lines totals) of
             Some l \<Rightarrow> Inl (NotFoundError ''Product'' (pl_productId l))
           | None \<Rightarrow>
               let paid = paid_now (cp_payment dto) (pt_total totals)
               in if paid > pt_total totals then Inl (BusinessRuleError ''purchase.overpayment'')
                  else
                    let (purchaseNo, s) = counter_next C_purchase s;
                        (i, s) = fresh_id s
                    in ebind (insert_purchase \<lparr>pu_id = i, pu_purchaseNo = purchaseNo, pu_supplierId = su_id supplier, pu_status = Pu_RECEIVED,
                          pu_paymentStatus = settlementStatus (pt_total totals) paid, pu_subtotal = pt_subtotal totals,
                          pu_otherCharges = pt_otherCharges totals, pu_total = pt_total totals, pu_amountPaid = paid\<rparr> (pt_lines totals) s) (\<lambda>s.
                       ebind (efold (receive_line i) (pt_lines totals) s) (\<lambda>s.
                       case cp_payment dto of
                         None \<Rightarrow> Inr (i, s)
                       | Some p \<Rightarrow>
                           if paid > 0
                           then ebind (post (no_entry\<lparr>pe_ref := AccountId (pn_accountId p), pe_direction := OUT, pe_kind := PURCHASE_PAYMENT,
                                  pe_amount := paid, pe_memo := bill_word @ js purchaseNo @ [32, 183, 32] @ su_name supplier,
                                  pe_purchaseId := Some i, pe_occurredAt := Some purchasedAt\<rparr>) s) (\<lambda>(t, s). Inr (i, s))
                           else Inr (i, s)))))"

definition create_purchase :: "(string \<Rightarrow> time option) \<Rightarrow> create_purchase_dto \<Rightarrow> 'a procurement_scheme \<Rightarrow> (id \<times> 'a procurement_scheme) result" where
  "create_purchase date_parse dto s =
     ebind (bill_when date_parse (cp_purchasedAt dto) (st_now s)) (\<lambda>purchasedAt.
       let lines = merge_purchase_lines (cp_lines dto);
           totals = purchaseTotals lines (case cp_otherCharges dto of Some c \<Rightarrow> c | None \<Rightarrow> 0)
       in create_tx purchasedAt totals dto s)"

section \<open>Paying later\<close>

record purchase_payment_dto =
  pp_accountId :: id
  pp_amount :: money
  pp_occurredAt :: "string option"
  pp_memo :: "jstr option"

definition pay_tx :: "time \<Rightarrow> id \<Rightarrow> purchase_payment_dto \<Rightarrow> 'a till_scheme \<Rightarrow> ('a till_scheme) result" where
  "pay_tx occurredAt i dto s =
     (case find (\<lambda>p. pu_id p = i) (tl_purchases s) of
        None \<Rightarrow> Inl (NotFoundError ''Purchase'' i)
      | Some p \<Rightarrow>
          if pu_status p = Pu_CANCELLED then Inl (BusinessRuleError ''purchase.cancelled'')
          else (case checkPayment (pu_total p) (pu_amountPaid p) (pp_amount dto) of
             Inl code \<Rightarrow> Inl (BusinessRuleError code)
           | Inr u \<Rightarrow>
               let paid = dec_min (pu_amountPaid p + pp_amount dto) (pu_total p)
               in ebind (put_purchase (p\<lparr>pu_amountPaid := paid, pu_paymentStatus := settlementStatus (pu_total p) paid\<rparr>) s) (\<lambda>s.
                  ebind (post (no_entry\<lparr>pe_ref := AccountId (pp_accountId dto), pe_direction := OUT, pe_kind := PURCHASE_PAYMENT,
                           pe_amount := pp_amount dto,
                           pe_memo := (case trimmed (pp_memo dto) of Some m \<Rightarrow> m
                             | None \<Rightarrow> bill_word @ js (pu_purchaseNo p) @ [32, 2474, 2480, 2495, 2486, 2507, 2471]),
                           pe_purchaseId := Some i, pe_occurredAt := Some occurredAt\<rparr>) s) (\<lambda>(t, s). Inr s))))"

definition pay_purchase :: "(string \<Rightarrow> time option) \<Rightarrow> id \<Rightarrow> purchase_payment_dto \<Rightarrow> 'a till_scheme \<Rightarrow> ('a till_scheme) result" where
  "pay_purchase date_parse i dto s =
     ebind (bill_when date_parse (pp_occurredAt dto) (st_now s)) (\<lambda>occurredAt. pay_tx occurredAt i dto s)"

section \<open>Suppliers\<close>

text \<open>\<open>phoneOrNull\<close>: the outer \<open>None\<close> leaves the column alone.\<close>

definition phoneOrNull :: "jstr option \<Rightarrow> (string option option) result" where
  "phoneOrNull input =
     (case input of
        None \<Rightarrow> Inr None
      | Some x \<Rightarrow>
          if jtrim x = [] then Inr (Some None)
          else (case normalizeBdPhone (Some x) of
              None \<Rightarrow> Inl (BusinessRuleError ''supplier.phone_invalid'')
            | Some p \<Rightarrow> Inr (Some (Some p))))"

definition open_bill :: "id \<Rightarrow> purchase \<Rightarrow> bool" where
  "open_bill i p \<longleftrightarrow> pu_supplierId p = i \<and> pu_status p \<noteq> Pu_CANCELLED"

definition duesFor :: "id \<Rightarrow> 'a till_scheme \<Rightarrow> money" where
  "duesFor i s =
     (let bills = filter (open_bill i) (tl_purchases s)
      in toNumber (Some (dec_sum (map pu_total bills) - dec_sum (map pu_amountPaid bills))))"

text \<open>The bills with something left to pay, by supplier.\<close>

definition dues :: "'a procurement_scheme \<Rightarrow> (id \<times> nat \<times> money) list \<times> money" where
  "dues s =
     (let bills_of = (\<lambda>x. filter (\<lambda>p. open_bill (su_id x) p \<and> pu_amountPaid p < pu_total p) (tl_purchases s));
          rows = map (\<lambda>x. (su_id x, length (bills_of x), dec_sum (map (\<lambda>p. pu_total p - pu_amountPaid p) (bills_of x))))
                   (filter (\<lambda>x. bills_of x \<noteq> []) (sp_suppliers s));
          rows = sort_key (\<lambda>(i, n, due). - due) rows
      in (map (\<lambda>(i, n, due). (i, n, toNumber (Some due))) rows, toNumber (Some (dec_sum (map (\<lambda>(i, n, due). due) rows)))))"

definition create_supplier :: "jstr \<Rightarrow> jstr option \<Rightarrow> string option \<Rightarrow> 'a procurement_scheme \<Rightarrow> (id \<times> 'a procurement_scheme) result" where
  "create_supplier name phone email s =
     ebind (phoneOrNull phone) (\<lambda>p.
       let (i, s) = fresh_id s
       in Inr (i, s\<lparr>sp_suppliers := sp_suppliers s @ [\<lparr>su_id = i, su_name = jtrim name,
            su_phone = (case p of Some x \<Rightarrow> x | None \<Rightarrow> None), su_email = email, su_deletedAt = None\<rparr>]\<rparr>))"

definition update_supplier :: "id \<Rightarrow> jstr option \<Rightarrow> jstr option \<Rightarrow> string option \<Rightarrow> 'a procurement_scheme \<Rightarrow> ('a procurement_scheme) result" where
  "update_supplier i name phone email s =
     (case live_supplier i s of
        None \<Rightarrow> Inl (NotFoundError ''Supplier'' i)
      | Some cur \<Rightarrow>
          ebind (phoneOrNull phone) (\<lambda>p.
            Inr (s\<lparr>sp_suppliers := map (\<lambda>x. if su_id x = i
               then x\<lparr>su_name := (case name of Some n \<Rightarrow> jtrim n | None \<Rightarrow> su_name x),
                      su_phone := (case p of Some v \<Rightarrow> v | None \<Rightarrow> su_phone x),
                      su_email := (case email of Some e \<Rightarrow> Some e | None \<Rightarrow> su_email x)\<rparr> else x) (sp_suppliers s)\<rparr>)))"

definition remove_supplier :: "id \<Rightarrow> 'a procurement_scheme \<Rightarrow> ('a procurement_scheme) result" where
  "remove_supplier i s =
     (case live_supplier i s of
        None \<Rightarrow> Inl (NotFoundError ''Supplier'' i)
      | Some cur \<Rightarrow>
          if duesFor i s > 0 then Inl (BusinessRuleError ''supplier.has_due'')
          else Inr (s\<lparr>sp_suppliers := map (\<lambda>x. if su_id x = i then x\<lparr>su_deletedAt := Some (st_now s)\<rparr> else x) (sp_suppliers s)\<rparr>))"

end
