(* ===== verification/Purchases_Properties.thy ===== *)
theory Purchases_Properties
  imports Purchases Cash_Properties Stock_Properties Order_Laws
begin

text \<open>
  Supplier bills against the cash book: what a bill says was paid is what its live payments add up to,
  whatever is bought, paid, entered, moved or taken back, and the shelves receive what was bought.
\<close>

section \<open>Live sums\<close>

lemma sum_filter_without:
  fixes f :: "'b \<Rightarrow> money"
  assumes "distinct xs" "x \<in> set xs"
  shows "sum_list (map f (filter (\<lambda>y. P y \<and> y \<noteq> x) xs)) = sum_list (map f (filter P xs)) - (if P x then f x else 0)"
  using assms
proof (induction xs)
  case (Cons y ys)
  have "filter (\<lambda>z. P z \<and> z \<noteq> x) ys = filter P ys" if "x \<notin> set ys" using that by (intro filter_cong) auto
  with Cons show ?case by (cases "x = y") auto
qed simp

lemma post_links:
  assumes "post e s = Inr (t, s')"
  shows "ct_purchaseId t = pe_purchaseId e" "ct_reversesId t = pe_reversesId e" "ct_kind t = pe_kind e"
  using assms by (auto simp: post_def Let_def err_simps insert_txn_def fresh_id_def split: if_splits)

lemma total_grows:
  assumes "grows s new s'" "till_ok s" "\<forall>x \<in> set new. ct_reversesId x = None"
  shows "total w s' = total w s + sum_list (map ct_amount (filter (txn_match w) new))"
proof -
  have tx: "tl_txns s' = tl_txns s @ new" using assms(1) by (simp add: grows_def)
  have old: "live_txn s' t = live_txn s t" for t using assms(3) by (auto simp: live_txn_def tx list_ex_iff)
  have "filter (\<lambda>t. txn_match w t \<and> live_txn s' t) new = filter (txn_match w) new"
    using fresh_live [OF assms(1) _ assms(3,2)] by (intro filter_cong) auto
  then show ?thesis by (simp add: total_def tx old [abs_def] old)
qed

lemma total_reversal:
  assumes "grows s [t] s'" "till_ok s" "mirrors t leg" "leg \<in> set (tl_txns s)" "live_txn s leg"
  shows "total w s' = total w s - (if txn_match w leg then ct_amount leg else 0)"
    and "x \<in> set (tl_txns s) \<Longrightarrow> x \<noteq> leg \<Longrightarrow> live_txn s x \<Longrightarrow> live_txn s' x"
proof -
  have tx: "tl_txns s' = tl_txns s @ [t]" using assms(1) by (simp add: grows_def)
  have inj: "inj_on ct_id (set (tl_txns s))" and d: "distinct (tl_txns s)" using assms(2) by (simp_all add: till_ok_def distinct_map)
  have live: "live_txn s' x \<longleftrightarrow> live_txn s x \<and> x \<noteq> leg" if "x \<in> set (tl_txns s)" for x
    using that assms(3,4) inj_onD [OF inj] by (auto simp: live_txn_def tx mirrors_def)
  then show "x \<in> set (tl_txns s) \<Longrightarrow> x \<noteq> leg \<Longrightarrow> live_txn s x \<Longrightarrow> live_txn s' x" by blast
  have "filter (\<lambda>x. txn_match w x \<and> live_txn s' x) (tl_txns s) = filter (\<lambda>x. (txn_match w x \<and> live_txn s x) \<and> x \<noteq> leg) (tl_txns s)"
    using live by (intro filter_cong) auto
  moreover have "\<not> live_txn s' t" using assms(3) by (simp add: live_txn_def mirrors_def)
  ultimately have "total w s' = sum_list (map ct_amount (filter (\<lambda>x. (txn_match w x \<and> live_txn s x) \<and> x \<noteq> leg) (tl_txns s)))"
    by (simp add: total_def tx)
  also have "\<dots> = total w s - (if txn_match w leg \<and> live_txn s leg then ct_amount leg else 0)"
    unfolding total_def by (rule sum_filter_without [OF d assms(4)])
  finally show "total w s' = total w s - (if txn_match w leg then ct_amount leg else 0)" using assms(5) by simp
qed

lemma total_nonneg: "till_ok s \<Longrightarrow> 0 \<le> total w s"
  unfolding total_def by (rule sum_list_nonneg) (auto simp: till_ok_def txn_ok_def intro: less_imp_le)

section \<open>The bills\<close>

text \<open>The payments of one bill, in the ledger's own filter.\<close>

definition of_bill :: "id \<Rightarrow> txn_filter" where
  "of_bill p = \<lparr>tf_orderId = None, tf_purchaseId = Some p, tf_kind = PURCHASE_PAYMENT, tf_direction = None, tf_memo = None\<rparr>"

lemma of_bill_match: "txn_match (of_bill p) t \<longleftrightarrow> ct_purchaseId t = Some p \<and> ct_kind t = PURCHASE_PAYMENT"
  by (simp add: txn_match_def of_bill_def)

definition bill_ok :: "'a till_scheme \<Rightarrow> purchase \<Rightarrow> bool" where
  "bill_ok s p \<longleftrightarrow> pu_amountPaid p = total (of_bill (pu_id p)) s \<and> pu_amountPaid p \<le> pu_total p \<and>
     pu_paymentStatus p = settlementStatus (pu_total p) (pu_amountPaid p)"

definition link_ok :: "'a till_scheme \<Rightarrow> cash_txn \<Rightarrow> bool" where
  "link_ok s t \<longleftrightarrow> (case ct_purchaseId t of None \<Rightarrow> True
     | Some i \<Rightarrow> i \<in> pu_id ` set (tl_purchases s) \<and> (ct_kind t = PURCHASE_PAYMENT \<longrightarrow> ct_reversesId t = None \<longrightarrow> ct_direction t = OUT))"

definition bills_ok :: "'a till_scheme \<Rightarrow> bool" where
  "bills_ok s \<longleftrightarrow> till_ok s \<and> distinct (map pu_id (tl_purchases s)) \<and> (\<forall>p \<in> set (tl_purchases s). issued s (pu_id p) \<and> bill_ok s p) \<and>
     (\<forall>t \<in> set (tl_txns s). link_ok s t)"

lemma bills_okI:
  assumes "bills_ok s" "till_ok s'" "tl_uuid s' = tl_uuid s" "tl_issued s \<le> tl_issued s'" "tl_txns s' = tl_txns s @ new"
    and "map pu_id (tl_purchases s') = map pu_id (tl_purchases s)" "\<forall>x \<in> set (tl_purchases s'). bill_ok s' x" "\<forall>t \<in> set new. link_ok s t"
  shows "bills_ok s'"
proof -
  have ids: "pu_id ` set (tl_purchases s') = pu_id ` set (tl_purchases s)" using assms(6) by (metis set_map)
  then have link: "link_ok s' t = link_ok s t" for t by (simp add: link_ok_def split: option.split)
  have "issued s' (pu_id x)" if "x \<in> set (tl_purchases s')" for x
  proof -
    have "pu_id x \<in> pu_id ` set (tl_purchases s)" using that ids by blast
    then have "issued s (pu_id x)" using assms(1) by (auto simp: bills_ok_def)
    then show ?thesis by (rule issued_mono [OF assms(3,4)])
  qed
  then show ?thesis using assms by (auto simp: bills_ok_def link)
qed

lemma find_bill:
  assumes "bills_ok s" "p \<in> set (tl_purchases s)"
  shows "find (\<lambda>x. pu_id x = pu_id p) (tl_purchases s) = Some p"
proof -
  have inj: "inj_on pu_id (set (tl_purchases s))" using assms(1) by (simp add: bills_ok_def distinct_map)
  obtain q where q: "find (\<lambda>x. pu_id x = pu_id p) (tl_purchases s) = Some q"
    using assms(2) by (cases "find (\<lambda>x. pu_id x = pu_id p) (tl_purchases s)") (auto simp: find_None_iff)
  have "q = p" by (rule inj_onD [OF inj]) (use find_SomeD [OF q] assms(2) in auto)
  with q show ?thesis by simp
qed

text \<open>Entries that are for no bill leave the bills alone.\<close>

lemma bills_plain:
  assumes "appends s new s'" "bills_ok s" "\<forall>t \<in> set new. ct_reversesId t = None \<and> ct_purchaseId t = None"
  shows "bills_ok s'"
proof -
  have ok: "till_ok s" using assms(2) by (simp add: bills_ok_def)
  have "filter (txn_match (of_bill p)) new = []" for p using assms(3) by (auto simp: filter_empty_conv of_bill_match)
  then have "total (of_bill p) s' = total (of_bill p) s" for p using total_grows [OF appends_grows [OF assms(1)] ok] assms(3) by simp
  moreover have "tl_purchases s' = tl_purchases s" "tl_uuid s' = tl_uuid s" using assms(1) by (auto simp: appends_def dest: besideD)
  ultimately show ?thesis
    using assms by (intro bills_okI [OF assms(2)]) (auto simp: appends_def accounts_grow_def bill_ok_def bills_ok_def link_ok_def)
qed

text \<open>A payment of a bill.\<close>

lemma pay_bill:
  fixes s s' :: "'a till_scheme"
  assumes "grows s [t] s'" "bills_ok s" "p \<in> set (tl_purchases s)"
    and t: "ct_reversesId t = None" "ct_purchaseId t = Some (pu_id p)" "ct_kind t = PURCHASE_PAYMENT" "ct_direction t = OUT"
    and q: "pu_id q = pu_id p" "pu_amountPaid q = pu_amountPaid p + ct_amount t" "pu_amountPaid q \<le> pu_total q"
      "pu_paymentStatus q = settlementStatus (pu_total q) (pu_amountPaid q)"
    and s': "tl_purchases s' = map (\<lambda>x. if pu_id x = pu_id p then q else x) (tl_purchases s)"
  shows "bills_ok s'"
proof -
  have ok: "till_ok s" using assms(2) by (simp add: bills_ok_def)
  have tot: "total (of_bill i) s' = total (of_bill i) s + (if i = pu_id p then ct_amount t else 0)" for i
    using total_grows [OF assms(1) ok, of "of_bill i"] t by (auto simp: of_bill_match)
  have "bill_ok s' q" using assms(2,3) q tot [of "pu_id p"] by (auto simp: bill_ok_def bills_ok_def)
  moreover have "bill_ok s' x" if "x \<in> set (tl_purchases s)" "pu_id x \<noteq> pu_id p" for x
    using assms(2) that tot [of "pu_id x"] by (auto simp: bill_ok_def bills_ok_def)
  ultimately have "\<forall>x \<in> set (tl_purchases s'). bill_ok s' x" by (auto simp: s')
  moreover have "map pu_id (tl_purchases s') = map pu_id (tl_purchases s)" by (auto simp: s' q(1))
  ultimately show ?thesis
    using assms(1,2,3) t by (intro bills_okI [OF assms(2)]) (auto simp: link_ok_def grows_def accounts_grow_def)
qed

section \<open>Taking a payment back\<close>

lemma beside_same_store:
  assumes "beside s' = beside s"
  shows "same_store s s'"
  using assms by (cases s; cases s'; simp add: beside_def same_store_def)

lemma unpay_store: "unpayPurchase p x s = Inr s' \<Longrightarrow> same_store s s'"
  by (auto simp: unpayPurchase_def put_purchase_def Let_def same_store_def split: option.splits if_splits)

lemma reverse_leg_bills:
  assumes "reverse_leg grp reason at_t leg (cr, s) = Inr (cr', s')" "bills_ok s" "leg \<in> set (tl_txns s)" "live_txn s leg"
  shows "bills_ok s' \<and> (\<forall>x \<in> set (tl_txns s). x \<noteq> leg \<longrightarrow> live_txn s x \<longrightarrow> live_txn s' x) \<and> set (tl_txns s) \<subseteq> set (tl_txns s')
    \<and> same_store s s'"
proof -
  let ?e = "\<lparr>pe_ref = AccountId (ct_accountId leg), pe_direction = opposite (ct_direction leg), pe_kind = ct_kind leg,
     pe_amount = ct_amount leg, pe_memo = reverse_memo (ct_memo leg) reason, pe_expenseCategory = ct_expenseCategory leg,
     pe_orderId = ct_orderId leg, pe_purchaseId = ct_purchaseId leg, pe_transferGroupId = grp,
     pe_reversesId = Some (ct_id leg), pe_occurredAt = Some at_t\<rparr>"
  from assms(1) obtain t s1 where p: "post ?e s = Inr (t, s1)" and cr: "cr' = cr @ [t]"
    and c: "(case ct_purchaseId leg of
               Some p \<Rightarrow> if ct_kind leg = PURCHASE_PAYMENT
                 then unpayPurchase p (if ct_direction leg = OUT then ct_amount leg else - ct_amount leg) s1 else Inr s1
             | None \<Rightarrow> Inr s1) = Inr s'"
    by (auto simp: reverse_leg_def ebind_Inr_iff)
  have ok: "till_ok s" using assms(2) by (simp add: bills_ok_def)
  have nr: "ct_reversesId leg = None" using assms(4) by (simp add: live_txn_def)
  have pos: "0 < ct_amount leg" "paisa (ct_amount leg)" using ok assms(3) by (simp_all add: till_ok_def txn_ok_def)
  note q = post_ok [OF p ok]
  have q': "till_ok s1 \<and> beside s1 = beside s \<and> accounts_grow s s1 \<and> tl_txns s1 = tl_txns s @ [t] \<and>
    ct_direction t = opposite (ct_direction leg) \<and> ct_amount t = round2 (ct_amount leg) \<and> ct_reversesId t = Some (ct_id leg)"
    using q assms(3) nr by auto
  have g: "grows s [t] s1" using q' by (auto simp: grows_def dest: besideD(1))
  have m: "mirrors t leg" using q' pos(2) nr post_account_id [OF p] by (simp add: mirrors_def)
  note tot = total_reversal(1) [OF g ok m assms(3,4)] and lives = total_reversal(2) [OF g ok m assms(3,4)]
  have link: "link_ok s t" using assms(2,3) post_links [OF p] by (auto simp: bills_ok_def link_ok_def split: option.splits)
  have pur: "tl_purchases s1 = tl_purchases s" "st_now s1 = st_now s" using q' by (auto dest: besideD)
  have same: "same_book s1 s' \<and> st_now s' = st_now s1" using c unpay_same_book by (auto simp: same_book_def split: option.splits if_splits)
  then have tot': "total w s' = total w s - (if txn_match w leg then ct_amount leg else 0)" for w
    using same_book_ok(2) [of s1 s'] tot [of w] by (simp add: total_def same_book_def)
  have "map pu_id (tl_purchases s') = map pu_id (tl_purchases s) \<and> (\<forall>x \<in> set (tl_purchases s'). bill_ok s' x)"
  proof (cases "ct_purchaseId leg \<noteq> None \<and> ct_kind leg = PURCHASE_PAYMENT")
    case False
    then have "s' = s1" using c by (auto split: option.splits if_splits)
    then show ?thesis using False assms(2) tot' by (auto simp: pur bills_ok_def bill_ok_def of_bill_match)
  next
    case True
    then obtain i where i: "ct_purchaseId leg = Some i" "ct_kind leg = PURCHASE_PAYMENT" by blast
    with assms(2,3) nr obtain b where b: "b \<in> set (tl_purchases s)" "pu_id b = i" and o: "ct_direction leg = OUT"
      by (force simp: bills_ok_def link_ok_def)
    have old: "bill_ok s b" using assms(2) b(1) by (simp add: bills_ok_def)
    define paid where "paid = pu_amountPaid b - ct_amount leg"
    have t: "paid = total (of_bill i) s'" using old tot' [of "of_bill i"] i b(2) by (simp add: paid_def bill_ok_def of_bill_match)
    have "0 \<le> paid" using t total_nonneg same_book_ok(1) [of s1 s'] same q' by simp
    moreover have "paid \<le> pu_total b" using old pos(1) by (simp add: paid_def bill_ok_def)
    ultimately have u: "tl_purchases s' = map (\<lambda>x. if pu_id x = i
        then b\<lparr>pu_amountPaid := paid, pu_paymentStatus := settlementStatus (pu_total b) paid\<rparr> else x) (tl_purchases s)"
      using c i o find_bill [OF assms(2) b(1)] b(2)
      by (auto simp: unpayPurchase_def put_purchase_def Let_def pur paid_def [symmetric])
    have "bill_ok s' x" if "x \<in> set (tl_purchases s)" "pu_id x \<noteq> i" for x
      using assms(2) that tot' [of "of_bill (pu_id x)"] i by (auto simp: bill_ok_def bills_ok_def of_bill_match)
    moreover have "bill_ok s' (b\<lparr>pu_amountPaid := paid, pu_paymentStatus := settlementStatus (pu_total b) paid\<rparr>)"
      using t b(2) \<open>paid \<le> pu_total b\<close> by (simp add: bill_ok_def)
    ultimately show ?thesis using b(2) by (auto simp: u)
  qed
  moreover have "till_ok s'" "tl_uuid s' = tl_uuid s" "tl_issued s \<le> tl_issued s'" "tl_txns s' = tl_txns s @ [t]"
    using same q' same_book_ok(1) [of s1 s'] by (auto simp: same_book_def accounts_grow_def dest: besideD)
  ultimately have "bills_ok s'" using link by (intro bills_okI [OF assms(2)]) auto
  moreover have "same_store s s1" using q' by (intro beside_same_store) simp
  moreover have "same_store s1 s'" using c by (auto intro: unpay_store split: option.splits if_splits)
  ultimately have "same_store s s'" using same_store_trans by blast
  with \<open>bills_ok s'\<close> show ?thesis using lives same_book_ok(2) [of s1 s'] same q' by (auto simp: same_book_def)
qed

lemma reverse_legs_bills:
  assumes "efold (reverse_leg grp reason at_t) legs (cr, s) = Inr (cr', s')" "bills_ok s" "distinct legs"
    "\<forall>l \<in> set legs. l \<in> set (tl_txns s) \<and> live_txn s l"
  shows "bills_ok s' \<and> same_store s s'"
  using assms
proof (induction legs arbitrary: cr s)
  case (Cons leg legs)
  from Cons.prems(1) obtain cr1 s1 where s1: "reverse_leg grp reason at_t leg (cr, s) = Inr (cr1, s1)"
    "efold (reverse_leg grp reason at_t) legs (cr1, s1) = Inr (cr', s')"
    by (auto simp: ebind_Inr_iff)
  note r = reverse_leg_bills [OF s1(1) Cons.prems(2)]
  have "bills_ok s' \<and> same_store s1 s'" by (rule Cons.IH [OF s1(2)]) (use r Cons.prems(3,4) in auto)
  then show ?case using r Cons.prems(4) same_store_trans by auto
qed simp

lemma fresh_bills:
  assumes "bills_ok s"
  shows "bills_ok (snd (fresh_id s))"
  using bills_plain [OF fresh_id_ok(1) [of s "fst (fresh_id s)" "snd (fresh_id s)"] assms] assms by (simp add: bills_ok_def)

lemma reverse_entry_bills:
  assumes "reverse_entry i reason d s = Inr ((ids, created), s')" "bills_ok s"
  shows "bills_ok s' \<and> same_store s s'"
proof -
  from assms(1) obtain at_t where "(case reverse_tx i reason at_t s of
       Inl e \<Rightarrow> if e = DomainError ''P2002'' 500 then Inl (ConflictError ''cash.already_reversed'') else Inl e
     | Inr r \<Rightarrow> Inr r) = Inr ((ids, created), s')"
    by (auto simp: reverse_entry_def ebind_Inr_iff)
  then have tx: "reverse_tx i reason at_t s = Inr ((ids, created), s')" by (auto split: sum.splits if_splits)
  then obtain orig where o: "find (\<lambda>t. ct_id t = i) (tl_txns s) = Some orig" "ct_reversesId orig = None" "\<not> reversed_by s orig"
    by (auto simp: reverse_tx_def split: option.splits if_splits)
  define legs where "legs = (case ct_transferGroupId orig of
      Some g \<Rightarrow> filter (\<lambda>t. ct_transferGroupId t = Some g \<and> ct_reversesId t = None) (tl_txns s) | None \<Rightarrow> [orig])"
  define s1 where "s1 = (if ct_transferGroupId orig \<noteq> None then snd (fresh_id s) else s)"
  from tx o have nr: "\<not> list_ex (reversed_by s) legs"
    by (auto simp: reverse_tx_def legs_def Let_def split: if_splits)
  from tx o nr obtain grp where e: "efold (reverse_leg grp reason at_t) legs ([], s1) = Inr (created, s')"
    by (cases "ct_transferGroupId orig")
      (auto simp: reverse_tx_def legs_def [symmetric] s1_def Let_def case_prod_beta ebind_Inr_iff legs_def)
  have "distinct (tl_txns s)" using assms(2) by (simp add: bills_ok_def till_ok_def distinct_map)
  then have "distinct legs" by (simp add: legs_def split: option.split)
  moreover have "tl_txns s1 = tl_txns s" by (simp add: s1_def fresh_id_def)
  then have "\<forall>l \<in> set legs. l \<in> set (tl_txns s1) \<and> live_txn s1 l"
    using nr o find_SomeD [OF o(1)] by (auto simp: legs_def live_txn_def reversed_by_def list_ex_iff split: option.splits)
  moreover have "bills_ok s1" using assms(2) fresh_bills [OF assms(2)] by (simp add: s1_def)
  ultimately have "bills_ok s' \<and> same_store s1 s'" using reverse_legs_bills [OF e] by blast
  moreover have "same_store s s1" by (simp add: s1_def fresh_id_def same_store_def)
  ultimately show ?thesis using same_store_trans by blast
qed

section \<open>Paying a bill\<close>

lemma pay_tx_bills:
  assumes "pay_tx occurredAt i dto s = Inr s'" "bills_ok s" "paisa (pp_amount dto)"
  shows "bills_ok s'" "same_store s s'"
proof -
  obtain p where f: "find (\<lambda>p. pu_id p = i) (tl_purchases s) = Some p" using assms(1) by (auto simp: pay_tx_def split: option.splits)
  have p: "p \<in> set (tl_purchases s)" "pu_id p = i" using find_SomeD [OF f] by simp_all
  have old: "bill_ok s p" and ok: "till_ok s" using assms(2) p(1) by (simp_all add: bills_ok_def)
  have chk: "checkPayment (pu_total p) (pu_amountPaid p) (pp_amount dto) = Inr ()"
    using assms(1) f by (auto simp: pay_tx_def split: sum.splits if_splits)
  then have a: "0 < pp_amount dto" "pu_amountPaid p + pp_amount dto \<le> pu_total p"
    by (auto simp: checkPayment_def outstanding_due_def Let_def split: if_splits)
  define q where "q = p\<lparr>pu_amountPaid := pu_amountPaid p + pp_amount dto,
    pu_paymentStatus := settlementStatus (pu_total p) (pu_amountPaid p + pp_amount dto)\<rparr>"
  have m: "min (pu_amountPaid p + pp_amount dto) (pu_total p) = pu_amountPaid p + pp_amount dto" using a(2) by simp
  let ?e = "\<lambda>memo. no_entry\<lparr>pe_ref := AccountId (pp_accountId dto), pe_direction := OUT, pe_kind := PURCHASE_PAYMENT,
     pe_amount := pp_amount dto, pe_memo := memo, pe_purchaseId := Some i, pe_occurredAt := Some occurredAt\<rparr>"
  obtain s1 memo t where s1: "put_purchase q s = Inr s1" and t: "post (?e memo) s1 = Inr (t, s')"
    using assms(1) f chk by (auto simp: pay_tx_def Let_def m q_def [symmetric] ebind_Inr_iff split: if_splits)
  have s1': "s1 = s\<lparr>tl_purchases := map (\<lambda>x. if pu_id x = i then q else x) (tl_purchases s)\<rparr>"
    using s1 p(2) by (auto simp: put_purchase_def q_def split: if_splits)
  have book: "same_book s s1" by (simp add: same_book_def s1')
  have ok1: "till_ok s1" using same_book_ok(1) [OF book] ok by simp
  note pl = post_plain [OF t ok1] and li = post_links [OF t]
  have g1: "appends s1 [t] s'" using pl(1) by simp
  have "grows s [t] s'" using appends_grows [OF g1] book by (simp add: grows_def same_book_def accounts_grow_def)
  moreover have "tl_purchases s' = map (\<lambda>x. if pu_id x = pu_id p then q else x) (tl_purchases s)"
    using g1 p(2) by (auto simp: appends_def s1' dest: besideD)
  moreover have "ct_amount t = pp_amount dto" using pl(4) assms(3) by simp
  ultimately show "bills_ok s'"
    using pl li p a by (intro pay_bill [where p = p and q = q, OF _ assms(2) p(1)]) (auto simp: q_def)
  have "same_store s1 s'" using g1 by (auto simp: appends_def intro: beside_same_store)
  then show "same_store s s'" by (simp add: same_store_def s1')
qed

section \<open>A new bill\<close>

text \<open>How many copies of a product the lines name; merging the lines does not change it.\<close>

definition bought :: "id \<Rightarrow> ('b \<Rightarrow> id) \<Rightarrow> ('b \<Rightarrow> int) \<Rightarrow> 'b list \<Rightarrow> int" where
  "bought p f q lines = sum_list (map q (filter (\<lambda>l. f l = p) lines))"

definition keyed :: "(id \<times> purchase_line) list \<Rightarrow> bool" where
  "keyed m \<longleftrightarrow> distinct (map fst m) \<and> (\<forall>(k, l) \<in> set m. pl_productId l = k)"

definition held_in :: "(id \<times> purchase_line) list \<Rightarrow> id \<Rightarrow> int" where
  "held_in m p = (case map_of m p of None \<Rightarrow> 0 | Some l \<Rightarrow> pl_quantity l)"

lemma merge_line_keyed:
  assumes "keyed m"
  shows "keyed (merge_purchase_line m l)"
    and "held_in (merge_purchase_line m l) p = held_in m p + (if pl_productId l = p then pl_quantity l else 0)"
proof -
  define v where "v = (case map_of m (pl_productId l) of
      Some hit \<Rightarrow> \<lparr>pl_productId = pl_productId l, pl_quantity = pl_quantity hit + pl_quantity l, pl_unitCost = pl_unitCost l\<rparr> | None \<Rightarrow> l)"
  have e: "merge_purchase_line m l = AList.update (pl_productId l) v m" "pl_productId v = pl_productId l"
    by (auto simp: merge_purchase_line_def v_def split: option.split)
  have "distinct (map fst (AList.update (pl_productId l) v m))" using assms by (simp add: keyed_def distinct_update)
  moreover have "pl_productId y = k" if "(k, y) \<in> set (AList.update (pl_productId l) v m)" for k y
  proof -
    have "map_of (AList.update (pl_productId l) v m) k = Some y" using calculation that by simp
    then show ?thesis using assms e(2) by (auto simp: update_conv keyed_def split: if_splits dest!: map_of_SomeD)
  qed
  ultimately show "keyed (merge_purchase_line m l)" by (auto simp: e keyed_def)
  show "held_in (merge_purchase_line m l) p = held_in m p + (if pl_productId l = p then pl_quantity l else 0)"
    by (auto simp: e held_in_def update_conv v_def split: option.split)
qed

lemma merge_lines_keyed:
  assumes "keyed m"
  shows "keyed (foldl merge_purchase_line m ls) \<and>
    held_in (foldl merge_purchase_line m ls) p = held_in m p + bought p pl_productId pl_quantity ls"
  using assms
proof (induction ls arbitrary: m)
  case (Cons l ls)
  then show ?case using Cons.IH [OF merge_line_keyed(1) [OF Cons.prems, of l]] merge_line_keyed(2) [OF Cons.prems]
    by (simp add: bought_def)
qed (simp add: bought_def)

lemma keyed_bought: "keyed m \<Longrightarrow> bought p pl_productId pl_quantity (map snd m) = held_in m p"
proof (induction m)
  case (Cons x m)
  obtain k l where x: "x = (k, l)" by (cases x)
  have k: "pl_productId l = k" "keyed m" "k \<notin> fst ` set m" using Cons.prems by (auto simp: keyed_def x)
  have none: "held_in m k = 0" using k(3) by (auto simp: held_in_def split: option.split dest!: map_of_SomeD) force
  show ?case using Cons.IH k none by (auto simp: bought_def held_in_def x)
qed (simp add: bought_def held_in_def)

lemma merged_bought: "bought p pl_productId pl_quantity (merge_purchase_lines ls) = bought p pl_productId pl_quantity ls"
  using merge_lines_keyed [of "[]" ls p] keyed_bought [of "foldl merge_purchase_line [] ls" p]
  by (simp add: merge_purchase_lines_def keyed_def held_in_def)

lemma totals_lines:
  "bought p pl_productId pl_quantity (pt_lines (purchaseTotals ls c)) = bought p pl_productId pl_quantity ls"
  "paisa (pt_total (purchaseTotals ls c))"
  by (auto simp: purchaseTotals_def Let_def bought_def filter_map comp_def intro!: money_intros)

lemma receive_lines:
  assumes "efold (receive_line i) ls s = Inr s'" "store_ok s"
  shows "store_ok s' \<and> rest_of s' = rest_of s \<and> (\<forall>p. st_products s p \<noteq> None \<longrightarrow>
    on_hand s' p = on_hand s p + bought p pl_productId pl_quantity ls \<and> st_products s' p \<noteq> None)"
  using assms
proof (induction ls arbitrary: s)
  case (Cons l ls)
  from Cons.prems(1) obtain s1 where l: "receive_line i l s = Inr s1" and e: "efold (receive_line i) ls s1 = Inr s'"
    by (auto simp: ebind_Inr_iff)
  from l obtain r where r: "receive (pl_productId l) (pl_quantity l) (pl_unitCost l) \<lparr>sc_orderId = None, sc_purchaseId = Some i\<rparr> s = Inr (r, s1)"
    by (auto simp: receive_line_def ebind_Inr_iff)
  note a = addBatch_ok [OF r [unfolded receive_def] Cons.prems(2)]
  have "on_hand s1 p = on_hand s p + (if pl_productId l = p then pl_quantity l else 0) \<and> st_products s1 p \<noteq> None"
    if "st_products s p \<noteq> None" for p
  proof -
    have "pos s1 p = (if pl_productId l = p then unship (pl_quantity l) (pos s p) else pos s p)" using a by auto
    then show ?thesis using that by (auto simp: on_hand_def pos_def unship_def)
  qed
  then show ?case using Cons.IH [OF e] a by (auto simp: bought_def)
qed (simp add: bought_def)

lemma rest_of_book:
  fixes s s' :: "'a till_scheme"
  assumes "rest_of s' = rest_of s"
  shows "same_book s s'" "tl_purchases s' = tl_purchases s" "till.more s' = till.more s"
  using assms by (cases s; cases s'; simp add: rest_of_def same_book_def)+

lemma new_bill:
  assumes "bills_ok s" "grows s new s'" "tl_issued s < tl_issued s'" "tl_purchases s' = tl_purchases s @ [b]"
    and b: "pu_id b = tl_uuid s (tl_issued s)" "pu_amountPaid b \<le> pu_total b" "pu_paymentStatus b = settlementStatus (pu_total b) (pu_amountPaid b)"
    and new: "new = [] \<and> pu_amountPaid b = 0 \<or> (\<exists>t. new = [t] \<and> ct_reversesId t = None \<and> ct_purchaseId t = Some (pu_id b) \<and>
      ct_kind t = PURCHASE_PAYMENT \<and> ct_direction t = OUT \<and> ct_amount t = pu_amountPaid b)"
  shows "bills_ok s'"
proof -
  have ok: "till_ok s" and ok': "till_ok s'" and uu: "tl_uuid s' = tl_uuid s" "tl_issued s \<le> tl_issued s'"
    using assms(1,2) by (auto simp: bills_ok_def grows_def accounts_grow_def)
  have "inj (tl_uuid s)" using ok by (simp add: till_ok_def accounts_ok_def)
  then have fresh: "\<not> issued s (pu_id b)" using fresh_not_issued b(1) by simp
  then have out: "pu_id b \<notin> pu_id ` set (tl_purchases s)" using assms(1) by (auto simp: bills_ok_def)
  then have "filter (\<lambda>t. txn_match (of_bill (pu_id b)) t \<and> live_txn s t) (tl_txns s) = []"
    using assms(1) by (auto simp: filter_empty_conv of_bill_match bills_ok_def link_ok_def)
  then have z: "total (of_bill (pu_id b)) s = 0" by (simp add: total_def)
  have nr: "\<forall>x \<in> set new. ct_reversesId x = None" using new by auto
  note tot = total_grows [OF assms(2) ok nr]
  have "bill_ok s' b" using tot [of "of_bill (pu_id b)"] z new b by (auto simp: bill_ok_def of_bill_match)
  moreover have "bill_ok s' x" if x: "x \<in> set (tl_purchases s)" for x
  proof -
    have "pu_id x \<in> pu_id ` set (tl_purchases s)" using x by (rule imageI)
    then have "pu_id x \<noteq> pu_id b" using out by metis
    then have "filter (txn_match (of_bill (pu_id x))) new = []" using new by (auto simp: of_bill_match)
    moreover have "bill_ok s x" using assms(1) x by (simp add: bills_ok_def)
    ultimately show ?thesis using tot [of "of_bill (pu_id x)"] by (simp add: bill_ok_def)
  qed
  moreover have "issued s' (pu_id x)" if "x \<in> set (tl_purchases s')" for x
    using that assms(1,3,4) b(1) issued_mono [OF uu] uu(1) by (auto simp: bills_ok_def issued_def)
  moreover have "link_ok s' t" if "t \<in> set (tl_txns s')" for t
    using that assms(1,2,4) new by (force simp: bills_ok_def link_ok_def grows_def split: option.splits)
  moreover have "distinct (map pu_id (tl_purchases s'))" using assms(1,4) out by (simp add: bills_ok_def)
  ultimately show ?thesis using ok' assms(4) by (auto simp: bills_ok_def)
qed

lemma create_tx_ok:
  assumes "create_tx at_t totals dto s = Inr (i, s')" "bills_ok s" "store_ok s" "paisa (paid_now (cp_payment dto) (pt_total totals))"
  shows "bills_ok s' \<and> store_ok s' \<and> (\<forall>p. st_products s p \<noteq> None \<longrightarrow>
      on_hand s' p = on_hand s p + bought p pl_productId pl_quantity (pt_lines totals)) \<and>
    (\<exists>b \<in> set (tl_purchases s'). pu_id b = i \<and> pu_total b = pt_total totals \<and> pu_amountPaid b = paid_now (cp_payment dto) (pt_total totals))"
proof -
  define paid where "paid = paid_now (cp_payment dto) (pt_total totals)"
  obtain no s1 where c: "counter_next C_purchase s = (no, s1)" by (meson surj_pair)
  obtain rows where s1: "s1 = s\<lparr>fr_counters := rows\<rparr>" using c by (auto simp: counter_next_def Let_def split: prod.splits)
  define s2 where "s2 = s1\<lparr>tl_issued := Suc (tl_issued s1)\<rparr>"
  define j where "j = tl_uuid s1 (tl_issued s1)"
  have fr: "fresh_id s1 = (j, s2)" by (simp add: fresh_id_def s2_def j_def)
  obtain sup where sup: "live_supplier (cp_supplierId dto) s = Some sup" using assms(1) by (auto simp: create_tx_def split: option.splits)
  have kp: "find (\<lambda>l. \<not> known_product s (pl_productId l)) (pt_lines totals) = None"
    using assms(1) by (auto simp: create_tx_def split: option.splits)
  define b where "b = \<lparr>pu_id = j, pu_purchaseNo = no, pu_supplierId = su_id sup, pu_status = Pu_RECEIVED,
     pu_paymentStatus = settlementStatus (pt_total totals) paid, pu_subtotal = pt_subtotal totals,
     pu_otherCharges = pt_otherCharges totals, pu_total = pt_total totals, pu_amountPaid = paid\<rparr>"
  have le: "\<not> paid > pt_total totals" using assms(1) sup kp by (auto simp: create_tx_def Let_def paid_def split: if_splits)
  have run: "ebind (insert_purchase b (pt_lines totals) s2) (\<lambda>s.
       ebind (efold (receive_line (j)) (pt_lines totals) s) (\<lambda>s.
       case cp_payment dto of None \<Rightarrow> Inr (j, s)
       | Some p \<Rightarrow> if paid > 0
           then ebind (post (no_entry\<lparr>pe_ref := AccountId (pn_accountId p), pe_direction := OUT, pe_kind := PURCHASE_PAYMENT,
                  pe_amount := paid, pe_memo := bill_word @ js no @ [32, 183, 32] @ su_name sup,
                  pe_purchaseId := Some (j), pe_occurredAt := Some at_t\<rparr>) s) (\<lambda>(t, s). Inr (j, s))
           else Inr (j, s))) = Inr (i, s')"
    using assms(1) sup kp le unfolding create_tx_def Let_def paid_def [symmetric] by (simp add: c fr b_def)
  then obtain s3 s4 where s3: "insert_purchase b (pt_lines totals) s2 = Inr s3"
    and s4: "efold (receive_line (j)) (pt_lines totals) s3 = Inr s4"
    and fin: "(case cp_payment dto of None \<Rightarrow> Inr (j, s4)
       | Some p \<Rightarrow> if paid > 0
           then ebind (post (no_entry\<lparr>pe_ref := AccountId (pn_accountId p), pe_direction := OUT, pe_kind := PURCHASE_PAYMENT,
                  pe_amount := paid, pe_memo := bill_word @ js no @ [32, 183, 32] @ su_name sup,
                  pe_purchaseId := Some (j), pe_occurredAt := Some at_t\<rparr>) s4) (\<lambda>(t, s). Inr (j, s))
           else Inr (j, s4)) = Inr (i, s')"
    by (auto simp: ebind_Inr_iff)
  have jb: "j = pu_id b" by (simp add: b_def)
  note fin = fin [unfolded jb] and s4 = s4 [unfolded jb]
  have b0: "0 \<le> paid" and p3: "tl_purchases s3 = tl_purchases s @ [b]" and k3: "same_book s2 s3" "same_store s2 s3"
    using s3 by (auto simp: insert_purchase_def ebind_Inr_iff b_def same_book_def same_store_def s1 s2_def split: if_splits)
  have ok: "till_ok s" using assms(2) by (simp add: bills_ok_def)
  have k1: "same_book s s1" "same_store s s2" by (simp_all add: same_book_def same_store_def s1 s2_def)
  have ok1: "till_ok s1" using same_book_ok(1) [OF k1(1)] ok by simp
  have g1: "grows s [] s1" by (rule same_book_grows [OF k1(1) grows_refl [OF ok]])
  have g2: "grows s [] s2" using grows_trans [OF g1 appends_grows [OF fresh_id_ok(1) [OF fr ok1]]] by simp
  have st3: "store_ok s3" "on_hand s3 p = on_hand s p" "st_products s3 p = st_products s p" for p
    using assms(3) same_storeD(2,4) [OF k1(2)] same_storeD(2,4) [OF k3(2)] k1(2) k3(2) by (simp_all add: same_store_def)
  note r4 = receive_lines [OF s4 st3(1)]
  note t4 = rest_of_book [OF conjunct1 [OF conjunct2 [OF r4]]]
  have g4: "grows s [] s4" by (rule same_book_grows [OF t4(1) same_book_grows [OF k3(1) g2]])
  have i4: "tl_issued s < tl_issued s4" using t4(1) k3(1) by (simp add: same_book_def s2_def s1)
  have p4: "tl_purchases s4 = tl_purchases s @ [b]" by (simp add: t4 p3)
  have bs: "pu_id b = tl_uuid s (tl_issued s)" "pu_amountPaid b = paid" "pu_total b = pt_total totals"
    "pu_paymentStatus b = settlementStatus (pu_total b) (pu_amountPaid b)" by (simp_all add: b_def j_def s1)
  have *: "bills_ok s' \<and> same_store s4 s' \<and> tl_purchases s' = tl_purchases s @ [b] \<and> i = pu_id b"
  proof (cases "cp_payment dto \<noteq> None \<and> paid > 0")
    case False
    then have e: "s' = s4" "i = pu_id b" "paid = 0" using fin b0 by (auto simp: paid_def paid_now_def split: option.splits if_splits)
    then show ?thesis using new_bill [OF assms(2) g4 i4 p4 bs(1)] le bs p4 by simp
  next
    case True
    then obtain p where p: "cp_payment dto = Some p" and pos: "paid > 0" by blast
    let ?e = "no_entry\<lparr>pe_ref := AccountId (pn_accountId p), pe_direction := OUT, pe_kind := PURCHASE_PAYMENT,
      pe_amount := paid, pe_memo := bill_word @ js no @ [32, 183, 32] @ su_name sup,
      pe_purchaseId := Some (pu_id b), pe_occurredAt := Some at_t\<rparr>"
    have "ebind (post ?e s4) (\<lambda>(t, s). Inr (pu_id b, s)) = Inr (i, s')" using fin by (simp only: p option.case pos if_True)
    then obtain r where r: "post ?e s4 = Inr r" "(case r of (t, s) \<Rightarrow> Inr (pu_id b, s)) = (Inr (i, s') :: (id \<times> 'a procurement_scheme) result)"
      unfolding ebind_Inr_iff by blast
    obtain t s5 where rr: "r = (t, s5)" by (cases r)
    have i: "i = pu_id b" and "s5 = s'" using r(2) by (auto simp: rr)
    then have t: "post ?e s4 = Inr (t, s')" using r(1) by (simp only: rr)
    have ok4: "till_ok s4" using g4 by (simp add: grows_def)
    note pl = post_plain [OF t ok4] and li = post_links [OF t]
    have a: "appends s4 [t] s'" using pl(1) by simp
    then have bes: "beside s' = beside s4" and "tl_issued s4 \<le> tl_issued s'" unfolding appends_def accounts_grow_def by blast+
    then have "tl_purchases s' = tl_purchases s @ [b]" "tl_issued s < tl_issued s'" "same_store s4 s'"
      using i4 p4 besideD(4) [OF bes] by (simp_all add: beside_same_store)
    moreover have "grows s [t] s'" using grows_trans [OF g4 appends_grows [OF a]] by simp
    ultimately show ?thesis
      using new_bill [OF assms(2), of "[t]" s' b] le bs pl li i assms(4) by (simp add: paid_def [symmetric])
  qed
  have "store_ok s'" "on_hand s' p = on_hand s4 p" for p using * same_storeD(2,4) [of s4 s'] r4 by auto
  then show ?thesis using * r4 st3 bs by (auto simp: paid_def)
qed

section \<open>Everything that happens to the books of purchasing\<close>

text \<open>Amounts come from the client with at most two decimals.\<close>

definition money_in :: "create_purchase_dto \<Rightarrow> bool" where
  "money_in dto \<longleftrightarrow> (case cp_payment dto of None \<Rightarrow> True | Some p \<Rightarrow> (case pn_amount p of None \<Rightarrow> True | Some a \<Rightarrow> paisa a))"

inductive procure :: "(string \<Rightarrow> time option) \<Rightarrow> 'a procurement_scheme \<Rightarrow> 'a procurement_scheme \<Rightarrow> bool" for date_parse where
  Bill: "create_purchase date_parse dto s = Inr (i, s') \<Longrightarrow> money_in dto \<Longrightarrow> procure date_parse s s'"
| Paid: "pay_purchase date_parse i dto s = Inr s' \<Longrightarrow> paisa (pp_amount dto) \<Longrightarrow> procure date_parse s s'"
| Taken_back: "reverse_entry i reason d s = Inr (r, s') \<Longrightarrow> procure date_parse s s'"
| Entry: "manualEntry m s = Inr (t, s') \<Longrightarrow> procure date_parse s s'"
| Moved: "transfer tr s = Inr (ts, s') \<Longrightarrow> procure date_parse s s'"
| New_supplier: "create_supplier n ph e s = Inr (i, s') \<Longrightarrow> procure date_parse s s'"
| Supplier: "update_supplier i n' ph e s = Inr s' \<Longrightarrow> procure date_parse s s'"
| Supplier_gone: "remove_supplier i s = Inr s' \<Longrightarrow> procure date_parse s s'"

inductive_cases procureE: "procure date_parse s s'"

lemma create_purchase_ok:
  assumes "create_purchase date_parse dto s = Inr (i, s')" "bills_ok s" "store_ok s" "money_in dto"
  shows "bills_ok s' \<and> store_ok s' \<and> (\<forall>p. st_products s p \<noteq> None \<longrightarrow>
      on_hand s' p = on_hand s p + bought p pl_productId pl_quantity (cp_lines dto)) \<and>
    (\<exists>b \<in> set (tl_purchases s'). pu_id b = i \<and> pu_amountPaid b = paid_now (cp_payment dto) (pu_total b))"
proof -
  from assms(1) obtain at_t c where c: "create_tx at_t (purchaseTotals (merge_purchase_lines (cp_lines dto)) c) dto s = Inr (i, s')"
    by (auto simp: create_purchase_def ebind_Inr_iff Let_def)
  have "paisa (paid_now (cp_payment dto) (pt_total (purchaseTotals (merge_purchase_lines (cp_lines dto)) c)))"
    using assms(4) totals_lines(2) by (auto simp: paid_now_def money_in_def split: option.splits)
  from create_tx_ok [OF c assms(2,3) this] show ?thesis by (auto simp: totals_lines(1) merged_bought)
qed

text \<open>Commands of the cash book do not touch the shelves.\<close>

lemma appends_store: "appends s new s' \<Longrightarrow> store_ok s' = store_ok s"
  using same_storeD(2) [OF beside_same_store] by (auto simp: appends_def)

lemma manual_bills:
  assumes "manualEntry m s = Inr (t, s')" "bills_ok s"
  shows "bills_ok s' \<and> store_ok s' = store_ok s"
proof -
  have a: "appends s [t] s'" using manualEntry_ok [OF assms(1)] assms(2) by (simp add: bills_ok_def)
  obtain at_t where "post (no_entry\<lparr>pe_ref := AccountId (md_accountId m), pe_direction := md_direction m, pe_kind := md_kind m,
     pe_amount := md_amount m, pe_memo := jtrim (md_memo m), pe_expenseCategory := trimmed (md_expenseCategory m),
     pe_occurredAt := Some at_t\<rparr>) s = Inr (t, s')"
    using assms(1) by (auto simp: manualEntry_def err_simps split: if_splits)
  from post_links [OF this] have "ct_reversesId t = None \<and> ct_purchaseId t = None" by (simp add: no_entry_def)
  then show ?thesis using bills_plain [OF a assms(2)] appends_store [OF a] by simp
qed

lemma transfer_bills:
  fixes s s' :: "'a till_scheme"
  assumes "transfer tr s = Inr (ts, s')" "bills_ok s"
  shows "bills_ok s' \<and> store_ok s' = store_ok s"
proof -
  obtain a b where ts: "ts = (a, b)" by (cases ts)
  have ap: "appends s [a, b] s'" using transfer_ok [OF assms(1) [unfolded ts]] assms(2) by (simp add: bills_ok_def)
  from assms(1) obtain x y m g at_t and sa sb sc sd :: "'a till_scheme" where
    "post (transfer_leg x OUT (tr_amount tr) m g at_t) sa = Inr (a, sb)" "post (transfer_leg y IN (tr_amount tr) m g at_t) sc = Inr (b, sd)"
    unfolding ts by (auto simp: transfer_def ebind_Inr_iff Let_def case_prod_beta split: if_splits)
  from post_links [OF this(1)] post_links [OF this(2)]
  have "\<forall>t \<in> set [a, b]. ct_reversesId t = None \<and> ct_purchaseId t = None" by (simp add: transfer_leg_def no_entry_def)
  from bills_plain [OF ap assms(2) this] appends_store [OF ap] show ?thesis by simp
qed

lemma bills_same_book:
  assumes "bills_ok s" "same_book s s'" "tl_purchases s' = tl_purchases s"
  shows "bills_ok s'"
proof -
  have "total w s' = total w s" for w using assms(2) same_book_ok(2) [OF assms(2)] by (simp add: total_def same_book_def)
  then show ?thesis
    using assms same_book_ok(1) [OF assms(2)]
    by (intro bills_okI [OF assms(1), where new = "[]"]) (auto simp: same_book_def bill_ok_def bills_ok_def)
qed

lemma suppliers_bills:
  fixes s s' :: "'a procurement_scheme"
  assumes "create_supplier n ph e s = Inr (i, s') \<or> update_supplier i n' ph e s = Inr s' \<or> remove_supplier i s = Inr s'" "bills_ok s"
  shows "bills_ok s' \<and> same_store s s'"
proof -
  let ?same = "\<lambda>t. same_book t s' \<and> tl_purchases s' = tl_purchases t \<and> same_store s s'"
  have "?same (snd (fresh_id s))" if "create_supplier n ph e s = Inr (i, s')"
    using that by (auto simp: create_supplier_def ebind_Inr_iff Let_def fresh_id_def same_book_def same_store_def)
  moreover have "?same s" if "update_supplier i n' ph e s = Inr s'"
    using that by (auto simp: update_supplier_def ebind_Inr_iff same_book_def same_store_def split: option.splits)
  moreover have "?same s" if "remove_supplier i s = Inr s'"
    using that by (auto simp: remove_supplier_def same_book_def same_store_def split: option.splits if_splits)
  ultimately show ?thesis using assms(1) bills_same_book [OF fresh_bills [OF assms(2)]] bills_same_book [OF assms(2)] by blast
qed


text \<open>
  C37. A bill puts on the shelves exactly the copies its lines name, merged or not, is paid what was asked to be
  paid now, and leaves every other product alone.
\<close>

theorem bill_received:
  assumes "create_purchase date_parse dto s = Inr (i, s')" "bills_ok s" "store_ok s" "money_in dto" "st_products s p \<noteq> None"
  shows "on_hand s' p = on_hand s p + sum_list (map pl_quantity (filter (\<lambda>l. pl_productId l = p) (cp_lines dto))) \<and>
    (\<exists>b \<in> set (tl_purchases s'). pu_id b = i \<and> pu_amountPaid b = paid_now (cp_payment dto) (pu_total b))"
  using create_purchase_ok [OF assms(1-4)] assms(5) by (auto simp: bought_def)

section \<open>A desk with one supplier\<close>

definition desk :: procurement where
  "desk = \<lparr>st_now = 10, st_nextId = 2, st_products = [''p'' \<mapsto> sample_row], st_lots = [sample_lot 0 2 1, sample_lot 1 3 2],
     st_uses = [], st_moves = [], st_items = [],
     sh_orders = [], sh_customers = [], sh_coupons = [], sh_redemptions = [], sh_history = [],
     tl_uuid = (\<lambda>n. replicate n CHR ''u''), tl_issued = 2, tl_accounts = [\<lparr>ca_id = '''', ca_code = ''cash'', ca_name = [], ca_type = CASH_BOX,
     ca_openingBalance = 1000, ca_isActive = True\<rparr>], tl_txns = [], tl_payments = [], tl_refunds = [], tl_purchases = [], tl_shipments = [],
     fr_counters = [], fr_keys = [], fr_outbox = [], fr_districts = [], fr_upazilas = [], fr_unions = [], fr_catalog = [], fr_bundles = [],
     fr_rules = [], fr_carts = [], bk_documents = [], bk_feePct = Some 2,
     sp_suppliers = [\<lparr>su_id = ''u'', su_name = [], su_phone = None, su_email = None, su_deletedAt = None\<rparr>], sp_items = []\<rparr>"

definition three_copies :: create_purchase_dto where
  "three_copies = \<lparr>cp_supplierId = ''u'', cp_purchasedAt = None,
     cp_lines = [\<lparr>pl_productId = ''p'', pl_quantity = 2, pl_unitCost = 60\<rparr>, \<lparr>pl_productId = ''p'', pl_quantity = 1, pl_unitCost = 60\<rparr>],
     cp_otherCharges = Some 20, cp_payment = Some \<lparr>pn_accountId = '''', pn_amount = Some 150\<rparr>\<rparr>"

lemma desk_ok: "bills_ok desk" "store_ok desk" "money_in three_copies" "st_products desk ''p'' \<noteq> None" "on_hand desk ''p'' = 5"
proof -
  have "inj (\<lambda>n. replicate n CHR ''u'')" by (auto intro: injI)
  moreover have "\<exists>n<2. '''' = replicate n CHR ''u''" by (intro exI [of _ 0]) simp
  ultimately show "bills_ok desk" by (auto simp: bills_ok_def till_ok_def accounts_ok_def issued_def desk_def)
  show "store_ok desk" using same_storeD(2) [of sample_store desk] sample_store_ok by (simp add: same_store_def desk_def sample_store_def)
  show "money_in three_copies" by (simp add: money_in_def three_copies_def)
  show "st_products desk ''p'' \<noteq> None" "on_hand desk ''p'' = 5" by (simp_all add: desk_def on_hand_def sample_row_def)
qed

declare ebind_def [code_unfold]

lemma three_copies_bought:
  "case create_purchase (\<lambda>_. None) three_copies desk of
     Inr (i, s') \<Rightarrow> i = ''uu'' \<and> map (\<lambda>b. (pu_id b, pu_total b, pu_amountPaid b)) (tl_purchases s') = [(''uu'', 200, 150)]
   | Inl e \<Rightarrow> False"
  by code_simp


theorem bill_received_witness:
  "\<exists>i s'. create_purchase (\<lambda>_. None) three_copies desk = Inr (i, s') \<and> on_hand s' ''p'' = 8"
proof -
  obtain s' where r: "create_purchase (\<lambda>_. None) three_copies desk = Inr (''uu'', s')"
    using three_copies_bought by (auto split: sum.splits)
  from bill_received [OF r desk_ok(1-4)] r desk_ok(5) show ?thesis by (auto simp: three_copies_def)
qed

end
