(* ===== verification/Shipments.thy ===== *)
theory Shipments
  imports Documents
begin

text \<open>
  Courier consignments (\<open>orders/shipping/application/shipments.service.ts\<close>). The columns of a shipment that
  the cash book does not read are a table of their own, \<open>sd_consignments\<close>, with the same ids; an
  operation writes both. Audit entries and weights are left out.
\<close>

datatype shipment_status =
    Sh_PENDING | Sh_BOOKED | Sh_PICKED_UP | Sh_IN_TRANSIT | Sh_OUT_FOR_DELIVERY | Sh_DELIVERED | Sh_RETURNING | Sh_RETURNED | Sh_CANCELLED

record courier =
  cu_id :: id
  cu_code :: string
  cu_isActive :: bool

record consignment =
  cn_id :: id
  cn_orderId :: id
  cn_courierId :: id
  cn_trackingNo :: "string option"
  cn_consignmentId :: "string option"
  cn_status :: shipment_status
  cn_deliveryCharge :: money
  cn_returnCharge :: money
  cn_bookedAt :: "time option"
  cn_pickedUpAt :: "time option"
  cn_deliveredAt :: "time option"
  cn_returnedAt :: "time option"

text \<open>\<open>sd_zoneCost\<close>: the courier cost of the zone an order ships to, if the zone still exists.\<close>

record dispatch = books +
  sd_couriers :: "courier list"
  sd_consignments :: "consignment list"
  sd_zoneCost :: "id \<Rightarrow> money option"

definition CLOSED :: "shipment_status list" where
  "CLOSED = [Sh_CANCELLED, Sh_RETURNED]"

text \<open>The column a status stamps, the first time only.\<close>

definition stamp_status :: "shipment_status \<Rightarrow> time \<Rightarrow> consignment \<Rightarrow> consignment" where
  "stamp_status st now c =
     (let first = (\<lambda>x. case x of None \<Rightarrow> Some now | t \<Rightarrow> t)
      in case st of
           Sh_BOOKED \<Rightarrow> c\<lparr>cn_bookedAt := first (cn_bookedAt c)\<rparr>
         | Sh_PICKED_UP \<Rightarrow> c\<lparr>cn_pickedUpAt := first (cn_pickedUpAt c)\<rparr>
         | Sh_DELIVERED \<Rightarrow> c\<lparr>cn_deliveredAt := first (cn_deliveredAt c)\<rparr>
         | Sh_RETURNED \<Rightarrow> c\<lparr>cn_returnedAt := first (cn_returnedAt c)\<rparr>
         | _ \<Rightarrow> c)"

definition active_consignment :: "consignment \<Rightarrow> bool" where
  "active_consignment c \<longleftrightarrow> cn_status c \<notin> set CLOSED"

text \<open>
  The writes: the constraints of both tables, and the partial unique index that allows one active
  shipment per order.
\<close>

definition check_amounts :: "shipment \<Rightarrow> consignment \<Rightarrow> bool" where
  "check_amounts m c \<longleftrightarrow> 0 \<le> sm_codAmount m \<and> 0 \<le> cn_deliveryCharge c \<and> 0 \<le> cn_returnCharge c"

definition one_active :: "consignment list \<Rightarrow> bool" where
  "one_active cs \<longleftrightarrow> distinct (map cn_orderId (filter active_consignment cs))"

definition put_shipment :: "shipment \<Rightarrow> consignment \<Rightarrow> 'a dispatch_scheme \<Rightarrow> ('a dispatch_scheme) result" where
  "put_shipment m c s =
     (let cs = map (\<lambda>x. if cn_id x = cn_id c then c else x) (sd_consignments s)
      in if \<not> check_amounts m c then Inl (CheckViolation ''shipments_amounts'')
         else if \<not> one_active cs then Inl (DomainError ''P2002'' 500)
         else Inr (s\<lparr>sd_consignments := cs, tl_shipments := map (\<lambda>x. if sm_id x = sm_id m then m else x) (tl_shipments s)\<rparr>))"

definition insert_shipment :: "shipment \<Rightarrow> consignment \<Rightarrow> 'a dispatch_scheme \<Rightarrow> ('a dispatch_scheme) result" where
  "insert_shipment m c s =
     (if \<not> check_amounts m c then Inl (CheckViolation ''shipments_amounts'')
      else if \<not> one_active (sd_consignments s @ [c]) then Inl (DomainError ''P2002'' 500)
      else Inr (s\<lparr>sd_consignments := sd_consignments s @ [c], tl_shipments := tl_shipments s @ [m]\<rparr>))"

definition billed_consignments :: "id \<Rightarrow> 'a dispatch_scheme \<Rightarrow> consignment list" where
  "billed_consignments orderId s = filter (\<lambda>c. cn_orderId c = orderId \<and> cn_status c \<noteq> Sh_CANCELLED) (sd_consignments s)"

definition syncCourierCost :: "id \<Rightarrow> 'a dispatch_scheme \<Rightarrow> ('a dispatch_scheme) result" where
  "syncCourierCost orderId s =
     (let rows = billed_consignments orderId s
      in if rows = [] then Inr s
         else set_order orderId (\<lambda>r. r\<lparr>or_courierCost := dec_sum (concat (map (\<lambda>c. [cn_deliveryCharge c, cn_returnCharge c]) rows))\<rparr>) s)"

section \<open>Assigning\<close>

record assign_dto =
  as_order :: "order_ref option"
  as_courier :: "id + string"
  as_trackingNo :: "string option"
  as_consignmentId :: "string option"
  as_deliveryCharge :: "money option"

definition or_else :: "'b option \<Rightarrow> 'b option \<Rightarrow> 'b option" where
  "or_else a b = (case a of Some x \<Rightarrow> Some x | None \<Rightarrow> b)"

text \<open>What is still to collect, and the state of the collection.\<close>

definition cod_due :: "order_row \<Rightarrow> money \<times> cod_status" where
  "cod_due r =
     (let due = (if os_paymentStatus r = UNPAID then round2 (or_grandTotal r - or_amountPaid r) else 0)
      in if due > 0 then (due, Cod_PENDING) else (0, NOT_APPLICABLE))"

text \<open>A courier is named by its id, or by its code in lower case.\<close>

definition find_courier :: "id + string \<Rightarrow> 'a dispatch_scheme \<Rightarrow> courier option" where
  "find_courier ref s = (case ref of
      Inl i \<Rightarrow> find (\<lambda>c. cu_id c = i) (sd_couriers s)
    | Inr code \<Rightarrow> find (\<lambda>c. cu_code c = map lower_char code) (sd_couriers s))"

definition rebook :: "assign_dto \<Rightarrow> time \<Rightarrow> consignment \<Rightarrow> consignment" where
  "rebook dto now c =
     (let c' = c\<lparr>cn_trackingNo := or_else (as_trackingNo dto) (cn_trackingNo c),
                 cn_consignmentId := or_else (as_consignmentId dto) (cn_consignmentId c),
                 cn_deliveryCharge := (case as_deliveryCharge dto of Some x \<Rightarrow> x | None \<Rightarrow> cn_deliveryCharge c)\<rparr>
      in if truthy (as_trackingNo dto) \<and> cn_bookedAt c = None then c'\<lparr>cn_status := Sh_BOOKED, cn_bookedAt := Some now\<rparr> else c')"

definition shipment_row :: "id \<Rightarrow> 'a till_scheme \<Rightarrow> shipment" where
  "shipment_row i s = the (find (\<lambda>m. sm_id m = i) (tl_shipments s))"

definition new_consignment :: "id \<Rightarrow> order_row \<Rightarrow> courier \<Rightarrow> assign_dto \<Rightarrow> 'a dispatch_scheme \<Rightarrow> consignment" where
  "new_consignment i order courier dto s =
     (let booked = truthy (as_trackingNo dto)
      in \<lparr>cn_id = i, cn_orderId = or_id order, cn_courierId = cu_id courier, cn_trackingNo = as_trackingNo dto,
          cn_consignmentId = as_consignmentId dto, cn_status = (if booked then Sh_BOOKED else Sh_PENDING),
          cn_deliveryCharge = (case or_else (as_deliveryCharge dto) (sd_zoneCost s (or_id order)) of Some x \<Rightarrow> x | None \<Rightarrow> 0),
          cn_returnCharge = 0, cn_bookedAt = (if booked then Some (st_now s) else None), cn_pickedUpAt = None, cn_deliveredAt = None,
          cn_returnedAt = None\<rparr>)"

definition assign :: "assign_dto \<Rightarrow> 'a dispatch_scheme \<Rightarrow> (id \<times> 'a dispatch_scheme) result" where
  "assign dto s =
     (case order_by_ref (as_order dto) s of
        None \<Rightarrow> Inl (NotFoundError ''Order'' '''')
      | Some order \<Rightarrow>
          if os_status order = CANCELLED \<or> os_status order = RETURNED then Inl (BusinessRuleError ''shipment.order_closed'')
          else (case find_courier (as_courier dto) s of
             None \<Rightarrow> Inl (NotFoundError ''Courier'' '''')
           | Some courier \<Rightarrow>
               if \<not> cu_isActive courier then Inl (BusinessRuleError ''courier.inactive'')
               else if truthy (as_trackingNo dto) \<and> list_ex (\<lambda>c. cn_courierId c = cu_id courier \<and> cn_trackingNo c = as_trackingNo dto
                         \<and> cn_orderId c \<noteq> or_id order) (sd_consignments s)
               then Inl (ConflictError ''shipment.tracking_taken'')
               else
                 let active = find (\<lambda>c. cn_orderId c = or_id order \<and> active_consignment c) (sd_consignments s);
                     (codAmount, codStatus) = cod_due order
                 in ebind (case active of
                      Some a \<Rightarrow>
                        if cn_courierId a = cu_id courier
                        then ebind (put_shipment (shipment_row (cn_id a) s) (rebook dto (st_now s) a) s) (\<lambda>s. Inr (Some (cn_id a), s))
                        else ebind (put_shipment (shipment_row (cn_id a) s) (a\<lparr>cn_status := Sh_CANCELLED\<rparr>) s) (\<lambda>s. Inr (None, s))
                    | None \<Rightarrow> Inr (None, s)) (\<lambda>(kept, s).
                  ebind (case kept of
                      Some i \<Rightarrow> Inr (i, s)
                    | None \<Rightarrow>
                        let (i, s) = fresh_id s
                        in ebind (insert_shipment \<lparr>sm_id = i, sm_orderId = or_id order, sm_codAmount = codAmount, sm_codStatus = codStatus,
                              sm_codCollectedAt = None, sm_codRemittedAt = None\<rparr> (new_consignment i order courier dto s) s) (\<lambda>s. Inr (i, s)))
                    (\<lambda>(i, s). ebind (syncCourierCost (or_id order) s) (\<lambda>s. Inr (i, s))))))"

section \<open>Updating\<close>

text \<open>A field of the request is \<open>None\<close> when it is absent; the two texts may also be set to \<open>null\<close>.\<close>

record update_shipment_dto =
  us_status :: "shipment_status option"
  us_codStatus :: "cod_status option"
  us_deliveryCharge :: "money option"
  us_returnCharge :: "money option"
  us_trackingNo :: "string option option"
  us_consignmentId :: "string option option"

definition collect :: "cod_status option \<Rightarrow> time \<Rightarrow> shipment \<Rightarrow> shipment" where
  "collect st now m =
     (case st of
        None \<Rightarrow> m
      | Some c \<Rightarrow>
          let m' = m\<lparr>sm_codStatus := c\<rparr>; first = (\<lambda>x. case x of None \<Rightarrow> Some now | t \<Rightarrow> t)
          in if c = COLLECTED then m'\<lparr>sm_codCollectedAt := first (sm_codCollectedAt m)\<rparr>
             else if c = REMITTED then m'\<lparr>sm_codRemittedAt := first (sm_codRemittedAt m), sm_codCollectedAt := first (sm_codCollectedAt m)\<rparr>
             else m')"

definition move :: "update_shipment_dto \<Rightarrow> time \<Rightarrow> consignment \<Rightarrow> consignment" where
  "move dto now c =
     (let c1 = (case us_status dto of None \<Rightarrow> c | Some st \<Rightarrow> stamp_status st now (c\<lparr>cn_status := st\<rparr>))
      in c1\<lparr>cn_deliveryCharge := (case us_deliveryCharge dto of Some x \<Rightarrow> x | None \<Rightarrow> cn_deliveryCharge c),
            cn_returnCharge := (case us_returnCharge dto of Some x \<Rightarrow> x | None \<Rightarrow> cn_returnCharge c),
            cn_trackingNo := (case us_trackingNo dto of Some x \<Rightarrow> x | None \<Rightarrow> cn_trackingNo c),
            cn_consignmentId := (case us_consignmentId dto of Some x \<Rightarrow> x | None \<Rightarrow> cn_consignmentId c)\<rparr>)"

definition update_shipment :: "id \<Rightarrow> update_shipment_dto \<Rightarrow> 'a dispatch_scheme \<Rightarrow> ('a dispatch_scheme) result" where
  "update_shipment i dto s =
     (case find (\<lambda>c. cn_id c = i) (sd_consignments s) of
        None \<Rightarrow> Inl (NotFoundError ''Shipment'' i)
      | Some cur \<Rightarrow>
          let m = shipment_row i s
          in if cn_status cur \<in> set CLOSED \<and> us_status dto \<noteq> None \<and> us_status dto \<noteq> Some (cn_status cur)
             then Inl (BusinessRuleError ''shipment.closed'')
             else if us_codStatus dto \<noteq> None \<and> us_codStatus dto \<noteq> Some NOT_APPLICABLE \<and> sm_codAmount m = 0
             then Inl (BusinessRuleError ''shipment.no_cod'')
             else ebind (put_shipment (collect (us_codStatus dto) (st_now s) m) (move dto (st_now s) cur) s) (\<lambda>s.
                  syncCourierCost (cn_orderId cur) s))"

end
