(* ===== verification/Shipments_Properties.thy ===== *)
theory Shipments_Properties
  imports Shipments Cash_Properties Order_Laws
begin

text \<open>
  Couriers and their bills: an order has at most one active shipment, and its courier cost is what the
  shipments that were not cancelled cost, whatever is assigned, rebooked or updated.
\<close>

definition charge :: "consignment \<Rightarrow> money" where
  "charge c = cn_deliveryCharge c + cn_returnCharge c"

definition active_of :: "id \<Rightarrow> 'a dispatch_scheme \<Rightarrow> consignment list" where
  "active_of o' s = filter (\<lambda>c. cn_orderId c = o' \<and> active_consignment c) (sd_consignments s)"

definition cost_ok :: "'a dispatch_scheme \<Rightarrow> order_row \<Rightarrow> bool" where
  "cost_ok s r \<longleftrightarrow> (billed_consignments (or_id r) s \<noteq> [] \<longrightarrow>
     or_courierCost r = sum_list (map charge (billed_consignments (or_id r) s)))"

definition tracked :: "'a dispatch_scheme \<Rightarrow> bool" where
  "tracked s \<longleftrightarrow> inj (tl_uuid s) \<and> distinct (map cn_id (sd_consignments s)) \<and> (\<forall>c \<in> set (sd_consignments s). issued s (cn_id c)) \<and>
     one_active (sd_consignments s)"

definition courier_books :: "'a dispatch_scheme \<Rightarrow> bool" where
  "courier_books s \<longleftrightarrow> tracked s \<and> (\<forall>r \<in> set (sh_orders s). cost_ok s r)"

text \<open>In the middle of an operation the cost of the one order at hand may be behind.\<close>

definition behind :: "id \<Rightarrow> 'a dispatch_scheme \<Rightarrow> bool" where
  "behind o' s \<longleftrightarrow> tracked s \<and> (\<forall>r \<in> set (sh_orders s). or_id r \<noteq> o' \<longrightarrow> cost_ok s r)"

lemma courier_books_behind: "courier_books s \<Longrightarrow> behind o' s"
  by (simp add: courier_books_def behind_def)

lemma charges_concat: "sum_list (concat (map (\<lambda>c. [cn_deliveryCharge c, cn_returnCharge c]) cs)) = sum_list (map charge cs)"
  by (induction cs) (auto simp: charge_def)

lemma sync_catches_up:
  assumes "syncCourierCost o' s = Inr s'" "behind o' s"
  shows "courier_books s'" "sd_consignments s' = sd_consignments s"
proof -
  let ?rows = "billed_consignments o' s" and ?f = "\<lambda>r. r\<lparr>or_courierCost := sum_list (map charge (billed_consignments o' s))\<rparr>"
  have "courier_books s' \<and> sd_consignments s' = sd_consignments s"
  proof (cases "?rows = []")
    case True
    then have "s' = s" using assms(1) by (simp add: syncCourierCost_def)
    then show ?thesis using assms(2) True by (auto simp: courier_books_def behind_def cost_ok_def)
  next
    case False
    then have s': "s' = s\<lparr>sh_orders := map (\<lambda>r. if or_id r = o' then ?f r else r) (sh_orders s)\<rparr>"
      using assms(1) by (auto simp: syncCourierCost_def Let_def set_order_def charges_concat ebind_Inr_iff split: option.splits)
    have b: "billed_consignments i s' = billed_consignments i s" for i by (simp add: billed_consignments_def s')
    have "tracked s'" using assms(2) by (simp add: behind_def tracked_def s' issued_def)
    moreover have "cost_ok s' r" if "r \<in> set (sh_orders s')" for r
      using that assms(2) by (auto simp: s' cost_ok_def b [unfolded s'] behind_def split: if_splits)
    ultimately show ?thesis by (simp add: courier_books_def s')
  qed
  then show "courier_books s'" "sd_consignments s' = sd_consignments s" by simp_all
qed

lemma filter_map_off:
  assumes "\<And>x. x \<in> set xs \<Longrightarrow> h x = x \<or> \<not> P x \<and> \<not> P (h x)"
  shows "filter P (map h xs) = filter P xs"
  using assms by (induction xs) (auto, metis+)

lemma put_behind:
  assumes "put_shipment m c s = Inr s'" "behind (cn_orderId c) s" "x \<in> set (sd_consignments s)" "cn_id x = cn_id c" "cn_orderId x = cn_orderId c"
  shows "behind (cn_orderId c) s' \<and> c \<in> set (sd_consignments s') \<and>
    sd_consignments s' = map (\<lambda>x. if cn_id x = cn_id c then c else x) (sd_consignments s) \<and> tl_uuid s' = tl_uuid s \<and> tl_issued s' = tl_issued s"
proof -
  let ?cs = "map (\<lambda>x. if cn_id x = cn_id c then c else x) (sd_consignments s)"
  have s': "s' = s\<lparr>sd_consignments := ?cs, tl_shipments := map (\<lambda>x. if sm_id x = sm_id m then m else x) (tl_shipments s)\<rparr>"
    and one: "one_active ?cs" using assms(1) by (auto simp: put_shipment_def Let_def split: if_splits)
  have inj: "inj_on cn_id (set (sd_consignments s))" using assms(2) by (simp add: behind_def tracked_def distinct_map)
  have same: "y = x" if "y \<in> set (sd_consignments s)" "cn_id y = cn_id c" for y
    using inj_onD [OF inj] that assms(3,4) by simp
  have ids: "map cn_id ?cs = map cn_id (sd_consignments s)" by auto
  have b: "billed_consignments i s' = billed_consignments i s" if "i \<noteq> cn_orderId c" for i
    unfolding billed_consignments_def s' using that same assms(5) by (simp, intro filter_map_off) auto
  have old: "tracked s" using assms(2) by (simp add: behind_def)
  have d: "distinct (map cn_id ?cs)" unfolding ids using old by (simp add: tracked_def)
  have "issued s (cn_id y)" if "y \<in> set ?cs" for y using that old assms(3,4) by (auto simp: tracked_def split: if_splits)
  then have "tracked s'" using old one d by (simp add: tracked_def s' issued_def)
  moreover have "cost_ok s' r" if "r \<in> set (sh_orders s')" "or_id r \<noteq> cn_orderId c" for r
    using that assms(2) b by (simp add: behind_def cost_ok_def s')
  moreover have "c \<in> set ?cs" using assms(3,4) by force
  ultimately show ?thesis by (simp add: behind_def s')
qed

lemma insert_behind:
  assumes "insert_shipment m c s = Inr s'" "behind (cn_orderId c) s" "cn_id c \<notin> cn_id ` set (sd_consignments s)" "issued s (cn_id c)"
  shows "behind (cn_orderId c) s' \<and> sd_consignments s' = sd_consignments s @ [c]"
proof -
  have s': "s' = s\<lparr>sd_consignments := sd_consignments s @ [c], tl_shipments := tl_shipments s @ [m]\<rparr>"
    and one: "one_active (sd_consignments s @ [c])" using assms(1) by (auto simp: insert_shipment_def split: if_splits)
  have b: "billed_consignments i s' = billed_consignments i s" if "i \<noteq> cn_orderId c" for i
    using that by (simp add: billed_consignments_def s')
  have "tracked s'" using assms(2,3,4) one by (auto simp: behind_def tracked_def s' issued_def)
  then show ?thesis using assms(2) b by (simp add: behind_def cost_ok_def s')
qed

lemma move_ids [simp]: "cn_id (move dto t c) = cn_id c" "cn_orderId (move dto t c) = cn_orderId c"
  by (auto simp: move_def Let_def stamp_status_def split: option.splits shipment_status.splits)

lemma rebook_ids [simp]: "cn_id (rebook dto t c) = cn_id c" "cn_orderId (rebook dto t c) = cn_orderId c"
    "cn_courierId (rebook dto t c) = cn_courierId c" "active_consignment c \<Longrightarrow> active_consignment (rebook dto t c)"
  by (simp_all add: rebook_def Let_def active_consignment_def CLOSED_def)

lemma update_shipment_ok:
  assumes "update_shipment i dto s = Inr s'" "courier_books s"
  shows "courier_books s'"
proof -
  obtain cur where f: "find (\<lambda>c. cn_id c = i) (sd_consignments s) = Some cur" using assms(1) by (auto simp: update_shipment_def split: option.splits)
  obtain s1 where p: "put_shipment (collect (us_codStatus dto) (st_now s) (shipment_row i s)) (move dto (st_now s) cur) s = Inr s1"
    and y: "syncCourierCost (cn_orderId cur) s1 = Inr s'"
    using assms(1) f by (auto simp: update_shipment_def Let_def ebind_Inr_iff split: if_splits)
  have "behind (cn_orderId cur) s1"
    by (rule conjunct1 [OF put_behind [OF p, unfolded move_ids,
          OF courier_books_behind [OF assms(2)] conjunct1 [OF find_SomeD [OF f]] refl refl]])
  then show ?thesis by (rule sync_catches_up(1) [OF y])
qed

text \<open>Assigning: what is done to the shipment at hand, then the bill of the order.\<close>

lemma assignD:
  assumes "assign dto s = Inr (i, s')"
  obtains order courier m where "order_by_ref (as_order dto) s = Some order" "find_courier (as_courier dto) s = Some courier" "cu_isActive courier"
    "(\<exists>a s1. find (\<lambda>c. cn_orderId c = or_id order \<and> active_consignment c) (sd_consignments s) = Some a \<and> cn_courierId a = cu_id courier \<and>
        put_shipment (shipment_row (cn_id a) s) (rebook dto (st_now s) a) s = Inr s1 \<and> i = cn_id a \<and> syncCourierCost (or_id order) s1 = Inr s') \<or>
     (\<exists>s1 s2. (find (\<lambda>c. cn_orderId c = or_id order \<and> active_consignment c) (sd_consignments s) = None \<and> s1 = s \<or>
        (\<exists>a. find (\<lambda>c. cn_orderId c = or_id order \<and> active_consignment c) (sd_consignments s) = Some a \<and> cn_courierId a \<noteq> cu_id courier \<and>
          put_shipment (shipment_row (cn_id a) s) (a\<lparr>cn_status := Sh_CANCELLED\<rparr>) s = Inr s1)) \<and> i = tl_uuid s1 (tl_issued s1) \<and>
        insert_shipment m (new_consignment i order courier dto (snd (fresh_id s1))) (snd (fresh_id s1)) = Inr s2 \<and>
        syncCourierCost (or_id order) s2 = Inr s')"
proof -
  obtain order where o: "order_by_ref (as_order dto) s = Some order" using assms by (auto simp: assign_def split: option.splits)
  then obtain courier where c: "find_courier (as_courier dto) s = Some courier" "cu_isActive courier"
    using assms by (auto simp: assign_def split: option.splits if_splits)
  obtain amt st where cod: "cod_due order = (amt, st)" by (cases "cod_due order")
  define act where "act = find (\<lambda>c. cn_orderId c = or_id order \<and> active_consignment c) (sd_consignments s)"
  define m where "m j = \<lparr>sm_id = j, sm_orderId = or_id order, sm_codAmount = amt, sm_codStatus = st, sm_codCollectedAt = None, sm_codRemittedAt = None\<rparr>" for j
  have run: "ebind (case act of
        Some a \<Rightarrow> if cn_courierId a = cu_id courier
          then ebind (put_shipment (shipment_row (cn_id a) s) (rebook dto (st_now s) a) s) (\<lambda>s. Inr (Some (cn_id a), s))
          else ebind (put_shipment (shipment_row (cn_id a) s) (a\<lparr>cn_status := Sh_CANCELLED\<rparr>) s) (\<lambda>s. Inr (None, s))
      | None \<Rightarrow> Inr (None, s)) (\<lambda>(kept, s).
      ebind (case kept of Some j \<Rightarrow> Inr (j, s)
        | None \<Rightarrow> (let (i, s) = fresh_id s in ebind (insert_shipment (m i) (new_consignment i order courier dto s) s) (\<lambda>s. Inr (i, s))))
        (\<lambda>(j, s). ebind (syncCourierCost (or_id order) s) (\<lambda>s. Inr (j, s)))) = Inr (i, s')"
    using assms o c cod unfolding act_def m_def by (simp add: assign_def Let_def [of "find _ _"] split: if_splits)
  obtain kept s1 where k: "(case act of
        Some a \<Rightarrow> if cn_courierId a = cu_id courier
          then ebind (put_shipment (shipment_row (cn_id a) s) (rebook dto (st_now s) a) s) (\<lambda>s. Inr (Some (cn_id a), s))
          else ebind (put_shipment (shipment_row (cn_id a) s) (a\<lparr>cn_status := Sh_CANCELLED\<rparr>) s) (\<lambda>s. Inr (None, s))
      | None \<Rightarrow> Inr (None, s)) = Inr (kept, s1)"
    and f: "ebind (case kept of Some j \<Rightarrow> Inr (j, s1)
        | None \<Rightarrow> (let (i, s) = fresh_id s1 in ebind (insert_shipment (m i) (new_consignment i order courier dto s) s) (\<lambda>s. Inr (i, s))))
        (\<lambda>(j, s). ebind (syncCourierCost (or_id order) s) (\<lambda>s. Inr (j, s))) = Inr (i, s')"
    using run [unfolded ebind_Inr_iff] by auto
  show ?thesis
  proof (cases kept)
    case (Some j)
    then obtain a where "act = Some a" "cn_courierId a = cu_id courier" "j = cn_id a"
      "put_shipment (shipment_row (cn_id a) s) (rebook dto (st_now s) a) s = Inr s1"
      using k by (auto simp: ebind_Inr_iff split: option.splits if_splits)
    moreover have "i = j" "syncCourierCost (or_id order) s1 = Inr s'" using f Some by (auto simp: ebind_Inr_iff)
    ultimately show ?thesis by (intro that [OF o c, of "m i"] disjI1) (auto simp: act_def)
  next
    case None
    then have "act = None \<and> s1 = s \<or> (\<exists>a. act = Some a \<and> cn_courierId a \<noteq> cu_id courier \<and>
        put_shipment (shipment_row (cn_id a) s) (a\<lparr>cn_status := Sh_CANCELLED\<rparr>) s = Inr s1)"
      using k by (auto simp: ebind_Inr_iff split: option.splits if_splits)
    moreover obtain s2 where "i = tl_uuid s1 (tl_issued s1)" "insert_shipment (m (tl_uuid s1 (tl_issued s1)))
        (new_consignment (tl_uuid s1 (tl_issued s1)) order courier dto (snd (fresh_id s1))) (snd (fresh_id s1)) = Inr s2"
      "syncCourierCost (or_id order) s2 = Inr s'"
      using f None by (auto simp: ebind_Inr_iff fresh_id_def)
    ultimately show ?thesis by (intro that [OF o c, of "m i"] disjI2) (auto simp: act_def)
  qed
qed

lemma new_consignment_sel [simp]:
  "cn_id (new_consignment i order courier dto s) = i" "cn_orderId (new_consignment i order courier dto s) = or_id order"
  "cn_courierId (new_consignment i order courier dto s) = cu_id courier" "active_consignment (new_consignment i order courier dto s)"
  by (simp_all add: new_consignment_def Let_def active_consignment_def CLOSED_def)

lemma fresh_behind:
  assumes "behind o' s"
  shows "behind o' (snd (fresh_id s))" "issued (snd (fresh_id s)) (tl_uuid s (tl_issued s))"
    "tl_uuid s (tl_issued s) \<notin> cn_id ` set (sd_consignments (snd (fresh_id s)))"
proof -
  have t: "tracked s" using assms by (simp add: behind_def)
  have iss: "issued (snd (fresh_id s)) x" if "issued s x" for x
    using that by (rule issued_mono [rotated 2]) (simp_all add: fresh_id_def)
  then have "tracked (snd (fresh_id s))" using t by (simp add: tracked_def fresh_id_def)
  then show "behind o' (snd (fresh_id s))" using assms by (simp add: behind_def fresh_id_def cost_ok_def billed_consignments_def)
  show "issued (snd (fresh_id s)) (tl_uuid s (tl_issued s))" by (auto simp: issued_def fresh_id_def)
  show "tl_uuid s (tl_issued s) \<notin> cn_id ` set (sd_consignments (snd (fresh_id s)))"
    using t fresh_not_issued [of s] by (auto simp: tracked_def fresh_id_def)
qed

text \<open>At most one shipment of an order is active.\<close>

lemma one_active_of:
  assumes "tracked s" "c \<in> set (sd_consignments s)" "active_consignment c"
  shows "active_of (cn_orderId c) s = [c]"
proof -
  have d: "distinct (map cn_orderId (filter active_consignment (sd_consignments s)))" using assms(1) by (simp add: tracked_def one_active_def)
  have single: "distinct xs \<Longrightarrow> c \<in> set xs \<Longrightarrow> (\<And>x. x \<in> set xs \<Longrightarrow> P x \<longleftrightarrow> x = c) \<Longrightarrow> filter P xs = [c]" for xs :: "consignment list" and P
  proof (induction xs)
    case (Cons x xs)
    then show ?case by (cases "x = c") (auto simp: filter_empty_conv)
  qed simp
  have e: "active_of (cn_orderId c) s = filter (\<lambda>x. cn_orderId x = cn_orderId c) (filter active_consignment (sd_consignments s))"
    by (simp add: active_of_def conj_commute)
  have "cn_orderId x = cn_orderId c \<longleftrightarrow> x = c" if "x \<in> set (filter active_consignment (sd_consignments s))" for x
    using d that assms(2,3) by (auto simp: distinct_map inj_on_def)
  then show ?thesis unfolding e using d assms(2,3) by (intro single) (auto simp: distinct_map)
qed

lemma assign_ok:
  assumes "assign dto s = Inr (i, s')" "courier_books s"
  shows "courier_books s' \<and> (\<exists>order courier c. order_by_ref (as_order dto) s = Some order \<and> find_courier (as_courier dto) s = Some courier \<and>
    cn_id c = i \<and> cn_courierId c = cu_id courier \<and> active_of (or_id order) s' = [c])"
proof -
  obtain order courier m where o: "order_by_ref (as_order dto) s = Some order" "find_courier (as_courier dto) s = Some courier"
    and d: "(\<exists>a s1. find (\<lambda>c. cn_orderId c = or_id order \<and> active_consignment c) (sd_consignments s) = Some a \<and> cn_courierId a = cu_id courier \<and>
        put_shipment (shipment_row (cn_id a) s) (rebook dto (st_now s) a) s = Inr s1 \<and> i = cn_id a \<and> syncCourierCost (or_id order) s1 = Inr s') \<or>
     (\<exists>s1 s2. (find (\<lambda>c. cn_orderId c = or_id order \<and> active_consignment c) (sd_consignments s) = None \<and> s1 = s \<or>
        (\<exists>a. find (\<lambda>c. cn_orderId c = or_id order \<and> active_consignment c) (sd_consignments s) = Some a \<and> cn_courierId a \<noteq> cu_id courier \<and>
          put_shipment (shipment_row (cn_id a) s) (a\<lparr>cn_status := Sh_CANCELLED\<rparr>) s = Inr s1)) \<and> i = tl_uuid s1 (tl_issued s1) \<and>
        insert_shipment m (new_consignment i order courier dto (snd (fresh_id s1))) (snd (fresh_id s1)) = Inr s2 \<and>
        syncCourierCost (or_id order) s2 = Inr s')"
    using assms(1) by (rule assignD) (rule that)
  note bh = courier_books_behind [OF assms(2), of "or_id order"]
  have "\<exists>c s2. cn_id c = i \<and> cn_orderId c = or_id order \<and> cn_courierId c = cu_id courier \<and> active_consignment c \<and>
      c \<in> set (sd_consignments s2) \<and> behind (or_id order) s2 \<and> syncCourierCost (or_id order) s2 = Inr s'"
    using d
  proof (elim disjE exE conjE)
    fix a s1
    assume f: "find (\<lambda>c. cn_orderId c = or_id order \<and> active_consignment c) (sd_consignments s) = Some a" and c: "cn_courierId a = cu_id courier"
      and p: "put_shipment (shipment_row (cn_id a) s) (rebook dto (st_now s) a) s = Inr s1" and i: "i = cn_id a"
      and y: "syncCourierCost (or_id order) s1 = Inr s'"
    note fa = find_SomeD [OF f]
    have "behind (or_id order) s1 \<and> rebook dto (st_now s) a \<in> set (sd_consignments s1)"
      using put_behind [OF p, of a, unfolded rebook_ids, OF _ _ refl refl] fa bh by metis
    then show ?thesis using fa c i y by (intro exI [of _ "rebook dto (st_now s) a"] exI [of _ s1]) simp
  next
    fix s1 s2
    assume s1: "find (\<lambda>c. cn_orderId c = or_id order \<and> active_consignment c) (sd_consignments s) = None" "s1 = s"
      and i: "i = tl_uuid s1 (tl_issued s1)" and y: "syncCourierCost (or_id order) s2 = Inr s'"
      and n: "insert_shipment m (new_consignment i order courier dto (snd (fresh_id s1))) (snd (fresh_id s1)) = Inr s2"
    then have "behind (or_id order) s1" using bh by simp
    note fr = fresh_behind [OF this]
    show ?thesis using insert_behind [OF n] fr i y
      by (intro exI [of _ "new_consignment i order courier dto (snd (fresh_id s1))"] exI [of _ s2]) simp
  next
    fix s1 s2 a
    assume f: "find (\<lambda>c. cn_orderId c = or_id order \<and> active_consignment c) (sd_consignments s) = Some a"
      and p: "put_shipment (shipment_row (cn_id a) s) (a\<lparr>cn_status := Sh_CANCELLED\<rparr>) s = Inr s1"
      and i: "i = tl_uuid s1 (tl_issued s1)" and y: "syncCourierCost (or_id order) s2 = Inr s'"
      and n: "insert_shipment m (new_consignment i order courier dto (snd (fresh_id s1))) (snd (fresh_id s1)) = Inr s2"
    note fa = find_SomeD [OF f]
    have "behind (or_id order) s1" using put_behind [OF p _ conjunct1 [OF fa]] fa bh by simp
    note fr = fresh_behind [OF this]
    show ?thesis using insert_behind [OF n] fr i y
      by (intro exI [of _ "new_consignment i order courier dto (snd (fresh_id s1))"] exI [of _ s2]) simp
  qed
  then obtain c s2 where c: "cn_id c = i" "cn_orderId c = or_id order" "cn_courierId c = cu_id courier" "active_consignment c"
    "c \<in> set (sd_consignments s2)" and b: "behind (or_id order) s2" and y: "syncCourierCost (or_id order) s2 = Inr s'" by blast
  note up = sync_catches_up [OF y b]
  have "active_of (or_id order) s' = [c]" using one_active_of [of s' c] up c by (simp add: courier_books_def)
  then show ?thesis using up(1) o c by blast
qed

section \<open>Couriers over time\<close>

inductive courier_step :: "'a dispatch_scheme \<Rightarrow> 'a dispatch_scheme \<Rightarrow> bool" where
  Assigned: "assign dto s = Inr (i, s') \<Longrightarrow> courier_step s s'"
| Updated: "update_shipment i dto s = Inr s' \<Longrightarrow> courier_step s s'"
| Clock: "courier_step s (s\<lparr>st_now := t\<rparr>)"

inductive_cases courier_stepE: "courier_step s s'"

lemma courier_step_ok: "courier_step s s' \<Longrightarrow> courier_books s \<Longrightarrow> courier_books s'"
proof (erule courier_stepE)
  fix t
  assume "courier_books s" and s': "s' = s\<lparr>st_now := t\<rparr>"
  then show "courier_books s'"
    by (simp add: courier_books_def tracked_def issued_def cost_ok_def billed_consignments_def)
qed (auto dest: assign_ok update_shipment_ok)


text \<open>
  Assigning gives the order exactly one active shipment, with the courier that was named; another
  courier's shipment is cancelled and no longer billed.
\<close>

theorem assigned_to_courier:
  assumes "assign dto s = Inr (i, s')" "courier_books s"
  shows "\<exists>order courier c. order_by_ref (as_order dto) s = Some order \<and> find_courier (as_courier dto) s = Some courier \<and>
    active_of (or_id order) s' = [c] \<and> cn_id c = i \<and> cn_courierId c = cu_id courier"
  using assign_ok [OF assms] by blast

text \<open>
  The last shipment of an order being cancelled leaves the courier cost of the order where it was: the
  cost of a shipment nobody will bill stays in the books.
\<close>

theorem cancelled_cost_stays:
  assumes "update_shipment i dto s = Inr s'" "us_status dto = Some Sh_CANCELLED"
    and "billed_consignments o' s = [c]" "cn_id c = i" "distinct (map cn_id (sd_consignments s))"
  shows "billed_consignments o' s' = [] \<and> sh_orders s' = sh_orders s"
proof -
  obtain cur where f: "find (\<lambda>c. cn_id c = i) (sd_consignments s) = Some cur" using assms(1) by (auto simp: update_shipment_def split: option.splits)
  obtain s1 where p: "put_shipment (collect (us_codStatus dto) (st_now s) (shipment_row i s)) (move dto (st_now s) cur) s = Inr s1"
    and y: "syncCourierCost (cn_orderId cur) s1 = Inr s'"
    using assms(1) f by (auto simp: update_shipment_def Let_def ebind_Inr_iff split: if_splits)
  have inj: "inj_on cn_id (set (sd_consignments s))" using assms(5) by (simp add: distinct_map)
  have "c \<in> set (billed_consignments o' s)" using assms(3) by simp
  then have c: "c \<in> set (sd_consignments s)" "cn_orderId c = o'" by (auto simp: billed_consignments_def)
  have cur: "cur = c" by (rule inj_onD [OF inj]) (use find_SomeD [OF f] c assms(4) in auto)
  have s1: "s1 = s\<lparr>sd_consignments := map (\<lambda>x. if cn_id x = i then move dto (st_now s) c else x) (sd_consignments s),
      tl_shipments := tl_shipments s1\<rparr>"
    using p assms(4) by (auto simp: put_shipment_def Let_def cur split: if_splits)
  have gone: "cn_status (move dto (st_now s) c) = Sh_CANCELLED" using assms(2) by (simp add: move_def Let_def stamp_status_def)
  have "filter (\<lambda>c. cn_orderId c = o' \<and> cn_status c \<noteq> Sh_CANCELLED) (map (\<lambda>x. if cn_id x = i then move dto (st_now s) c else x) (sd_consignments s)) = []"
  proof -
    have "x = c" if "x \<in> set (sd_consignments s)" "cn_orderId x = o'" "cn_status x \<noteq> Sh_CANCELLED" for x
    proof -
      have "x \<in> set (billed_consignments o' s)" using that by (simp add: billed_consignments_def)
      then show ?thesis using assms(3) by simp
    qed
    then show ?thesis using gone assms(4) by (auto simp: filter_empty_conv)
  qed
  then have none: "billed_consignments o' s1 = []" by (subst s1) (simp add: billed_consignments_def)
  then have "s' = s1" using y c(2) by (simp add: syncCourierCost_def cur)
  moreover have "sh_orders s1 = sh_orders s" by (subst s1) simp
  ultimately show ?thesis using none by simp
qed

section \<open>One order, two couriers\<close>

definition packed_order :: order_row where
  "packed_order = \<lparr>os_status = PROCESSING, os_paymentMethod = COD, os_paymentStatus = UNPAID, os_stockReserved = True,
     os_confirmedAt = Some 1, os_shippedAt = None, or_id = ''o1'', or_orderNo = ''CLO-2042'', or_customerId = ''c1'',
     or_itemsSubtotal = 100, or_discountTotal = 0, or_couponCode = None, or_shippingFee = 20, or_taxTotal = 0, or_grandTotal = 120,
     or_amountPaid = 0, or_amountRefunded = 0, or_itemsCost = None, or_courierCost = 60, or_gatewayFee = 0, or_courierLoss = 0,
     or_cancelReason = None, or_cancelledFrom = None, or_placedAt = 0, or_deliveredAt = None, or_cancelledAt = None,
     or_paidAt = None, or_version = 2\<rparr>"

definition depot :: dispatch where
  "depot = \<lparr>st_now = 10, st_nextId = 2, st_products = Map.empty, st_lots = [], st_uses = [], st_moves = [], st_items = [],
     sh_orders = [packed_order], sh_customers = [], sh_coupons = [], sh_redemptions = [], sh_history = [],
     tl_uuid = (\<lambda>n. replicate n CHR ''u''), tl_issued = 0, tl_accounts = [], tl_txns = [], tl_payments = [],
     tl_refunds = [], tl_purchases = [], tl_shipments = [],
     fr_counters = [], fr_keys = [], fr_outbox = [], fr_districts = [], fr_upazilas = [], fr_unions = [], fr_catalog = [], fr_bundles = [],
     fr_rules = [], fr_carts = [], bk_documents = [], bk_feePct = Some 2,
     sd_couriers = [\<lparr>cu_id = ''k1'', cu_code = ''steadfast'', cu_isActive = True\<rparr>, \<lparr>cu_id = ''k2'', cu_code = ''pathao'', cu_isActive = True\<rparr>],
     sd_consignments = [], sd_zoneCost = (\<lambda>_. Some 70)\<rparr>"

definition by_steadfast :: assign_dto where
  "by_steadfast = \<lparr>as_order = Some (ById ''o1''), as_courier = Inr ''Steadfast'', as_trackingNo = Some ''T1'', as_consignmentId = None,
     as_deliveryCharge = Some 80\<rparr>"

definition cancel_it :: update_shipment_dto where
  "cancel_it = \<lparr>us_status = Some Sh_CANCELLED, us_codStatus = None, us_deliveryCharge = None, us_returnCharge = None,
     us_trackingNo = None, us_consignmentId = None\<rparr>"

lemma depot_books: "courier_books depot"
  by (auto simp: courier_books_def tracked_def one_active_def cost_ok_def billed_consignments_def depot_def intro: injI)

declare ebind_def [code_unfold]

lemma assigned_steadfast:
  "case assign by_steadfast depot of
     Inr (i, s') \<Rightarrow> map (\<lambda>c. (cn_id c, cn_orderId c, cn_deliveryCharge c, cn_status c)) (sd_consignments s') = [([], ''o1'', 80, Sh_BOOKED)] \<and>
       map or_courierCost (sh_orders s') = [80]
   | Inl e \<Rightarrow> False"
  by code_simp

lemma then_cancelled:
  "case assign by_steadfast depot of
     Inr (i, s1) \<Rightarrow> (case update_shipment [] cancel_it s1 of Inl e \<Rightarrow> False | Inr t \<Rightarrow> True)
   | Inl e \<Rightarrow> False"
  by code_simp


theorem assigned_to_courier_witness:
  "\<exists>i s' c. assign by_steadfast depot = Inr (i, s') \<and> active_of ''o1'' s' = [c] \<and> cn_courierId c = ''k1''"
proof -
  obtain i s' where a: "assign by_steadfast depot = Inr (i, s')" using assigned_steadfast by (auto split: sum.splits)
  have o: "order_by_ref (as_order by_steadfast) depot = Some packed_order"
    by (simp add: order_by_ref_def by_steadfast_def find_order_def depot_def packed_order_def)
  have k: "find_courier (as_courier by_steadfast) depot = Some \<lparr>cu_id = ''k1'', cu_code = ''steadfast'', cu_isActive = True\<rparr>" by code_simp
  have "or_id packed_order = ''o1''" by (simp add: packed_order_def)
  with assigned_to_courier [OF a depot_books] o k a show ?thesis by auto
qed

theorem cancelled_cost_stays_witness:
  "\<exists>(s1 :: dispatch) t. update_shipment [] cancel_it s1 = Inr t \<and> billed_consignments ''o1'' t = [] \<and> map or_courierCost (sh_orders t) = [80]"
proof -
  obtain i s1 where a: "assign by_steadfast depot = Inr (i, s1)" using assigned_steadfast by (auto split: sum.splits)
  obtain s2 where u: "update_shipment [] cancel_it s1 = Inr s2" using then_cancelled a by (auto split: sum.splits)
  have c: "map (\<lambda>c. (cn_id c, cn_orderId c, cn_deliveryCharge c, cn_status c)) (sd_consignments s1) = [([], ''o1'', 80, Sh_BOOKED)]"
    and cost: "map or_courierCost (sh_orders s1) = [80]" using assigned_steadfast a by simp_all
  then obtain c where b: "billed_consignments ''o1'' s1 = [c]" "cn_id c = []" by (auto simp: billed_consignments_def map_eq_Cons_conv)
  have d: "distinct (map cn_id (sd_consignments s1))" using c by (auto simp: map_eq_Cons_conv)
  have "us_status cancel_it = Some Sh_CANCELLED" by (simp add: cancel_it_def)
  from cancelled_cost_stays [OF u this b d] u cost show ?thesis by (intro exI [of _ s1] exI [of _ s2]) simp
qed

end
