(* ===== verification/Accounts.thy ===== *)
theory Accounts
  imports Placement Dhaka_Time
begin

text \<open>
  Accounts and sessions: \<open>modules/auth/auth.service.ts\<close>, the session check of \<open>modules/auth/jwt.strategy.ts\<close>
  and the staff accounts of \<open>modules/staff/application/staff.service.ts\<close>. Hashes are an argument, and so is
  the source of random texts. An access token stands for its claims; signing and verifying it is the
  library's. Outside a transaction an operation may write and then throw, so what may do that returns the
  state beside its result. Metrics, audit entries, addresses and agents of a session are left out.
\<close>

section \<open>The tables\<close>

datatype user_role = OWNER | ADMIN | MANAGER | SUPPORT | ACCOUNTANT | WAREHOUSE | Role_CUSTOMER

datatype user_status = Us_ACTIVE | Us_SUSPENDED | Us_DISABLED

record user_row =
  ur_id :: id
  ur_name :: string
  ur_email :: "string option"
  ur_phone :: "string option"
  ur_role :: user_role
  ur_status :: user_status
  ur_passwordHash :: "string option"
  ur_failedLogins :: int
  ur_lockedUntil :: "time option"
  ur_mustChangePassword :: bool
  ur_lastLoginAt :: "time option"
  ur_deletedAt :: "time option"

record auth_session =
  sn_id :: id
  sn_userId :: id
  sn_refreshTokenHash :: string
  sn_expiresAt :: time
  sn_revokedAt :: "time option"
  sn_lastUsedAt :: time

record verification_code =
  vc_id :: id
  vc_userId :: id
  vc_target :: string
  vc_codeHash :: string
  vc_attempts :: int
  vc_expiresAt :: time
  vc_consumedAt :: "time option"
  vc_createdAt :: time

text \<open>\<open>ac_secret\<close> and \<open>ac_pin\<close> are the draws of \<open>randomBytes\<close> and \<open>randomInt\<close>, \<open>ac_drawn\<close> how many were made.\<close>

record vault = front +
  ac_users :: "user_row list"
  ac_sessions :: "auth_session list"
  ac_codes :: "verification_code list"
  ac_secret :: "nat \<Rightarrow> string"
  ac_pin :: "nat \<Rightarrow> int"
  ac_drawn :: nat

text \<open>\<open>sha256\<close>, and \<open>argon2\<close> with the salt it draws.\<close>

record crypto =
  cy_sha :: "string \<Rightarrow> string"
  cy_hash :: "nat \<Rightarrow> string \<Rightarrow> string"
  cy_verify :: "string \<Rightarrow> string \<Rightarrow> bool"

record access_claims =
  cl_sub :: id
  cl_role :: user_role
  cl_name :: string
  cl_cid :: "id option"
  cl_sid :: id
  cl_mcp :: bool

record tokens =
  tk_access :: access_claims
  tk_refresh :: string

definition MAX_FAILED :: int where "MAX_FAILED = 5"
definition LOCK_MINUTES :: int where "LOCK_MINUTES = 15"
definition OTP_TTL_MIN :: int where "OTP_TTL_MIN = 10"
definition OTP_MAX_ATTEMPTS :: int where "OTP_MAX_ATTEMPTS = 5"

definition draw_secret :: "'a vault_scheme \<Rightarrow> string \<times> 'a vault_scheme" where
  "draw_secret s = (ac_secret s (ac_drawn s), s\<lparr>ac_drawn := Suc (ac_drawn s)\<rparr>)"

definition draw_pin :: "'a vault_scheme \<Rightarrow> int \<times> 'a vault_scheme" where
  "draw_pin s = (ac_pin s (ac_drawn s), s\<lparr>ac_drawn := Suc (ac_drawn s)\<rparr>)"

definition hash_password :: "crypto \<Rightarrow> string \<Rightarrow> 'a vault_scheme \<Rightarrow> string \<times> 'a vault_scheme" where
  "hash_password K password s = (cy_hash K (ac_drawn s) password, s\<lparr>ac_drawn := Suc (ac_drawn s)\<rparr>)"

definition user_by_id :: "id \<Rightarrow> 'a vault_scheme \<Rightarrow> user_row option" where
  "user_by_id i s = find (\<lambda>u. ur_id u = i) (ac_users s)"

text \<open>The column of emails ignores case.\<close>

definition same_email :: "string \<Rightarrow> user_row \<Rightarrow> bool" where
  "same_email email u \<longleftrightarrow> map_option lower_s (ur_email u) = Some (lower_s email)"

definition put_user :: "id \<Rightarrow> (user_row \<Rightarrow> user_row) \<Rightarrow> 'a vault_scheme \<Rightarrow> 'a vault_scheme" where
  "put_user i f s = s\<lparr>ac_users := map (\<lambda>u. if ur_id u = i then f u else u) (ac_users s)\<rparr>"

text \<open>Phones and emails are unique.\<close>

definition insert_user :: "user_row \<Rightarrow> 'a vault_scheme \<Rightarrow> ('a vault_scheme) result" where
  "insert_user u s =
     (if list_ex (\<lambda>x. ur_phone u \<noteq> None \<and> ur_phone x = ur_phone u \<or>
          (case ur_email u of None \<Rightarrow> False | Some e \<Rightarrow> same_email e x)) (ac_users s) then Inl (DomainError ''P2002'' 500)
      else Inr (s\<lparr>ac_users := ac_users s @ [u]\<rparr>))"

definition revoke_where :: "(auth_session \<Rightarrow> bool) \<Rightarrow> 'a vault_scheme \<Rightarrow> 'a vault_scheme" where
  "revoke_where P s = s\<lparr>ac_sessions := map (\<lambda>x. if P x \<and> sn_revokedAt x = None then x\<lparr>sn_revokedAt := Some (st_now s)\<rparr> else x) (ac_sessions s)\<rparr>"

definition revoke_all :: "id \<Rightarrow> 'a vault_scheme \<Rightarrow> 'a vault_scheme" where
  "revoke_all i s = revoke_where (\<lambda>x. sn_userId x = i) s"

definition findByIdentifier :: "string \<Rightarrow> 'a vault_scheme \<Rightarrow> user_row option" where
  "findByIdentifier identifier s =
     (let i = js_trim identifier
      in if CHR ''@'' \<in> set i then find (same_email (lower_s i)) (ac_users s)
         else (case normalizeBdPhone (Some (js i)) of
             None \<Rightarrow> None
           | Some p \<Rightarrow> find (\<lambda>u. ur_phone u = Some p) (ac_users s)))"

section \<open>Signing in\<close>

text \<open>\<open>ttl\<close> is \<open>JWT_REFRESH_TTL_DAYS\<close>. The hash of a refresh token is unique.\<close>

definition issue_tokens :: "crypto \<Rightarrow> int \<Rightarrow> user_row \<Rightarrow> 'a vault_scheme \<Rightarrow> tokens result \<times> 'a vault_scheme" where
  "issue_tokens K ttl user s =
     (let (refreshToken, s) = draw_secret s;
          cid = (if ur_role user = Role_CUSTOMER then map_option cs_id (find (\<lambda>c. cs_userId c = Some (ur_id user)) (sh_customers s)) else None);
          (i, s) = fresh_id s
      in if list_ex (\<lambda>x. sn_refreshTokenHash x = cy_sha K refreshToken) (ac_sessions s) then (Inl (DomainError ''P2002'' 500), s)
         else (Inr \<lparr>tk_access = \<lparr>cl_sub = ur_id user, cl_role = ur_role user, cl_name = ur_name user, cl_cid = cid, cl_sid = i,
                       cl_mcp = ur_mustChangePassword user\<rparr>, tk_refresh = refreshToken\<rparr>,
               s\<lparr>ac_sessions := ac_sessions s @ [\<lparr>sn_id = i, sn_userId = ur_id user, sn_refreshTokenHash = cy_sha K refreshToken,
                   sn_expiresAt = st_now s + ttl * 86400000, sn_revokedAt = None, sn_lastUsedAt = st_now s\<rparr>]\<rparr>))"

record register_dto =
  rg_name :: string
  rg_phone :: jstr
  rg_email :: "string option"
  rg_password :: string

text \<open>A guest who ordered before keeps the history: the row of the phone is linked.\<close>

definition link_customer :: "user_row \<Rightarrow> string \<Rightarrow> string option \<Rightarrow> 'a vault_scheme \<Rightarrow> ('a vault_scheme) result" where
  "link_customer u phone email s =
     (if list_ex (\<lambda>c. cs_phone c = phone) (sh_customers s)
      then Inr (s\<lparr>sh_customers := map (\<lambda>c. if cs_phone c = phone
             then c\<lparr>cs_userId := Some (ur_id u), cs_name := ur_name u, cs_email := (case email of Some e \<Rightarrow> Some e | None \<Rightarrow> cs_email c)\<rparr>
             else c) (sh_customers s)\<rparr>)
      else ebind (create_customer phone (ur_name u) email (Some (ur_id u)) s) (\<lambda>(c, s). Inr s))"

definition register_tx :: "crypto \<Rightarrow> register_dto \<Rightarrow> string \<Rightarrow> string option \<Rightarrow> 'a vault_scheme \<Rightarrow> (user_row \<times> 'a vault_scheme) result" where
  "register_tx K dto phone email s =
     (let (h, s) = hash_password K (rg_password dto) s;
          (i, s) = fresh_id s;
          u = \<lparr>ur_id = i, ur_name = js_trim (rg_name dto), ur_email = email, ur_phone = Some phone, ur_role = Role_CUSTOMER, ur_status = Us_ACTIVE,
               ur_passwordHash = Some h, ur_failedLogins = 0, ur_lockedUntil = None, ur_mustChangePassword = False, ur_lastLoginAt = None,
               ur_deletedAt = None\<rparr>
      in ebind (insert_user u s) (\<lambda>s. ebind (link_customer u phone email s) (\<lambda>s. Inr (u, s))))"

definition register :: "crypto \<Rightarrow> int \<Rightarrow> register_dto \<Rightarrow> 'a vault_scheme \<Rightarrow> tokens result \<times> 'a vault_scheme" where
  "register K ttl dto s =
     (case normalizeBdPhone (Some (rg_phone dto)) of
        None \<Rightarrow> (Inl (BusinessRuleError ''auth.phone_invalid''), s)
      | Some phone \<Rightarrow>
          let email = (case rg_email dto of None \<Rightarrow> None | Some e \<Rightarrow> (let e' = lower_s (js_trim e) in if e' = [] then None else Some e'))
          in if list_ex (\<lambda>u. ur_phone u = Some phone \<or> (case email of None \<Rightarrow> False | Some e \<Rightarrow> same_email e u)) (ac_users s)
             then (Inl (ConflictError ''auth.account_exists''), s)
             else (case register_tx K dto phone email s of
                 Inl e \<Rightarrow> (Inl e, s)
               | Inr (u, s) \<Rightarrow> issue_tokens K ttl u s))"

text \<open>The same answer for an unknown account and a wrong password.\<close>

definition bad_login :: domain_error where
  "bad_login = UnauthorizedError ''auth.invalid_credentials''"

definition login :: "crypto \<Rightarrow> int \<Rightarrow> string \<Rightarrow> string \<Rightarrow> 'a vault_scheme \<Rightarrow> tokens result \<times> 'a vault_scheme" where
  "login K ttl identifier password s =
     (case findByIdentifier identifier s of
        None \<Rightarrow> (Inl bad_login, s)
      | Some user \<Rightarrow>
          (case ur_passwordHash user of
             None \<Rightarrow> (Inl bad_login, s)
           | Some h \<Rightarrow>
               if h = '''' \<or> ur_deletedAt user \<noteq> None then (Inl bad_login, s)
               else if ur_status user \<noteq> Us_ACTIVE then (Inl (UnauthorizedError ''auth.disabled''), s)
               else if (case ur_lockedUntil user of None \<Rightarrow> False | Some t \<Rightarrow> t > st_now s) then (Inl (UnauthorizedError ''auth.locked''), s)
               else if \<not> cy_verify K h password
               then let failed = ur_failedLogins user + 1
                    in (Inl bad_login, put_user (ur_id user) (\<lambda>u. u\<lparr>ur_failedLogins := failed,
                          ur_lockedUntil := (if failed \<ge> MAX_FAILED then Some (st_now s + LOCK_MINUTES * 60000) else None)\<rparr>) s)
               else issue_tokens K ttl user (put_user (ur_id user) (\<lambda>u. u\<lparr>ur_failedLogins := 0, ur_lockedUntil := None, ur_lastLoginAt := Some (st_now s)\<rparr>) s)))"

section \<open>Sessions\<close>

definition refresh :: "crypto \<Rightarrow> int \<Rightarrow> string option \<Rightarrow> 'a vault_scheme \<Rightarrow> tokens result \<times> 'a vault_scheme" where
  "refresh K ttl refreshToken s =
     (if \<not> truthy refreshToken then (Inl (UnauthorizedError ''auth.refresh_missing''), s)
      else (case find (\<lambda>x. sn_refreshTokenHash x = cy_sha K (the refreshToken)) (ac_sessions s) of
         None \<Rightarrow> (Inl (UnauthorizedError ''auth.refresh_invalid''), s)
       | Some session \<Rightarrow>
           if sn_revokedAt session \<noteq> None then (Inl (UnauthorizedError ''auth.refresh_reused''), revoke_all (sn_userId session) s)
           else (case user_by_id (sn_userId session) s of
              None \<Rightarrow> (Inl (UnauthorizedError ''auth.refresh_invalid''), s)
            | Some user \<Rightarrow>
                if sn_expiresAt session < st_now s \<or> ur_status user \<noteq> Us_ACTIVE then (Inl (UnauthorizedError ''auth.refresh_expired''), s)
                else issue_tokens K ttl user (s\<lparr>ac_sessions := map (\<lambda>x. if sn_id x = sn_id session
                       then x\<lparr>sn_revokedAt := Some (st_now s), sn_lastUsedAt := st_now s\<rparr> else x) (ac_sessions s)\<rparr>))))"

definition logout :: "crypto \<Rightarrow> id option \<Rightarrow> string option \<Rightarrow> 'a vault_scheme \<Rightarrow> 'a vault_scheme" where
  "logout K sessionId refreshToken s =
     (let s = (if truthy refreshToken then revoke_where (\<lambda>x. sn_refreshTokenHash x = cy_sha K (the refreshToken)) s else s)
      in case sessionId of None \<Rightarrow> s | Some i \<Rightarrow> revoke_where (\<lambda>x. sn_id x = i) s)"

definition logoutEverywhere :: "id \<Rightarrow> 'a vault_scheme \<Rightarrow> 'a vault_scheme" where
  "logoutEverywhere userId s = revoke_all userId s"

text \<open>The check of an access token: the session and the account are looked up at most every ten seconds.\<close>

definition LIVE_TTL_MS :: int where "LIVE_TTL_MS = 10000"

type_synonym live_cache = "(id \<times> bool \<times> time) list"

definition session_live :: "id \<Rightarrow> 'a vault_scheme \<Rightarrow> bool" where
  "session_live sid s =
     (case find (\<lambda>x. sn_id x = sid) (ac_sessions s) of
        None \<Rightarrow> False
      | Some x \<Rightarrow> (case user_by_id (sn_userId x) s of
           None \<Rightarrow> False
         | Some u \<Rightarrow> sn_revokedAt x = None \<and> sn_expiresAt x > st_now s \<and> ur_status u = Us_ACTIVE \<and> ur_deletedAt u = None))"

definition isLive_sid :: "id \<Rightarrow> 'a vault_scheme \<Rightarrow> live_cache \<Rightarrow> bool \<times> live_cache" where
  "isLive_sid sid s live =
     (case map_of live sid of
        Some (ok, at_t) \<Rightarrow>
          if st_now s - at_t < LIVE_TTL_MS then (ok, live)
          else (session_live sid s, AList.update sid (session_live sid s, st_now s) (if length live > 5000 then [] else live))
      | None \<Rightarrow> (session_live sid s, AList.update sid (session_live sid s, st_now s) (if length live > 5000 then [] else live)))"

section \<open>Passwords\<close>

definition forgotPassword :: "crypto \<Rightarrow> string \<Rightarrow> 'a vault_scheme \<Rightarrow> 'a vault_scheme" where
  "forgotPassword K identifier s =
     (case findByIdentifier identifier s of
        None \<Rightarrow> s
      | Some user \<Rightarrow>
          if ur_status user \<noteq> Us_ACTIVE then s
          else
            let (pin, s) = draw_pin s;
                target = (case ur_phone user of Some p \<Rightarrow> p | None \<Rightarrow> the (ur_email user));
                (i, s) = fresh_id s;
                s = s\<lparr>ac_codes := ac_codes s @ [\<lparr>vc_id = i, vc_userId = ur_id user, vc_target = target, vc_codeHash = cy_sha K (int_string pin),
                      vc_attempts = 0, vc_expiresAt = st_now s + OTP_TTL_MIN * 60000, vc_consumedAt = None, vc_createdAt = st_now s\<rparr>]\<rparr>
            in enqueue \<lparr>ob_recipient = target, ob_template = ''auth.password_reset'', ob_dedupeKey = None, ob_nextAttemptAt = st_now s\<rparr> s)"

text \<open>The newest code that is neither used nor expired; of two of the same instant the later row.\<close>

definition open_code :: "id \<Rightarrow> 'a vault_scheme \<Rightarrow> verification_code option" where
  "open_code userId s =
     (case rev (sort_key vc_createdAt (filter (\<lambda>c. vc_userId c = userId \<and> vc_consumedAt c = None \<and> vc_expiresAt c > st_now s) (ac_codes s))) of
        [] \<Rightarrow> None
      | c # _ \<Rightarrow> Some c)"

definition put_code :: "id \<Rightarrow> (verification_code \<Rightarrow> verification_code) \<Rightarrow> 'a vault_scheme \<Rightarrow> 'a vault_scheme" where
  "put_code i f s = s\<lparr>ac_codes := map (\<lambda>c. if vc_id c = i then f c else c) (ac_codes s)\<rparr>"

definition bad_code :: domain_error where
  "bad_code = BusinessRuleError ''auth.code_invalid''"

definition resetPassword :: "crypto \<Rightarrow> string \<Rightarrow> string \<Rightarrow> string \<Rightarrow> 'a vault_scheme \<Rightarrow> unit result \<times> 'a vault_scheme" where
  "resetPassword K identifier code password s =
     (case findByIdentifier identifier s of
        None \<Rightarrow> (Inl bad_code, s)
      | Some user \<Rightarrow>
          (case open_code (ur_id user) s of
             None \<Rightarrow> (Inl bad_code, s)
           | Some c \<Rightarrow>
               if vc_attempts c \<ge> OTP_MAX_ATTEMPTS then (Inl bad_code, s)
               else if vc_codeHash c \<noteq> cy_sha K (js_trim code) then (Inl bad_code, put_code (vc_id c) (\<lambda>c. c\<lparr>vc_attempts := vc_attempts c + 1\<rparr>) s)
               else
                 let s = put_code (vc_id c) (\<lambda>c. c\<lparr>vc_consumedAt := Some (st_now s)\<rparr>) s;
                     (h, s) = hash_password K password s;
                     s = put_user (ur_id user) (\<lambda>u. u\<lparr>ur_passwordHash := Some h, ur_failedLogins := 0, ur_lockedUntil := None\<rparr>) s
                 in (Inr (), revoke_all (ur_id user) s)))"

definition changePassword :: "crypto \<Rightarrow> id \<Rightarrow> id \<Rightarrow> string \<Rightarrow> string \<Rightarrow> 'a vault_scheme \<Rightarrow> ('a vault_scheme) result" where
  "changePassword K userId sessionId current new s =
     (case user_by_id userId s of
        None \<Rightarrow> Inl (DomainError ''P2025'' 500)
      | Some u \<Rightarrow>
          (case ur_passwordHash u of
             None \<Rightarrow> Inl (BusinessRuleError ''auth.password_wrong'')
           | Some h \<Rightarrow>
               if h = '''' \<or> \<not> cy_verify K h current then Inl (BusinessRuleError ''auth.password_wrong'')
               else
                 let (h', s) = hash_password K new s;
                     s = put_user userId (\<lambda>u. u\<lparr>ur_passwordHash := Some h', ur_mustChangePassword := False\<rparr>) s
                 in Inr (revoke_where (\<lambda>x. sn_userId x = userId \<and> sn_id x \<noteq> sessionId) s)))"

section \<open>Staff\<close>

definition STAFF_ROLES :: "user_role list" where
  "STAFF_ROLES = [OWNER, ADMIN, MANAGER, SUPPORT, ACCOUNTANT, WAREHOUSE]"

definition ALL_STAFF :: "user_role list" where
  "ALL_STAFF = OWNER # STAFF_ROLES"

record staff_actor =
  sa_id :: id
  sa_role :: user_role

definition assertCanGrant :: "staff_actor \<Rightarrow> user_role \<Rightarrow> unit result" where
  "assertCanGrant actor role =
     (if role \<notin> set ALL_STAFF then Inl (BusinessRuleError ''staff.role_invalid'')
      else if (role = OWNER \<or> role = ADMIN) \<and> sa_role actor \<noteq> OWNER then Inl (ForbiddenError ''staff.owner_only'')
      else Inr ())"

definition assertNotLastOwner :: "id \<Rightarrow> 'a vault_scheme \<Rightarrow> unit result" where
  "assertNotLastOwner i s =
     (if list_ex (\<lambda>u. ur_role u = OWNER \<and> ur_status u = Us_ACTIVE \<and> ur_deletedAt u = None \<and> ur_id u \<noteq> i) (ac_users s) then Inr ()
      else Inl (BusinessRuleError ''staff.last_owner''))"

definition find_staff :: "id \<Rightarrow> 'a vault_scheme \<Rightarrow> user_row result" where
  "find_staff i s = (case find (\<lambda>u. ur_id u = i \<and> ur_role u \<in> set ALL_STAFF) (ac_users s) of
      None \<Rightarrow> Inl (NotFoundError ''Staff'' i) | Some u \<Rightarrow> Inr u)"

definition create_staff :: "crypto \<Rightarrow> string \<Rightarrow> string \<Rightarrow> user_role \<Rightarrow> staff_actor \<Rightarrow> 'a vault_scheme \<Rightarrow> ((id \<times> string) \<times> 'a vault_scheme) result" where
  "create_staff K name email role actor s =
     ebind (assertCanGrant actor role) (\<lambda>_.
       let email = lower_s (js_trim email)
       in if list_ex (same_email email) (ac_users s) then Inl (ConflictError ''staff.exists'')
          else
            let (temp, s) = draw_secret s;
                (h, s) = hash_password K temp s;
                (i, s) = fresh_id s
            in ebind (insert_user \<lparr>ur_id = i, ur_name = js_trim name, ur_email = Some email, ur_phone = None, ur_role = role, ur_status = Us_ACTIVE,
                   ur_passwordHash = Some h, ur_failedLogins = 0, ur_lockedUntil = None, ur_mustChangePassword = True, ur_lastLoginAt = None,
                   ur_deletedAt = None\<rparr> s) (\<lambda>s.
               Inr ((i, temp), enqueue \<lparr>ob_recipient = email, ob_template = ''staff.invite'', ob_dedupeKey = Some (''staff-invite:'' @ i),
                   ob_nextAttemptAt = st_now s\<rparr> s)))"

definition changeRole :: "id \<Rightarrow> user_role \<Rightarrow> staff_actor \<Rightarrow> 'a vault_scheme \<Rightarrow> ('a vault_scheme) result" where
  "changeRole i role actor s =
     ebind (assertCanGrant actor role) (\<lambda>_.
     ebind (find_staff i s) (\<lambda>u.
     ebind (if ur_role u = OWNER \<and> role \<noteq> OWNER then assertNotLastOwner i s else Inr ()) (\<lambda>_.
     Inr (revoke_all i (put_user i (\<lambda>u. u\<lparr>ur_role := role\<rparr>) s)))))"

definition setEnabled :: "id \<Rightarrow> bool \<Rightarrow> staff_actor \<Rightarrow> 'a vault_scheme \<Rightarrow> ('a vault_scheme) result" where
  "setEnabled i enabled actor s =
     (if i = sa_id actor then Inl (BusinessRuleError ''staff.self'')
      else ebind (find_staff i s) (\<lambda>u.
           ebind (if \<not> enabled \<and> ur_role u = OWNER then assertNotLastOwner i s else Inr ()) (\<lambda>_.
           let s = put_user i (\<lambda>u. u\<lparr>ur_status := (if enabled then Us_ACTIVE else Us_DISABLED)\<rparr>) s
           in Inr (if \<not> enabled then revoke_all i s else s))))"

definition reset_staff_password :: "crypto \<Rightarrow> id \<Rightarrow> staff_actor \<Rightarrow> 'a vault_scheme \<Rightarrow> (string \<times> 'a vault_scheme) result" where
  "reset_staff_password K i actor s =
     ebind (find_staff i s) (\<lambda>u.
       let (temp, s) = draw_secret s;
           (h, s) = hash_password K temp s;
           s = put_user i (\<lambda>u. u\<lparr>ur_passwordHash := Some h, ur_failedLogins := 0, ur_lockedUntil := None, ur_mustChangePassword := True\<rparr>) s
       in Inr (temp, revoke_all i s))"

definition setAccess :: "id \<Rightarrow> bool \<Rightarrow> staff_actor \<Rightarrow> 'a vault_scheme \<Rightarrow> ('a vault_scheme) result" where
  "setAccess i blocked actor s =
     (if i = sa_id actor then Inl (BusinessRuleError ''access.self'')
      else (case find (\<lambda>u. ur_id u = i \<and> ur_deletedAt u = None) (ac_users s) of
         None \<Rightarrow> Inl (NotFoundError ''User'' i)
       | Some u \<Rightarrow>
           if (ur_role u = OWNER \<or> ur_role u = ADMIN) \<and> sa_role actor \<noteq> OWNER then Inl (ForbiddenError ''access.owner_only'')
           else ebind (if blocked \<and> ur_role u = OWNER then assertNotLastOwner i s else Inr ()) (\<lambda>_.
                let s = put_user i (\<lambda>u. if blocked then u\<lparr>ur_status := Us_SUSPENDED\<rparr>
                      else u\<lparr>ur_status := Us_ACTIVE, ur_failedLogins := 0, ur_lockedUntil := None\<rparr>) s
                in Inr (if blocked then revoke_all i s else s))))"

text \<open>The first start: an owner from the configuration when there is none, whatever its status.\<close>

definition bootstrap :: "crypto \<Rightarrow> string option \<Rightarrow> string option \<Rightarrow> string \<Rightarrow> bool \<Rightarrow> 'a vault_scheme \<Rightarrow> ('a vault_scheme) result" where
  "bootstrap K email password ownerName isTest s =
     (if \<not> truthy email \<or> \<not> truthy password \<or> isTest then Inr s
      else if list_ex (\<lambda>u. ur_role u = OWNER) (ac_users s) then Inr s
      else (case find (same_email (the email)) (ac_users s) of
          Some u \<Rightarrow> Inr (put_user (ur_id u) (\<lambda>u. u\<lparr>ur_role := OWNER\<rparr>) s)
        | None \<Rightarrow>
            let (h, s) = hash_password K (the password) s;
                (i, s) = fresh_id s
            in insert_user \<lparr>ur_id = i, ur_name = ownerName, ur_email = email, ur_phone = None, ur_role = OWNER, ur_status = Us_ACTIVE,
                 ur_passwordHash = Some h, ur_failedLogins = 0, ur_lockedUntil = None, ur_mustChangePassword = False, ur_lastLoginAt = None,
                 ur_deletedAt = None\<rparr> s))"

section \<open>The guard of the routes\<close>

text \<open>After authentication; \<open>None\<close> lets the request pass.\<close>

definition roles_guard :: "user_role option \<Rightarrow> bool \<Rightarrow> bool \<Rightarrow> user_role list \<Rightarrow> domain_error option" where
  "roles_guard role mustChange pendingOk required =
     (if role \<noteq> None \<and> mustChange \<and> \<not> pendingOk then Some (ForbiddenError ''auth.password_change_required'')
      else if required = [] then None
      else (case role of
          None \<Rightarrow> Some (UnauthorizedError ''auth.unauthorized'')
        | Some r \<Rightarrow> if r = OWNER \<or> r \<in> set required then None else Some (ForbiddenError ''auth.forbidden'')))"

end
