(* ===== verification/Accounts_Properties.thy ===== *)
theory Accounts_Properties
  imports Accounts Cash_Laws
begin

text \<open>
  Sessions end for good, blocked accounts are cut off, guessing is limited, and the shop is never left
  without an owner.
\<close>

section \<open>Everything that happens to accounts\<close>

inductive account_step :: "crypto \<Rightarrow> int \<Rightarrow> 'a vault_scheme \<Rightarrow> 'a vault_scheme \<Rightarrow> bool" for K ttl where
  Register: "register K ttl dto s = (r, s') \<Longrightarrow> account_step K ttl s s'"
| Login: "login K ttl ident pw s = (r, s') \<Longrightarrow> account_step K ttl s s'"
| Refresh: "refresh K ttl tok s = (r, s') \<Longrightarrow> account_step K ttl s s'"
| Logout: "account_step K ttl s (logout K sid tok s)"
| Everywhere: "account_step K ttl s (logoutEverywhere i s)"
| Forgot: "account_step K ttl s (forgotPassword K ident s)"
| Reset: "resetPassword K ident code pw s = (u, s') \<Longrightarrow> account_step K ttl s s'"
| Change: "changePassword K i sid' cur new s = Inr s' \<Longrightarrow> account_step K ttl s s'"
| Invite: "create_staff K n e role actor s = Inr (c, s') \<Longrightarrow> account_step K ttl s s'"
| Role: "changeRole i role actor s = Inr s' \<Longrightarrow> account_step K ttl s s'"
| Enable: "setEnabled i b actor s = Inr s' \<Longrightarrow> account_step K ttl s s'"
| Staff_reset: "reset_staff_password K i actor s = Inr (temp, s') \<Longrightarrow> account_step K ttl s s'"
| Access: "setAccess i b actor s = Inr s' \<Longrightarrow> account_step K ttl s s'"
| Clock: "st_now s \<le> t \<Longrightarrow> account_step K ttl s (s\<lparr>st_now := t\<rparr>)"

section \<open>What an operation may do to the sessions\<close>

text \<open>Sessions are revoked, never revived, and a new one has a hash of its own.\<close>

definition kept :: "auth_session \<Rightarrow> auth_session \<Rightarrow> bool" where
  "kept x y \<longleftrightarrow> sn_refreshTokenHash y = sn_refreshTokenHash x \<and> sn_userId y = sn_userId x \<and>
     (sn_revokedAt x \<noteq> None \<longrightarrow> sn_revokedAt y \<noteq> None)"

definition fresh_hashes :: "'a vault_scheme \<Rightarrow> bool" where
  "fresh_hashes s \<longleftrightarrow> distinct (map sn_refreshTokenHash (ac_sessions s))"

definition sessions_grow :: "'a vault_scheme \<Rightarrow> 'a vault_scheme \<Rightarrow> bool" where
  "sessions_grow s s' \<longleftrightarrow> (\<forall>x \<in> set (ac_sessions s). \<exists>y \<in> set (ac_sessions s'). kept x y) \<and> (fresh_hashes s \<longrightarrow> fresh_hashes s')"

lemma kept_refl [simp]: "kept x x"
  by (simp add: kept_def)

lemma kept_trans: "kept x y \<Longrightarrow> kept y z \<Longrightarrow> kept x z"
  by (simp add: kept_def)

lemma sessions_same: "ac_sessions s' = ac_sessions s \<Longrightarrow> sessions_grow s s'"
  by (auto simp: sessions_grow_def fresh_hashes_def intro: kept_refl)

lemma sessions_grow_refl [simp]: "sessions_grow s s"
  by (simp add: sessions_same)

lemma sessions_grow_trans: "sessions_grow s t \<Longrightarrow> sessions_grow t u \<Longrightarrow> sessions_grow s u"
  unfolding sessions_grow_def using kept_trans by metis

lemma sessions_map:
  assumes "ac_sessions s' = map f (ac_sessions s)" "\<And>x. kept x (f x)"
  shows "sessions_grow s s'"
proof -
  have "sn_refreshTokenHash (f x) = sn_refreshTokenHash x" for x using assms(2) [of x] by (simp add: kept_def)
  then have "sn_refreshTokenHash \<circ> f = sn_refreshTokenHash" by (simp add: fun_eq_iff)
  then show ?thesis using assms by (auto simp: sessions_grow_def fresh_hashes_def)
qed

lemma revoke_where_grow [simp]: "sessions_grow s (revoke_where P s)"
  unfolding revoke_where_def
  by (rule sessions_map [where f = "\<lambda>x. if P x \<and> sn_revokedAt x = None then x\<lparr>sn_revokedAt := Some (st_now s)\<rparr> else x"]) (simp_all add: kept_def)

lemma revoke_all_grow [simp]: "sessions_grow s (revoke_all i s)"
  by (simp add: revoke_all_def)

text \<open>What the small writers leave alone.\<close>

lemma writer_sessions [simp]:
  "ac_sessions (put_user i f s) = ac_sessions s" "ac_sessions (put_code i g s) = ac_sessions s"
  "ac_sessions (snd (draw_secret s)) = ac_sessions s" "ac_sessions (snd (draw_pin s)) = ac_sessions s"
  "ac_sessions (snd (hash_password K p s)) = ac_sessions s" "ac_sessions (snd (fresh_id s)) = ac_sessions s"
  "ac_sessions (enqueue m s) = ac_sessions s"
  by (simp_all add: put_user_def put_code_def draw_secret_def draw_pin_def hash_password_def fresh_id_def enqueue_def)

lemma grow_writers [simp]:
  "sessions_grow (put_user i f s) s' = sessions_grow s s'" "sessions_grow s (put_user i f s') = sessions_grow s s'"
  "sessions_grow (put_code i g s) s' = sessions_grow s s'" "sessions_grow s (put_code i g s') = sessions_grow s s'"
  by (simp_all add: sessions_grow_def fresh_hashes_def)

lemma issued_sel:
  assumes "issue_tokens K ttl u s = (r, s')"
  shows "ac_users s' = ac_users s" "st_now s' = st_now s" "tl_uuid s' = tl_uuid s" "tl_issued s' = Suc (tl_issued s)"
    and "(\<exists>e. r = Inl e) \<and> ac_sessions s' = ac_sessions s \<or>
      (\<exists>t x. r = Inr t \<and> ac_sessions s' = ac_sessions s @ [x] \<and> sn_refreshTokenHash x \<notin> sn_refreshTokenHash ` set (ac_sessions s) \<and>
        sn_refreshTokenHash x = cy_sha K (tk_refresh t) \<and> sn_userId x = ur_id u \<and> sn_revokedAt x = None \<and>
        cl_sub (tk_access t) = ur_id u \<and> cl_role (tk_access t) = ur_role u \<and> cl_sid (tk_access t) = sn_id x)"
proof -
  define taken where "taken = list_ex (\<lambda>x. sn_refreshTokenHash x = cy_sha K (ac_secret s (ac_drawn s))) (ac_sessions s)"
  have t: "\<not> taken \<Longrightarrow> cy_sha K (ac_secret s (ac_drawn s)) \<notin> sn_refreshTokenHash ` set (ac_sessions s)"
    by (auto simp: taken_def list_ex_iff)
  have d: "issue_tokens K ttl u s = (if taken then (Inl (DomainError ''P2002'' 500), s\<lparr>ac_drawn := Suc (ac_drawn s), tl_issued := Suc (tl_issued s)\<rparr>)
    else (Inr \<lparr>tk_access = \<lparr>cl_sub = ur_id u, cl_role = ur_role u, cl_name = ur_name u,
              cl_cid = (if ur_role u = Role_CUSTOMER then map_option cs_id (find (\<lambda>c. cs_userId c = Some (ur_id u)) (sh_customers s)) else None),
              cl_sid = tl_uuid s (tl_issued s), cl_mcp = ur_mustChangePassword u\<rparr>, tk_refresh = ac_secret s (ac_drawn s)\<rparr>,
            s\<lparr>ac_drawn := Suc (ac_drawn s), tl_issued := Suc (tl_issued s),
              ac_sessions := ac_sessions s @ [\<lparr>sn_id = tl_uuid s (tl_issued s), sn_userId = ur_id u,
                sn_refreshTokenHash = cy_sha K (ac_secret s (ac_drawn s)), sn_expiresAt = st_now s + ttl * 86400000, sn_revokedAt = None,
                sn_lastUsedAt = st_now s\<rparr>]\<rparr>))"
    by (simp add: issue_tokens_def draw_secret_def fresh_id_def Let_def taken_def)
  show "ac_users s' = ac_users s" "st_now s' = st_now s" "tl_uuid s' = tl_uuid s" "tl_issued s' = Suc (tl_issued s)"
    using assms by (auto simp: d split: if_splits)
  show "(\<exists>e. r = Inl e) \<and> ac_sessions s' = ac_sessions s \<or>
      (\<exists>t x. r = Inr t \<and> ac_sessions s' = ac_sessions s @ [x] \<and> sn_refreshTokenHash x \<notin> sn_refreshTokenHash ` set (ac_sessions s) \<and>
        sn_refreshTokenHash x = cy_sha K (tk_refresh t) \<and> sn_userId x = ur_id u \<and> sn_revokedAt x = None \<and>
        cl_sub (tk_access t) = ur_id u \<and> cl_role (tk_access t) = ur_role u \<and> cl_sid (tk_access t) = sn_id x)"
    using assms t by (cases taken) (auto simp: d)
qed

lemma issue_grow:
  assumes "issue_tokens K ttl u s = (r, s')"
  shows "sessions_grow s s'"
  using issued_sel(5) [OF assms] by (auto simp: sessions_grow_def fresh_hashes_def intro: kept_refl)

lemma insert_user_sel:
  assumes "insert_user u s = Inr s'"
  shows "s' = s\<lparr>ac_users := ac_users s @ [u]\<rparr>"
  using assms by (auto simp: insert_user_def split: if_splits)

lemma register_tx_sel:
  assumes "register_tx K dto phone email s = Inr (u, s')"
  shows "ac_sessions s' = ac_sessions s" "ac_users s' = ac_users s @ [u]" "ur_id u = tl_uuid s (tl_issued s)" "ur_role u = Role_CUSTOMER"
    "tl_uuid s' = tl_uuid s" "Suc (tl_issued s) \<le> tl_issued s'"
  using assms
  by (auto simp: register_tx_def hash_password_def fresh_id_def Let_def ebind_Inr_iff link_customer_def create_customer_def
      dest!: insert_user_sel split: if_splits)

lemma step_sessions:
  assumes "account_step K ttl s s'"
  shows "sessions_grow s s'"
  using assms
proof (cases rule: account_step.cases)
  case (Register dto r)
  then show ?thesis
    by (auto simp: register_def Let_def split: option.splits if_splits sum.splits prod.splits
        dest!: issue_grow register_tx_sel(1) intro: sessions_grow_trans sessions_same)
next
  case (Login ident pw r)
  then show ?thesis
    by (auto simp: login_def Let_def split: option.splits if_splits dest!: issue_grow intro: sessions_grow_trans sessions_same)
next
  case (Refresh tok r)
  have m: "sessions_grow s (s\<lparr>ac_sessions := map (\<lambda>x. if sn_id x = i then x\<lparr>sn_revokedAt := Some (st_now s), sn_lastUsedAt := st_now s\<rparr> else x)
      (ac_sessions s)\<rparr>)" for i
    by (rule sessions_map [where f = "\<lambda>x. if sn_id x = i then x\<lparr>sn_revokedAt := Some (st_now s), sn_lastUsedAt := st_now s\<rparr> else x"])
      (simp_all add: kept_def)
  show ?thesis
    using Refresh
    by (auto simp: refresh_def Let_def split: option.splits if_splits dest!: issue_grow intro: sessions_grow_trans [OF m])
next
  case (Logout sid tok)
  then show ?thesis by (auto simp: logout_def Let_def split: option.split intro: sessions_grow_trans [OF revoke_where_grow revoke_where_grow])
next
  case (Reset ident code pw u)
  then show ?thesis
    by (auto simp: resetPassword_def hash_password_def Let_def split: option.splits if_splits
        intro: sessions_grow_trans [OF sessions_same revoke_all_grow] sessions_same)
next
  case (Change i sid' cur new)
  then show ?thesis
    by (auto simp: changePassword_def hash_password_def Let_def split: option.splits if_splits
        intro: sessions_grow_trans [OF sessions_same revoke_where_grow])
next
  case (Invite n e role actor c)
  then show ?thesis
    by (auto simp: create_staff_def draw_secret_def hash_password_def fresh_id_def Let_def ebind_Inr_iff split: if_splits
        dest!: insert_user_sel intro: sessions_same)
next
  case (Role i role actor)
  then show ?thesis by (auto simp: changeRole_def ebind_Inr_iff intro: sessions_grow_trans [OF sessions_same revoke_all_grow])
next
  case (Enable i b actor)
  then show ?thesis
    by (auto simp: setEnabled_def ebind_Inr_iff Let_def split: if_splits intro: sessions_grow_trans [OF sessions_same revoke_all_grow] sessions_same)
next
  case (Staff_reset i actor temp)
  then show ?thesis
    by (auto simp: reset_staff_password_def draw_secret_def hash_password_def Let_def ebind_Inr_iff
        intro: sessions_grow_trans [OF sessions_same revoke_all_grow])
next
  case (Access i b actor)
  then show ?thesis
    by (auto simp: setAccess_def ebind_Inr_iff Let_def split: if_splits option.splits
        intro: sessions_grow_trans [OF sessions_same revoke_all_grow] sessions_same)
qed (auto simp: logoutEverywhere_def forgotPassword_def draw_pin_def fresh_id_def enqueue_def Let_def
    intro!: sessions_same split: option.split)

lemma steps_sessions: "(account_step K ttl)\<^sup>*\<^sup>* s s' \<Longrightarrow> sessions_grow s s'"
  by (induction rule: rtranclp_induct) (auto intro: sessions_grow_trans step_sessions)

section \<open>A refresh token is used once\<close>

lemma find_hash:
  assumes "fresh_hashes s" "x \<in> set (ac_sessions s)"
  shows "find (\<lambda>y. sn_refreshTokenHash y = sn_refreshTokenHash x) (ac_sessions s) = Some x"
proof -
  have inj: "inj_on sn_refreshTokenHash (set (ac_sessions s))" using assms(1) by (simp add: fresh_hashes_def distinct_map)
  obtain q where q: "find (\<lambda>y. sn_refreshTokenHash y = sn_refreshTokenHash x) (ac_sessions s) = Some q"
    using assms(2) by (cases "find (\<lambda>y. sn_refreshTokenHash y = sn_refreshTokenHash x) (ac_sessions s)") (auto simp: find_None_iff)
  have "q = x" by (rule inj_onD [OF inj]) (use find_SomeD [OF q] assms(2) in auto)
  with q show ?thesis by simp
qed

lemma refreshD:
  assumes "refresh K ttl tok s = (Inr t, s')"
  obtains h x u where "tok = Some h" "h \<noteq> ''''" "find (\<lambda>y. sn_refreshTokenHash y = cy_sha K h) (ac_sessions s) = Some x" "sn_revokedAt x = None"
    "user_by_id (sn_userId x) s = Some u" "ur_status u = Us_ACTIVE" "st_now s \<le> sn_expiresAt x"
    "issue_tokens K ttl u (s\<lparr>ac_sessions := map (\<lambda>y. if sn_id y = sn_id x then y\<lparr>sn_revokedAt := Some (st_now s), sn_lastUsedAt := st_now s\<rparr> else y)
       (ac_sessions s)\<rparr>) = (Inr t, s')"
proof -
  obtain h where h: "tok = Some h" "h \<noteq> ''''"
    using assms by (cases tok) (auto simp: refresh_def truthy_def split: if_splits)
  obtain x where x: "find (\<lambda>y. sn_refreshTokenHash y = cy_sha K h) (ac_sessions s) = Some x"
    using assms h by (cases "find (\<lambda>y. sn_refreshTokenHash y = cy_sha K h) (ac_sessions s)") (simp_all add: refresh_def truthy_def)
  have r: "sn_revokedAt x = None" using assms h x by (cases "sn_revokedAt x") (simp_all add: refresh_def truthy_def)
  obtain u where u: "user_by_id (sn_userId x) s = Some u"
    using assms h x r by (cases "user_by_id (sn_userId x) s") (simp_all add: refresh_def truthy_def)
  have e: "\<not> (sn_expiresAt x < st_now s \<or> ur_status u \<noteq> Us_ACTIVE)"
    using assms h x r u by (auto simp: refresh_def truthy_def split: if_splits)
  have "issue_tokens K ttl u (s\<lparr>ac_sessions := map (\<lambda>y. if sn_id y = sn_id x then y\<lparr>sn_revokedAt := Some (st_now s), sn_lastUsedAt := st_now s\<rparr> else y)
       (ac_sessions s)\<rparr>) = (Inr t, s')"
    using assms h x r u e by (simp add: refresh_def truthy_def split: if_splits)
  then show ?thesis using that h x r u e by auto
qed

lemma revoked_dead:
  assumes "x \<in> set (ac_sessions (revoke_all i s))" "sn_userId x = i"
  shows "sn_revokedAt x \<noteq> None"
proof -
  obtain y where y: "y \<in> set (ac_sessions s)"
    "x = (if sn_userId y = i \<and> sn_revokedAt y = None then y\<lparr>sn_revokedAt := Some (st_now s)\<rparr> else y)"
    using assms(1) by (auto simp: revoke_all_def revoke_where_def)
  show ?thesis
  proof (cases "sn_userId y = i \<and> sn_revokedAt y = None")
    case True
    then show ?thesis using y(2) by simp
  next
    case False
    then show ?thesis using y(2) assms(2) by auto
  qed
qed

text \<open>
  C9. A refresh token buys one new pair of tokens. Presented again at any later time, whatever happened to
  accounts and sessions in between, it buys nothing, and it is taken for stolen: every session of its user,
  also those the first use led to, is revoked.
\<close>

theorem refresh_once:
  assumes "refresh K ttl (Some tok) s = (Inr t, s1)" "fresh_hashes s" "(account_step K ttl)\<^sup>*\<^sup>* s1 s2"
  shows "\<exists>s3. refresh K ttl (Some tok) s2 = (Inl (UnauthorizedError ''auth.refresh_reused''), s3) \<and>
    (\<forall>x \<in> set (ac_sessions s3). sn_userId x = cl_sub (tk_access t) \<longrightarrow> sn_revokedAt x \<noteq> None)"
  using assms(1)
proof (rule refreshD)
  fix h x u
  assume tok: "Some tok = Some h" "h \<noteq> ''''" and f: "find (\<lambda>y. sn_refreshTokenHash y = cy_sha K h) (ac_sessions s) = Some x"
    and u: "user_by_id (sn_userId x) s = Some u"
    and i: "issue_tokens K ttl u (s\<lparr>ac_sessions := map (\<lambda>y. if sn_id y = sn_id x then y\<lparr>sn_revokedAt := Some (st_now s), sn_lastUsedAt := st_now s\<rparr> else y)
       (ac_sessions s)\<rparr>) = (Inr t, s1)" (is "issue_tokens K ttl u ?m = _")
  note fx = find_SomeD [OF f]
  let ?y = "x\<lparr>sn_revokedAt := Some (st_now s), sn_lastUsedAt := st_now s\<rparr>"
  have "?y \<in> set (ac_sessions ?m)" using fx by auto
  then have "?y \<in> set (ac_sessions s1)" and sub: "cl_sub (tk_access t) = ur_id u"
    using issued_sel(5) [OF i] by auto
  have "ur_id u = sn_userId x" using find_SomeD [OF u [unfolded user_by_id_def]] by simp
  have step: "account_step K ttl s s1" by (rule account_step.Refresh [OF assms(1)])
  have "fresh_hashes s1" using step_sessions [OF step] assms(2) by (simp add: sessions_grow_def)
  with steps_sessions [OF assms(3)] \<open>?y \<in> set (ac_sessions s1)\<close>
  obtain z where z: "z \<in> set (ac_sessions s2)" "kept ?y z" and fr: "fresh_hashes s2" by (auto simp: sessions_grow_def)
  from z(2) have zh: "sn_refreshTokenHash z = cy_sha K h" "sn_revokedAt z \<noteq> None" "sn_userId z = sn_userId x" using fx by (simp_all add: kept_def)
  have "find (\<lambda>y. sn_refreshTokenHash y = cy_sha K h) (ac_sessions s2) = Some z" using find_hash [OF fr z(1)] zh(1) by simp
  then have "refresh K ttl (Some tok) s2 = (Inl (UnauthorizedError ''auth.refresh_reused''), revoke_all (sn_userId x) s2)"
    using tok zh by (simp add: refresh_def truthy_def)
  then show ?thesis using revoked_dead [of _ "sn_userId x" s2] sub \<open>ur_id u = sn_userId x\<close> by auto
qed

section \<open>There is always an owner\<close>

definition standing :: "user_row \<Rightarrow> id \<times> user_role \<times> user_status \<times> time option" where
  "standing u = (ur_id u, ur_role u, ur_status u, ur_deletedAt u)"

definition owner_in_charge :: "user_row \<Rightarrow> bool" where
  "owner_in_charge u \<longleftrightarrow> ur_role u = OWNER \<and> ur_status u = Us_ACTIVE \<and> ur_deletedAt u = None"

text \<open>Ids of accounts come from the one source of ids and are not handed out twice.\<close>

definition users_ok :: "'a vault_scheme \<Rightarrow> bool" where
  "users_ok s \<longleftrightarrow> inj (tl_uuid s) \<and> distinct (map ur_id (ac_users s)) \<and> ur_id ` set (ac_users s) \<subseteq> tl_uuid s ` {..<tl_issued s}"

text \<open>What most operations do: no account changes its standing, and at most one joins.\<close>

definition standings_kept :: "'a vault_scheme \<Rightarrow> 'a vault_scheme \<Rightarrow> bool" where
  "standings_kept s s' \<longleftrightarrow> tl_uuid s' = tl_uuid s \<and> tl_issued s \<le> tl_issued s' \<and>
     (map standing (ac_users s') = map standing (ac_users s) \<or>
      (\<exists>u. map standing (ac_users s') = map standing (ac_users s) @ [standing u] \<and> ur_id u \<in> tl_uuid s ` {tl_issued s..<tl_issued s'}))"

lemma standing_ids: "map standing us = map standing vs \<Longrightarrow> map ur_id us = map ur_id vs"
proof -
  assume "map standing us = map standing vs"
  then have "map (fst \<circ> standing) us = map (fst \<circ> standing) vs" by (metis map_map)
  then show ?thesis by (simp add: standing_def comp_def)
qed

lemma standing_snoc_ids: "map standing us = map standing vs @ [standing u] \<Longrightarrow> map ur_id us = map ur_id vs @ [ur_id u]"
  using standing_ids [of us "vs @ [u]"] by simp

lemma standing_owner: "standing u = standing v \<Longrightarrow> owner_in_charge u = owner_in_charge v"
  by (simp add: standing_def owner_in_charge_def)

lemma settled_ok:
  assumes "standings_kept s s'" "users_ok s"
  shows "users_ok s'"
  using assms(1) unfolding standings_kept_def
proof (elim conjE disjE exE)
  assume a: "tl_uuid s' = tl_uuid s" "tl_issued s \<le> tl_issued s'" "map standing (ac_users s') = map standing (ac_users s)"
  note m = standing_ids [OF a(3)]
  then have "ur_id ` set (ac_users s') = ur_id ` set (ac_users s)" by (metis list.set_map)
  moreover have "tl_uuid s ` {..<tl_issued s} \<subseteq> tl_uuid s ` {..<tl_issued s'}" using a(2) by (intro image_mono) simp
  ultimately have "ur_id ` set (ac_users s') \<subseteq> tl_uuid s ` {..<tl_issued s'}"
    using assms(2) unfolding users_ok_def by (metis subset_trans)
  then show ?thesis using assms(2) a(1) m by (simp add: users_ok_def)
next
  fix u
  assume a: "tl_uuid s' = tl_uuid s" "tl_issued s \<le> tl_issued s'" "map standing (ac_users s') = map standing (ac_users s) @ [standing u]"
    and u: "ur_id u \<in> tl_uuid s ` {tl_issued s..<tl_issued s'}"
  note m = standing_snoc_ids [OF a(3)]
  then have i: "ur_id ` set (ac_users s') = insert (ur_id u) (ur_id ` set (ac_users s))"
    by (metis list.set_map set_append list.simps(15) empty_set Un_insert_right sup_bot_right)
  obtain k where k: "ur_id u = tl_uuid s k" "tl_issued s \<le> k" "k < tl_issued s'" using u by auto
  have "ur_id u \<notin> ur_id ` set (ac_users s)"
  proof
    assume "ur_id u \<in> ur_id ` set (ac_users s)"
    then obtain j where "j < tl_issued s" "ur_id u = tl_uuid s j" using assms(2) by (auto simp: users_ok_def)
    then have "j = k" using assms(2) k(1) by (auto simp: users_ok_def dest: injD)
    with \<open>j < tl_issued s\<close> k(2) show False by simp
  qed
  then have d: "distinct (map ur_id (ac_users s'))" using assms(2) m by (simp add: users_ok_def)
  have "tl_uuid s ` {..<tl_issued s} \<subseteq> tl_uuid s ` {..<tl_issued s'}" using a(2) by (intro image_mono) simp
  moreover have "ur_id u \<in> tl_uuid s ` {..<tl_issued s'}" using k by simp
  moreover have "ur_id ` set (ac_users s) \<subseteq> tl_uuid s ` {..<tl_issued s}" using assms(2) by (simp add: users_ok_def)
  ultimately have "ur_id ` set (ac_users s') \<subseteq> tl_uuid s ` {..<tl_issued s'}" unfolding i by blast
  then show ?thesis using assms(2) a(1) d by (simp add: users_ok_def)
qed

lemma settled_owner:
  assumes "standings_kept s s'" "\<exists>u \<in> set (ac_users s). owner_in_charge u"
  shows "\<exists>u \<in> set (ac_users s'). owner_in_charge u"
proof -
  obtain u where u: "u \<in> set (ac_users s)" "owner_in_charge u" using assms(2) by blast
  have "set (map standing (ac_users s)) \<subseteq> set (map standing (ac_users s'))"
    using assms(1) by (auto simp: standings_kept_def simp del: set_map)
  then have "standing u \<in> standing ` set (ac_users s')" using u(1) by auto
  then show ?thesis using u(2) standing_owner by blast
qed

lemma standing_put:
  assumes "\<And>u. standing (f u) = standing u"
  shows "map standing (ac_users (put_user i f s)) = map standing (ac_users s)"
  using assms by (simp add: put_user_def)

lemma quiet_settled:
  "tl_uuid s' = tl_uuid s \<Longrightarrow> tl_issued s \<le> tl_issued s' \<Longrightarrow> map standing (ac_users s') = map standing (ac_users s) \<Longrightarrow> standings_kept s s'"
  by (simp add: standings_kept_def)

lemma writer_ids [simp]:
  "tl_uuid (put_user i f s) = tl_uuid s" "tl_uuid (put_code i g s) = tl_uuid s" "tl_uuid (revoke_where P s) = tl_uuid s"
  "tl_uuid (revoke_all i s) = tl_uuid s" "tl_issued (put_user i f s) = tl_issued s" "tl_issued (put_code i g s) = tl_issued s"
  "tl_issued (revoke_where P s) = tl_issued s" "tl_issued (revoke_all i s) = tl_issued s"
  "ac_users (revoke_where P s) = ac_users s" "ac_users (revoke_all i s) = ac_users s" "ac_users (put_code i g s) = ac_users s"
  by (simp_all add: put_user_def put_code_def revoke_where_def revoke_all_def)

lemma issue_settled:
  assumes "issue_tokens K ttl u t = (r, s')" "map standing (ac_users t) = map standing (ac_users s)" "tl_uuid t = tl_uuid s" "tl_issued t = tl_issued s"
  shows "standings_kept s s'"
  using issued_sel [OF assms(1)] assms(2-4) by (simp add: standings_kept_def)

lemma register_settled:
  assumes "register_tx K dto phone email s = Inr (u, t)" "issue_tokens K ttl u t = (r, s')"
  shows "standings_kept s s'"
  using register_tx_sel [OF assms(1)] issued_sel [OF assms(2)] by (auto simp: standings_kept_def)

lemma create_staff_sel:
  assumes "create_staff K n e role actor s = Inr (c, s')"
  shows "\<exists>u. ac_users s' = ac_users s @ [u] \<and> ur_id u = tl_uuid s (tl_issued s) \<and> tl_uuid s' = tl_uuid s \<and> tl_issued s' = Suc (tl_issued s)"
  using assms
  by (auto simp: create_staff_def draw_secret_def hash_password_def fresh_id_def enqueue_def Let_def ebind_Inr_iff split: if_splits
      dest!: insert_user_sel)

lemma changeRoleD:
  assumes "changeRole i role actor s = Inr s'"
  obtains u where "find_staff i s = Inr u" "ur_role u = OWNER \<Longrightarrow> role \<noteq> OWNER \<Longrightarrow> assertNotLastOwner i s = Inr ()"
    "s' = revoke_all i (put_user i (\<lambda>u. u\<lparr>ur_role := role\<rparr>) s)"
  using assms by (auto simp: changeRole_def ebind_Inr_iff split: if_splits)

lemma setEnabledD:
  assumes "setEnabled i b actor s = Inr s'"
  obtains u where "find_staff i s = Inr u" "\<not> b \<Longrightarrow> ur_role u = OWNER \<Longrightarrow> assertNotLastOwner i s = Inr ()" "i \<noteq> sa_id actor"
    "s' = (if b then put_user i (\<lambda>u. u\<lparr>ur_status := Us_ACTIVE\<rparr>) s else revoke_all i (put_user i (\<lambda>u. u\<lparr>ur_status := Us_DISABLED\<rparr>) s))"
  using assms by (auto simp: setEnabled_def ebind_Inr_iff Let_def split: if_splits)

lemma setAccessD:
  assumes "setAccess i b actor s = Inr s'"
  obtains u where "find (\<lambda>u. ur_id u = i \<and> ur_deletedAt u = None) (ac_users s) = Some u"
    "b \<Longrightarrow> ur_role u = OWNER \<Longrightarrow> assertNotLastOwner i s = Inr ()"
    "s' = (if b then revoke_all i (put_user i (\<lambda>u. u\<lparr>ur_status := Us_SUSPENDED\<rparr>) s)
       else put_user i (\<lambda>u. u\<lparr>ur_status := Us_ACTIVE, ur_failedLogins := 0, ur_lockedUntil := None\<rparr>) s)"
  using assms by (auto simp: setAccess_def ebind_Inr_iff Let_def split: if_splits option.splits)

text \<open>An edit of one account that is not an owner in charge, or of one beside whom there is another, leaves an owner.\<close>

lemma owner_stays:
  assumes "\<exists>u \<in> set (ac_users s). owner_in_charge u" "distinct (map ur_id (ac_users s))" "v \<in> set (ac_users s)" "ur_id v = i"
    and "owner_in_charge v \<Longrightarrow> owner_in_charge (f v) \<or> (\<exists>w \<in> set (ac_users s). owner_in_charge w \<and> ur_id w \<noteq> i)"
  shows "\<exists>u \<in> set (ac_users (put_user i f s)). owner_in_charge u"
proof -
  obtain u where u: "u \<in> set (ac_users s)" "owner_in_charge u" using assms(1) by blast
  have other: "w \<in> set (ac_users (put_user i f s))" if "w \<in> set (ac_users s)" "ur_id w \<noteq> i" for w
    using that by (auto simp: put_user_def image_iff intro!: bexI [of _ w])
  have mine: "f v \<in> set (ac_users (put_user i f s))" using assms(3,4) by (auto simp: put_user_def image_iff intro!: bexI [of _ v])
  show ?thesis
  proof (cases "ur_id u = i")
    case True
    then have "u = v" using assms(2-4) u(1) by (metis distinct_map inj_onD)
    then show ?thesis using assms(5) u(2) other mine by blast
  next
    case False
    then show ?thesis using other [OF u(1)] u(2) by blast
  qed
qed

lemma not_lastD: "assertNotLastOwner i s = Inr () \<Longrightarrow> \<exists>w \<in> set (ac_users s). owner_in_charge w \<and> ur_id w \<noteq> i"
  by (auto simp: assertNotLastOwner_def owner_in_charge_def list_ex_iff split: if_splits)

lemma find_staffD: "find_staff i s = Inr u \<Longrightarrow> u \<in> set (ac_users s) \<and> ur_id u = i"
  by (auto simp: find_staff_def split: option.splits dest: find_SomeD)

lemma edit_ok:
  assumes "users_ok s" "\<And>u. ur_id (f u) = ur_id u"
  shows "users_ok (put_user i f s)"
proof -
  have "ur_id \<circ> (\<lambda>u. if ur_id u = i then f u else u) = ur_id" using assms(2) by (auto simp: fun_eq_iff)
  then have "map ur_id (ac_users (put_user i f s)) = map ur_id (ac_users s)" by (simp add: put_user_def)
  then have "ur_id ` set (ac_users (put_user i f s)) = ur_id ` set (ac_users s)" by (metis list.set_map)
  then show ?thesis using assms(1) \<open>map ur_id _ = _\<close> by (simp add: users_ok_def)
qed

lemma revoke_owner [simp]: "users_ok (revoke_all i s) = users_ok s"
  by (simp add: users_ok_def)

lemma step_owner:
  assumes "account_step K ttl s s'" "users_ok s" "\<exists>u \<in> set (ac_users s). owner_in_charge u"
  shows "users_ok s' \<and> (\<exists>u \<in> set (ac_users s'). owner_in_charge u)"
proof -
  note put = standing_put
  have *: ?thesis if "standings_kept s s'" using that settled_ok [OF that assms(2)] settled_owner [OF that assms(3)] by blast
  have d: "distinct (map ur_id (ac_users s))" using assms(2) by (simp add: users_ok_def)
  show ?thesis
    using assms(1)
  proof (cases rule: account_step.cases)
    case (Register dto r)
    have "standings_kept s s'"
      using Register
      by (auto simp: register_def Let_def split: option.splits if_splits sum.splits
          intro: quiet_settled register_settled)
    then show ?thesis by (rule *)
  next
    case (Login ident pw r)
    have "standings_kept s s'"
      using Login
      by (auto simp: login_def Let_def put standing_def split: option.splits if_splits intro: quiet_settled issue_settled)
    then show ?thesis by (rule *)
  next
    case (Refresh tok r)
    have "standings_kept s s'"
      using Refresh by (auto simp: refresh_def Let_def split: option.splits if_splits intro: quiet_settled issue_settled)
    then show ?thesis by (rule *)
  next
    case (Reset ident code pw u)
    have "standings_kept s s'"
      using Reset
      by (auto simp: resetPassword_def hash_password_def Let_def put standing_def split: option.splits if_splits intro!: quiet_settled)
    then show ?thesis by (rule *)
  next
    case (Change i sid' cur new)
    have "standings_kept s s'"
      using Change
      by (auto simp: changePassword_def hash_password_def Let_def put standing_def split: option.splits if_splits intro!: quiet_settled)
    then show ?thesis by (rule *)
  next
    case (Invite n e role actor c)
    then show ?thesis using * create_staff_sel [OF Invite] by (fastforce simp: standings_kept_def)
  next
    case (Role i role actor)
    then show ?thesis
    proof (rule changeRoleD)
      fix u
      assume u: "find_staff i s = Inr u" "ur_role u = OWNER \<Longrightarrow> role \<noteq> OWNER \<Longrightarrow> assertNotLastOwner i s = Inr ()"
        and s': "s' = revoke_all i (put_user i (\<lambda>u. u\<lparr>ur_role := role\<rparr>) s)"
      have "\<exists>u \<in> set (ac_users (put_user i (\<lambda>u. u\<lparr>ur_role := role\<rparr>) s)). owner_in_charge u"
        using find_staffD [OF u(1)] not_lastD u(2) by (intro owner_stays [OF assms(3) d, of u]) (auto simp: owner_in_charge_def)
      then show ?thesis using s' edit_ok [OF assms(2)] by simp
    qed
  next
    case (Enable i b actor)
    then show ?thesis
    proof (rule setEnabledD)
      fix u
      assume u: "find_staff i s = Inr u" "\<not> b \<Longrightarrow> ur_role u = OWNER \<Longrightarrow> assertNotLastOwner i s = Inr ()"
        and s': "s' = (if b then put_user i (\<lambda>u. u\<lparr>ur_status := Us_ACTIVE\<rparr>) s else revoke_all i (put_user i (\<lambda>u. u\<lparr>ur_status := Us_DISABLED\<rparr>) s))"
      have "\<exists>u \<in> set (ac_users (put_user i (\<lambda>u. u\<lparr>ur_status := (if b then Us_ACTIVE else Us_DISABLED)\<rparr>) s)). owner_in_charge u"
        using find_staffD [OF u(1)] not_lastD u(2) by (intro owner_stays [OF assms(3) d, of u]) (auto simp: owner_in_charge_def)
      then show ?thesis using s' edit_ok [OF assms(2)] by (cases b) simp_all
    qed
  next
    case (Staff_reset i actor temp)
    have "standings_kept s s'"
      using Staff_reset
      by (auto simp: reset_staff_password_def draw_secret_def hash_password_def Let_def ebind_Inr_iff put standing_def intro!: quiet_settled)
    then show ?thesis by (rule *)
  next
    case (Access i b actor)
    then show ?thesis
    proof (rule setAccessD)
      fix u
      assume u: "find (\<lambda>u. ur_id u = i \<and> ur_deletedAt u = None) (ac_users s) = Some u" "b \<Longrightarrow> ur_role u = OWNER \<Longrightarrow> assertNotLastOwner i s = Inr ()"
        and s': "s' = (if b then revoke_all i (put_user i (\<lambda>u. u\<lparr>ur_status := Us_SUSPENDED\<rparr>) s)
          else put_user i (\<lambda>u. u\<lparr>ur_status := Us_ACTIVE, ur_failedLogins := 0, ur_lockedUntil := None\<rparr>) s)"
      have "\<exists>u \<in> set (ac_users (put_user i (if b then ur_status_update (\<lambda>_. Us_SUSPENDED)
          else (\<lambda>u. u\<lparr>ur_status := Us_ACTIVE, ur_failedLogins := 0, ur_lockedUntil := None\<rparr>)) s)). owner_in_charge u"
        using find_SomeD [OF u(1)] not_lastD u(2) by (intro owner_stays [OF assms(3) d, of u]) (auto simp: owner_in_charge_def)
      then show ?thesis using s' edit_ok [OF assms(2)] by (cases b) simp_all
    qed
  next
    case (Logout sid tok)
    then have "standings_kept s s'" by (auto simp: logout_def Let_def intro!: quiet_settled split: option.split)
    then show ?thesis by (rule *)
  next
    case (Everywhere i)
    then have "standings_kept s s'" by (simp add: logoutEverywhere_def quiet_settled)
    then show ?thesis by (rule *)
  next
    case (Forgot ident)
    then have "standings_kept s s'"
      by (auto simp: forgotPassword_def draw_pin_def fresh_id_def enqueue_def Let_def intro!: quiet_settled split: option.split)
    then show ?thesis by (rule *)
  next
    case (Clock t)
    then have "standings_kept s s'" by (simp add: quiet_settled)
    then show ?thesis by (rule *)
  qed
qed

text \<open>
  C10. The shop is never left without an owner who can sign in. Whatever happens to accounts, sessions and
  staff, in any order and by any actor, an active account with the role of an owner remains.
\<close>

theorem owner_remains:
  assumes "(account_step K ttl)\<^sup>*\<^sup>* s s'" "users_ok s" "\<exists>u \<in> set (ac_users s). owner_in_charge u"
  shows "\<exists>u \<in> set (ac_users s'). owner_in_charge u"
proof -
  have "users_ok s' \<and> (\<exists>u \<in> set (ac_users s'). owner_in_charge u)"
    using assms(1)
  proof (induction rule: rtranclp_induct)
    case base
    then show ?case using assms(2,3) by blast
  next
    case (step t u)
    then show ?case using step_owner by blast
  qed
  then show ?thesis ..
qed

section \<open>Guessing a password\<close>

text \<open>A run of attempts to sign in, each at its time; how many of the passwords were looked at.\<close>

fun guesses :: "crypto \<Rightarrow> int \<Rightarrow> string \<Rightarrow> (time \<times> string) list \<Rightarrow> 'a vault_scheme \<Rightarrow> int" where
  "guesses K ttl ident [] s = 0"
| "guesses K ttl ident ((t, p) # gs) s =
     (let (r, s') = login K ttl ident p (s\<lparr>st_now := t\<rparr>) in (if r = Inl bad_login then 1 else 0) + guesses K ttl ident gs s')"

definition free_from :: "user_row \<Rightarrow> time \<Rightarrow> time" where
  "free_from u t = (case ur_lockedUntil u of None \<Rightarrow> t | Some l \<Rightarrow> max l t)"

definition guess_bound :: "int \<Rightarrow> time \<Rightarrow> time \<Rightarrow> int" where
  "guess_bound n fr T = max 0 (4 - n) + (if fr \<le> T then 1 + (T - fr) div 900000 else 0)"

lemma find_map_keep: "(\<And>x. P (f x) = P x) \<Longrightarrow> find P (map f xs) = map_option f (find P xs)"
  by (induction xs) auto

lemma found_after:
  assumes "findByIdentifier ident s = Some u" "\<And>v. ur_email (f v) = ur_email v" "\<And>v. ur_phone (f v) = ur_phone v"
  shows "findByIdentifier ident (put_user (ur_id u) f s) = Some (f u)"
  using assms
  by (auto simp: findByIdentifier_def put_user_def Let_def same_email_def find_map_keep split: if_splits option.splits)

lemma guess_bound_nonneg: "0 \<le> guess_bound n fr T"
  by (simp add: guess_bound_def pos_imp_zdiv_nonneg_iff)

lemma guess_bound_step:
  assumes "fr \<le> t" "t \<le> T" "0 \<le> n"
  shows "1 + guess_bound (n + 1) (if 5 \<le> n + 1 then t + 900000 else t) T \<le> guess_bound n fr T"
proof -
  have m: "(T - t) div 900000 \<le> (T - fr) div 900000" using assms(1) by (intro zdiv_mono1) auto
  have e: "(T - (t + 900000)) div 900000 = (T - t) div 900000 - 1" by (simp add: algebra_simps flip: div_add_self2)
  have "0 \<le> (T - fr) div 900000" using assms by simp
  then show ?thesis using assms m e by (auto simp: guess_bound_def)
qed

definition open_account :: "string \<Rightarrow> string \<Rightarrow> user_row \<Rightarrow> 'a vault_scheme \<Rightarrow> bool" where
  "open_account ident h u s \<longleftrightarrow> findByIdentifier ident s = Some u \<and> ur_passwordHash u = Some h \<and> h \<noteq> '''' \<and> ur_deletedAt u = None \<and>
     ur_status u = Us_ACTIVE"

lemma clock_finds [simp]: "findByIdentifier ident (s\<lparr>st_now := t\<rparr>) = findByIdentifier ident s"
  by (simp add: findByIdentifier_def Let_def split: option.split)

lemma guess_locked:
  assumes "open_account ident h u s" "ur_lockedUntil u = Some l" "t < l"
  shows "login K ttl ident p (s\<lparr>st_now := t\<rparr>) = (Inl (UnauthorizedError ''auth.locked''), s\<lparr>st_now := t\<rparr>)"
  using assms by (simp add: open_account_def login_def)

lemma guess_wrong:
  assumes "open_account ident h u s" "\<And>l. ur_lockedUntil u = Some l \<Longrightarrow> l \<le> t" "\<not> cy_verify K h p"
  shows "login K ttl ident p (s\<lparr>st_now := t\<rparr>) = (Inl bad_login, put_user (ur_id u) (\<lambda>v. v\<lparr>ur_failedLogins := ur_failedLogins u + 1,
    ur_lockedUntil := (if 5 \<le> ur_failedLogins u + 1 then Some (t + 900000) else None)\<rparr>) (s\<lparr>st_now := t\<rparr>))"
  using assms by (auto simp: open_account_def login_def Let_def MAX_FAILED_def LOCK_MINUTES_def split: option.split)

lemma guesses_bound:
  assumes "open_account ident h u s" "0 \<le> ur_failedLogins u" "sorted (st_now s # map fst gs)" "\<forall>g \<in> set gs. \<not> cy_verify K h (snd g) \<and> fst g \<le> T"
  shows "guesses K ttl ident gs s \<le> guess_bound (ur_failedLogins u) (free_from u (st_now s)) T"
  using assms
proof (induction gs arbitrary: s u)
  case Nil
  then show ?case by (simp add: guess_bound_nonneg)
next
  case (Cons g gs)
  obtain t p where g: "g = (t, p)" by (cases g)
  have t: "st_now s \<le> t" "sorted (t # map fst gs)" "t \<le> T" "\<not> cy_verify K h p" using Cons.prems(3,4) g by auto
  show ?case
  proof (cases "\<exists>l. ur_lockedUntil u = Some l \<and> t < l")
    case True
    then obtain l where l: "ur_lockedUntil u = Some l" "t < l" by blast
    let ?s = "s\<lparr>st_now := t\<rparr>"
    have "guesses K ttl ident gs ?s \<le> guess_bound (ur_failedLogins u) (free_from u (st_now ?s)) T"
      using Cons.prems t by (intro Cons.IH) (simp_all add: open_account_def)
    moreover have "free_from u t = free_from u (st_now s)" using l t(1) by (simp add: free_from_def)
    ultimately show ?thesis using guess_locked [OF Cons.prems(1) l] g by (simp add: bad_login_def)
  next
    case False
    let ?f = "\<lambda>v. v\<lparr>ur_failedLogins := ur_failedLogins u + 1, ur_lockedUntil := (if 5 \<le> ur_failedLogins u + 1 then Some (t + 900000) else None)\<rparr>"
    let ?s = "put_user (ur_id u) ?f (s\<lparr>st_now := t\<rparr>)"
    have "findByIdentifier ident ?s = Some (?f u)"
      using Cons.prems(1) by (intro found_after) (simp_all add: open_account_def)
    then have o': "open_account ident h (?f u) ?s" using Cons.prems(1) by (simp add: open_account_def)
    have now: "st_now ?s = t" by (simp add: put_user_def)
    have "guesses K ttl ident gs ?s \<le> guess_bound (ur_failedLogins (?f u)) (free_from (?f u) (st_now ?s)) T"
      using o' Cons.prems(2,4) t now by (intro Cons.IH) (simp_all del: sorted_simps)
    also have "free_from (?f u) (st_now ?s) = (if 5 \<le> ur_failedLogins u + 1 then t + 900000 else t)" unfolding now by (simp add: free_from_def)
    finally have "guesses K ttl ident gs ?s \<le> guess_bound (ur_failedLogins u + 1) (if 5 \<le> ur_failedLogins u + 1 then t + 900000 else t) T" by simp
    moreover have "free_from u (st_now s) \<le> t" using False t(1) by (auto simp: free_from_def split: option.split)
    ultimately have "1 + guesses K ttl ident gs ?s \<le> guess_bound (ur_failedLogins u) (free_from u (st_now s)) T"
      using guess_bound_step [of "free_from u (st_now s)" t T "ur_failedLogins u"] t(3) Cons.prems(2) by linarith
    moreover have "login K ttl ident p (s\<lparr>st_now := t\<rparr>) = (Inl bad_login, ?s)"
      using False t(4) by (intro guess_wrong [OF Cons.prems(1)]) auto
    ultimately show ?thesis using g by simp
  qed
qed

text \<open>
  C28. Guessing is slow. However many passwords are tried for an account, one after another from now until
  \<open>T\<close>, at most five and one more for every full quarter of an hour are looked at when all are wrong; the
  others meet the lock.
\<close>

theorem guessing_is_slow:
  assumes "open_account ident h u s" "0 \<le> ur_failedLogins u" "sorted (st_now s # map fst gs)"
    and "\<forall>g \<in> set gs. \<not> cy_verify K h (snd g) \<and> fst g \<le> T" "st_now s \<le> T"
  shows "guesses K ttl ident gs s \<le> 5 + (T - st_now s) div 900000"
proof -
  have f: "st_now s \<le> free_from u (st_now s)" by (auto simp: free_from_def split: option.split)
  have "(T - free_from u (st_now s)) div 900000 \<le> (T - st_now s) div 900000" using f by (intro zdiv_mono1) auto
  moreover have "0 \<le> (T - st_now s) div 900000" using assms(5) by simp
  ultimately have "guess_bound (ur_failedLogins u) (free_from u (st_now s)) T \<le> 5 + (T - st_now s) div 900000"
    using assms(2) unfolding guess_bound_def by (auto split: if_splits)
  with guesses_bound [OF assms(1-4), of ttl] show ?thesis by linarith
qed

section \<open>Cutting off a session\<close>

text \<open>The requests that bear an access token: the session it names and the state at the time.\<close>

fun answers :: "(id \<times> 'a vault_scheme) list \<Rightarrow> live_cache \<Rightarrow> bool list \<times> live_cache" where
  "answers [] live = ([], live)"
| "answers ((i, s) # rs) live =
     (let (ok, live) = isLive_sid i s live; (oks, live) = answers rs live in (ok # oks, live))"

text \<open>An entry of the cache that lets a session through is not younger than \<open>T\<close>.\<close>

definition stale_by :: "id \<Rightarrow> time \<Rightarrow> live_cache \<Rightarrow> bool" where
  "stale_by sid T live \<longleftrightarrow> (\<forall>t. map_of live sid = Some (True, t) \<longrightarrow> t \<le> T)"

lemma isLive_cases:
  assumes "isLive_sid i s live = (ok, live')"
  shows "live' = live \<or> live' = AList.update i (session_live i s, st_now s) (if length live > 5000 then [] else live)"
  using assms by (auto simp: isLive_sid_def split: option.splits if_splits)

lemma isLive_stale:
  assumes "stale_by sid T live" "i = sid \<Longrightarrow> session_live sid s \<Longrightarrow> st_now s \<le> T" "isLive_sid i s live = (ok, live')"
  shows "stale_by sid T live'"
proof -
  let ?live = "if length live > 5000 then [] else live"
  have n: "stale_by sid T (AList.update i (session_live i s, st_now s) ?live)"
    using assms(1,2) by (cases "i = sid") (auto simp: stale_by_def update_conv' split: if_splits)
  show ?thesis using isLive_cases [OF assms(3)] assms(1) n by (elim disjE) (simp_all only:)
qed

lemma isLive_cut:
  assumes "stale_by sid T live" "\<not> session_live sid s" "T + 10000 \<le> st_now s"
  shows "fst (isLive_sid sid s live) = False"
proof (cases "map_of live sid")
  case None
  then show ?thesis using assms(2) by (simp add: isLive_sid_def)
next
  case (Some e)
  then show ?thesis using assms by (cases e) (auto simp: isLive_sid_def LIVE_TTL_MS_def stale_by_def)
qed

lemma answers_stale:
  assumes "stale_by sid T live" "\<forall>(i, s) \<in> set rs. i = sid \<longrightarrow> session_live sid s \<longrightarrow> st_now s \<le> T"
  shows "stale_by sid T (snd (answers rs live))"
  using assms
proof (induction rs arbitrary: live)
  case (Cons r rs)
  obtain i s where r: "r = (i, s)" by (cases r)
  obtain ok live' where l: "isLive_sid i s live = (ok, live')" by (cases "isLive_sid i s live")
  then have "stale_by sid T live'" using Cons.prems r by (intro isLive_stale [OF Cons.prems(1) _ l]) auto
  then show ?case using Cons r l by (auto simp: split_beta)
qed simp

lemma answers_append:
  "answers (rs @ qs) live = (let (a, live) = answers rs live; (b, live) = answers qs live in (a @ b, live))"
  by (induction rs arbitrary: live) (auto simp: split_beta Let_def)

text \<open>
  C29. Taking access away works within ten seconds. Let the checks since the service started be any sequence
  of requests, none of which found the session alive after \<open>T\<close>: a request that bears its token at
  \<open>T\<close> plus ten seconds or later is turned away, whatever the cache holds.
\<close>

theorem cut_off_in_ten_seconds:
  assumes "\<forall>(i, s) \<in> set rs. i = sid \<longrightarrow> session_live sid s \<longrightarrow> st_now s \<le> T"
    and "\<not> session_live sid s" "T + 10000 \<le> st_now s"
  shows "last (fst (answers (rs @ [(sid, s)]) [])) = False"
proof -
  have "stale_by sid T (snd (answers rs []))" using assms(1) by (intro answers_stale) (simp_all add: stale_by_def)
  from isLive_cut [OF this assms(2,3)] show ?thesis by (auto simp: answers_append split_beta Let_def)
qed

section \<open>Resetting a password\<close>

lemma finds_cong: "ac_users t = ac_users s \<Longrightarrow> findByIdentifier ident t = findByIdentifier ident s"
  by (simp add: findByIdentifier_def Let_def cong: option.case_cong)

lemma put_finds:
  assumes "findByIdentifier ident s = Some u" "\<And>v. ur_email (f v) = ur_email v" "\<And>v. ur_phone (f v) = ur_phone v"
    "ac_users t = ac_users s"
  shows "findByIdentifier ident (revoke_all j (put_user (ur_id u) f t)) = Some (f u)"
proof -
  have "findByIdentifier ident t = Some u" using finds_cong [OF assms(4)] assms(1) by simp
  from found_after [OF this, of f] have "findByIdentifier ident (put_user (ur_id u) f t) = Some (f u)" using assms(2,3) by simp
  then show ?thesis by (simp add: finds_cong [of "revoke_all j (put_user (ur_id u) f t)" "put_user (ur_id u) f t"])
qed

lemma login_ok:
  assumes "findByIdentifier ident s = Some u" "ur_passwordHash u = Some h" "h \<noteq> ''''" "ur_deletedAt u = None" "ur_status u = Us_ACTIVE"
    "ur_lockedUntil u = None" "cy_verify K h p" "\<forall>x \<in> set (ac_sessions s). sn_refreshTokenHash x \<noteq> cy_sha K (ac_secret s (ac_drawn s))"
  shows "\<exists>t s'. login K ttl ident p s = (Inr t, s') \<and> cl_sub (tk_access t) = ur_id u \<and> cl_role (tk_access t) = ur_role u"
proof -
  let ?s = "put_user (ur_id u) (\<lambda>u. u\<lparr>ur_failedLogins := 0, ur_lockedUntil := None, ur_lastLoginAt := Some (st_now s)\<rparr>) s"
  have l: "login K ttl ident p s = issue_tokens K ttl u ?s" using assms(1-7) by (simp add: login_def)
  have "\<not> list_ex (\<lambda>x. sn_refreshTokenHash x = cy_sha K (ac_secret s (ac_drawn s))) (ac_sessions s)"
    using assms(8) by (auto simp: list_ex_iff)
  then have "fst (issue_tokens K ttl u ?s) = Inr t" if "t = \<lparr>tk_access = \<lparr>cl_sub = ur_id u, cl_role = ur_role u, cl_name = ur_name u,
      cl_cid = (if ur_role u = Role_CUSTOMER then map_option cs_id (find (\<lambda>c. cs_userId c = Some (ur_id u)) (sh_customers s)) else None),
      cl_sid = tl_uuid s (tl_issued s), cl_mcp = ur_mustChangePassword u\<rparr>, tk_refresh = ac_secret s (ac_drawn s)\<rparr>" for t
    using that by (simp add: issue_tokens_def draw_secret_def fresh_id_def put_user_def Let_def)
  then show ?thesis unfolding l by (metis access_claims.select_convs(1,2) prod.collapse tokens.select_convs(1))
qed

text \<open>
  A reset by code. With the code that was sent, within its ten minutes and before five wrong ones, the
  password becomes the new one, the code is spent, a lock is lifted, and every session of the account ends.
\<close>

theorem reset_by_code:
  assumes "findByIdentifier ident s = Some u" "open_code (ur_id u) s = Some c" "vc_attempts c < 5" "vc_codeHash c = cy_sha K (js_trim code)"
  shows "\<exists>s'. resetPassword K ident code pw s = (Inr (), s') \<and>
    (\<exists>u'. findByIdentifier ident s' = Some u' \<and> ur_passwordHash u' = Some (cy_hash K (ac_drawn s) pw) \<and> ur_lockedUntil u' = None) \<and>
    (\<forall>x \<in> set (ac_sessions s'). sn_userId x = ur_id u \<longrightarrow> sn_revokedAt x \<noteq> None) \<and>
    (\<forall>x \<in> set (ac_codes s'). vc_id x = vc_id c \<longrightarrow> vc_consumedAt x \<noteq> None)"
proof -
  let ?t = "snd (hash_password K pw (put_code (vc_id c) (\<lambda>c. c\<lparr>vc_consumedAt := Some (st_now s)\<rparr>) s))"
  let ?f = "\<lambda>u. u\<lparr>ur_passwordHash := Some (cy_hash K (ac_drawn s) pw), ur_failedLogins := 0, ur_lockedUntil := None\<rparr>"
  let ?s = "revoke_all (ur_id u) (put_user (ur_id u) ?f ?t)"
  have d: "ac_drawn (put_code (vc_id c) (\<lambda>c. c\<lparr>vc_consumedAt := Some (st_now s)\<rparr>) s) = ac_drawn s" by (simp add: put_code_def)
  have "resetPassword K ident code pw s = (Inr (), ?s)"
    using assms by (simp add: resetPassword_def hash_password_def Let_def OTP_MAX_ATTEMPTS_def d)
  moreover have "findByIdentifier ident ?s = Some (?f u)" by (rule put_finds [OF assms(1)]) (simp_all add: hash_password_def)
  moreover have "\<forall>x \<in> set (ac_codes ?s). vc_id x = vc_id c \<longrightarrow> vc_consumedAt x \<noteq> None"
    by (auto simp: revoke_all_def revoke_where_def put_user_def hash_password_def put_code_def split: if_splits)
  moreover have "\<forall>x \<in> set (ac_sessions ?s). sn_userId x = ur_id u \<longrightarrow> sn_revokedAt x \<noteq> None" using revoked_dead by blast
  ultimately show ?thesis by (intro exI [of _ ?s] conjI exI [of _ "?f u"]) (assumption | simp)+
qed

text \<open>
  C40. An administrator can take over the account of an owner. Administrators may not grant that role, nor
  block an owner; but the reset of a password is not checked for the role of its target and answers with the
  temporary password, and with it they sign in as the owner.
\<close>

theorem admin_takes_over:
  assumes "findByIdentifier ident s = Some u" "find_staff (ur_id u) s = Inr u" "ur_role u = OWNER" "ur_status u = Us_ACTIVE" "ur_deletedAt u = None"
    and "sa_role actor = ADMIN"
    and "\<And>n p. cy_verify K (cy_hash K n p) p" "\<And>n p. cy_hash K n p \<noteq> ''''"
    and "\<forall>x \<in> set (ac_sessions s). sn_refreshTokenHash x \<noteq> cy_sha K (ac_secret s (Suc (Suc (ac_drawn s))))"
  shows "assertCanGrant actor OWNER = Inl (ForbiddenError ''staff.owner_only'') \<and>
    (\<exists>temp s1 t s2. reset_staff_password K (ur_id u) actor s = Inr (temp, s1) \<and> login K ttl ident temp s1 = (Inr t, s2) \<and>
      cl_sub (tk_access t) = ur_id u \<and> cl_role (tk_access t) = OWNER)"
proof -
  have "assertCanGrant actor OWNER = Inl (ForbiddenError ''staff.owner_only'')" using assms(6) by (simp add: assertCanGrant_def ALL_STAFF_def STAFF_ROLES_def)
  let ?h = "cy_hash K (Suc (ac_drawn s)) (ac_secret s (ac_drawn s))"
  let ?f = "\<lambda>u. u\<lparr>ur_passwordHash := Some ?h, ur_failedLogins := 0, ur_lockedUntil := None, ur_mustChangePassword := True\<rparr>"
  let ?s = "revoke_all (ur_id u) (put_user (ur_id u) ?f (s\<lparr>ac_drawn := Suc (Suc (ac_drawn s))\<rparr>))"
  have r: "reset_staff_password K (ur_id u) actor s = Inr (ac_secret s (ac_drawn s), ?s)"
    using assms(2) by (simp add: reset_staff_password_def draw_secret_def hash_password_def Let_def)
  have g: "findByIdentifier ident ?s = Some (?f u)" by (rule put_finds [OF assms(1)]) simp_all
  have d: "ac_secret ?s (ac_drawn ?s) = ac_secret s (Suc (Suc (ac_drawn s)))" by (simp add: revoke_all_def revoke_where_def put_user_def)
  have "sn_refreshTokenHash x \<noteq> cy_sha K (ac_secret ?s (ac_drawn ?s))" if "x \<in> set (ac_sessions ?s)" for x
    using that assms(9) unfolding d by (auto simp: revoke_all_def revoke_where_def)
  then have "\<exists>t s2. login K ttl ident (ac_secret s (ac_drawn s)) ?s = (Inr t, s2) \<and> cl_sub (tk_access t) = ur_id (?f u) \<and> cl_role (tk_access t) = ur_role (?f u)"
    using assms(3-5,7,8) by (intro login_ok [OF g, of ?h]) auto
  then have "\<exists>t s2. login K ttl ident (ac_secret s (ac_drawn s)) ?s = (Inr t, s2) \<and> cl_sub (tk_access t) = ur_id u \<and> cl_role (tk_access t) = OWNER"
    using assms(3) by simp
  with r \<open>assertCanGrant actor OWNER = _\<close> show ?thesis by blast
qed

section \<open>Instances\<close>

declare ebind_def [code_unfold]

definition plain_crypto :: crypto where
  "plain_crypto = \<lparr>cy_sha = (\<lambda>x. x), cy_hash = (\<lambda>n p. p @ ''#''), cy_verify = (\<lambda>h p. h = p @ ''#'')\<rparr>"

definition sample_user :: "id \<Rightarrow> string \<Rightarrow> user_role \<Rightarrow> user_row" where
  "sample_user i email role = \<lparr>ur_id = i, ur_name = ''n'', ur_email = Some email, ur_phone = None, ur_role = role, ur_status = Us_ACTIVE,
     ur_passwordHash = Some ''pw#'', ur_failedLogins = 0, ur_lockedUntil = None, ur_mustChangePassword = False, ur_lastLoginAt = None, ur_deletedAt = None\<rparr>"

definition sample_vault :: vault where
  "sample_vault = \<lparr>st_now = 0, st_nextId = 0, st_products = Map.empty, st_lots = [], st_uses = [], st_moves = [],
     st_items = [], sh_orders = [], sh_customers = [], sh_coupons = [], sh_redemptions = [], sh_history = [],
     tl_uuid = (\<lambda>n. replicate (Suc n) CHR ''u''), tl_issued = 3, tl_accounts = [], tl_txns = [], tl_payments = [],
     tl_refunds = [], tl_purchases = [], tl_shipments = [],
     fr_counters = [], fr_keys = [], fr_outbox = [], fr_districts = [], fr_upazilas = [], fr_unions = [], fr_catalog = [], fr_bundles = [],
     fr_rules = [], fr_carts = [],
     ac_users = [sample_user ''u'' ''o@x'' OWNER, sample_user ''uu'' ''p@x'' OWNER, sample_user ''uuu'' ''a@x'' ADMIN],
     ac_sessions = [\<lparr>sn_id = ''s'', sn_userId = ''u'', sn_refreshTokenHash = ''r'', sn_expiresAt = 900000000, sn_revokedAt = None, sn_lastUsedAt = 0\<rparr>],
     ac_codes = [], ac_secret = (\<lambda>n. replicate (Suc n) CHR ''x''), ac_pin = (\<lambda>n. 123456 + int n), ac_drawn = 0\<rparr>"

lemma sample_refreshed: "\<exists>t s1. refresh plain_crypto 7 (Some ''r'') sample_vault = (Inr t, s1)"
proof -
  have "isl (fst (refresh plain_crypto 7 (Some ''r'') sample_vault)) = False" by code_simp
  then show ?thesis by (cases "refresh plain_crypto 7 (Some ''r'') sample_vault") (metis fst_conv isl_def old.sum.exhaust)
qed

theorem refresh_once_witness:
  "\<exists>t s1 s3. refresh plain_crypto 7 (Some ''r'') sample_vault = (Inr t, s1) \<and>
     refresh plain_crypto 7 (Some ''r'') (logoutEverywhere ''uu'' s1) = (Inl (UnauthorizedError ''auth.refresh_reused''), s3) \<and>
     (\<forall>x \<in> set (ac_sessions s3). sn_userId x = cl_sub (tk_access t) \<longrightarrow> sn_revokedAt x \<noteq> None)"
proof -
  obtain t s1 where r: "refresh plain_crypto 7 (Some ''r'') sample_vault = (Inr t, s1)" using sample_refreshed by blast
  have f: "fresh_hashes sample_vault" by (simp add: fresh_hashes_def sample_vault_def)
  have "(account_step plain_crypto 7)\<^sup>*\<^sup>* s1 (logoutEverywhere ''uu'' s1)" by (intro r_into_rtranclp account_step.Everywhere)
  from refresh_once [OF r f this] r show ?thesis by blast
qed

theorem owner_remains_witness:
  "\<exists>s'. setEnabled ''uu'' False \<lparr>sa_id = ''u'', sa_role = OWNER\<rparr> sample_vault = Inr s' \<and> (\<exists>u \<in> set (ac_users s'). owner_in_charge u)"
proof -
  have "isl (setEnabled ''uu'' False \<lparr>sa_id = ''u'', sa_role = OWNER\<rparr> sample_vault) = False" by code_simp
  then obtain s' where s': "setEnabled ''uu'' False \<lparr>sa_id = ''u'', sa_role = OWNER\<rparr> sample_vault = Inr s'"
    by (cases "setEnabled ''uu'' False \<lparr>sa_id = ''u'', sa_role = OWNER\<rparr> sample_vault") auto
  have u: "\<exists>u \<in> set (ac_users sample_vault). owner_in_charge u" by (simp add: sample_vault_def sample_user_def owner_in_charge_def)
  have "inj (\<lambda>n. replicate (Suc n) CHR ''u'')" by (rule injI) (metis length_replicate Suc_inject)
  moreover have "{..<3::nat} = {0, 1, 2}" by auto
  ultimately have o': "users_ok sample_vault" by (simp add: users_ok_def sample_vault_def sample_user_def numeral_2_eq_2)
  have "(account_step plain_crypto 7)\<^sup>*\<^sup>* sample_vault s'" by (intro r_into_rtranclp account_step.Enable [OF s'])
  from owner_remains [OF this o' u] s' show ?thesis by blast
qed

theorem guessing_is_slow_witness:
  "guesses plain_crypto 7 ''o@x'' [(0, ''a''), (1, ''b''), (2, ''c''), (3, ''d''), (4, ''e''), (5, ''f''), (6, ''g'')] sample_vault \<le> 5"
proof -
  have "open_account ''o@x'' ''pw#'' (sample_user ''u'' ''o@x'' OWNER) sample_vault"
    unfolding open_account_def by (intro conjI) code_simp+
  then have "guesses plain_crypto 7 ''o@x'' [(0, ''a''), (1, ''b''), (2, ''c''), (3, ''d''), (4, ''e''), (5, ''f''), (6, ''g'')] sample_vault
      \<le> 5 + (6 - st_now sample_vault) div 900000"
    by (rule guessing_is_slow) (simp_all add: sample_user_def sample_vault_def plain_crypto_def)
  then show ?thesis by (simp add: sample_vault_def)
qed

theorem cut_off_in_ten_seconds_witness:
  "last (fst (answers ([(''s'', sample_vault)] @ [(''s'', (logoutEverywhere ''u'' sample_vault)\<lparr>st_now := 10000\<rparr>)]) [])) = False"
  by (rule cut_off_in_ten_seconds [where T = 0])
    (simp_all add: sample_vault_def logoutEverywhere_def revoke_all_def revoke_where_def session_live_def user_by_id_def sample_user_def)

definition sample_code :: verification_code where
  "sample_code = \<lparr>vc_id = ''uuuu'', vc_userId = ''u'', vc_target = ''o@x'', vc_codeHash = ''123456'', vc_attempts = 4, vc_expiresAt = 600000,
    vc_consumedAt = None, vc_createdAt = 0\<rparr>"

theorem reset_by_code_witness:
  "\<exists>s'. resetPassword plain_crypto ''o@x'' '' 123456 '' ''new'' (sample_vault\<lparr>ac_codes := [sample_code]\<rparr>) = (Inr (), s') \<and>
     (\<forall>x \<in> set (ac_sessions s'). sn_userId x = ''u'' \<longrightarrow> sn_revokedAt x \<noteq> None)"
proof -
  let ?s = "sample_vault\<lparr>ac_codes := [sample_code]\<rparr>"
  have "findByIdentifier ''o@x'' ?s = findByIdentifier ''o@x'' sample_vault" by (rule finds_cong) simp
  moreover have "findByIdentifier ''o@x'' sample_vault = Some (sample_user ''u'' ''o@x'' OWNER)" by code_simp
  ultimately have f: "findByIdentifier ''o@x'' ?s = Some (sample_user ''u'' ''o@x'' OWNER)" by simp
  have u: "ur_id (sample_user ''u'' ''o@x'' OWNER) = ''u''" by (simp add: sample_user_def)
  have c: "open_code (ur_id (sample_user ''u'' ''o@x'' OWNER)) ?s = Some sample_code"
    unfolding u by (simp add: open_code_def sample_code_def sample_vault_def)
  have h: "vc_codeHash sample_code = cy_sha plain_crypto (js_trim '' 123456 '')" by code_simp
  have "vc_attempts sample_code < 5" by (simp add: sample_code_def)
  from reset_by_code [OF f c this h, of "''new''"] u show ?thesis by metis
qed

theorem admin_takes_over_witness:
  "\<exists>temp s1 t s2. reset_staff_password plain_crypto ''u'' \<lparr>sa_id = ''uuu'', sa_role = ADMIN\<rparr> sample_vault = Inr (temp, s1) \<and>
     login plain_crypto 7 ''o@x'' temp s1 = (Inr t, s2) \<and> cl_role (tk_access t) = OWNER"
proof -
  have f: "findByIdentifier ''o@x'' sample_vault = Some (sample_user ''u'' ''o@x'' OWNER)" by code_simp
  have g: "find_staff (ur_id (sample_user ''u'' ''o@x'' OWNER)) sample_vault = Inr (sample_user ''u'' ''o@x'' OWNER)" by code_simp
  have "assertCanGrant \<lparr>sa_id = ''uuu'', sa_role = ADMIN\<rparr> OWNER = Inl (ForbiddenError ''staff.owner_only'') \<and>
    (\<exists>temp s1 t s2. reset_staff_password plain_crypto (ur_id (sample_user ''u'' ''o@x'' OWNER)) \<lparr>sa_id = ''uuu'', sa_role = ADMIN\<rparr> sample_vault = Inr (temp, s1) \<and>
      login plain_crypto 7 ''o@x'' temp s1 = (Inr t, s2) \<and> cl_sub (tk_access t) = ur_id (sample_user ''u'' ''o@x'' OWNER) \<and> cl_role (tk_access t) = OWNER)"
    by (rule admin_takes_over [OF f g]) (simp_all add: sample_user_def plain_crypto_def sample_vault_def)
  then show ?thesis by (auto simp: sample_user_def)
qed

end
