(* ===== verification/Reports.thy ===== *)
theory Reports
  imports Documents Dhaka_Time
begin

text \<open>
  Profit and loss from the papers (\<open>finance/reports/domain/pnl.ts\<close>), the periods and the papers a report
  reads (\<open>application/finance-reports.service.ts\<close>) and the CSV writer of the exports
  (\<open>domain/csv.ts\<close>). The category a line prints is a field here, since the rows of a report are keyed by it.
\<close>

section \<open>Profit and loss\<close>

record pnl_component =
  pnc_categoryName :: "jstr option"
  pnc_qty :: int
  pnc_unitCost :: "money option"
  pnc_allocatedRevenue :: money

record pnl_line =
  pnl_kind :: item_kind
  pnl_categoryName :: "jstr option"
  pnl_qty :: int
  pnl_unitPrice :: money
  pnl_unitCost :: "money option"
  pnl_components :: "pnl_component list option"

record pnl_doc =
  pnd_kind :: document_kind
  pnd_lines :: "pnl_line list"
  pnd_discount :: money
  pnd_shippingFee :: money
  pnd_shippingCost :: money
  pnd_gatewayFee :: money
  pnd_courierLoss :: "money option"
  pnd_reverseCourier :: bool

datatype pnl = Pnl (p_sales: money) (p_coupon: money) (p_cogs: money) (p_shipIn: money) (p_courier: money) (p_gatewayFee: money)
  (p_courierLoss: money) (p_invoices: int) (p_credits: int) (p_skipped: int)

definition emptyPnl :: pnl where
  "emptyPnl = Pnl 0 0 0 0 0 0 0 0 0 0"

definition lineMoney :: "pnl_line list \<Rightarrow> money \<times> money \<times> bool" where
  "lineMoney ls =
     (let (sales, cogs) = foldl (\<lambda>(sales, cogs) l. (sales + pnl_unitPrice l * of_int (pnl_qty l), cogs + D (pnl_unitCost l) * of_int (pnl_qty l))) (0, 0) ls
      in (sales, cogs, ls \<noteq> [] \<and> list_all (\<lambda>l. pnl_unitCost l \<noteq> None) ls))"

definition pnl_paper :: "pnl \<Rightarrow> pnl_doc \<Rightarrow> pnl" where
  "pnl_paper out doc =
     (if pnd_kind doc = RECEIPT then out
      else
        let credit = (pnd_kind doc = CREDIT_NOTE);
            out = (case out of Pnl sales coupon cogs shipIn courier fee loss invoices credits skipped \<Rightarrow>
              if credit then Pnl sales coupon cogs shipIn courier fee loss invoices (credits + 1) skipped
              else Pnl sales coupon cogs shipIn courier fee loss (invoices + 1) credits skipped);
            (m_sales, m_cogs, known) = lineMoney (pnd_lines doc)
        in case out of Pnl sales coupon cogs shipIn courier fee loss invoices credits skipped \<Rightarrow>
             if \<not> known then Pnl sales coupon cogs shipIn courier fee loss invoices credits (skipped + 1)
             else
               let sign = (if credit then - 1 else 1)
               in Pnl (sales + m_sales * sign) (coupon + pnd_discount doc * sign) (cogs + m_cogs * sign) (shipIn + pnd_shippingFee doc * sign)
                    (if \<not> credit then courier + pnd_shippingCost doc
                     else if pnd_reverseCourier doc then courier - pnd_shippingCost doc else courier)
                    (fee + pnd_gatewayFee doc * sign)
                    (if credit then loss + D (pnd_courierLoss doc) else loss) invoices credits skipped)"

definition pnlFor :: "pnl_doc list \<Rightarrow> pnl" where
  "pnlFor docs = foldl pnl_paper emptyPnl docs"

definition grossOf :: "pnl \<Rightarrow> money" where
  "grossOf p = p_sales p - p_coupon p - p_cogs p"

definition netOf :: "pnl \<Rightarrow> money" where
  "netOf p = grossOf p + p_shipIn p - p_courier p - p_gatewayFee p - p_courierLoss p"

definition marginPct :: "decimal_js \<Rightarrow> pnl \<Rightarrow> rat" where
  "marginPct J p = (if p_sales p > 0 then half_up 0 (d_times J (d_div J (grossOf p) (p_sales p)) 100) else 0)"

record pnl_view =
  pnv_sales :: rat
  pnv_coupon :: rat
  pnv_netSales :: rat
  pnv_cogs :: rat
  pnv_gross :: rat
  pnv_marginPct :: rat
  pnv_deliveryIncome :: rat
  pnv_courierCost :: rat
  pnv_gatewayFee :: rat
  pnv_courierLoss :: rat
  pnv_net :: rat
  pnv_invoices :: int
  pnv_creditNotes :: int
  pnv_skipped :: int

definition pnlView :: "decimal_js \<Rightarrow> pnl \<Rightarrow> pnl_view" where
  "pnlView J p = \<lparr>pnv_sales = toNumber (Some (p_sales p)), pnv_coupon = toNumber (Some (p_coupon p)),
     pnv_netSales = toNumber (Some (p_sales p - p_coupon p)), pnv_cogs = toNumber (Some (p_cogs p)), pnv_gross = toNumber (Some (grossOf p)),
     pnv_marginPct = marginPct J p, pnv_deliveryIncome = toNumber (Some (p_shipIn p)), pnv_courierCost = toNumber (Some (p_courier p)),
     pnv_gatewayFee = toNumber (Some (p_gatewayFee p)), pnv_courierLoss = toNumber (Some (p_courierLoss p)), pnv_net = toNumber (Some (netOf p)),
     pnv_invoices = p_invoices p, pnv_creditNotes = p_credits p, pnv_skipped = p_skipped p\<rparr>"

section \<open>Sales per category\<close>

record cat_row =
  row_qty :: int
  row_sales :: money
  row_cogs :: money

text \<open>The words for other and for a package.\<close>

definition OTHER :: jstr where "OTHER = [2437, 2472, 2509, 2479, 2494, 2472, 2509, 2479]"
definition PACK :: jstr where "PACK = [2474, 2509, 2479, 2494, 2453, 2503, 2460]"

definition category_or :: "jstr option \<Rightarrow> jstr" where
  "category_or c = (case c of None \<Rightarrow> OTHER | Some s \<Rightarrow> if s = [] then OTHER else s)"

text \<open>A \<open>Map\<close> of JavaScript keeps its keys in the order of their first insertion.\<close>

definition add_row :: "jstr \<Rightarrow> int \<Rightarrow> money \<Rightarrow> money \<Rightarrow> (jstr \<times> cat_row) list \<Rightarrow> (jstr \<times> cat_row) list" where
  "add_row cat qty sales cogs rows =
     (let row = (case map_of rows cat of None \<Rightarrow> \<lparr>row_qty = 0, row_sales = 0, row_cogs = 0\<rparr> | Some r \<Rightarrow> r)
      in AList.update cat \<lparr>row_qty = row_qty row + qty, row_sales = row_sales row + sales, row_cogs = row_cogs row + cogs\<rparr> rows)"

definition add_line :: "decimal_js \<Rightarrow> int \<Rightarrow> (jstr \<times> cat_row) list \<Rightarrow> pnl_line \<Rightarrow> (jstr \<times> cat_row) list" where
  "add_line J sign rows l =
     (let lineSales = pnl_unitPrice l * of_int (pnl_qty l);
          lineCogs = D (pnl_unitCost l) * of_int (pnl_qty l) * of_int sign
      in if pnl_kind l = BUNDLE
         then let comps = (case pnl_components l of None \<Rightarrow> [] | Some cs \<Rightarrow> cs)
              in if comps = [] then add_row PACK (sign * pnl_qty l) (lineSales * of_int sign) lineCogs rows
                 else foldl (\<lambda>rows (c, part). add_row (category_or (pnc_categoryName c)) (sign * pnc_qty c) (part * of_int sign)
                          (D (pnc_unitCost c) * of_int (pnc_qty c) * of_int sign) rows)
                        rows (zip comps (allocate J lineSales (map pnc_allocatedRevenue comps)))
         else add_row (category_or (pnl_categoryName l)) (sign * pnl_qty l) (lineSales * of_int sign) lineCogs rows)"

definition add_paper :: "decimal_js \<Rightarrow> (jstr \<times> cat_row) list \<Rightarrow> pnl_doc \<Rightarrow> (jstr \<times> cat_row) list" where
  "add_paper J rows doc =
     (if pnd_kind doc = RECEIPT \<or> pnd_lines doc = [] then rows
      else foldl (add_line J (if pnd_kind doc = CREDIT_NOTE then - 1 else 1)) rows (pnd_lines doc))"

definition categoryRows :: "decimal_js \<Rightarrow> pnl_doc list \<Rightarrow> (jstr \<times> cat_row) list" where
  "categoryRows J docs =
     sort_key (\<lambda>(c, r). - row_sales r) (filter (\<lambda>(c, r). row_qty r \<noteq> 0 \<or> row_sales r \<noteq> 0) (foldl (add_paper J) [] docs))"

definition catRowMargin :: "decimal_js \<Rightarrow> cat_row \<Rightarrow> rat" where
  "catRowMargin J r = (if row_sales r > 0 then half_up 0 (d_times J (d_div J (row_sales r - row_cogs r) (row_sales r)) 100) else 0)"

definition courierDue :: "pnl_doc list \<Rightarrow> money \<Rightarrow> money" where
  "courierDue docs paid =
     (let accrued = foldl (\<lambda>a d. let a = (if pnd_kind d = INVOICE then a + pnd_shippingCost d else a)
            in if pnd_kind d = CREDIT_NOTE \<and> pnd_reverseCourier d then a - pnd_shippingCost d else a) 0 docs;
          due = accrued - paid
      in if due < 0 then 0 else due)"

section \<open>The papers of a period\<close>

datatype report_period = Period_tenure tenure | Period_custom

record report_query =
  rpq_period :: "report_period option"
  rpq_date :: "string option"
  rpq_from :: "string option"
  rpq_to :: "string option"

definition MAX_CUSTOM_DAYS :: int where "MAX_CUSTOM_DAYS = 800"

text \<open>
  Texts compare by their code units. A day that does not exist makes \<open>dayRange\<close> and \<open>tenureRange\<close> throw
  the \<open>RangeError\<close> of \<open>parts\<close>.
\<close>

record report_range = day_range +
  rr_from :: string
  rr_to :: string

definition named_range :: "day_range \<Rightarrow> report_range" where
  "named_range r = \<lparr>rg_start = rg_start r, rg_end = rg_end r, rr_from = dhakaDay (rg_start r), rr_to = dhakaDay (rg_end r - 1)\<rparr>"

definition resolveRange :: "time \<Rightarrow> report_query \<Rightarrow> report_range result" where
  "resolveRange now q =
     (case (case rpq_period q of Some p \<Rightarrow> p | None \<Rightarrow> Period_tenure Tenure_month) of
        Period_custom \<Rightarrow>
          if \<not> truthy (rpq_from q) \<or> \<not> truthy (rpq_to q) then Inl (BusinessRuleError ''report.range_required'')
          else if js (the (rpq_to q)) < js (the (rpq_from q)) then Inl (BusinessRuleError ''report.range_invalid'')
          else (case daySpan (the (rpq_from q)) (the (rpq_to q)) of
              None \<Rightarrow> Inl (DomainError ''RangeError'' 500)
            | Some r \<Rightarrow>
                if rg_end r - rg_start r > MAX_CUSTOM_DAYS * 86400000 then Inl (BusinessRuleError ''report.range_too_long'') else Inr (named_range r))
      | Period_tenure k \<Rightarrow>
          (case tenureRange k (case rpq_date q of Some d \<Rightarrow> d | None \<Rightarrow> dhakaDay now) of
             None \<Rightarrow> Inl (DomainError ''RangeError'' 500)
           | Some r \<Rightarrow> Inr (named_range r)))"

text \<open>What a report reads of a paper; \<open>cat\<close> is the category printed for a product or package.\<close>

definition pnl_line_of :: "(id \<Rightarrow> jstr option) \<Rightarrow> doc_line \<Rightarrow> pnl_line" where
  "pnl_line_of cat l = \<lparr>pnl_kind = dl_kind l, pnl_categoryName = cat (dl_id l), pnl_qty = dl_qty l, pnl_unitPrice = dl_unitPrice l,
     pnl_unitCost = dl_unitCost l,
     pnl_components = map_option (map (\<lambda>c. \<lparr>pnc_categoryName = cat (dc_productId c), pnc_qty = dc_qty c, pnc_unitCost = dc_unitCost c,
       pnc_allocatedRevenue = dc_allocatedRevenue c\<rparr>)) (dl_components l)\<rparr>"

definition pnl_doc_of :: "(id \<Rightarrow> jstr option) \<Rightarrow> document \<Rightarrow> pnl_doc" where
  "pnl_doc_of cat d = \<lparr>pnd_kind = fd_kind d, pnd_lines = map (pnl_line_of cat) (fd_lines d), pnd_discount = fd_discount d,
     pnd_shippingFee = fd_shippingFee d, pnd_shippingCost = fd_shippingCost d, pnd_gatewayFee = fd_gatewayFee d,
     pnd_courierLoss = fd_courierLoss d, pnd_reverseCourier = fd_reverseCourier d\<rparr>"

definition pnlDocs :: "(id \<Rightarrow> jstr option) \<Rightarrow> 'b day_range_scheme \<Rightarrow> 'a books_scheme \<Rightarrow> pnl_doc list" where
  "pnlDocs cat r s = map (pnl_doc_of cat)
     (filter (\<lambda>d. fd_kind d \<in> {INVOICE, CREDIT_NOTE} \<and> rg_start r \<le> fd_issuedAt d \<and> fd_issuedAt d < rg_end r) (bk_documents s))"

section \<open>CSV\<close>

datatype csv_cell = Cell_null | Cell_num "rat option" | Cell_bool bool | Cell_date time | Cell_text jstr

text \<open>How the language prints a finite number and a date: \<open>String\<close> and \<open>toISOString\<close>.\<close>

record printing =
  pr_number :: "rat \<Rightarrow> jstr"
  pr_iso :: "time \<Rightarrow> jstr"

definition js_comma :: nat where "js_comma = 44"
definition js_quote :: nat where "js_quote = 34"
definition js_cr :: nat where "js_cr = 13"
definition js_lf :: nat where "js_lf = 10"

text \<open>\<open>= + - @\<close>, tab and carriage return at the start make a spreadsheet compute; an apostrophe goes before.\<close>

definition neutral :: "jstr \<Rightarrow> jstr" where
  "neutral s = (case s of [] \<Rightarrow> s | c # _ \<Rightarrow> if c \<in> {61, 43, 45, 64, 9, 13} then 39 # s else s)"

definition csv_quote :: "jstr \<Rightarrow> jstr" where
  "csv_quote s = (if list_ex (\<lambda>c. c \<in> {js_quote, js_comma, js_cr, js_lf}) s
     then js_quote # concat (map (\<lambda>c. if c = js_quote then [js_quote, js_quote] else [c]) s) @ [js_quote] else s)"

definition csv_cell_text :: "printing \<Rightarrow> csv_cell \<Rightarrow> jstr" where
  "csv_cell_text pr v = (case v of
       Cell_null \<Rightarrow> []
     | Cell_num None \<Rightarrow> []
     | Cell_num (Some n) \<Rightarrow> pr_number pr n
     | Cell_bool b \<Rightarrow> if b then js ''true'' else js ''false''
     | Cell_date t \<Rightarrow> csv_quote (neutral (pr_iso pr t))
     | Cell_text s \<Rightarrow> csv_quote (neutral s))"

definition join_cells :: "jstr list \<Rightarrow> jstr" where
  "join_cells cs = (case cs of [] \<Rightarrow> [] | c # cs \<Rightarrow> c @ concat (map (\<lambda>x. js_comma # x) cs))"

text \<open>The mark of the byte order, every line ended by a carriage return and a line feed.\<close>

definition toCsv :: "printing \<Rightarrow> jstr list \<Rightarrow> csv_cell list list \<Rightarrow> jstr" where
  "toCsv pr headers rows =
     65279 # concat (map (\<lambda>r. join_cells (map (csv_cell_text pr) r) @ [js_cr, js_lf]) (map Cell_text headers # rows))"

end
