(* ===== verification/Reports_Properties.thy ===== *)
theory Reports_Properties
  imports Reports Documents_Properties
begin

text \<open>
  What the reports may be trusted for: profit is a sum over papers in any order, a credit note takes back what
  its invoice earned, the rows per category add up to the sales, and a CSV export reads back as written.
\<close>

section \<open>Figures are added\<close>

instantiation pnl :: ab_group_add
begin

definition zero_pnl :: pnl where
  "zero_pnl = emptyPnl"

definition plus_pnl :: "pnl \<Rightarrow> pnl \<Rightarrow> pnl" where
  "plus_pnl p q = Pnl (p_sales p + p_sales q) (p_coupon p + p_coupon q) (p_cogs p + p_cogs q) (p_shipIn p + p_shipIn q) (p_courier p + p_courier q)
     (p_gatewayFee p + p_gatewayFee q) (p_courierLoss p + p_courierLoss q) (p_invoices p + p_invoices q) (p_credits p + p_credits q)
     (p_skipped p + p_skipped q)"

definition uminus_pnl :: "pnl \<Rightarrow> pnl" where
  "uminus_pnl p = Pnl (- p_sales p) (- p_coupon p) (- p_cogs p) (- p_shipIn p) (- p_courier p) (- p_gatewayFee p) (- p_courierLoss p)
     (- p_invoices p) (- p_credits p) (- p_skipped p)"

definition minus_pnl :: "pnl \<Rightarrow> pnl \<Rightarrow> pnl" where
  "minus_pnl p q = p + - (q :: pnl)"

instance
  by standard (auto simp: zero_pnl_def plus_pnl_def uminus_pnl_def minus_pnl_def emptyPnl_def pnl.expand)

end

lemma pnl_sel [simp]:
  "p_sales 0 = 0" "p_coupon 0 = 0" "p_cogs 0 = 0" "p_shipIn 0 = 0" "p_courier 0 = 0" "p_gatewayFee 0 = 0" "p_courierLoss 0 = 0"
  "p_sales (p + q) = p_sales p + p_sales q" "p_coupon (p + q) = p_coupon p + p_coupon q" "p_cogs (p + q) = p_cogs p + p_cogs q"
  "p_shipIn (p + q) = p_shipIn p + p_shipIn q" "p_courier (p + q) = p_courier p + p_courier q"
  "p_gatewayFee (p + q) = p_gatewayFee p + p_gatewayFee q" "p_courierLoss (p + q) = p_courierLoss p + p_courierLoss q"
  by (simp_all add: zero_pnl_def plus_pnl_def emptyPnl_def)

lemma net_add [simp]: "netOf (p + q) = netOf p + netOf q" "netOf 0 = 0"
  by (simp_all add: netOf_def grossOf_def)

lemma pnl_paper_add: "pnl_paper p d = p + pnl_paper 0 d"
  by (cases p; cases "lineMoney (pnd_lines d)")
    (simp add: pnl_paper_def zero_pnl_def plus_pnl_def emptyPnl_def Let_def)

lemma pnlFor_sum: "pnlFor docs = sum_list (map (pnl_paper 0) docs)"
proof -
  have "foldl pnl_paper p docs = p + sum_list (map (pnl_paper 0) docs)" for p
    by (induction docs arbitrary: p) (simp_all add: pnl_paper_add [of _ "hd _"] pnl_paper_add [of "_ + _"] add.assoc flip: pnl_paper_add)
  from this [of 0] show ?thesis by (simp add: pnlFor_def zero_pnl_def)
qed

lemma pnl_order_free: "mset xs = mset ys \<Longrightarrow> pnlFor xs = pnlFor ys"
  unfolding pnlFor_sum by (metis mset_map sum_mset_sum_list)

lemma pnlFor_append: "pnlFor (xs @ ys) = pnlFor xs + pnlFor ys"
  by (simp add: pnlFor_sum)

lemma lineMoney_sum:
  "lineMoney ls = (\<Sum>l\<leftarrow>ls. pnl_unitPrice l * of_int (pnl_qty l), \<Sum>l\<leftarrow>ls. D (pnl_unitCost l) * of_int (pnl_qty l),
     ls \<noteq> [] \<and> (\<forall>l \<in> set ls. pnl_unitCost l \<noteq> None))"
proof -
  have "foldl (\<lambda>(sales, cogs) l. (sales + pnl_unitPrice l * of_int (pnl_qty l), cogs + D (pnl_unitCost l) * of_int (pnl_qty l))) (a, b) ls =
      (a + (\<Sum>l\<leftarrow>ls. pnl_unitPrice l * of_int (pnl_qty l)), b + (\<Sum>l\<leftarrow>ls. D (pnl_unitCost l) * of_int (pnl_qty l)))" for a b :: rat
    by (induction ls arbitrary: a b) (simp_all add: add.assoc)
  from this [of 0 0] show ?thesis by (simp add: lineMoney_def list_all_iff)
qed

definition costed :: "pnl_doc \<Rightarrow> bool" where
  "costed d \<longleftrightarrow> pnd_lines d \<noteq> [] \<and> (\<forall>l \<in> set (pnd_lines d). pnl_unitCost l \<noteq> None)"

lemma pnl_paper_zero:
  "pnl_paper 0 d = (if pnd_kind d = RECEIPT then 0
     else let credit = (pnd_kind d = CREDIT_NOTE); sign = (if credit then - 1 else 1)
       in if costed d
          then Pnl (fst (lineMoney (pnd_lines d)) * sign) (pnd_discount d * sign) (fst (snd (lineMoney (pnd_lines d))) * sign) (pnd_shippingFee d * sign)
            (if \<not> credit then pnd_shippingCost d else if pnd_reverseCourier d then - pnd_shippingCost d else 0) (pnd_gatewayFee d * sign)
            (if credit then D (pnd_courierLoss d) else 0) (if credit then 0 else 1) (if credit then 1 else 0) 0
          else Pnl 0 0 0 0 0 0 0 (if credit then 0 else 1) (if credit then 1 else 0) 1)"
proof -
  obtain a b k where m: "lineMoney (pnd_lines d) = (a, b, k)" by (cases "lineMoney (pnd_lines d)")
  then have "k = costed d" by (simp add: lineMoney_sum costed_def)
  then show ?thesis using m by (simp add: pnl_paper_def zero_pnl_def emptyPnl_def Let_def)
qed

lemma net_of_invoice:
  "pnd_kind d = INVOICE \<Longrightarrow> netOf (pnl_paper 0 d) = (if costed d then fst (lineMoney (pnd_lines d)) - fst (snd (lineMoney (pnd_lines d))) - pnd_discount d
     + pnd_shippingFee d - pnd_shippingCost d - pnd_gatewayFee d else 0)"
  by (simp add: pnl_paper_zero netOf_def grossOf_def)

lemma net_of_credit:
  "pnd_kind d = CREDIT_NOTE \<Longrightarrow> netOf (pnl_paper 0 d) = (if costed d then - fst (lineMoney (pnd_lines d)) + fst (snd (lineMoney (pnd_lines d))) + pnd_discount d
     - pnd_shippingFee d + (if pnd_reverseCourier d then pnd_shippingCost d else 0) + pnd_gatewayFee d - D (pnd_courierLoss d) else 0)"
  by (simp add: pnl_paper_zero netOf_def grossOf_def)

lemma net_of_pair:
  assumes "pnd_kind b = INVOICE" "pnd_kind n = CREDIT_NOTE" "pnd_lines n = pnd_lines b" "pnd_discount n = pnd_discount b"
    "pnd_shippingFee n = pnd_shippingFee b" "pnd_shippingCost n = pnd_shippingCost b" "pnd_gatewayFee n = (if k then pnd_gatewayFee b else 0)"
  shows "netOf (pnl_paper 0 n) + netOf (pnl_paper 0 b) = - (if costed b
    then (if pnd_reverseCourier n then 0 else pnd_shippingCost b) + (if k then 0 else pnd_gatewayFee b) + D (pnd_courierLoss n) else 0)"
proof -
  have "costed n = costed b" using assms(3) by (simp add: costed_def)
  then show ?thesis using net_of_invoice [OF assms(1)] net_of_credit [OF assms(2)] assms(3-7) by simp
qed

section \<open>A credit note takes back what its invoice earned\<close>

lemma issue_row:
  assumes "issue CREDIT_NOTE data s = Inr (d, s')"
  shows "bk_documents s' = bk_documents s @ [d]" "fd_kind d = CREDIT_NOTE" "fd_lines d = fd_lines data" "fd_discount d = fd_discount data"
    "fd_shippingFee d = fd_shippingFee data" "fd_shippingCost d = fd_shippingCost data" "fd_gatewayFee d = fd_gatewayFee data"
    "fd_courierLoss d = fd_courierLoss data" "fd_reverseCourier d = fd_reverseCourier data" "fd_issuedAt d = st_now s"
  using assms by (auto simp: issue_def counter_next_def fresh_id_def Let_def split: if_splits prod.splits)


section \<open>Sales per category\<close>

definition rows_sales :: "(jstr \<times> cat_row) list \<Rightarrow> money" where
  "rows_sales rows = (\<Sum>(c, r)\<leftarrow>rows. row_sales r)"

text \<open>What the columns hold: whole paisa, nothing negative, and amounts the columns can hold.\<close>

definition sound_line :: "pnl_line \<Rightarrow> bool" where
  "sound_line l \<longleftrightarrow> paisa (pnl_unitPrice l) \<and> 0 \<le> pnl_unitPrice l \<and> 0 \<le> pnl_qty l \<and> pnl_unitPrice l * of_int (pnl_qty l) \<le> 10 ^ 13 \<and>
     (\<forall>cs. pnl_components l = Some cs \<longrightarrow> (\<forall>c \<in> set cs. 0 \<le> pnc_allocatedRevenue c))"

definition paper_sales :: "pnl_doc \<Rightarrow> money" where
  "paper_sales d = (if pnd_kind d = RECEIPT then 0 else (if pnd_kind d = CREDIT_NOTE then - 1 else 1) * fst (lineMoney (pnd_lines d)))"

lemma rows_sales_update:
  "rows_sales (AList.update k v rows) = rows_sales rows + row_sales v - (case map_of rows k of None \<Rightarrow> 0 | Some r \<Rightarrow> row_sales r)"
  by (induction rows) (auto simp: rows_sales_def split: option.splits)

lemma rows_sales_add [simp]: "rows_sales (add_row cat q x c rows) = rows_sales rows + x"
  by (simp add: add_row_def rows_sales_update Let_def split: option.split)

lemma rows_sales_parts:
  "length ps = length comps \<Longrightarrow>
   rows_sales (foldl (\<lambda>rows (c, part). add_row (f c) (g c) (part * k) (h c) rows) rows (zip comps ps)) = rows_sales rows + sum_list ps * k"
  by (induction comps ps arbitrary: rows rule: list_induct2') (simp_all add: algebra_simps)

lemma rows_sales_line:
  assumes "decimal_laws J" "sound_line l"
  shows "rows_sales (add_line J sign rows l) = rows_sales rows + pnl_unitPrice l * of_int (pnl_qty l) * of_int sign"
proof (cases "pnl_kind l = BUNDLE \<and> pnl_components l \<noteq> None \<and> pnl_components l \<noteq> Some []")
  case True
  then obtain cs where cs: "pnl_components l = Some cs" "cs \<noteq> []" "pnl_kind l = BUNDLE" by auto
  let ?t = "pnl_unitPrice l * of_int (pnl_qty l)"
  have "sum_list (allocate J ?t (map pnc_allocatedRevenue cs)) = ?t"
    using assms(2) cs by (intro conjunct1 [OF decimal_laws.allocate_total [OF assms(1)]]) (auto simp: sound_line_def paisa_times_int)
  then show ?thesis using cs by (simp add: add_line_def rows_sales_parts)
next
  case False
  then show ?thesis by (auto simp: add_line_def Let_def split: option.splits)
qed

lemma rows_sales_paper:
  assumes "decimal_laws J" "\<forall>l \<in> set (pnd_lines d). sound_line l"
  shows "rows_sales (add_paper J rows d) = rows_sales rows + paper_sales d"
proof -
  have "rows_sales (foldl (add_line J sign) rows ls) = rows_sales rows + (\<Sum>l\<leftarrow>ls. pnl_unitPrice l * of_int (pnl_qty l)) * of_int sign"
    if "\<forall>l \<in> set ls. sound_line l" for ls sign
    using that by (induction ls arbitrary: rows) (simp_all add: rows_sales_line [OF assms(1)] algebra_simps)
  from this [OF assms(2)] show ?thesis by (auto simp: add_paper_def paper_sales_def lineMoney_sum)
qed

lemma rows_sales_shown: "rows_sales (categoryRows J docs) = rows_sales (foldl (add_paper J) [] docs)"
proof -
  let ?rows = "foldl (add_paper J) [] docs"
  let ?shown = "filter (\<lambda>(c, r). row_qty r \<noteq> 0 \<or> row_sales r \<noteq> 0) ?rows"
  have "mset (map (\<lambda>(c, r). row_sales r) (categoryRows J docs)) = mset (map (\<lambda>(c, r). row_sales r) ?shown)"
    by (simp add: categoryRows_def)
  then have "rows_sales (categoryRows J docs) = rows_sales ?shown" unfolding rows_sales_def sum_mset_sum_list [symmetric] by (rule arg_cong)
  also have "rows_sales (filter (\<lambda>(c, r). row_qty r \<noteq> 0 \<or> row_sales r \<noteq> 0) rows) = rows_sales rows" for rows
    unfolding rows_sales_def by (induction rows) auto
  finally show ?thesis .
qed

text \<open>
  C16. The rows per category lose no sale: their sales add up to those of the profit and loss account, bundles
  included, to the paisa, plus the sales of the papers the account leaves out because a cost is not known.
\<close>

theorem categories_add_up:
  assumes "decimal_laws J" "\<forall>d \<in> set docs. \<forall>l \<in> set (pnd_lines d). sound_line l"
  shows "(\<Sum>(c, r)\<leftarrow>categoryRows J docs. row_sales r) = p_sales (pnlFor docs) + (\<Sum>d\<leftarrow>filter (\<lambda>d. \<not> costed d) docs. paper_sales d)"
proof -
  have rows: "rows_sales (foldl (add_paper J) rows ds) = rows_sales rows + sum_list (map paper_sales ds)"
    if "\<forall>d \<in> set ds. \<forall>l \<in> set (pnd_lines d). sound_line l" for ds rows
    using that by (induction ds arbitrary: rows) (simp_all add: rows_sales_paper [OF assms(1)])
  have one: "paper_sales d = p_sales (pnl_paper 0 d) + (if costed d then 0 else paper_sales d)" for d
    by (auto simp: paper_sales_def pnl_paper_zero Let_def)
  have "sum_list (map paper_sales ds) = p_sales (pnlFor ds) + (\<Sum>d\<leftarrow>filter (\<lambda>d. \<not> costed d) ds. paper_sales d)" for ds
  proof (induction ds)
    case Nil
    then show ?case by (simp add: pnlFor_sum)
  next
    case (Cons d ds)
    have "p_sales (pnlFor (d # ds)) = p_sales (pnl_paper 0 d) + p_sales (pnlFor ds)" by (simp add: pnlFor_sum)
    moreover have "paper_sales d = p_sales (pnl_paper 0 d)" if "costed d" using one [of d] that by simp
    moreover have "p_sales (pnl_paper 0 d) = 0" if "\<not> costed d" using one [of d] that by simp
    ultimately show ?case using Cons by (cases "costed d") simp_all
  qed
  note total_sales = this [of docs]
  have "rows_sales (categoryRows J docs) = sum_list (map paper_sales docs)"
    using rows [OF assms(2), of "[]"] rows_sales_shown [of J docs] by (simp add: rows_sales_def)
  then show ?thesis unfolding total_sales rows_sales_def .
qed

section \<open>Reading a CSV file\<close>

text \<open>A reader after RFC 4180. Outside quotes, inside them, and behind the closing one.\<close>

datatype csv_mode = Bare | Quoted | Closed

fun csv_read :: "csv_mode \<Rightarrow> jstr \<Rightarrow> jstr list \<Rightarrow> jstr list list \<Rightarrow> jstr \<Rightarrow> jstr list list option" where
  "csv_read m cur fs rs [] = (if m = Bare \<and> cur = [] \<and> fs = [] then Some rs else None)"
| "csv_read Quoted cur fs rs (c # cs) =
     (if c \<noteq> js_quote then csv_read Quoted (cur @ [c]) fs rs cs
      else case cs of d # ds \<Rightarrow> if d = js_quote then csv_read Quoted (cur @ [js_quote]) fs rs ds else csv_read Closed cur fs rs cs | [] \<Rightarrow> None)"
| "csv_read m cur fs rs (c # cs) =
     (if c = js_comma then csv_read Bare [] (fs @ [cur]) rs cs
      else if c = js_cr then (case cs of d # ds \<Rightarrow> if d = js_lf then csv_read Bare [] [] (rs @ [fs @ [cur]]) ds else None | [] \<Rightarrow> None)
      else if m = Bare \<and> c = js_quote \<and> cur = [] then csv_read Quoted [] fs rs cs
      else if m = Bare \<and> c \<noteq> js_quote \<and> c \<noteq> js_lf then csv_read Bare (cur @ [c]) fs rs cs else None)"

definition harmless :: "jstr \<Rightarrow> bool" where
  "harmless s \<longleftrightarrow> (\<forall>c \<in> set s. c \<notin> {js_quote, js_comma, js_cr, js_lf})"

lemmas js_marks = js_comma_def js_quote_def js_cr_def js_lf_def

lemma read_bare: "harmless s \<Longrightarrow> csv_read Bare cur fs rs (s @ xs) = csv_read Bare (cur @ s) fs rs xs"
  by (induction s arbitrary: cur) (simp_all add: harmless_def)

lemma read_quoted:
  "csv_read Quoted cur fs rs (concat (map (\<lambda>c. if c = js_quote then [js_quote, js_quote] else [c]) s) @ xs) = csv_read Quoted (cur @ s) fs rs xs"
  by (induction s arbitrary: cur) simp_all

text \<open>A cell ends at a comma or at the end of its line.\<close>

definition ends_cell :: "jstr \<Rightarrow> bool" where
  "ends_cell xs \<longleftrightarrow> (\<exists>ys. xs = js_comma # ys \<or> xs = js_cr # js_lf # ys)"

lemma read_closed: "ends_cell xs \<Longrightarrow> csv_read Closed s fs rs xs = csv_read Bare s fs rs xs"
  by (auto simp: ends_cell_def js_marks)

lemma read_cell:
  assumes "ends_cell xs"
  shows "csv_read Bare [] fs rs (csv_quote s @ xs) = csv_read Bare s fs rs xs"
proof (cases "harmless s")
  case True
  then have "csv_quote s = s" by (auto simp: csv_quote_def harmless_def list_ex_iff)
  then show ?thesis using read_bare [OF True, of "[]"] by simp
next
  case False
  then have q: "csv_quote s = js_quote # concat (map (\<lambda>c. if c = js_quote then [js_quote, js_quote] else [c]) s) @ [js_quote]"
    by (auto simp: csv_quote_def harmless_def list_ex_iff)
  have "csv_read Quoted s fs rs (js_quote # xs) = csv_read Closed s fs rs xs"
    using assms by (auto simp: ends_cell_def js_marks)
  then show ?thesis using q read_quoted [of "[]" fs rs s "js_quote # xs"] read_closed [OF assms] by (simp add: js_marks)
qed

text \<open>What a cell holds.\<close>

definition cell_content :: "printing \<Rightarrow> csv_cell \<Rightarrow> jstr" where
  "cell_content pr v = (case v of
       Cell_null \<Rightarrow> []
     | Cell_num None \<Rightarrow> []
     | Cell_num (Some n) \<Rightarrow> pr_number pr n
     | Cell_bool b \<Rightarrow> if b then js ''true'' else js ''false''
     | Cell_date t \<Rightarrow> neutral (pr_iso pr t)
     | Cell_text s \<Rightarrow> neutral s)"

definition prints_plainly :: "printing \<Rightarrow> bool" where
  "prints_plainly pr \<longleftrightarrow> (\<forall>n. harmless (pr_number pr n))"

lemma read_any_cell:
  assumes "prints_plainly pr" "ends_cell xs"
  shows "csv_read Bare [] fs rs (csv_cell_text pr v @ xs) = csv_read Bare (cell_content pr v) fs rs xs"
proof -
  have h: "harmless s \<Longrightarrow> csv_read Bare [] fs rs (s @ xs) = csv_read Bare s fs rs xs" for s using read_bare [of s "[]"] by simp
  have "harmless (js ''true'')" "harmless (js ''false'')" by (simp_all add: js_def harmless_def js_marks)
  moreover have "harmless (pr_number pr n)" for n using assms(1) by (simp add: prints_plainly_def)
  ultimately show ?thesis
    using h read_cell [OF assms(2)] by (cases v) (auto simp: csv_cell_text_def cell_content_def split: option.split)
qed

lemma read_cells:
  assumes "prints_plainly pr"
  shows "csv_read Bare [] fs rs (join_cells (map (csv_cell_text pr) (v # vs)) @ js_cr # js_lf # xs) =
    csv_read Bare [] [] (rs @ [fs @ map (cell_content pr) (v # vs)]) xs"
proof (induction vs arbitrary: v fs)
  case Nil
  have "ends_cell (js_cr # js_lf # xs)" unfolding ends_cell_def by blast
  from read_any_cell [OF assms this, of fs rs v] show ?case by (simp add: join_cells_def js_marks)
next
  case (Cons w vs)
  let ?rest = "join_cells (map (csv_cell_text pr) (w # vs)) @ js_cr # js_lf # xs"
  have "join_cells (map (csv_cell_text pr) (v # w # vs)) @ js_cr # js_lf # xs = csv_cell_text pr v @ js_comma # ?rest"
    by (simp add: join_cells_def)
  moreover have "ends_cell (js_comma # ?rest)" unfolding ends_cell_def by blast
  ultimately show ?case using read_any_cell [OF assms, of "js_comma # ?rest" fs rs v] Cons [of "fs @ [cell_content pr v]" w] by simp
qed

lemma read_rows:
  assumes "prints_plainly pr" "\<forall>r \<in> set rows. r \<noteq> []"
  shows "csv_read Bare [] [] rs (concat (map (\<lambda>r. join_cells (map (csv_cell_text pr) r) @ [js_cr, js_lf]) rows)) = Some (rs @ map (map (cell_content pr)) rows)"
  using assms(2)
proof (induction rows arbitrary: rs)
  case (Cons r rows)
  then obtain v vs where r: "r = v # vs" by (cases r) auto
  then show ?case using read_cells [OF assms(1), of "[]" rs v vs] Cons by simp
qed simp

lemma neutral_start: "neutral s = c # cs \<Longrightarrow> c \<notin> {61, 43, 45, 64, 9, 13}"
  by (cases s) (auto simp: neutral_def split: if_splits)

text \<open>
  C17. An export reads back as written. A reader after RFC 4180 gets from the file, behind the mark of the byte
  order, the headers and the cells, whatever commas, quotes and line ends they hold; and no text a spreadsheet
  reads starts like a formula.
\<close>

theorem csv_reads_back:
  assumes "prints_plainly pr" "headers \<noteq> []" "\<forall>r \<in> set rows. r \<noteq> []"
  shows "csv_read Bare [] [] [] (tl (toCsv pr headers rows)) = Some (map neutral headers # map (map (cell_content pr)) rows) \<and>
    (\<forall>s c cs. cell_content pr (Cell_text s) = c # cs \<longrightarrow> c \<notin> {61, 43, 45, 64, 9, 13})"
proof -
  have "\<forall>r \<in> set (map Cell_text headers # rows). r \<noteq> []" using assms(2,3) by simp
  from read_rows [OF assms(1) this, of "[]"]
  have "csv_read Bare [] [] [] (tl (toCsv pr headers rows)) = Some (map (map (cell_content pr)) (map Cell_text headers # rows))"
    by (simp only: toCsv_def list.sel append_Nil)
  moreover have "map (cell_content pr) (map Cell_text headers) = map neutral headers" by (simp add: cell_content_def)
  moreover have "\<forall>s c cs. cell_content pr (Cell_text s) = c # cs \<longrightarrow> c \<notin> {61, 43, 45, 64, 9, 13}"
    unfolding cell_content_def csv_cell.case using neutral_start by blast
  ultimately show ?thesis by simp
qed

section \<open>Instances\<close>

definition sample_bill :: document where
  "sample_bill = \<lparr>fd_id = ''b'', fd_docNo = ''INV-1'', fd_kind = INVOICE, fd_orderId = ''o1'',
     fd_lines = [\<lparr>dl_kind = PRODUCT, dl_id = ''p'', dl_qty = 1, dl_unitPrice = 100, dl_unitCost = Some 70, dl_discount = 0, dl_lineTotal = 100,
       dl_components = None\<rparr>],
     fd_subtotal = 100, fd_couponCode = None, fd_discount = 0, fd_shippingFee = 20, fd_shippingCost = 60, fd_gatewayFee = 2, fd_taxTotal = 0,
     fd_total = 120, fd_reason = None, fd_courierLoss = None, fd_reverseCourier = False, fd_creditsDocId = None, fd_issuedAt = 5\<rparr>"


definition sample_paper :: pnl_doc where
  "sample_paper = \<lparr>pnd_kind = INVOICE,
     pnd_lines = [\<lparr>pnl_kind = BUNDLE, pnl_categoryName = None, pnl_qty = 1, pnl_unitPrice = 100, pnl_unitCost = Some 60,
         pnl_components = Some [\<lparr>pnc_categoryName = None, pnc_qty = 1, pnc_unitCost = Some 30, pnc_allocatedRevenue = 60\<rparr>,
           \<lparr>pnc_categoryName = None, pnc_qty = 1, pnc_unitCost = Some 30, pnc_allocatedRevenue = 30\<rparr>]\<rparr>],
     pnd_discount = 0, pnd_shippingFee = 0, pnd_shippingCost = 0, pnd_gatewayFee = 0, pnd_courierLoss = None, pnd_reverseCourier = False\<rparr>"

theorem categories_add_up_witness:
  "(\<Sum>(c, r)\<leftarrow>categoryRows decimal20 [sample_paper]. row_sales r) = 100"
proof -
  have "\<forall>d \<in> set [sample_paper]. \<forall>l \<in> set (pnd_lines d). sound_line l" by (simp add: sample_paper_def sound_line_def)
  from categories_add_up [OF decimal20.decimal_laws_axioms this]
  show ?thesis by (simp add: sample_paper_def costed_def pnlFor_sum pnl_paper_zero lineMoney_sum)
qed

definition plain_printing :: printing where
  "plain_printing = \<lparr>pr_number = (\<lambda>n. js ''5''), pr_iso = (\<lambda>t. js ''1970-01-01T00:00:00.000Z'')\<rparr>"

theorem csv_reads_back_witness:
  "csv_read Bare [] [] [] (tl (toCsv plain_printing [js ''a'', js ''b''] [[Cell_text (js ''=1,2''), Cell_num (Some 5)]])) =
     Some [[js ''a'', js ''b''], [39 # js ''=1,2'', js ''5'']]"
proof -
  have "prints_plainly plain_printing" by (simp add: prints_plainly_def plain_printing_def js_def harmless_def js_marks)
  from csv_reads_back [OF this, of "[js ''a'', js ''b'']" "[[Cell_text (js ''=1,2''), Cell_num (Some 5)]]"]
  show ?thesis by (simp add: cell_content_def neutral_def js_def plain_printing_def)
qed

lemma missing_day_breaks_report:
  "resolveRange 0 \<lparr>rpq_period = Some (Period_tenure Tenure_day), rpq_date = Some ''2026-02-31'', rpq_from = None, rpq_to = None\<rparr> =
     Inl (DomainError ''RangeError'' 500)"
  by code_simp

end
