(* ===== verification/Cart.thy ===== *)
theory Cart
  imports Placement
begin

text \<open>
  The cart: \<open>modules/orders/cart/application/cart.service.ts\<close>. A logged-in customer owns one, a guest holds
  the token of one; every answer is priced afresh. The writes are not one transaction with the view that
  follows them, so an operation returns its answer beside the state. A new token is an argument.
\<close>

section \<open>Whose cart\<close>

definition GUEST_TTL_DAYS :: int where "GUEST_TTL_DAYS = 30"

definition token_char :: "char \<Rightarrow> bool" where
  "token_char c \<longleftrightarrow> (CHR ''A'' \<le> c \<and> c \<le> CHR ''Z'') \<or> (CHR ''a'' \<le> c \<and> c \<le> CHR ''z'') \<or> (CHR ''0'' \<le> c \<and> c \<le> CHR ''9'') \<or> c \<in> set ''_-''"

definition cart_owner_of :: "auth_user option \<Rightarrow> string option \<Rightarrow> cart_owner option" where
  "cart_owner_of user tok =
     (case (case user of None \<Rightarrow> None | Some u \<Rightarrow> au_customerId u) of
        Some c \<Rightarrow> Some \<lparr>cw_customerId = Some c, cw_token = None\<rparr>
      | None \<Rightarrow>
          (case tok of
             None \<Rightarrow> None
           | Some t \<Rightarrow> if list_all token_char t \<and> 16 \<le> length t \<and> length t \<le> 64 then Some \<lparr>cw_customerId = None, cw_token = Some t\<rparr> else None))"

text \<open>\<open>CART_INCLUDE\<close>: the items in the order they were added.\<close>

definition cart_lines :: "cart_row \<Rightarrow> cart_item list" where
  "cart_lines c = sort_key ci_addedAt (cart_items c)"

text \<open>The latest cart of a customer; the cart of a token unless it has expired or belongs to a customer.\<close>

definition find_cart :: "cart_owner \<Rightarrow> 'a front_scheme \<Rightarrow> cart_row option" where
  "find_cart ow s =
     (case cw_customerId ow of
        Some i \<Rightarrow> (case sort_key (\<lambda>c. - cart_updatedAt c) (filter (\<lambda>c. cart_customerId c = Some i) (fr_carts s)) of [] \<Rightarrow> None | c # _ \<Rightarrow> Some c)
      | None \<Rightarrow> find (\<lambda>c. cart_guestToken c = cw_token ow \<and> cart_customerId c = None \<and>
          (case cart_expiresAt c of None \<Rightarrow> True | Some t \<Rightarrow> t > st_now s)) (fr_carts s))"

definition owned_cart :: "cart_owner option \<Rightarrow> 'a front_scheme \<Rightarrow> cart_row option" where
  "owned_cart ow s = (case ow of None \<Rightarrow> None | Some x \<Rightarrow> find_cart x s)"

definition requireCart :: "cart_owner option \<Rightarrow> 'a front_scheme \<Rightarrow> cart_row result" where
  "requireCart ow s = (case owned_cart ow s of None \<Rightarrow> Inl (NotFoundError ''Cart'' '''') | Some c \<Rightarrow> Inr c)"

definition cart_expiry :: "'a front_scheme \<Rightarrow> time" where
  "cart_expiry s = st_now s + GUEST_TTL_DAYS * 86400000"

definition put_cart :: "id \<Rightarrow> (cart_row \<Rightarrow> cart_row) \<Rightarrow> 'a front_scheme \<Rightarrow> 'a front_scheme" where
  "put_cart i f s = s\<lparr>fr_carts := map (\<lambda>c. if cart_id c = i then f c else c) (fr_carts s)\<rparr>"

text \<open>A new cart; the token of a guest is unique.\<close>

definition create_cart :: "id option \<Rightarrow> string option \<Rightarrow> 'a front_scheme \<Rightarrow> (cart_row \<times> 'a front_scheme) result" where
  "create_cart customerId tok s =
     (let (i, s) = fresh_id s;
          c = \<lparr>cart_id = i, cart_customerId = customerId, cart_guestToken = tok, cart_couponCode = None, cart_items = [],
               cart_updatedAt = st_now s, cart_expiresAt = (if tok = None then None else Some (cart_expiry s))\<rparr>
      in if tok \<noteq> None \<and> list_ex (\<lambda>x. cart_guestToken x = tok) (fr_carts s) then Inl (DomainError ''P2002'' 500)
         else Inr (c, s\<lparr>fr_carts := fr_carts s @ [c]\<rparr>))"

definition ensure_cart :: "cart_owner option \<Rightarrow> string \<Rightarrow> 'a front_scheme \<Rightarrow> (cart_row \<times> 'a front_scheme) result" where
  "ensure_cart ow newToken s =
     (case owned_cart ow s of
        Some c \<Rightarrow> Inr (c, s)
      | None \<Rightarrow>
          (case (case ow of None \<Rightarrow> None | Some x \<Rightarrow> cw_customerId x) of
             Some i \<Rightarrow> create_cart (Some i) None s
           | None \<Rightarrow> create_cart None (Some newToken) s))"

section \<open>What the shopper sees\<close>

definition toRefs :: "cart_row \<Rightarrow> line_ref list" where
  "toRefs c = map (\<lambda>i. \<lparr>lr_kind = (if truthy (ci_productId i) then PRODUCT else BUNDLE), lr_productId = ci_productId i,
     lr_bundleId = ci_bundleId i, lr_quantity = ci_quantity i\<rparr>) (cart_lines c)"

text \<open>\<open>district\<close> is an id when it consists of digits, else a name.\<close>

definition district_of :: "jstr option \<Rightarrow> district_ref option" where
  "district_of d =
     (case d of
        None \<Rightarrow> None
      | Some x \<Rightarrow>
          if x = [] then None
          else if list_all (\<lambda>c. 48 \<le> c \<and> c \<le> 57) x then Some \<lparr>dr_id = Some (foldl (\<lambda>n c. n * 10 + (int c - 48)) 0 x), dr_name = None\<rparr>
          else Some \<lparr>dr_id = None, dr_name = Some x\<rparr>)"

record cart_view_item =
  vi_item :: cart_item
  vi_available :: bool
  vi_stockOk :: bool
  vi_maxAvailable :: "int option"
  vi_line :: "quoted_line option"

record cart_view =
  vw_id :: "id option"
  vw_token :: "string option"
  vw_couponCode :: "string option"
  vw_count :: int
  vw_items :: "cart_view_item list"
  vw_quote :: "quote option"

definition stock_issue :: "shortfall list \<Rightarrow> quoted_line \<Rightarrow> shortfall option" where
  "stock_issue short l =
     find (\<lambda>x. True) (concat (map (\<lambda>p. case p of None \<Rightarrow> [] | Some i \<Rightarrow> (case map_of (rev (map (\<lambda>x. (sf_productId x, x)) short)) i of
         None \<Rightarrow> [] | Some x \<Rightarrow> [x])) (ql_productId l # map (\<lambda>c. Some (qc_productId c)) (ql_components l))))"

definition view_item :: "priced_quote \<Rightarrow> cart_item \<Rightarrow> cart_view_item" where
  "view_item priced i =
     (let product = truthy (ci_productId i);
          line = find (\<lambda>l. if product then ql_productId l = ci_productId i else ql_bundleId l = ci_bundleId i) (q_lines (pq_quote priced));
          issue = (case line of None \<Rightarrow> None | Some l \<Rightarrow> stock_issue (pq_shortfalls priced) l)
      in \<lparr>vi_item = i,
          vi_available = (\<not> list_ex (\<lambda>u. ua_kind u = (if product then PRODUCT else BUNDLE) \<and>
            ua_id u = str_of (if product then ci_productId i else ci_bundleId i)) (pq_unavailable priced)),
          vi_stockOk = (issue = None), vi_maxAvailable = map_option sf_available issue, vi_line = line\<rparr>)"

definition cart_view_of :: "decimal_js \<Rightarrow> cart_row option \<Rightarrow> jstr option \<Rightarrow> 'a front_scheme \<Rightarrow> cart_view result" where
  "cart_view_of J cart district s =
     (case cart of
        None \<Rightarrow> Inr \<lparr>vw_id = None, vw_token = None, vw_couponCode = None, vw_count = 0, vw_items = [], vw_quote = None\<rparr>
      | Some c \<Rightarrow>
          if cart_lines c = []
          then Inr \<lparr>vw_id = Some (cart_id c), vw_token = cart_guestToken c, vw_couponCode = cart_couponCode c, vw_count = 0, vw_items = [], vw_quote = None\<rparr>
          else ebind (pricing_quote J \<lparr>qr_lines = toRefs c, qr_couponCode = cart_couponCode c, qr_district = district_of district,
                   qr_customerId = None, qr_phone = None, qr_now = st_now s, qr_strict = False\<rparr> s)
                 (\<lambda>priced. Inr \<lparr>vw_id = Some (cart_id c), vw_token = cart_guestToken c, vw_couponCode = cart_couponCode c,
                    vw_count = foldl (\<lambda>n i. n + ci_quantity i) 0 (cart_lines c), vw_items = map (view_item priced) (cart_lines c),
                    vw_quote = Some (pq_quote priced)\<rparr>))"

definition get_cart :: "decimal_js \<Rightarrow> cart_owner option \<Rightarrow> jstr option \<Rightarrow> 'a front_scheme \<Rightarrow> cart_view result" where
  "get_cart J ow district s = cart_view_of J (owned_cart ow s) district s"

text \<open>Using a cart of a guest keeps it alive.\<close>

definition touchAndView :: "decimal_js \<Rightarrow> id \<Rightarrow> 'a front_scheme \<Rightarrow> cart_view result \<times> 'a front_scheme" where
  "touchAndView J i s =
     (let s = put_cart i (\<lambda>c. c\<lparr>cart_updatedAt := st_now s, cart_expiresAt := (if truthy (cart_guestToken c) then Some (cart_expiry s) else cart_expiresAt c)\<rparr>) s
      in (case find (\<lambda>c. cart_id c = i) (fr_carts s) of
            None \<Rightarrow> Inl (DomainError ''P2025'' 500)
          | Some c \<Rightarrow> cart_view_of J (Some c) None s, s))"

section \<open>The commands\<close>

record add_cart_dto =
  ad_kind :: item_kind
  ad_productId :: "id option"
  ad_bundleId :: "id option"
  ad_quantity :: "int option"

definition on_target :: "item_kind \<Rightarrow> id \<Rightarrow> cart_item \<Rightarrow> bool" where
  "on_target kind i it \<longleftrightarrow> (if kind = PRODUCT then ci_productId it = Some i else ci_bundleId it = Some i)"

definition put_item :: "id \<Rightarrow> (cart_item \<Rightarrow> cart_item) \<Rightarrow> cart_row \<Rightarrow> cart_row" where
  "put_item i f c = c\<lparr>cart_items := map (\<lambda>x. if ci_id x = i then f x else x) (cart_items c)\<rparr>"

definition add_to_cart :: "decimal_js \<Rightarrow> cart_owner option \<Rightarrow> add_cart_dto \<Rightarrow> string \<Rightarrow> 'a front_scheme \<Rightarrow> cart_view result \<times> 'a front_scheme" where
  "add_to_cart J ow dto newToken s =
     (let target = (if ad_kind dto = PRODUCT then ad_productId dto else ad_bundleId dto)
      in if \<not> truthy target then (Inl (BusinessRuleError ''cart.line_invalid''), s)
         else
           let i = the target;
               qty = (case ad_quantity dto of None \<Rightarrow> 1 | Some q \<Rightarrow> q);
               (inputs, unavailable) = loadLines [\<lparr>lr_kind = ad_kind dto, lr_productId = ad_productId dto, lr_bundleId = ad_bundleId dto,
                 lr_quantity = qty\<rparr>] (st_now s) s
           in if unavailable \<noteq> [] then (Inl (BusinessRuleError ''cart.item_unavailable''), s)
              else (case ensure_cart ow newToken s of
                  Inl e \<Rightarrow> (Inl e, s)
                | Inr (cart, s) \<Rightarrow>
                    (case find (on_target (ad_kind dto) i) (cart_lines cart) of
                       Some x \<Rightarrow> touchAndView J (cart_id cart)
                         (put_cart (cart_id cart) (put_item (ci_id x) (\<lambda>y. y\<lparr>ci_quantity := min 99 (ci_quantity x + qty)\<rparr>)) s)
                     | None \<Rightarrow>
                         if length (cart_lines cart) \<ge> 50 then (Inl (BusinessRuleError ''cart.full''), s)
                         else
                           let (n, s) = fresh_id s
                           in touchAndView J (cart_id cart) (put_cart (cart_id cart) (\<lambda>c. c\<lparr>cart_items := cart_items c @
                                [\<lparr>ci_id = n, ci_productId = (if ad_kind dto = PRODUCT then Some i else None),
                                  ci_bundleId = (if ad_kind dto = BUNDLE then Some i else None), ci_quantity = qty, ci_addedAt = st_now s\<rparr>]\<rparr>) s))))"

definition setQuantity :: "decimal_js \<Rightarrow> cart_owner option \<Rightarrow> id \<Rightarrow> int \<Rightarrow> 'a front_scheme \<Rightarrow> cart_view result \<times> 'a front_scheme" where
  "setQuantity J ow itemId quantity s =
     (case requireCart ow s of
        Inl e \<Rightarrow> (Inl e, s)
      | Inr cart \<Rightarrow>
          if \<not> list_ex (\<lambda>i. ci_id i = itemId) (cart_lines cart) then (Inl (NotFoundError ''CartItem'' itemId), s)
          else touchAndView J (cart_id cart) (put_cart (cart_id cart)
                 (if quantity = 0 then (\<lambda>c. c\<lparr>cart_items := filter (\<lambda>i. ci_id i \<noteq> itemId) (cart_items c)\<rparr>)
                  else put_item itemId (\<lambda>i. i\<lparr>ci_quantity := quantity\<rparr>)) s))"

definition remove_from_cart :: "decimal_js \<Rightarrow> cart_owner option \<Rightarrow> id \<Rightarrow> 'a front_scheme \<Rightarrow> cart_view result \<times> 'a front_scheme" where
  "remove_from_cart J ow itemId s = setQuantity J ow itemId 0 s"

definition clear_cart :: "decimal_js \<Rightarrow> cart_owner option \<Rightarrow> 'a front_scheme \<Rightarrow> cart_view result \<times> 'a front_scheme" where
  "clear_cart J ow s =
     (case owned_cart ow s of
        None \<Rightarrow> (cart_view_of J None None s, s)
      | Some cart \<Rightarrow> touchAndView J (cart_id cart) (put_cart (cart_id cart) (\<lambda>c. c\<lparr>cart_items := [], cart_couponCode := None\<rparr>) s))"

definition applyCoupon :: "decimal_js \<Rightarrow> cart_owner option \<Rightarrow> string \<Rightarrow> 'a front_scheme \<Rightarrow> cart_view result \<times> 'a front_scheme" where
  "applyCoupon J ow code s =
     (case requireCart ow s of
        Inl e \<Rightarrow> (Inl e, s)
      | Inr cart \<Rightarrow>
          if cart_lines cart = [] then (Inl (BusinessRuleError ''cart.empty''), s)
          else (case pricing_quote J \<lparr>qr_lines = toRefs cart, qr_couponCode = Some code, qr_district = None,
                  qr_customerId = (case ow of None \<Rightarrow> None | Some x \<Rightarrow> cw_customerId x), qr_phone = None, qr_now = st_now s, qr_strict = False\<rparr> s of
              Inl e \<Rightarrow> (Inl e, s)
            | Inr priced \<Rightarrow>
                (case q_couponRejection (pq_quote priced) of
                   Some r \<Rightarrow> (Inl (BusinessRuleError r), s)
                 | None \<Rightarrow> touchAndView J (cart_id cart) (put_cart (cart_id cart) (\<lambda>c. c\<lparr>cart_couponCode := Some
                     (case q_coupon (pq_quote priced) of Some k \<Rightarrow> qk_code k | None \<Rightarrow> map upper_char (js_trim code))\<rparr>) s))))"

definition removeCoupon :: "decimal_js \<Rightarrow> cart_owner option \<Rightarrow> 'a front_scheme \<Rightarrow> cart_view result \<times> 'a front_scheme" where
  "removeCoupon J ow s =
     (case requireCart ow s of
        Inl e \<Rightarrow> (Inl e, s)
      | Inr cart \<Rightarrow> touchAndView J (cart_id cart) (put_cart (cart_id cart) (\<lambda>c. c\<lparr>cart_couponCode := None\<rparr>) s))"

section \<open>After signing in\<close>

text \<open>\<open>mine\<close> is read once: the lookup of a line does not see what the loop wrote.\<close>

definition merge_item :: "cart_row \<Rightarrow> cart_item \<Rightarrow> 'a front_scheme \<Rightarrow> 'a front_scheme" where
  "merge_item mine g s =
     (case find (\<lambda>m. if truthy (ci_productId g) then ci_productId m = ci_productId g else ci_bundleId m = ci_bundleId g) (cart_lines mine) of
        Some x \<Rightarrow> put_cart (cart_id mine) (put_item (ci_id x) (\<lambda>y. y\<lparr>ci_quantity := min 99 (ci_quantity x + ci_quantity g)\<rparr>)) s
      | None \<Rightarrow>
          let (n, s) = fresh_id s
          in put_cart (cart_id mine) (\<lambda>c. c\<lparr>cart_items := cart_items c @ [g\<lparr>ci_id := n\<rparr>]\<rparr>) s)"

definition merge_tx :: "id \<Rightarrow> string \<Rightarrow> 'a front_scheme \<Rightarrow> (id option \<times> 'a front_scheme) result" where
  "merge_tx customerId guestToken s =
     (let mine = (case sort_key (\<lambda>c. - cart_updatedAt c) (filter (\<lambda>c. cart_customerId c = Some customerId \<and> cart_guestToken c = None) (fr_carts s)) of
            [] \<Rightarrow> None | c # _ \<Rightarrow> Some c)
      in case find (\<lambda>c. cart_guestToken c = Some guestToken) (fr_carts s) of
           None \<Rightarrow> Inr (map_option cart_id mine, s)
         | Some guest \<Rightarrow>
             if cart_customerId guest = Some customerId then Inr (map_option cart_id mine, s)
             else ebind (case mine of Some m \<Rightarrow> Inr (m, s) | None \<Rightarrow> create_cart (Some customerId) None s) (\<lambda>(mine, s).
                  let s = foldl (\<lambda>s g. merge_item mine g s) s (cart_lines guest);
                      s = (if \<not> truthy (cart_couponCode mine) \<and> truthy (cart_couponCode guest)
                           then put_cart (cart_id mine) (\<lambda>c. c\<lparr>cart_couponCode := cart_couponCode guest\<rparr>) s else s)
                  in Inr (Some (cart_id mine), s\<lparr>fr_carts := filter (\<lambda>c. cart_id c \<noteq> cart_id guest) (fr_carts s)\<rparr>)))"

definition merge_carts :: "decimal_js \<Rightarrow> id \<Rightarrow> string \<Rightarrow> 'a front_scheme \<Rightarrow> cart_view result \<times> 'a front_scheme" where
  "merge_carts J customerId guestToken s =
     (case merge_tx customerId guestToken s of
        Inl e \<Rightarrow> (Inl e, s)
      | Inr (None, s) \<Rightarrow> (cart_view_of J None None s, s)
      | Inr (Some i, s) \<Rightarrow> touchAndView J i s)"

definition purgeExpiredGuestCarts :: "'a front_scheme \<Rightarrow> 'a front_scheme" where
  "purgeExpiredGuestCarts s =
     s\<lparr>fr_carts := filter (\<lambda>c. \<not> (cart_customerId c = None \<and> (case cart_expiresAt c of None \<Rightarrow> False | Some t \<Rightarrow> t < st_now s))) (fr_carts s)\<rparr>"

end
