(* ===== verification/Cart_Properties.thy ===== *)
theory Cart_Properties
  imports Cart
begin

text \<open>
  A cart behaves like a map from products and packages to quantities. Every command keeps it within what
  the tables allow, it can always be priced, and signing in adds the guest's cart to the customer's.
\<close>

section \<open>Well-formed carts\<close>

text \<open>\<open>cart_items_one_target\<close>, \<open>cart_items_qty_pos\<close> and the two unique indexes; ids are not empty.\<close>

definition item_ok :: "cart_item \<Rightarrow> bool" where
  "item_ok x \<longleftrightarrow> 1 \<le> ci_quantity x \<and> ci_quantity x \<le> 99 \<and>
     (\<exists>i. i \<noteq> '''' \<and> (ci_productId x = Some i \<and> ci_bundleId x = None \<or> ci_productId x = None \<and> ci_bundleId x = Some i))"

definition item_target :: "cart_item \<Rightarrow> item_kind \<times> id" where
  "item_target x = (case ci_productId x of Some p \<Rightarrow> (PRODUCT, p) | None \<Rightarrow> (BUNDLE, str_of (ci_bundleId x)))"

definition items_ok :: "cart_item list \<Rightarrow> bool" where
  "items_ok xs \<longleftrightarrow> distinct (map ci_id xs) \<and> distinct (map item_target xs) \<and> (\<forall>x \<in> set xs. item_ok x)"

definition issued_ids :: "'a till_scheme \<Rightarrow> id set" where
  "issued_ids s = tl_uuid s ` {..<tl_issued s}"

definition row_ok :: "id set \<Rightarrow> cart_row \<Rightarrow> bool" where
  "row_ok ids c \<longleftrightarrow> items_ok (cart_items c) \<and> cart_id c \<in> ids \<and> ci_id ` set (cart_items c) \<subseteq> ids \<and>
     (cart_customerId c \<noteq> None \<or> cart_guestToken c \<noteq> None)"

definition guest_tokens :: "cart_row list \<Rightarrow> string list" where
  "guest_tokens cs = concat (map (\<lambda>c. case cart_guestToken c of None \<Rightarrow> [] | Some t \<Rightarrow> [t]) cs)"

definition carts_ok :: "'a front_scheme \<Rightarrow> bool" where
  "carts_ok s \<longleftrightarrow> inj (tl_uuid s) \<and> distinct (map cart_id (fr_carts s)) \<and> distinct (guest_tokens (fr_carts s)) \<and>
     (\<forall>c \<in> set (fr_carts s). row_ok (issued_ids s) c)"

text \<open>The abstract view: how many of what.\<close>

definition basket :: "cart_row \<Rightarrow> (item_kind \<times> id) \<rightharpoonup> int" where
  "basket c = map_of (map (\<lambda>x. (item_target x, ci_quantity x)) (cart_items c))"

definition basket_of :: "id \<Rightarrow> 'a front_scheme \<Rightarrow> (item_kind \<times> id) \<rightharpoonup> int" where
  "basket_of i s = (case find (\<lambda>c. cart_id c = i) (fr_carts s) of None \<Rightarrow> Map.empty | Some c \<Rightarrow> basket c)"

section \<open>Lines\<close>

lemma cart_lines_set [simp]: "set (cart_lines c) = set (cart_items c)"
  by (simp add: cart_lines_def)

lemma target_iff: "item_ok x \<Longrightarrow> on_target k i x \<longleftrightarrow> item_target x = (k, i)"
  by (cases k) (auto simp: item_ok_def on_target_def item_target_def str_of_def split: option.splits)

lemma item_target_update [simp]: "item_target (x\<lparr>ci_quantity := q\<rparr>) = item_target x" "item_target (x\<lparr>ci_id := n\<rparr>) = item_target x"
  by (simp_all add: item_target_def split: option.split)

lemma merge_target_iff:
  assumes "item_ok g" "item_ok m"
  shows "(if truthy (ci_productId g) then ci_productId m = ci_productId g else ci_bundleId m = ci_bundleId g) \<longleftrightarrow> item_target m = item_target g"
  using assms by (auto simp: item_ok_def item_target_def truthy_def str_of_def split: option.splits)

lemma basket_mem: "items_ok (cart_items c) \<Longrightarrow> x \<in> set (cart_items c) \<Longrightarrow> basket c (item_target x) = Some (ci_quantity x)"
  unfolding basket_def by (rule map_of_is_SomeI) (auto simp: items_ok_def comp_def)

lemma basket_None: "basket c t = None \<longleftrightarrow> t \<notin> item_target ` set (cart_items c)"
  by (auto simp: basket_def map_of_eq_None_iff image_image)

lemma basket_Some:
  assumes "items_ok (cart_items c)" "basket c t = Some q"
  obtains x where "x \<in> set (cart_items c)" "item_target x = t" "ci_quantity x = q"
  using map_of_SomeD [OF assms(2) [unfolded basket_def]] by auto

lemma basket_eqI:
  assumes "\<And>x. x \<in> set (cart_items c) \<Longrightarrow> m (item_target x) = Some (ci_quantity x)" "\<And>t. t \<notin> item_target ` set (cart_items c) \<Longrightarrow> m t = None"
    "items_ok (cart_items c)"
  shows "basket c = m"
proof
  fix t
  show "basket c t = m t"
  proof (cases "basket c t")
    case None
    then show ?thesis using assms(2) by (simp add: basket_None)
  next
    case (Some q)
    then show ?thesis using basket_Some [OF assms(3) Some] assms(1) by metis
  qed
qed

lemma find_target:
  assumes "items_ok (cart_items c)" "\<And>m. item_ok m \<Longrightarrow> P m \<longleftrightarrow> item_target m = t"
  shows "(\<exists>x. find P (cart_lines c) = Some x \<and> x \<in> set (cart_items c) \<and> item_target x = t) \<or> (find P (cart_lines c) = None \<and> basket c t = None)"
proof (cases "find P (cart_lines c)")
  case None
  then show ?thesis using assms by (auto simp: find_None_iff basket_None items_ok_def)
next
  case (Some x)
  from find_SomeD [OF Some] have "x \<in> set (cart_items c)" "P x" by simp_all
  then show ?thesis using Some assms by (auto simp: items_ok_def)
qed

text \<open>The three ways a row changes.\<close>

lemma put_item_ok:
  assumes "items_ok (cart_items c)" "x \<in> set (cart_items c)" "1 \<le> q" "q \<le> 99"
  shows "items_ok (cart_items (put_item (ci_id x) (\<lambda>y. y\<lparr>ci_quantity := q\<rparr>) c))"
    and "basket (put_item (ci_id x) (\<lambda>y. y\<lparr>ci_quantity := q\<rparr>) c) = (basket c)(item_target x \<mapsto> q)"
    and "ci_id ` set (cart_items (put_item (ci_id x) (\<lambda>y. y\<lparr>ci_quantity := q\<rparr>) c)) = ci_id ` set (cart_items c)"
proof -
  let ?g = "\<lambda>y. if ci_id y = ci_id x then y\<lparr>ci_quantity := q\<rparr> else y"
  have t: "item_target \<circ> ?g = item_target" by (simp add: fun_eq_iff)
  have i: "ci_id \<circ> ?g = ci_id" by (auto simp: fun_eq_iff)
  have ok: "item_ok (y\<lparr>ci_quantity := q\<rparr>)" if "item_ok y" for y using that assms(3,4) by (simp add: item_ok_def)
  have eq: "cart_items (put_item (ci_id x) (\<lambda>y. y\<lparr>ci_quantity := q\<rparr>) c) = map ?g (cart_items c)" by (simp add: put_item_def)
  show o': "items_ok (cart_items (put_item (ci_id x) (\<lambda>y. y\<lparr>ci_quantity := q\<rparr>) c))"
    using assms(1) ok unfolding eq by (auto simp: items_ok_def t i)
  have one: "y = x" if "y \<in> set (cart_items c)" "ci_id y = ci_id x \<or> item_target y = item_target x" for y
    using that assms(1,2) by (auto simp: items_ok_def distinct_map dest: inj_onD)
  show "basket (put_item (ci_id x) (\<lambda>y. y\<lparr>ci_quantity := q\<rparr>) c) = (basket c)(item_target x \<mapsto> q)"
  proof (rule basket_eqI [OF _ _ o'])
    fix y
    assume "y \<in> set (cart_items (put_item (ci_id x) (\<lambda>y. y\<lparr>ci_quantity := q\<rparr>) c))"
    then obtain z where z: "z \<in> set (cart_items c)" "y = ?g z" unfolding eq by auto
    show "((basket c)(item_target x \<mapsto> q)) (item_target y) = Some (ci_quantity y)"
    proof (cases "z = x")
      case True
      then show ?thesis using z(2) by simp
    next
      case False
      then have "y = z" "item_target z \<noteq> item_target x" using z one by auto
      then show ?thesis using basket_mem [OF assms(1) z(1)] by simp
    qed
  next
    fix t
    assume "t \<notin> item_target ` set (cart_items (put_item (ci_id x) (\<lambda>y. y\<lparr>ci_quantity := q\<rparr>) c))"
    moreover have "item_target ` set (map ?g (cart_items c)) = item_target ` set (cart_items c)" unfolding set_map image_comp t ..
    ultimately have n: "t \<notin> item_target ` set (cart_items c)" unfolding eq by simp
    then have "t \<noteq> item_target x" using assms(2) by auto
    then show "((basket c)(item_target x \<mapsto> q)) t = None" using n by (simp add: basket_None)
  qed
  show "ci_id ` set (cart_items (put_item (ci_id x) (\<lambda>y. y\<lparr>ci_quantity := q\<rparr>) c)) = ci_id ` set (cart_items c)"
    unfolding eq set_map image_comp i ..
qed

lemma add_item_ok:
  assumes "items_ok (cart_items c)" "item_ok x" "basket c (item_target x) = None" "ci_id x \<notin> ci_id ` set (cart_items c)"
  shows "items_ok (cart_items c @ [x])" and "basket (c\<lparr>cart_items := cart_items c @ [x]\<rparr>) = (basket c)(item_target x \<mapsto> ci_quantity x)"
proof -
  show "items_ok (cart_items c @ [x])" using assms by (auto simp: items_ok_def basket_None)
  show "basket (c\<lparr>cart_items := cart_items c @ [x]\<rparr>) = (basket c)(item_target x \<mapsto> ci_quantity x)"
    using assms(3) by (auto simp: basket_def map_add_def fun_eq_iff split: option.split)
qed

lemma drop_item_ok:
  assumes "items_ok (cart_items c)" "x \<in> set (cart_items c)"
  shows "items_ok (filter (\<lambda>y. ci_id y \<noteq> ci_id x) (cart_items c))"
    and "basket (c\<lparr>cart_items := filter (\<lambda>y. ci_id y \<noteq> ci_id x) (cart_items c)\<rparr>) = (basket c)(item_target x := None)"
proof -
  let ?c = "c\<lparr>cart_items := filter (\<lambda>y. ci_id y \<noteq> ci_id x) (cart_items c)\<rparr>"
  show o': "items_ok (filter (\<lambda>y. ci_id y \<noteq> ci_id x) (cart_items c))"
    using assms(1) by (auto simp: items_ok_def distinct_map_filter)
  have one: "y = x" if "y \<in> set (cart_items c)" "ci_id y = ci_id x \<or> item_target y = item_target x" for y
    using that assms by (auto simp: items_ok_def distinct_map dest: inj_onD)
  show "basket ?c = (basket c)(item_target x := None)"
  proof (rule basket_eqI)
    fix y
    assume "y \<in> set (cart_items ?c)"
    then have "y \<in> set (cart_items c)" "item_target y \<noteq> item_target x" using one by auto
    then show "((basket c)(item_target x := None)) (item_target y) = Some (ci_quantity y)" using basket_mem [OF assms(1)] by simp
  next
    fix t
    assume "t \<notin> item_target ` set (cart_items ?c)"
    then have "t = item_target x \<or> t \<notin> item_target ` set (cart_items c)" using one by (auto simp: image_iff)
    then show "((basket c)(item_target x := None)) t = None" by (auto simp: basket_None)
  qed (use o' in simp)
qed

section \<open>The table of carts\<close>

lemma carts_sel [simp]:
  "tl_uuid (put_cart i f s) = tl_uuid s" "tl_issued (put_cart i f s) = tl_issued s" "issued_ids (put_cart i f s) = issued_ids s"
  "st_now (put_cart i f s) = st_now s"
  by (simp_all add: put_cart_def issued_ids_def)

definition same_cart :: "cart_row \<Rightarrow> cart_row \<Rightarrow> bool" where
  "same_cart c d \<longleftrightarrow> cart_id d = cart_id c \<and> cart_customerId d = cart_customerId c \<and> cart_guestToken d = cart_guestToken c"

lemma put_carts_ok:
  assumes "carts_ok s" "\<And>c. c \<in> set (fr_carts s) \<Longrightarrow> cart_id c = i \<Longrightarrow> same_cart c (f c) \<and> row_ok (issued_ids s) (f c)"
  shows "carts_ok (put_cart i f s)"
proof -
  let ?g = "\<lambda>c. if cart_id c = i then f c else c"
  have g: "cart_id (?g c) = cart_id c" "cart_guestToken (?g c) = cart_guestToken c" "row_ok (issued_ids s) (?g c)" if "c \<in> set (fr_carts s)" for c
    using that assms by (auto simp: carts_ok_def same_cart_def)
  have eq: "fr_carts (put_cart i f s) = map ?g (fr_carts s)" by (simp add: put_cart_def)
  have "map cart_id (map ?g (fr_carts s)) = map cart_id (fr_carts s)" using g(1) by simp
  moreover have "guest_tokens (map ?g (fr_carts s)) = guest_tokens (fr_carts s)"
    unfolding guest_tokens_def map_map by (rule arg_cong [where f = concat], rule map_cong) (use g(2) in auto)
  moreover have "\<forall>c \<in> set (map ?g (fr_carts s)). row_ok (issued_ids s) c" unfolding set_map using g(3) by blast
  ultimately show ?thesis using assms(1) unfolding carts_ok_def eq by (simp del: map_map set_map)
qed

lemma basket_of_put:
  assumes "\<And>c. cart_id (f c) = cart_id c"
  shows "basket_of j (put_cart i f s) = (if j = i then (case find (\<lambda>c. cart_id c = i) (fr_carts s) of None \<Rightarrow> Map.empty | Some c \<Rightarrow> basket (f c)) else basket_of j s)"
proof -
  let ?g = "\<lambda>c. if cart_id c = i then f c else c"
  have "find (\<lambda>c. cart_id c = j) (map ?g cs) = map_option ?g (find (\<lambda>c. cart_id c = j) cs)" for cs
    using assms by (induction cs) auto
  then show ?thesis
    by (cases "find (\<lambda>c. cart_id c = j) (fr_carts s)") (auto simp: basket_of_def put_cart_def dest: find_SomeD)
qed

lemma find_row:
  assumes "carts_ok s" "c \<in> set (fr_carts s)"
  shows "find (\<lambda>d. cart_id d = cart_id c) (fr_carts s) = Some c"
proof -
  have inj: "inj_on cart_id (set (fr_carts s))" using assms(1) by (simp add: carts_ok_def distinct_map)
  obtain q where q: "find (\<lambda>d. cart_id d = cart_id c) (fr_carts s) = Some q"
    using assms(2) by (cases "find (\<lambda>d. cart_id d = cart_id c) (fr_carts s)") (auto simp: find_None_iff)
  have "q = c" by (rule inj_onD [OF inj]) (use find_SomeD [OF q] assms(2) in auto)
  with q show ?thesis by simp
qed

lemma basket_of_row: "carts_ok s \<Longrightarrow> c \<in> set (fr_carts s) \<Longrightarrow> basket_of (cart_id c) s = basket c"
  by (simp add: basket_of_def find_row)

lemma fresh_issued:
  assumes "inj (tl_uuid s)" "fresh_id s = (n, s')"
  shows "n \<notin> issued_ids s" "issued_ids s' = insert n (issued_ids s)" "fr_carts s' = fr_carts s" "inj (tl_uuid s')" "st_now s' = st_now s"
    "tl_uuid s' = tl_uuid s"
  using assms by (auto simp: fresh_id_def issued_ids_def lessThan_Suc inj_eq)

lemma row_ok_mono: "row_ok ids c \<Longrightarrow> ids \<subseteq> ids' \<Longrightarrow> row_ok ids' c"
  by (auto simp: row_ok_def)

lemma fresh_carts_ok:
  assumes "carts_ok s" "fresh_id s = (n, s')"
  shows "carts_ok s'"
proof -
  have "inj (tl_uuid s)" using assms(1) by (simp add: carts_ok_def)
  note f = fresh_issued [OF this assms(2)]
  have "issued_ids s \<subseteq> issued_ids s'" using f(2) by auto
  then have "\<forall>c \<in> set (fr_carts s). row_ok (issued_ids s') c" using assms(1) row_ok_mono unfolding carts_ok_def by blast
  then show ?thesis using assms(1) f(3,4) by (simp add: carts_ok_def)
qed

lemma fresh_baskets: "fresh_id s = (n, s') \<Longrightarrow> basket_of i s' = basket_of i s"
  by (auto simp: fresh_id_def basket_of_def)

lemma drop_carts_ok:
  assumes "carts_ok s"
  shows "carts_ok (s\<lparr>fr_carts := filter P (fr_carts s)\<rparr>)"
proof -
  have t: "set (guest_tokens (filter P cs)) \<subseteq> set (guest_tokens cs)" for cs by (auto simp: guest_tokens_def)
  have "distinct (guest_tokens cs) \<Longrightarrow> distinct (guest_tokens (filter P cs))" for cs
  proof (induction cs)
    case (Cons c cs)
    then show ?case using t [of cs] by (auto simp: guest_tokens_def split: option.splits)
  qed (simp add: guest_tokens_def)
  then show ?thesis using assms by (auto simp: carts_ok_def issued_ids_def distinct_map_filter)
qed

lemma create_cart_ok:
  assumes "carts_ok s" "create_cart cid tok s = Inr (c, s')" "cid \<noteq> None \<or> tok \<noteq> None"
  shows "carts_ok s'" "c \<in> set (fr_carts s')" "cart_items c = []" "fr_carts s' = fr_carts s @ [c]" "cart_customerId c = cid" "cart_guestToken c = tok"
    "cart_couponCode c = None" "cart_id c \<notin> cart_id ` set (fr_carts s)"
proof -
  have inj: "inj (tl_uuid s)" using assms(1) by (simp add: carts_ok_def)
  obtain n t where n: "fresh_id s = (n, t)" by (cases "fresh_id s")
  note f = fresh_issued [OF inj n]
  have c: "c = \<lparr>cart_id = n, cart_customerId = cid, cart_guestToken = tok, cart_couponCode = None, cart_items = [],
      cart_updatedAt = st_now t, cart_expiresAt = (if tok = None then None else Some (cart_expiry t))\<rparr>"
    and s': "s' = t\<lparr>fr_carts := fr_carts t @ [c]\<rparr>" and u: "tok = None \<or> (\<forall>x \<in> set (fr_carts s). cart_guestToken x \<noteq> tok)"
    using assms(2) n f(3) by (auto simp: create_cart_def Let_def list_ex_iff split: if_splits)
  have r: "row_ok (issued_ids s') c" using assms(3) f(2) c s' by (auto simp: row_ok_def items_ok_def issued_ids_def)
  have new: "cart_id c \<notin> cart_id ` set (fr_carts s)" using assms(1) f(1) c by (auto simp: carts_ok_def row_ok_def)
  have "distinct (guest_tokens (fr_carts s @ [c]))"
    using assms(1) u c by (auto simp: carts_ok_def guest_tokens_def split: option.splits)
  then show "carts_ok s'"
    using fresh_carts_ok [OF assms(1) n] r new f(3) s' by (auto simp: carts_ok_def issued_ids_def)
  show "c \<in> set (fr_carts s')" "cart_items c = []" "fr_carts s' = fr_carts s @ [c]" "cart_customerId c = cid" "cart_guestToken c = tok"
    "cart_couponCode c = None" "cart_id c \<notin> cart_id ` set (fr_carts s)" using s' c f(3) new by auto
qed

section \<open>What a command does to the table\<close>

lemma touch_state:
  assumes "carts_ok s"
  shows "carts_ok (snd (touchAndView J i s))" "basket_of j (snd (touchAndView J i s)) = basket_of j s"
proof -
  let ?f = "\<lambda>c. c\<lparr>cart_updatedAt := st_now s, cart_expiresAt := (if truthy (cart_guestToken c) then Some (cart_expiry s) else cart_expiresAt c)\<rparr>"
  have e: "snd (touchAndView J i s) = put_cart i ?f s" by (simp add: touchAndView_def Let_def)
  show "carts_ok (snd (touchAndView J i s))"
    unfolding e using assms by (intro put_carts_ok) (auto simp: same_cart_def carts_ok_def row_ok_def)
  show "basket_of j (snd (touchAndView J i s)) = basket_of j s"
    unfolding e by (subst basket_of_put) (auto simp: basket_of_def basket_def split: option.split)
qed

text \<open>Setting the quantity of a line, and adding a line with a fresh id.\<close>

lemma put_line:
  assumes "carts_ok s" "c \<in> set (fr_carts s)" "x \<in> set (cart_items c)" "1 \<le> q" "q \<le> 99"
  shows "carts_ok (put_cart (cart_id c) (put_item (ci_id x) (\<lambda>y. y\<lparr>ci_quantity := q\<rparr>)) s)"
    and "basket_of (cart_id c) (put_cart (cart_id c) (put_item (ci_id x) (\<lambda>y. y\<lparr>ci_quantity := q\<rparr>)) s) = (basket c)(item_target x \<mapsto> q)"
proof -
  have r: "row_ok (issued_ids s) c" using assms(1,2) by (simp add: carts_ok_def)
  then have "items_ok (cart_items c)" by (simp add: row_ok_def)
  note p = put_item_ok [OF this assms(3-5)]
  have u: "d = c" if "d \<in> set (fr_carts s)" "cart_id d = cart_id c" for d
    using that assms(1,2) by (auto simp: carts_ok_def distinct_map dest: inj_onD)
  have "same_cart c (put_item (ci_id x) (\<lambda>y. y\<lparr>ci_quantity := q\<rparr>) c)" by (simp add: same_cart_def put_item_def)
  moreover have "row_ok (issued_ids s) (put_item (ci_id x) (\<lambda>y. y\<lparr>ci_quantity := q\<rparr>) c)"
    using r p(1,3) unfolding row_ok_def by (simp add: put_item_def)
  ultimately show "carts_ok (put_cart (cart_id c) (put_item (ci_id x) (\<lambda>y. y\<lparr>ci_quantity := q\<rparr>)) s)"
    using u by (intro put_carts_ok [OF assms(1)]) auto
  show "basket_of (cart_id c) (put_cart (cart_id c) (put_item (ci_id x) (\<lambda>y. y\<lparr>ci_quantity := q\<rparr>)) s) = (basket c)(item_target x \<mapsto> q)"
    using p(2) by (subst basket_of_put) (simp_all add: put_item_def find_row [OF assms(1,2)])
qed

lemma new_line:
  assumes "carts_ok s" "c \<in> set (fr_carts s)" "fresh_id s = (n, t)" "item_ok x" "ci_id x = n" "basket c (item_target x) = None"
  shows "carts_ok (put_cart (cart_id c) (\<lambda>c. c\<lparr>cart_items := cart_items c @ [x]\<rparr>) t)"
    and "basket_of (cart_id c) (put_cart (cart_id c) (\<lambda>c. c\<lparr>cart_items := cart_items c @ [x]\<rparr>) t) = (basket c)(item_target x \<mapsto> ci_quantity x)"
proof -
  have inj: "inj (tl_uuid s)" using assms(1) by (simp add: carts_ok_def)
  note f = fresh_issued [OF inj assms(3)]
  note ok = fresh_carts_ok [OF assms(1,3)]
  have r: "row_ok (issued_ids s) c" using assms(1,2) by (simp add: carts_ok_def)
  then have "items_ok (cart_items c)" "ci_id x \<notin> ci_id ` set (cart_items c)" using f(1) assms(5) by (auto simp: row_ok_def)
  note a = add_item_ok [OF this(1) assms(4,6) this(2)]
  have c: "c \<in> set (fr_carts t)" using assms(2) f(3) by simp
  have u: "d = c" if "d \<in> set (fr_carts t)" "cart_id d = cart_id c" for d
    using that ok c by (auto simp: carts_ok_def distinct_map dest: inj_onD)
  have "row_ok (issued_ids t) (c\<lparr>cart_items := cart_items c @ [x]\<rparr>)"
    using r a(1) f(2) assms(5) by (auto simp: row_ok_def)
  then show "carts_ok (put_cart (cart_id c) (\<lambda>c. c\<lparr>cart_items := cart_items c @ [x]\<rparr>) t)"
    using u by (intro put_carts_ok [OF ok]) (auto simp: same_cart_def)
  show "basket_of (cart_id c) (put_cart (cart_id c) (\<lambda>c. c\<lparr>cart_items := cart_items c @ [x]\<rparr>) t) = (basket c)(item_target x \<mapsto> ci_quantity x)"
    using a(2) by (subst basket_of_put) (simp_all add: find_row [OF ok c])
qed

lemma row_exists: "c \<in> set (fr_carts (put_cart i f s)) \<longleftrightarrow> (\<exists>d \<in> set (fr_carts s). c = (if cart_id d = i then f d else d))"
  by (simp add: put_cart_def image_iff del: if_image_distrib)

section \<open>Merging\<close>

definition added :: "((item_kind \<times> id) \<rightharpoonup> int) \<Rightarrow> ((item_kind \<times> id) \<rightharpoonup> int) \<Rightarrow> (item_kind \<times> id) \<rightharpoonup> int" where
  "added mine guest t = (case guest t of None \<Rightarrow> mine t | Some q \<Rightarrow> Some (min 99 (q + (case mine t of None \<Rightarrow> 0 | Some k \<Rightarrow> k))))"

definition agree :: "(item_kind \<times> id) set \<Rightarrow> cart_row \<Rightarrow> cart_row \<Rightarrow> bool" where
  "agree T r mine \<longleftrightarrow> cart_id r = cart_id mine \<and> (\<forall>x. item_target x \<in> T \<longrightarrow> (x \<in> set (cart_items r) \<longleftrightarrow> x \<in> set (cart_items mine)))"

lemma agree_basket:
  assumes "agree T r mine" "t \<in> T" "items_ok (cart_items r)" "items_ok (cart_items mine)"
  shows "basket r t = basket mine t"
proof (cases "basket mine t")
  case None
  then have "\<forall>x \<in> set (cart_items mine). item_target x \<noteq> t" unfolding basket_None by blast
  then have "t \<notin> item_target ` set (cart_items r)" using assms(1,2) unfolding agree_def by blast
  then have "basket r t = None" unfolding basket_None .
  then show ?thesis using None by (rule trans [OF _ sym])
next
  case (Some q)
  obtain x where x: "x \<in> set (cart_items mine)" "item_target x = t" "ci_quantity x = q" by (rule basket_Some [OF assms(4) Some])
  then have "x \<in> set (cart_items r)" using assms(1,2) by (auto simp: agree_def)
  from basket_mem [OF assms(3) this] have "basket r t = Some q" unfolding x(2,3) .
  with Some show ?thesis by (simp only:)
qed

lemma merge_item_state:
  assumes "carts_ok s" "r \<in> set (fr_carts s)" "items_ok (cart_items mine)" "item_ok g" "agree T r mine" "item_target g \<in> T"
  shows "carts_ok (merge_item mine g s)"
    and "\<exists>r'. r' \<in> set (fr_carts (merge_item mine g s)) \<and> agree (T - {item_target g}) r' mine \<and> cart_customerId r' = cart_customerId r \<and>
      basket r' = (basket r)(item_target g \<mapsto> min 99 (ci_quantity g + (case basket mine (item_target g) of None \<Rightarrow> 0 | Some k \<Rightarrow> k)))"
    and "j \<noteq> cart_id mine \<Longrightarrow> basket_of j (merge_item mine g s) = basket_of j s"
    and "{c \<in> set (fr_carts (merge_item mine g s)). cart_id c \<noteq> cart_id mine} = {c \<in> set (fr_carts s). cart_id c \<noteq> cart_id mine}"
proof -
  define P :: "cart_item \<Rightarrow> bool" where "P = (\<lambda>m. if truthy (ci_productId g) then ci_productId m = ci_productId g else ci_bundleId m = ci_bundleId g)"
  let ?t = "item_target g"
  have id: "cart_id mine = cart_id r" using assms(5) by (simp add: agree_def)
  have r: "items_ok (cart_items r)" using assms(1,2) by (simp add: carts_ok_def row_ok_def)
  note eq = agree_basket [OF assms(5,6) r assms(3)]
  have q: "1 \<le> ci_quantity g" "ci_quantity g \<le> 99" using assms(4) by (simp_all add: item_ok_def)
  have "(\<exists>x. find P (cart_lines mine) = Some x \<and> x \<in> set (cart_items mine) \<and> item_target x = ?t) \<or> (find P (cart_lines mine) = None \<and> basket mine ?t = None)"
    by (rule find_target [OF assms(3)], unfold P_def, rule merge_target_iff [OF assms(4)])
  note F = this
  have "carts_ok (merge_item mine g s) \<and>
    (\<exists>r'. r' \<in> set (fr_carts (merge_item mine g s)) \<and> agree (T - {?t}) r' mine \<and> cart_customerId r' = cart_customerId r \<and>
      basket r' = (basket r)(?t \<mapsto> min 99 (ci_quantity g + (case basket mine ?t of None \<Rightarrow> 0 | Some k \<Rightarrow> k)))) \<and>
    (j \<noteq> cart_id mine \<longrightarrow> basket_of j (merge_item mine g s) = basket_of j s) \<and>
    {c \<in> set (fr_carts (merge_item mine g s)). cart_id c \<noteq> cart_id mine} = {c \<in> set (fr_carts s). cart_id c \<noteq> cart_id mine}"
  proof (cases "find P (cart_lines mine)")
    case (Some x)
    then have old: "find P (cart_lines mine) = Some x" "x \<in> set (cart_items mine)" "item_target x = ?t" using F by simp_all
    have x: "x \<in> set (cart_items r)" using old(2,3) assms(5,6) by (auto simp: agree_def)
    let ?q = "min 99 (ci_quantity x + ci_quantity g)"
    let ?f = "put_item (ci_id x) (\<lambda>y. y\<lparr>ci_quantity := ?q\<rparr>)"
    have m: "merge_item mine g s = put_cart (cart_id r) ?f s" using old(1) id unfolding P_def by (simp add: merge_item_def)
    have "item_ok x" using r x by (simp add: items_ok_def)
    then have q': "1 \<le> ?q" "?q \<le> 99" using q by (simp_all add: item_ok_def)
    note p = put_line [OF assms(1,2) x q'] and p2 = put_item_ok [OF r x q']
    have "agree (T - {?t}) (?f r) mine"
    proof -
      have "y \<in> set (cart_items (?f r)) \<longleftrightarrow> y \<in> set (cart_items r)" if "item_target y \<noteq> ?t" for y
      proof -
        have "ci_id z = ci_id x \<longleftrightarrow> z = x" if "z \<in> set (cart_items r)" for z
          using that x r by (auto simp: items_ok_def distinct_map dest: inj_onD)
        then show ?thesis using that old(3) by (auto simp: put_item_def image_iff)
      qed
      then show ?thesis using assms(5) by (auto simp: agree_def put_item_def)
    qed
    moreover have "?f r \<in> set (fr_carts (put_cart (cart_id r) ?f s))" using assms(2) unfolding row_exists by (intro bexI [of _ r]) simp_all
    moreover have "basket mine ?t = Some (ci_quantity x)" using basket_mem [OF assms(3) old(2)] old(3) by simp
    moreover have "cart_customerId (?f r) = cart_customerId r" by (simp add: put_item_def)
    moreover have "j \<noteq> cart_id r \<longrightarrow> basket_of j (put_cart (cart_id r) ?f s) = basket_of j s"
      by (subst basket_of_put) (simp_all add: put_item_def)
    moreover have "{c \<in> set (fr_carts (put_cart (cart_id r) ?f s)). cart_id c \<noteq> cart_id r} = {c \<in> set (fr_carts s). cart_id c \<noteq> cart_id r}"
      by (auto simp: put_cart_def put_item_def)
    moreover have "basket (?f r) = (basket r)(?t \<mapsto> min 99 (ci_quantity g + ci_quantity x))" using p2(2) old(3) by (simp add: add.commute)
    ultimately show ?thesis unfolding m id using p(1) by (intro conjI exI [of _ "?f r"]) (simp_all only: option.case)
  next
    case None
    then have new: "find P (cart_lines mine) = None" "basket mine ?t = None" using F by simp_all
    obtain n t where n: "fresh_id s = (n, t)" by (cases "fresh_id s")
    let ?x = "g\<lparr>ci_id := n\<rparr>"
    let ?f = "\<lambda>c. c\<lparr>cart_items := cart_items c @ [?x]\<rparr>"
    have m: "merge_item mine g s = put_cart (cart_id r) ?f t" using new(1) n id unfolding P_def by (simp add: merge_item_def)
    have ok: "item_ok ?x" "item_target ?x = ?t" using assms(4) by (simp_all add: item_ok_def)
    have none: "basket r ?t = None" using eq new(2) by simp
    note p = new_line [OF assms(1,2) n ok(1)]
    have inj: "inj (tl_uuid s)" using assms(1) by (simp add: carts_ok_def)
    note f = fresh_issued [OF inj n]
    have "ci_id ?x \<notin> ci_id ` set (cart_items r)" using assms(1,2) f(1) by (auto simp: carts_ok_def row_ok_def)
    note a = add_item_ok [OF r ok(1) _ this]
    have "agree (T - {?t}) (?f r) mine" using assms(5) ok(2) by (auto simp: agree_def)
    moreover have "?f r \<in> set (fr_carts (put_cart (cart_id r) ?f t))" using assms(2) f(3) unfolding row_exists by (intro bexI [of _ r]) simp_all
    moreover have "basket (?f r) = (basket r)(?t \<mapsto> min 99 (ci_quantity g + 0))" using a(2) none ok(2) q by simp
    moreover have "j \<noteq> cart_id r \<longrightarrow> basket_of j (put_cart (cart_id r) ?f t) = basket_of j s"
      using fresh_baskets [OF n] by (subst basket_of_put) simp_all
    moreover have "{c \<in> set (fr_carts (put_cart (cart_id r) ?f t)). cart_id c \<noteq> cart_id r} = {c \<in> set (fr_carts s). cart_id c \<noteq> cart_id r}"
      using f(3) by (auto simp: put_cart_def)
    moreover have "carts_ok (put_cart (cart_id r) ?f t)" using p(1) none ok(2) by simp
    moreover have "cart_customerId (?f r) = cart_customerId r" by simp
    ultimately show ?thesis unfolding m id new(2) by (intro conjI exI [of _ "?f r"]) (simp_all only: option.case)
  qed
  then show "carts_ok (merge_item mine g s)"
    and "\<exists>r'. r' \<in> set (fr_carts (merge_item mine g s)) \<and> agree (T - {?t}) r' mine \<and> cart_customerId r' = cart_customerId r \<and>
      basket r' = (basket r)(?t \<mapsto> min 99 (ci_quantity g + (case basket mine ?t of None \<Rightarrow> 0 | Some k \<Rightarrow> k)))"
    and "j \<noteq> cart_id mine \<Longrightarrow> basket_of j (merge_item mine g s) = basket_of j s"
    and "{c \<in> set (fr_carts (merge_item mine g s)). cart_id c \<noteq> cart_id mine} = {c \<in> set (fr_carts s). cart_id c \<noteq> cart_id mine}" by blast+
qed

lemma merge_items_state:
  assumes "carts_ok s" "r \<in> set (fr_carts s)" "items_ok (cart_items mine)" "\<forall>g \<in> set gs. item_ok g" "distinct (map item_target gs)"
    "agree (item_target ` set gs) r mine"
  shows "carts_ok (foldl (\<lambda>s g. merge_item mine g s) s gs) \<and>
    basket_of (cart_id mine) (foldl (\<lambda>s g. merge_item mine g s) s gs) =
      (\<lambda>t. case map_of (map (\<lambda>g. (item_target g, ci_quantity g)) gs) t of None \<Rightarrow> basket r t
         | Some q \<Rightarrow> Some (min 99 (q + (case basket mine t of None \<Rightarrow> 0 | Some k \<Rightarrow> k)))) \<and>
    (\<forall>j. j \<noteq> cart_id mine \<longrightarrow> basket_of j (foldl (\<lambda>s g. merge_item mine g s) s gs) = basket_of j s) \<and>
    {c \<in> set (fr_carts (foldl (\<lambda>s g. merge_item mine g s) s gs)). cart_id c \<noteq> cart_id mine} = {c \<in> set (fr_carts s). cart_id c \<noteq> cart_id mine}"
  using assms(1,2,4-6)
proof (induction gs arbitrary: s r)
  case Nil
  have "cart_id mine = cart_id r" using Nil.prems(5) by (simp add: agree_def)
  then show ?case using Nil.prems basket_of_row [of s r] by simp
next
  case (Cons g gs)
  let ?s = "merge_item mine g s"
  let ?q = "\<lambda>t. case basket mine t of None \<Rightarrow> 0 | Some k \<Rightarrow> k"
  have g: "item_ok g" "item_target g \<in> item_target ` set (g # gs)" using Cons.prems(3) by simp_all
  note m = merge_item_state [OF Cons.prems(1,2) assms(3) g(1) Cons.prems(5) g(2)]
  obtain r' where r': "r' \<in> set (fr_carts ?s)" "agree (item_target ` set (g # gs) - {item_target g}) r' mine"
    "basket r' = (basket r)(item_target g \<mapsto> min 99 (ci_quantity g + ?q (item_target g)))" using m(2) by blast
  have "item_target g \<notin> item_target ` set gs" using Cons.prems(4) by simp
  then have "agree (item_target ` set gs) r' mine" using r'(2) by (simp add: agree_def)
  note IH = Cons.IH [OF m(1) r'(1) _ _ this]
  have IH': "\<forall>g \<in> set gs. item_ok g" "distinct (map item_target gs)" using Cons.prems(3,4) by simp_all
  note IH = IH [OF IH']
  have none: "map_of (map (\<lambda>g. (item_target g, ci_quantity g)) gs) (item_target g) = None"
    using \<open>item_target g \<notin> _\<close> by (auto simp: map_of_eq_None_iff image_image)
  have "(\<lambda>t. case map_of (map (\<lambda>g. (item_target g, ci_quantity g)) gs) t of None \<Rightarrow> basket r' t | Some q \<Rightarrow> Some (min 99 (q + ?q t))) =
    (\<lambda>t. case map_of (map (\<lambda>g. (item_target g, ci_quantity g)) (g # gs)) t of None \<Rightarrow> basket r t | Some q \<Rightarrow> Some (min 99 (q + ?q t)))"
    (is "?l = ?r")
  proof
    fix t
    show "?l t = ?r t"
    proof (cases "t = item_target g")
      case True
      then show ?thesis using none by (simp add: r'(3))
    next
      case False
      then show ?thesis by (simp add: r'(3) cong: option.case_cong)
    qed
  qed
  with IH m(3,4) show ?case by (simp del: fun_upd_apply)
qed

lemma merge_items_basket:
  assumes "carts_ok s" "mine \<in> set (fr_carts s)" "guest \<in> set (fr_carts s)"
  shows "carts_ok (foldl (\<lambda>s g. merge_item mine g s) s (cart_lines guest)) \<and>
    basket_of (cart_id mine) (foldl (\<lambda>s g. merge_item mine g s) s (cart_lines guest)) = added (basket mine) (basket guest) \<and>
    (\<forall>j. j \<noteq> cart_id mine \<longrightarrow> basket_of j (foldl (\<lambda>s g. merge_item mine g s) s (cart_lines guest)) = basket_of j s) \<and>
    {c \<in> set (fr_carts (foldl (\<lambda>s g. merge_item mine g s) s (cart_lines guest))). cart_id c \<noteq> cart_id mine} = {c \<in> set (fr_carts s). cart_id c \<noteq> cart_id mine}"
proof -
  have ok: "items_ok (cart_items mine)" "items_ok (cart_items guest)" using assms by (simp_all add: carts_ok_def row_ok_def)
  have mset: "mset (map f (cart_lines guest)) = mset (map f (cart_items guest))" for f :: "cart_item \<Rightarrow> 'x" by (simp add: cart_lines_def)
  have d: "distinct (map item_target (cart_lines guest))" using ok(2) mset mset_eq_imp_distinct_iff unfolding items_ok_def by blast
  have "map_of (map (\<lambda>g. (item_target g, ci_quantity g)) (cart_lines guest)) = basket guest"
    unfolding basket_def
    by (rule map_of_inject_set [THEN iffD2]) (use d ok(2) in \<open>simp_all add: items_ok_def comp_def\<close>)
  moreover have "\<forall>g \<in> set (cart_lines guest). item_ok g" using ok(2) by (simp add: items_ok_def)
  moreover have "agree (item_target ` set (cart_lines guest)) mine mine" by (simp add: agree_def)
  ultimately show ?thesis
    using merge_items_state [OF assms(1,2) ok(1) _ d] by (simp add: added_def [abs_def])
qed

lemma find_token:
  assumes "carts_ok s" "c \<in> set (fr_carts s)" "cart_guestToken c = Some tok"
  shows "find (\<lambda>c. cart_guestToken c = Some tok) (fr_carts s) = Some c"
proof -
  have "find (\<lambda>c. cart_guestToken c = Some tok) cs = Some c" if "distinct (guest_tokens cs)" "c \<in> set cs" for cs
    using that
  proof (induction cs)
    case (Cons d ds)
    have "tok \<in> set (guest_tokens ds)" if "c \<in> set ds" using that assms(3) by (force simp: guest_tokens_def)
    then show ?case using Cons assms(3) by (auto simp: guest_tokens_def split: option.splits)
  qed simp
  then show ?thesis using assms(1,2) by (simp add: carts_ok_def)
qed

lemma newest_mem: "sort_key f (filter P xs) = c # cs \<Longrightarrow> c \<in> set xs \<and> P c"
proof -
  assume "sort_key f (filter P xs) = c # cs"
  then have "c \<in> set (sort_key f (filter P xs))" by simp
  then show ?thesis by simp
qed

lemma put_coupon:
  assumes "carts_ok s"
  shows "carts_ok (put_cart i (\<lambda>c. c\<lparr>cart_couponCode := k c\<rparr>) s)" "basket_of j (put_cart i (\<lambda>c. c\<lparr>cart_couponCode := k c\<rparr>) s) = basket_of j s"
proof -
  show "carts_ok (put_cart i (\<lambda>c. c\<lparr>cart_couponCode := k c\<rparr>) s)"
    using assms by (intro put_carts_ok) (auto simp: same_cart_def carts_ok_def row_ok_def)
  show "basket_of j (put_cart i (\<lambda>c. c\<lparr>cart_couponCode := k c\<rparr>) s) = basket_of j s"
    by (subst basket_of_put) (auto simp: basket_of_def basket_def split: option.split)
qed

lemma drop_basket:
  "basket_of j (s\<lparr>fr_carts := filter (\<lambda>c. cart_id c \<noteq> i) (fr_carts s)\<rparr>) = (if j = i then Map.empty else basket_of j s)"
proof -
  have "find (\<lambda>c. cart_id c = j) (filter (\<lambda>c. cart_id c \<noteq> i) cs) = (if j = i then None else find (\<lambda>c. cart_id c = j) cs)" for cs
    by (induction cs) auto
  from this [of "fr_carts s"] show ?thesis by (cases "j = i") (simp_all add: basket_of_def)
qed

lemma unknown_basket: "i \<notin> cart_id ` set (fr_carts s) \<Longrightarrow> basket_of i s = Map.empty"
proof -
  assume "i \<notin> cart_id ` set (fr_carts s)"
  then have "find (\<lambda>c. cart_id c = i) (fr_carts s) = None" by (auto simp: find_None_iff)
  then show ?thesis by (simp add: basket_of_def)
qed

text \<open>The part of a merge that writes, once it is known whose carts they are.\<close>

lemma merge_writes:
  assumes "carts_ok s" "mine \<in> set (fr_carts s)" "guest \<in> set (fr_carts s)" "cart_id guest \<noteq> cart_id mine"
    and "s1 = foldl (\<lambda>s g. merge_item mine g s) s (cart_lines guest)" "s2 = (if b then put_cart (cart_id mine) (\<lambda>c. c\<lparr>cart_couponCode := k c\<rparr>) s1 else s1)"
    and "s3 = s2\<lparr>fr_carts := filter (\<lambda>c. cart_id c \<noteq> cart_id guest) (fr_carts s2)\<rparr>"
  shows "carts_ok s3" "basket_of (cart_id mine) s3 = added (basket mine) (basket guest)" "basket_of (cart_id guest) s3 = Map.empty"
    and "j \<noteq> cart_id mine \<Longrightarrow> j \<noteq> cart_id guest \<Longrightarrow> basket_of j s3 = basket_of j s"
proof -
  note m = merge_items_basket [OF assms(1-3), folded assms(5)]
  have "carts_ok s2" "basket_of j s2 = basket_of j s1" for j
    using put_coupon [OF conjunct1 [OF m], where i = "cart_id mine" and k = k] conjunct1 [OF m] unfolding assms(6) by simp_all
  then show "carts_ok s3" "basket_of (cart_id mine) s3 = added (basket mine) (basket guest)" "basket_of (cart_id guest) s3 = Map.empty"
    and "j \<noteq> cart_id mine \<Longrightarrow> j \<noteq> cart_id guest \<Longrightarrow> basket_of j s3 = basket_of j s"
    using m assms(4) drop_carts_ok unfolding assms(7) drop_basket by simp_all
qed

text \<open>
  C11. Signing in loses nothing. The cart of a guest is added to the customer's: of every product and package
  the customer's cart then holds what both held together, ninety-nine at most; the guest's cart is gone, and no
  other cart is touched. A customer without a cart gets one.
\<close>

theorem merge_adds_up:
  assumes "carts_ok s" "guest \<in> set (fr_carts s)" "cart_guestToken guest = Some tok" "cart_customerId guest \<noteq> Some cid"
  shows "\<exists>m s'. merge_tx cid tok s = Inr (Some m, s') \<and> (\<forall>c \<in> set (fr_carts s). cart_id c = m \<longrightarrow> cart_customerId c = Some cid) \<and>
    basket_of m s' = added (basket_of m s) (basket guest) \<and> basket_of (cart_id guest) s' = Map.empty \<and>
    (\<forall>j. j \<noteq> m \<longrightarrow> j \<noteq> cart_id guest \<longrightarrow> basket_of j s' = basket_of j s)"
proof -
  let ?own = "sort_key (\<lambda>c. - cart_updatedAt c) (filter (\<lambda>c. cart_customerId c = Some cid \<and> cart_guestToken c = None) (fr_carts s))"
  obtain mine t where mt: "carts_ok t" "mine \<in> set (fr_carts t)" "guest \<in> set (fr_carts t)" "cart_id guest \<noteq> cart_id mine"
    "(case (case ?own of [] \<Rightarrow> None | c # _ \<Rightarrow> Some c) of Some m \<Rightarrow> Inr (m, s) | None \<Rightarrow> create_cart (Some cid) None s) = Inr (mine, t)"
    "\<forall>c \<in> set (fr_carts s). cart_id c = cart_id mine \<longrightarrow> cart_customerId c = Some cid" "\<forall>j. basket_of j t = basket_of j s"
  proof (cases ?own)
    case Nil
    obtain c t where c: "create_cart (Some cid) None s = Inr (c, t)" by (cases "fresh_id s") (simp add: create_cart_def Let_def)
    note k = create_cart_ok [OF assms(1) c]
    have b: "basket_of j t = basket_of j s" for j
    proof (cases "j = cart_id c")
      case True
      have "basket c = Map.empty" using k(3) by (simp add: basket_def)
      then show ?thesis using True basket_of_row [OF k(1,2)] unknown_basket [of j s] k(8) by simp
    next
      case False
      have "find (\<lambda>d. cart_id d = j) (cs @ [c]) = find (\<lambda>d. cart_id d = j) cs" for cs using False by (induction cs) auto
      then show ?thesis using k(4) by (simp add: basket_of_def)
    qed
    show ?thesis
      by (rule that [of t c]) (use Nil c k b assms(2) in \<open>auto simp: image_iff\<close>)
  next
    case (Cons c cs)
    from newest_mem [OF Cons] have m: "c \<in> set (fr_carts s)" "cart_customerId c = Some cid" by simp_all
    have u: "d = c" if "d \<in> set (fr_carts s)" "cart_id d = cart_id c" for d
      using that assms(1) m(1) by (auto simp: carts_ok_def distinct_map dest: inj_onD)
    show ?thesis
      by (rule that [of s c]) (use Cons m u assms in auto)
  qed
  let ?s1 = "foldl (\<lambda>s g. merge_item mine g s) t (cart_lines guest)"
  let ?b = "\<not> truthy (cart_couponCode mine) \<and> truthy (cart_couponCode guest)"
  let ?s2 = "if ?b then put_cart (cart_id mine) (\<lambda>c. c\<lparr>cart_couponCode := cart_couponCode guest\<rparr>) ?s1 else ?s1"
  let ?s3 = "?s2\<lparr>fr_carts := filter (\<lambda>c. cart_id c \<noteq> cart_id guest) (fr_carts ?s2)\<rparr>"
  have "merge_tx cid tok s = Inr (Some (cart_id mine), ?s3)"
    using find_token [OF assms(1-3)] assms(4) mt(5) by (simp add: merge_tx_def Let_def)
  moreover note w = merge_writes [OF mt(1-4) refl refl refl, where b = ?b and k = "\<lambda>c. cart_couponCode guest"]
  moreover have "basket_of (cart_id mine) s = basket mine" using mt(7) basket_of_row [OF mt(1,2)] by metis
  ultimately show ?thesis using mt(6,7) by (intro exI [of _ "cart_id mine"] exI [of _ ?s3]) simp
qed

section \<open>Everything that happens to carts\<close>

text \<open>Quantities are validated before the service sees them: 1 to 99 to add, 0 to 99 to set.\<close>

inductive cart_step :: "decimal_js \<Rightarrow> 'a front_scheme \<Rightarrow> 'a front_scheme \<Rightarrow> bool" for J where
  Ensure: "ensure_cart ow tok s = Inr (c, s') \<Longrightarrow> cart_step J s s'"
| Add: "case ad_quantity dto of None \<Rightarrow> True | Some q \<Rightarrow> 1 \<le> q \<and> q \<le> 99 \<Longrightarrow> cart_step J s (snd (add_to_cart J ow dto tok s))"
| Quantity: "0 \<le> q \<Longrightarrow> q \<le> 99 \<Longrightarrow> cart_step J s (snd (setQuantity J ow i q s))"
| Clear: "cart_step J s (snd (clear_cart J ow s))"
| Coupon: "cart_step J s (snd (applyCoupon J ow code s))"
| Uncoupon: "cart_step J s (snd (removeCoupon J ow s))"
| Merge: "cart_step J s (snd (merge_carts J cid tok s))"
| Purge: "cart_step J s (purgeExpiredGuestCarts s)"
| Ordered: "cart_step J s (clearForOrder o' s)"
| Clock: "st_now s \<le> t \<Longrightarrow> cart_step J s (s\<lparr>st_now := t\<rparr>)"

lemma owned_mem: "owned_cart ow s = Some c \<Longrightarrow> c \<in> set (fr_carts s)"
proof -
  assume a: "owned_cart ow s = Some c"
  then obtain x where x: "find_cart x s = Some c" by (auto simp: owned_cart_def split: option.splits)
  show ?thesis
  proof (cases "cw_customerId x")
    case None
    then show ?thesis using x find_SomeD by (fastforce simp: find_cart_def)
  next
    case (Some i)
    then show ?thesis using x newest_mem by (fastforce simp: find_cart_def split: list.splits)
  qed
qed

lemma ensure_ok:
  assumes "carts_ok s" "ensure_cart ow tok s = Inr (c, s')"
  shows "carts_ok s'" "c \<in> set (fr_carts s')"
proof -
  have "carts_ok s' \<and> c \<in> set (fr_carts s')"
  proof (cases "owned_cart ow s")
    case None
    then obtain cid t where "create_cart cid t s = Inr (c, s')" "cid \<noteq> None \<or> t \<noteq> None"
      using assms(2) by (auto simp: ensure_cart_def split: option.splits)
    then show ?thesis using create_cart_ok [OF assms(1)] by blast
  next
    case (Some x)
    then show ?thesis using assms owned_mem [OF Some] by (simp add: ensure_cart_def)
  qed
  then show "carts_ok s'" "c \<in> set (fr_carts s')" by simp_all
qed

text \<open>Emptying a cart, whatever else of it changes that the tables do not constrain.\<close>

lemma empty_ok: "row_ok ids c \<Longrightarrow> row_ok ids (c\<lparr>cart_items := [], cart_couponCode := k\<rparr>)"
  by (simp add: row_ok_def items_ok_def)

lemma clear_rows_ok:
  assumes "carts_ok s"
  shows "carts_ok (s\<lparr>fr_carts := map (\<lambda>c. if P c then c\<lparr>cart_items := [], cart_couponCode := None\<rparr> else c) (fr_carts s)\<rparr>)"
proof -
  let ?g = "\<lambda>c. if P c then c\<lparr>cart_items := [], cart_couponCode := None\<rparr> else c"
  have g: "cart_id \<circ> ?g = cart_id" "cart_guestToken \<circ> ?g = cart_guestToken" by (auto simp: fun_eq_iff)
  have "guest_tokens (map ?g cs) = guest_tokens cs" for cs
    unfolding guest_tokens_def map_map by (rule arg_cong [where f = concat], rule map_cong) (use g(2) in \<open>auto simp: fun_eq_iff\<close>)
  moreover have "map cart_id (map ?g cs) = map cart_id cs" for cs using g(1) by simp
  moreover have "\<forall>c \<in> set (map ?g (fr_carts s)). row_ok (issued_ids s) c"
    unfolding set_map using assms empty_ok by (auto simp: carts_ok_def)
  ultimately show ?thesis using assms by (simp add: carts_ok_def issued_ids_def del: map_map set_map)
qed

lemma new_item_ok:
  "1 \<le> q \<Longrightarrow> q \<le> 99 \<Longrightarrow> i \<noteq> '''' \<Longrightarrow>
   item_ok \<lparr>ci_id = n, ci_productId = (if k = PRODUCT then Some i else None), ci_bundleId = (if k = BUNDLE then Some i else None), ci_quantity = q, ci_addedAt = t\<rparr> \<and>
   item_target \<lparr>ci_id = n, ci_productId = (if k = PRODUCT then Some i else None), ci_bundleId = (if k = BUNDLE then Some i else None), ci_quantity = q, ci_addedAt = t\<rparr> = (k, i)"
  by (cases k) (simp_all add: item_ok_def item_target_def str_of_def)

lemma add_ok:
  assumes "carts_ok s" "case ad_quantity dto of None \<Rightarrow> True | Some q \<Rightarrow> 1 \<le> q \<and> q \<le> 99"
  shows "carts_ok (snd (add_to_cart J ow dto tok s))"
proof -
  let ?target = "if ad_kind dto = PRODUCT then ad_productId dto else ad_bundleId dto"
  let ?q = "case ad_quantity dto of None \<Rightarrow> 1 | Some q \<Rightarrow> q"
  obtain inputs un where ll: "loadLines [\<lparr>lr_kind = ad_kind dto, lr_productId = ad_productId dto, lr_bundleId = ad_bundleId dto, lr_quantity = ?q\<rparr>] (st_now s) s = (inputs, un)"
    by (cases "loadLines [\<lparr>lr_kind = ad_kind dto, lr_productId = ad_productId dto, lr_bundleId = ad_bundleId dto, lr_quantity = ?q\<rparr>] (st_now s) s")
  have q: "1 \<le> ?q" "?q \<le> 99" using assms(2) by (auto split: option.splits)
  show ?thesis
  proof (cases "truthy ?target \<and> un = [] \<and> (\<exists>x. ensure_cart ow tok s = Inr x)")
    case False
    then show ?thesis using assms(1) ll by (auto simp: add_to_cart_def Let_def split: sum.splits)
  next
    case True
    then obtain c t where e: "ensure_cart ow tok s = Inr (c, t)" by auto
    note k = ensure_ok [OF assms(1) e]
    have r: "items_ok (cart_items c)" using k by (simp add: carts_ok_def row_ok_def)
    obtain i where i: "?target = Some i" "i \<noteq> ''''" using True by (auto simp: truthy_def split: option.splits)
    have F: "(\<exists>x. find (on_target (ad_kind dto) i) (cart_lines c) = Some x \<and> x \<in> set (cart_items c) \<and> item_target x = (ad_kind dto, i)) \<or>
        (find (on_target (ad_kind dto) i) (cart_lines c) = None \<and> basket c (ad_kind dto, i) = None)"
      by (rule find_target [OF r target_iff])
    show ?thesis
    proof (cases "find (on_target (ad_kind dto) i) (cart_lines c)")
      case (Some x)
      then have x: "x \<in> set (cart_items c)" using F by simp
      have "1 \<le> ci_quantity x" using x r by (simp add: items_ok_def item_ok_def)
      then have "1 \<le> min 99 (ci_quantity x + ?q)" "min 99 (ci_quantity x + ?q) \<le> 99" using q by simp_all
      note p = put_line(1) [OF k x this]
      have "snd (add_to_cart J ow dto tok s) = snd (touchAndView J (cart_id c) (put_cart (cart_id c) (put_item (ci_id x) (\<lambda>y. y\<lparr>ci_quantity := min 99 (ci_quantity x + ?q)\<rparr>)) t))"
        using True i(1) ll e Some by (simp add: add_to_cart_def)
      then show ?thesis using touch_state(1) [OF p] by simp
    next
      case None
      then have none: "basket c (ad_kind dto, i) = None" using F by simp
      obtain n u where n: "fresh_id t = (n, u)" by (cases "fresh_id t")
      let ?x = "\<lparr>ci_id = n, ci_productId = (if ad_kind dto = PRODUCT then Some i else None), ci_bundleId = (if ad_kind dto = BUNDLE then Some i else None),
        ci_quantity = ?q, ci_addedAt = st_now u\<rparr>"
      have x: "item_ok ?x" "item_target ?x = (ad_kind dto, i)" using new_item_ok [OF q i(2)] by blast+
      have p: "carts_ok (put_cart (cart_id c) (\<lambda>c. c\<lparr>cart_items := cart_items c @ [?x]\<rparr>) u)"
        by (rule new_line(1) [OF k n x(1)]) (use none x(2) in simp_all)
      have "snd (add_to_cart J ow dto tok s) = (if 50 \<le> length (cart_lines c) then t
        else snd (touchAndView J (cart_id c) (put_cart (cart_id c) (\<lambda>c. c\<lparr>cart_items := cart_items c @ [?x]\<rparr>) u)))"
        using True i(1) ll e None n by (simp add: add_to_cart_def)
      then show ?thesis using touch_state(1) [OF p] k(1) by simp
    qed
  qed
qed

lemma set_ok:
  assumes "carts_ok s" "0 \<le> q" "q \<le> 99"
  shows "carts_ok (snd (setQuantity J ow i q s))"
proof (cases "owned_cart ow s")
  case None
  then show ?thesis using assms(1) by (simp add: setQuantity_def requireCart_def)
next
  case (Some c)
  note k = owned_mem [OF Some]
  have r: "row_ok (issued_ids s) c" using assms(1) k by (simp add: carts_ok_def)
  then have r': "items_ok (cart_items c)" by (simp add: row_ok_def)
  show ?thesis
  proof (cases "list_ex (\<lambda>x. ci_id x = i) (cart_lines c)")
    case False
    then show ?thesis using assms(1) Some by (simp add: setQuantity_def requireCart_def)
  next
    case True
    then obtain x where x: "x \<in> set (cart_items c)" "ci_id x = i" by (auto simp: list_ex_iff)
    let ?del = "\<lambda>c. c\<lparr>cart_items := filter (\<lambda>y. ci_id y \<noteq> i) (cart_items c)\<rparr>"
    have e: "snd (setQuantity J ow i q s) = snd (touchAndView J (cart_id c) (put_cart (cart_id c)
        (if q = 0 then ?del else put_item i (\<lambda>y. y\<lparr>ci_quantity := q\<rparr>)) s))"
      using Some True by (simp add: setQuantity_def requireCart_def)
    have u: "d = c" if "d \<in> set (fr_carts s)" "cart_id d = cart_id c" for d
      using that assms(1) k by (auto simp: carts_ok_def distinct_map dest: inj_onD)
    have "carts_ok (put_cart (cart_id c) ?del s)"
      using r drop_item_ok(1) [OF r' x(1)] x(2) u by (intro put_carts_ok [OF assms(1)]) (auto simp: same_cart_def row_ok_def)
    moreover have "carts_ok (put_cart (cart_id c) (put_item i (\<lambda>y. y\<lparr>ci_quantity := q\<rparr>)) s)" if "q \<noteq> 0"
      using put_line(1) [OF assms(1) k x(1), of q] that assms(2,3) x(2) by simp
    ultimately have "carts_ok (put_cart (cart_id c) (if q = 0 then ?del else put_item i (\<lambda>y. y\<lparr>ci_quantity := q\<rparr>)) s)" by simp
    then show ?thesis unfolding e by (rule touch_state(1))
  qed
qed

lemma merge_ok:
  assumes "carts_ok s" "merge_tx cid tok s = Inr (r, s')"
  shows "carts_ok s'"
proof (cases "find (\<lambda>c. cart_guestToken c = Some tok) (fr_carts s)")
  case None
  then show ?thesis using assms by (simp add: merge_tx_def)
next
  case (Some guest)
  then have g: "guest \<in> set (fr_carts s)" "cart_guestToken guest = Some tok" using find_SomeD by fastforce+
  show ?thesis
  proof (cases "cart_customerId guest = Some cid")
    case True
    then show ?thesis using assms Some by (simp add: merge_tx_def)
  next
    case False
    let ?own = "sort_key (\<lambda>c. - cart_updatedAt c) (filter (\<lambda>c. cart_customerId c = Some cid \<and> cart_guestToken c = None) (fr_carts s))"
    obtain mine t where m: "(case (case ?own of [] \<Rightarrow> None | c # _ \<Rightarrow> Some c) of Some m \<Rightarrow> Inr (m, s) | None \<Rightarrow> create_cart (Some cid) None s) = Inr (mine, t)"
      using assms(2) Some False by (auto simp: merge_tx_def Let_def ebind_Inr_iff)
    have mt: "carts_ok t" "mine \<in> set (fr_carts t)" "guest \<in> set (fr_carts t)" "cart_id guest \<noteq> cart_id mine"
    proof -
      have "carts_ok t \<and> mine \<in> set (fr_carts t) \<and> guest \<in> set (fr_carts t) \<and> cart_id guest \<noteq> cart_id mine"
      proof (cases ?own)
        case Nil
        then have "create_cart (Some cid) None s = Inr (mine, t)" using m by simp
        from create_cart_ok [OF assms(1) this] show ?thesis using g(1) by (auto simp: image_iff)
      next
        case (Cons c cs)
        from newest_mem [OF Cons] have c: "c \<in> set (fr_carts s)" "cart_customerId c = Some cid" by simp_all
        have "cart_id guest \<noteq> cart_id c"
          using assms(1) c g(1) False by (auto simp: carts_ok_def distinct_map dest: inj_onD)
        then show ?thesis using m Cons assms(1) c(1) g(1) by simp
      qed
      then show "carts_ok t" "mine \<in> set (fr_carts t)" "guest \<in> set (fr_carts t)" "cart_id guest \<noteq> cart_id mine" by simp_all
    qed
    let ?b = "\<not> truthy (cart_couponCode mine) \<and> truthy (cart_couponCode guest)"
    let ?s1 = "foldl (\<lambda>s g. merge_item mine g s) t (cart_lines guest)"
    let ?s2 = "if ?b then put_cart (cart_id mine) (\<lambda>c. c\<lparr>cart_couponCode := cart_couponCode guest\<rparr>) ?s1 else ?s1"
    have "s' = ?s2\<lparr>fr_carts := filter (\<lambda>c. cart_id c \<noteq> cart_id guest) (fr_carts ?s2)\<rparr>"
      using assms(2) Some False m by (simp add: merge_tx_def Let_def)
    with merge_writes(1) [OF mt refl refl refl, where b = ?b and k = "\<lambda>c. cart_couponCode guest"] show ?thesis by simp
  qed
qed

lemma step_carts:
  assumes "cart_step J s s'" "carts_ok s"
  shows "carts_ok s'"
  using assms(1)
proof (cases rule: cart_step.cases)
  case (Ensure ow tok c)
  then show ?thesis using ensure_ok(1) [OF assms(2)] by blast
next
  case (Add dto ow tok)
  then show ?thesis using add_ok [OF assms(2)] by simp
next
  case (Quantity q ow i)
  then show ?thesis using set_ok [OF assms(2)] by simp
next
  case (Clear ow)
  have "carts_ok (put_cart i (\<lambda>c. c\<lparr>cart_items := [], cart_couponCode := None\<rparr>) s)" for i
    using clear_rows_ok [OF assms(2), of "\<lambda>c. cart_id c = i"] by (simp add: put_cart_def)
  then show ?thesis
    using Clear assms(2) touch_state(1) by (auto simp: clear_cart_def split: option.split)
next
  case (Coupon ow code)
  then show ?thesis
    using assms(2) by (auto simp: applyCoupon_def requireCart_def split: option.splits sum.splits intro!: touch_state(1) put_coupon(1))
next
  case (Uncoupon ow)
  then show ?thesis
    using assms(2) by (auto simp: removeCoupon_def requireCart_def split: option.splits intro!: touch_state(1) put_coupon(1))
next
  case (Merge cid tok)
  then show ?thesis
    using assms(2) merge_ok [OF assms(2)] by (auto simp: merge_carts_def split: sum.splits option.splits prod.splits intro!: touch_state(1))
next
  case Purge
  then show ?thesis using drop_carts_ok [OF assms(2)] by (simp add: purgeExpiredGuestCarts_def)
next
  case (Ordered ow)
  then show ?thesis using assms(2) clear_rows_ok [OF assms(2)] by (auto simp: clearForOrder_def split: option.splits)
next
  case (Clock t)
  then show ?thesis using assms(2) by (simp add: carts_ok_def issued_ids_def)
qed

section \<open>A cart can be priced\<close>

lemma bump_new: "k \<notin> fst ` set m \<Longrightarrow> bump k q m = m @ [(k, q :: int)]"
proof -
  assume "k \<notin> fst ` set m"
  then have "AList.update k x m = m @ [(k, x)]" for x by (induction m) auto
  with \<open>k \<notin> _\<close> show ?thesis by (simp add: bump_def count_of_notin)
qed

definition ref_of :: "cart_item \<Rightarrow> line_ref" where
  "ref_of i = \<lparr>lr_kind = (if truthy (ci_productId i) then PRODUCT else BUNDLE), lr_productId = ci_productId i, lr_bundleId = ci_bundleId i, lr_quantity = ci_quantity i\<rparr>"

lemma ref_target: "item_ok x \<Longrightarrow> line_target (ref_of x) = Some (snd (item_target x)) \<and> lr_kind (ref_of x) = fst (item_target x)"
  by (auto simp: item_ok_def ref_of_def line_target_def item_target_def truthy_def str_of_def)

lemma refs_merged:
  assumes "\<forall>x \<in> set xs. item_ok x" "distinct (map item_target xs)" "item_target ` set xs \<inter> fst ` set m = {}"
  shows "efold merge_ref (map ref_of xs) m = Inr (m @ map (\<lambda>x. (item_target x, ci_quantity x)) xs)"
  using assms
proof (induction xs arbitrary: m)
  case (Cons x xs)
  have "merge_ref (ref_of x) m = Inr (bump (item_target x) (ci_quantity x) m)"
    using ref_target [of x] Cons.prems(1) by (simp add: merge_ref_def) (simp add: ref_of_def)
  also have "bump (item_target x) (ci_quantity x) m = m @ [(item_target x, ci_quantity x)]"
    using Cons.prems(3) by (intro bump_new) auto
  finally show ?case using Cons.IH [of "m @ [(item_target x, ci_quantity x)]"] Cons.prems by (auto simp: image_iff)
qed simp

lemma cart_merges:
  assumes "items_ok (cart_items c)"
  shows "\<exists>ls. mergeLines (toRefs c) = Inr ls"
proof -
  have mset: "mset (map f (cart_lines c)) = mset (map f (cart_items c))" for f :: "cart_item \<Rightarrow> 'x" by (simp add: cart_lines_def)
  have "distinct (map item_target (cart_lines c))" using assms mset mset_eq_imp_distinct_iff unfolding items_ok_def by blast
  then have "efold merge_ref (map ref_of (cart_lines c)) [] = Inr (map (\<lambda>x. (item_target x, ci_quantity x)) (cart_lines c))"
    using refs_merged [of "cart_lines c" "[]"] assms by (simp add: items_ok_def)
  moreover have "\<not> list_ex (\<lambda>x. snd x > 99) (map (\<lambda>x. (item_target x, ci_quantity x)) (cart_lines c))"
    using assms by (auto simp: list_ex_iff items_ok_def item_ok_def)
  ultimately show ?thesis by (simp add: mergeLines_def toRefs_def ref_of_def [abs_def])
qed


section \<open>Instances\<close>

definition sample_line :: "id \<Rightarrow> id \<Rightarrow> int \<Rightarrow> cart_item" where
  "sample_line i p q = \<lparr>ci_id = i, ci_productId = Some p, ci_bundleId = None, ci_quantity = q, ci_addedAt = 0\<rparr>"

definition guest_cart :: cart_row where
  "guest_cart = \<lparr>cart_id = ''u'', cart_customerId = None, cart_guestToken = Some ''tok'', cart_couponCode = None,
     cart_items = [sample_line ''uu'' ''p'' 60, sample_line ''uuu'' ''q'' 1], cart_updatedAt = 0, cart_expiresAt = Some 50\<rparr>"

definition own_cart :: cart_row where
  "own_cart = \<lparr>cart_id = ''uuuu'', cart_customerId = Some ''c'', cart_guestToken = None, cart_couponCode = None,
     cart_items = [sample_line ''uuuuu'' ''p'' 50], cart_updatedAt = 0, cart_expiresAt = None\<rparr>"

definition sample_shelf :: front where
  "sample_shelf = \<lparr>st_now = 0, st_nextId = 0, st_products = Map.empty, st_lots = [], st_uses = [], st_moves = [],
     st_items = [], sh_orders = [], sh_customers = [], sh_coupons = [], sh_redemptions = [], sh_history = [],
     tl_uuid = (\<lambda>n. replicate (Suc n) CHR ''u''), tl_issued = 5, tl_accounts = [], tl_txns = [], tl_payments = [],
     tl_refunds = [], tl_purchases = [], tl_shipments = [],
     fr_counters = [], fr_keys = [], fr_outbox = [], fr_districts = [], fr_upazilas = [], fr_unions = [], fr_catalog = [], fr_bundles = [],
     fr_rules = [], fr_carts = [guest_cart, own_cart]\<rparr>"

lemma sample_shelf_ok: "carts_ok sample_shelf"
proof -
  have "inj (\<lambda>n. replicate (Suc n) CHR ''u'')" by (rule injI) (metis length_replicate Suc_inject)
  moreover have "issued_ids sample_shelf = {''u'', ''uu'', ''uuu'', ''uuuu'', ''uuuuu''}"
    by (simp add: issued_ids_def sample_shelf_def numeral_eq_Suc lessThan_Suc insert_commute)
  ultimately show ?thesis
    by (simp add: carts_ok_def row_ok_def items_ok_def item_ok_def item_target_def guest_tokens_def sample_shelf_def guest_cart_def own_cart_def sample_line_def)
qed

theorem merge_adds_up_witness:
  "\<exists>m s'. merge_tx ''c'' ''tok'' sample_shelf = Inr (Some m, s') \<and> basket_of m s' = added (basket_of m sample_shelf) (basket guest_cart)"
proof -
  have "guest_cart \<in> set (fr_carts sample_shelf)" "cart_guestToken guest_cart = Some ''tok''" "cart_customerId guest_cart \<noteq> Some ''c''"
    by (simp_all add: sample_shelf_def guest_cart_def)
  from merge_adds_up [OF sample_shelf_ok this] show ?thesis by blast
qed


end
