(* ===== verification/Spec2Isabelle.thy ===== *)
theory Spec2Isabelle
  imports Stock_Properties Cash_Properties Payment_Properties Refund_Properties Shop_Properties Checkout_Properties Delivery_Properties
    Documents_Properties Dhaka_Time Customers Purchases_Properties Shipments_Properties Accounts_Properties Reports_Properties Cart_Properties
begin

text \<open>
  Verification of the backend of the book shop. The header is completed as components are added.
\<close>

end
